(* ===== verification/Prelude.thy ===== *)
theory Prelude
  imports Main "HOL-Library.Word" "HOL-Library.Monad_Syntax"
begin

text \<open>
  Shared vocabulary of the development: the machine integer types of the Rust code, byte
  strings with their little- and big-endian encodings, slices, and the fact collections the
  component theories feed. Conventions used everywhere:
  \<^item> unsigned integers keep their width as words; their \<open>+\<close> and \<open>-\<close> wrap, which is what
    the release profile of Cargo.toml compiles them to (overflow checks are off there);
  \<^item> a Rust \<open>Result<T, E>\<close> is a value of the sum type \<open>E + T\<close>, \<open>Inl\<close> for \<open>Err\<close>;
  \<^item> a function that can panic returns an option whose \<open>None\<close> is the panic.
\<close>

unbundle bit_operations_syntax

type_synonym u8 = "8 word"
type_synonym u16 = "16 word"
type_synonym u32 = "32 word"
type_synonym u64 = "64 word"
type_synonym bytes = "u8 list"

named_theorems byte_simps "lengths and round trips of byte encodings"
named_theorems frame_simps "fields an operation leaves unchanged"

section \<open>Slices\<close>

text \<open>\<open>slice a b xs\<close> is Rust's \<open>xs[a..b]\<close> for \<open>a \<le> b \<le> xs.len()\<close>.\<close>

definition slice :: "nat \<Rightarrow> nat \<Rightarrow> 'a list \<Rightarrow> 'a list" where
  "slice a b xs = take (b - a) (drop a xs)"

lemma length_slice [byte_simps]: "b \<le> length xs \<Longrightarrow> length (slice a b xs) = b - a"
  by (simp add: slice_def)

lemma slice_append_left: "b \<le> length xs \<Longrightarrow> slice a b (xs @ ys) = slice a b xs"
  by (simp add: slice_def)

lemma slice_append_right:
  "length xs \<le> a \<Longrightarrow> slice a b (xs @ ys) = slice (a - length xs) (b - length xs) ys"
  by (simp add: slice_def)

lemma slice_all: "length xs \<le> b \<Longrightarrow> slice 0 b xs = xs"
  by (simp add: slice_def)

lemma slice_0_append: "length xs = b \<Longrightarrow> slice 0 b (xs @ ys) = xs"
  by (simp add: slice_def)

lemma slice_hit: "a = length xs \<Longrightarrow> b = length xs + length ys \<Longrightarrow> slice a b (xs @ ys @ zs) = ys"
  by (simp add: slice_def)

section \<open>Little- and big-endian encodings\<close>

lemma unat_bound: "unat (w :: 'a::len word) < 2 ^ LENGTH('a)"
  by (rule unsigned_less)

lemma unat_less_256 [simp]: "unat (b :: u8) < 256"
  using unat_bound [of b] by simp

text \<open>\<open>le_bytes n v\<close> are the \<open>n\<close> bytes of \<open>v.to_le_bytes()\<close> for an \<open>8 * n\<close> bit integer.\<close>

fun le_bytes :: "nat \<Rightarrow> nat \<Rightarrow> bytes" where
  "le_bytes 0 v = []"
| "le_bytes (Suc n) v = word_of_nat (v mod 256) # le_bytes n (v div 256)"

fun le_val :: "bytes \<Rightarrow> nat" where
  "le_val [] = 0"
| "le_val (b # bs) = unat b + 256 * le_val bs"

definition be_bytes :: "nat \<Rightarrow> nat \<Rightarrow> bytes" where
  "be_bytes n v = rev (le_bytes n v)"

definition be_val :: "bytes \<Rightarrow> nat" where
  "be_val bs = le_val (rev bs)"

lemma length_le_bytes [simp]: "length (le_bytes n v) = n"
  by (induction n arbitrary: v) auto

lemma length_be_bytes [simp]: "length (be_bytes n v) = n"
  by (simp add: be_bytes_def)

lemma unat_byte_of_nat: "unat (word_of_nat (v mod 256) :: u8) = v mod 256"
  by (simp add: unat_of_nat)

lemma le_val_le_bytes [byte_simps]: "le_val (le_bytes n v) = v mod 256 ^ n"
proof (induction n arbitrary: v)
  case 0
  then show ?case by simp
next
  case (Suc n)
  have "v mod 256 ^ Suc n = v mod 256 + 256 * (v div 256 mod 256 ^ n)"
    by (simp add: mod_mult2_eq mult.commute)
  with Suc show ?case by (simp add: unat_byte_of_nat)
qed

lemma be_val_be_bytes [byte_simps]: "be_val (be_bytes n v) = v mod 256 ^ n"
  by (simp add: be_val_def be_bytes_def le_val_le_bytes)

lemma le_val_less: "le_val bs < 256 ^ length bs"
proof (induction bs)
  case Nil
  then show ?case by simp
next
  case (Cons b bs)
  have step: "x < y \<Longrightarrow> unat b + 256 * x < 256 * y" for x y :: nat
    using unat_less_256 [of b] by arith
  show ?case using step [OF Cons] by simp
qed

lemma be_val_less: "be_val bs < 256 ^ length bs"
  using le_val_less [of "rev bs"] by (simp add: be_val_def)

lemma le_bytes_le_val [byte_simps]: "le_bytes (length bs) (le_val bs) = bs"
proof (induction bs)
  case Nil
  then show ?case by simp
next
  case (Cons b bs)
  have b: "unat b < 256" using unat_less_256 [of b] by simp
  then have "(unat b + 256 * le_val bs) mod 256 = unat b" by simp
  moreover have "(unat b + 256 * le_val bs) div 256 = le_val bs" using b by simp
  ultimately show ?case using Cons by simp
qed

definition u16_be :: "u16 \<Rightarrow> bytes" where
  "u16_be w = be_bytes 2 (unat w)"

definition u32_be :: "u32 \<Rightarrow> bytes" where
  "u32_be w = be_bytes 4 (unat w)"

definition u64_be :: "u64 \<Rightarrow> bytes" where
  "u64_be w = be_bytes 8 (unat w)"

definition u32_le :: "u32 \<Rightarrow> bytes" where
  "u32_le w = le_bytes 4 (unat w)"

definition u64_le :: "u64 \<Rightarrow> bytes" where
  "u64_le w = le_bytes 8 (unat w)"

definition u16_of_be :: "bytes \<Rightarrow> u16" where
  "u16_of_be bs = word_of_nat (be_val bs)"

definition u32_of_be :: "bytes \<Rightarrow> u32" where
  "u32_of_be bs = word_of_nat (be_val bs)"

definition u64_of_be :: "bytes \<Rightarrow> u64" where
  "u64_of_be bs = word_of_nat (be_val bs)"

definition u32_of_le :: "bytes \<Rightarrow> u32" where
  "u32_of_le bs = word_of_nat (le_val bs)"

definition u64_of_le :: "bytes \<Rightarrow> u64" where
  "u64_of_le bs = word_of_nat (le_val bs)"

lemma length_u16_be [simp]: "length (u16_be w) = 2"
  by (simp add: u16_be_def)

lemma length_u32_be [simp]: "length (u32_be w) = 4"
  by (simp add: u32_be_def)

lemma length_u64_be [simp]: "length (u64_be w) = 8"
  by (simp add: u64_be_def)

lemma length_u32_le [simp]: "length (u32_le w) = 4"
  by (simp add: u32_le_def)

lemma length_u64_le [simp]: "length (u64_le w) = 8"
  by (simp add: u64_le_def)

lemma u16_of_be_u16_be [byte_simps, simp]: "u16_of_be (u16_be w) = w"
  using unat_bound [of w] by (simp add: u16_of_be_def u16_be_def byte_simps)

lemma u32_of_be_u32_be [byte_simps, simp]: "u32_of_be (u32_be w) = w"
  using unat_bound [of w] by (simp add: u32_of_be_def u32_be_def byte_simps)

lemma u64_of_be_u64_be [byte_simps, simp]: "u64_of_be (u64_be w) = w"
  using unat_bound [of w] by (simp add: u64_of_be_def u64_be_def byte_simps)

lemma u32_of_le_u32_le [byte_simps, simp]: "u32_of_le (u32_le w) = w"
  using unat_bound [of w] by (simp add: u32_of_le_def u32_le_def byte_simps)

lemma u64_of_le_u64_le [byte_simps, simp]: "u64_of_le (u64_le w) = w"
  using unat_bound [of w] by (simp add: u64_of_le_def u64_le_def byte_simps)

lemma u64_le_inject: "u64_le a = u64_le b \<longleftrightarrow> a = b"
  by (metis u64_of_le_u64_le)

section \<open>Words\<close>

lemma bit_and_1_eq: "(drop_bit n w AND 1 = 1) \<longleftrightarrow> bit w n" for w :: "'a::len word"
  by (simp add: and_one_eq bit_iff_odd_drop_bit odd_iff_mod_2_eq_one)

lemma unat_plus_small: "unat a + unat b < 2 ^ LENGTH('a) \<Longrightarrow> unat (a + b) = unat a + unat b"
  for a b :: "'a::len word"
  by (simp add: unat_word_ariths)

lemma unat_inc: "i < c \<Longrightarrow> unat (i + 1) = Suc (unat i)" for i c :: "'a::len word"
proof -
  assume "i < c"
  then have "unat i < unat c" by (simp add: word_less_nat_alt)
  with unat_bound [of c] have "Suc (unat i) < 2 ^ LENGTH('a)" by linarith
  then show ?thesis by (simp add: unat_word_ariths)
qed

lemma unat_minus_le: "b \<le> a \<Longrightarrow> unat (a - b) = unat a - unat b" for a b :: "'a::len word"
  by (simp add: unat_sub_if' word_le_nat_alt)

lemma unat_word_of_nat_small: "n < 2 ^ LENGTH('a) \<Longrightarrow> unat (word_of_nat n :: 'a::len word) = n"
  by (simp add: unat_of_nat take_bit_nat_eq_self)

end
