(* ===== verification/Errors.thy ===== *)
theory Errors
  imports Prelude
begin

text \<open>
  The error type of the noise module (src/nekolink-core/src/noise/errors.rs) with the source's
  constructors in the source's order. A \<open>Result<T, WireGuardError>\<close> is a \<open>wg_error + 'a\<close>.
\<close>

datatype wg_error =
    DestinationBufferTooSmall
  | IncorrectPacketLength
  | UnexpectedPacket
  | WrongPacketType
  | WrongIndex
  | WrongKey
  | InvalidTai64nTimestamp
  | WrongTai64nTimestamp
  | InvalidMac
  | InvalidAeadTag
  | InvalidCounter
  | DuplicateCounter
  | InvalidPacket
  | NoCurrentSession
  | LockFailed
  | ConnectionExpired
  | UnderLoad

text \<open>The discriminant \<open>e as _\<close> that the C interface reports (ffi/mod.rs, \<open>From<TunnResult>\<close>).\<close>

fun wg_error_code :: "wg_error \<Rightarrow> nat" where
  "wg_error_code DestinationBufferTooSmall = 0"
| "wg_error_code IncorrectPacketLength = 1"
| "wg_error_code UnexpectedPacket = 2"
| "wg_error_code WrongPacketType = 3"
| "wg_error_code WrongIndex = 4"
| "wg_error_code WrongKey = 5"
| "wg_error_code InvalidTai64nTimestamp = 6"
| "wg_error_code WrongTai64nTimestamp = 7"
| "wg_error_code InvalidMac = 8"
| "wg_error_code InvalidAeadTag = 9"
| "wg_error_code InvalidCounter = 10"
| "wg_error_code DuplicateCounter = 11"
| "wg_error_code InvalidPacket = 12"
| "wg_error_code NoCurrentSession = 13"
| "wg_error_code LockFailed = 14"
| "wg_error_code ConnectionExpired = 15"
| "wg_error_code UnderLoad = 16"

instantiation wg_error :: linorder
begin

definition less_eq_wg_error :: "wg_error \<Rightarrow> wg_error \<Rightarrow> bool" where
  "less_eq_wg_error a b \<longleftrightarrow> wg_error_code a \<le> wg_error_code b"

definition less_wg_error :: "wg_error \<Rightarrow> wg_error \<Rightarrow> bool" where
  "less_wg_error a b \<longleftrightarrow> wg_error_code a < wg_error_code b"

instance
proof
  fix a b c :: wg_error
  show "a < b \<longleftrightarrow> a \<le> b \<and> \<not> b \<le> a"
    by (auto simp: less_eq_wg_error_def less_wg_error_def)
  show "a \<le> a" by (simp add: less_eq_wg_error_def)
  show "a \<le> b \<Longrightarrow> b \<le> c \<Longrightarrow> a \<le> c" by (simp add: less_eq_wg_error_def)
  show "a \<le> b \<Longrightarrow> b \<le> a \<Longrightarrow> a = b"
    by (cases a; cases b) (simp_all add: less_eq_wg_error_def)
  show "a \<le> b \<or> b \<le> a" by (auto simp: less_eq_wg_error_def)
qed

end

end
