(* ===== verification/Wire.thy ===== *)
theory Wire
  imports Errors
begin

text \<open>
  The messages of the protocol and their parser, the results a tunnel hands to its caller, and
  the reading of IP headers: the first part of src/nekolink-core/src/noise/mod.rs. Slices and
  fixed size arrays are byte lists.
\<close>

section \<open>Messages\<close>

record handshake_init =
  hi_sender_idx :: u32
  hi_ephemeral :: bytes
  hi_static :: bytes
  hi_timestamp :: bytes

record handshake_response =
  hr_sender_idx :: u32
  hr_receiver_idx :: u32
  hr_ephemeral :: bytes
  hr_nothing :: bytes

record cookie_reply =
  cr_receiver_idx :: u32
  cr_nonce :: bytes
  cr_cookie :: bytes

record packet_data =
  pd_receiver_idx :: u32
  pd_counter :: u64
  pd_payload :: bytes

datatype packet =
    HandshakeInit handshake_init
  | HandshakeResponse handshake_response
  | PacketCookieReply cookie_reply
  | PacketData packet_data

abbreviation (input) HANDSHAKE_INIT :: u32 where "HANDSHAKE_INIT \<equiv> 1"
abbreviation (input) HANDSHAKE_RESP :: u32 where "HANDSHAKE_RESP \<equiv> 2"
abbreviation (input) COOKIE_REPLY :: u32 where "COOKIE_REPLY \<equiv> 3"
abbreviation (input) DATA :: u32 where "DATA \<equiv> 4"

abbreviation (input) HANDSHAKE_INIT_SZ :: nat where "HANDSHAKE_INIT_SZ \<equiv> 148"
abbreviation (input) HANDSHAKE_RESP_SZ :: nat where "HANDSHAKE_RESP_SZ \<equiv> 92"
abbreviation (input) COOKIE_REPLY_SZ :: nat where "COOKIE_REPLY_SZ \<equiv> 64"
abbreviation (input) DATA_OVERHEAD_SZ :: nat where "DATA_OVERHEAD_SZ \<equiv> 32"

definition parse_incoming_packet :: "bytes \<Rightarrow> wg_error + packet" where
  "parse_incoming_packet src =
     (if length src < 4 then Inl InvalidPacket
      else let packet_type = u32_of_le (slice 0 4 src) in
        if packet_type = HANDSHAKE_INIT \<and> length src = HANDSHAKE_INIT_SZ then
          Inr (HandshakeInit \<lparr>hi_sender_idx = u32_of_le (slice 4 8 src), hi_ephemeral = slice 8 40 src,
            hi_static = slice 40 88 src, hi_timestamp = slice 88 116 src\<rparr>)
        else if packet_type = HANDSHAKE_RESP \<and> length src = HANDSHAKE_RESP_SZ then
          Inr (HandshakeResponse \<lparr>hr_sender_idx = u32_of_le (slice 4 8 src),
            hr_receiver_idx = u32_of_le (slice 8 12 src), hr_ephemeral = slice 12 44 src,
            hr_nothing = slice 44 60 src\<rparr>)
        else if packet_type = COOKIE_REPLY \<and> length src = COOKIE_REPLY_SZ then
          Inr (PacketCookieReply \<lparr>cr_receiver_idx = u32_of_le (slice 4 8 src),
            cr_nonce = slice 8 32 src, cr_cookie = slice 32 64 src\<rparr>)
        else if packet_type = DATA \<and> DATA_OVERHEAD_SZ \<le> length src then
          Inr (PacketData \<lparr>pd_receiver_idx = u32_of_le (slice 4 8 src),
            pd_counter = u64_of_le (slice 8 16 src), pd_payload = drop 16 src\<rparr>)
        else Inl InvalidPacket)"

section \<open>Addresses and results\<close>

datatype ip_addr = V4 bytes | V6 bytes

datatype tunn_result =
    TDone
  | TErr wg_error
  | WriteToNetwork bytes
  | WriteToTunnelV4 bytes bytes
  | WriteToTunnelV6 bytes bytes

definition tunn_result_from :: "wg_error \<Rightarrow> tunn_result" where
  "tunn_result_from err = TErr err"

abbreviation (input) IPV4_MIN_HEADER_SIZE :: nat where "IPV4_MIN_HEADER_SIZE \<equiv> 20"
abbreviation (input) IPV6_MIN_HEADER_SIZE :: nat where "IPV6_MIN_HEADER_SIZE \<equiv> 40"

definition dst_address :: "bytes \<Rightarrow> ip_addr option" where
  "dst_address packet =
     (if packet = [] then None
      else if drop_bit 4 (packet ! 0) = 4 \<and> length packet \<ge> IPV4_MIN_HEADER_SIZE
        then Some (V4 (slice 16 20 packet))
      else if drop_bit 4 (packet ! 0) = 6 \<and> length packet \<ge> IPV6_MIN_HEADER_SIZE
        then Some (V6 (slice 24 40 packet))
      else None)"

section \<open>Formatted messages parse\<close>

lemma slice_u32_head: "slice 0 4 (u32_le w @ rest) = u32_le w"
  by (simp add: slice_0_append)

lemma parse_formatted_init:
  assumes "length e = 32" "length st = 48" "length ts = 28" "length macs = 32"
  shows "parse_incoming_packet (u32_le HANDSHAKE_INIT @ u32_le i @ e @ st @ ts @ macs) =
    Inr (HandshakeInit \<lparr>hi_sender_idx = i, hi_ephemeral = e, hi_static = st, hi_timestamp = ts\<rparr>)"
  using assms by (simp add: parse_incoming_packet_def slice_u32_head slice_def)

lemma parse_formatted_response:
  assumes "length e = 32" "length nt = 16" "length macs = 32"
  shows "parse_incoming_packet (u32_le HANDSHAKE_RESP @ u32_le i @ u32_le j @ e @ nt @ macs) =
    Inr (HandshakeResponse \<lparr>hr_sender_idx = i, hr_receiver_idx = j, hr_ephemeral = e, hr_nothing = nt\<rparr>)"
  using assms by (simp add: parse_incoming_packet_def slice_u32_head slice_def)

lemma parse_formatted_cookie:
  assumes "length n = 24" "length c = 32"
  shows "parse_incoming_packet (u32_le COOKIE_REPLY @ u32_le i @ n @ c) =
    Inr (PacketCookieReply \<lparr>cr_receiver_idx = i, cr_nonce = n, cr_cookie = c\<rparr>)"
  using assms by (simp add: parse_incoming_packet_def slice_u32_head slice_def)

lemma parse_formatted_data:
  assumes "16 \<le> length p"
  shows "parse_incoming_packet (u32_le DATA @ u32_le i @ u64_le c @ p) =
    Inr (PacketData \<lparr>pd_receiver_idx = i, pd_counter = c, pd_payload = p\<rparr>)"
  using assms by (simp add: parse_incoming_packet_def slice_u32_head slice_def)

lemmas parse_formatted = parse_formatted_init parse_formatted_response parse_formatted_cookie
  parse_formatted_data

text \<open>The lengths the parser guarantees to the handshake code, whose copies would otherwise panic.\<close>

fun wf_packet :: "packet \<Rightarrow> bool" where
  "wf_packet (HandshakeInit p) \<longleftrightarrow>
     length (hi_ephemeral p) = 32 \<and> length (hi_static p) = 48 \<and> length (hi_timestamp p) = 28"
| "wf_packet (HandshakeResponse p) \<longleftrightarrow> length (hr_ephemeral p) = 32 \<and> length (hr_nothing p) = 16"
| "wf_packet (PacketCookieReply p) \<longleftrightarrow> length (cr_nonce p) = 24 \<and> length (cr_cookie p) = 32"
| "wf_packet (PacketData p) \<longleftrightarrow> 16 \<le> length (pd_payload p)"

lemma parse_wf: "parse_incoming_packet src = Inr p \<Longrightarrow> wf_packet p"
  by (auto simp: parse_incoming_packet_def Let_def length_slice split: if_splits)

text \<open>The inverse of the parser on data packets and cookie replies, which carry no trailing MACs.\<close>

lemma parse_data_bytes:
  assumes "parse_incoming_packet src = Inr (PacketData d)"
  shows "src = u32_le DATA @ u32_le (pd_receiver_idx d) @ u64_le (pd_counter d) @ pd_payload d"
proof -
  have len: "32 \<le> length src" and ty: "u32_of_le (slice 0 4 src) = DATA"
    and d: "d = \<lparr>pd_receiver_idx = u32_of_le (slice 4 8 src), pd_counter = u64_of_le (slice 8 16 src),
      pd_payload = drop 16 src\<rparr>"
    using assms by (auto simp: parse_incoming_packet_def Let_def split: if_splits)
  have u32: "u32_le (u32_of_le bs) = bs" if "length bs = 4" for bs
    using that le_bytes_le_val [of bs] le_val_less [of bs]
    by (simp add: u32_le_def u32_of_le_def unat_word_of_nat_small)
  have u64: "u64_le (u64_of_le bs) = bs" if "length bs = 8" for bs
    using that le_bytes_le_val [of bs] le_val_less [of bs]
    by (simp add: u64_le_def u64_of_le_def unat_word_of_nat_small)
  have "u32_le DATA = slice 0 4 src" using u32 [of "slice 0 4 src"] len by (simp add: length_slice flip: ty)
  moreover have "src = slice 0 4 src @ slice 4 8 src @ slice 8 16 src @ drop 16 src"
    by (simp add: slice_def) (metis (no_types, opaque_lifting) append_take_drop_id drop_drop
        numeral_Bit0 add.commute)
  ultimately show ?thesis using len by (simp add: d u32 u64 length_slice)
qed

end
