(* ===== verification/Allowed_Ips.thy ===== *)
theory Allowed_Ips
  imports Wire "HOL-Library.AList"
begin

text \<open>
  The routing table of allowed IPs (src/nekolink-core/src/device/allowed_ips.rs). The prefix
  trie is the crate ip_network_table over the networks of ip_network; both are parameters, the
  fields of \<open>ip_table\<close>, and \<open>table_ok\<close> states what their documentation promises.
\<close>

record ('n, 't, 'd) ip_table =
  nw_new_truncate :: "ip_addr \<Rightarrow> u8 \<Rightarrow> 'n option"
  nw_network_address :: "'n \<Rightarrow> ip_addr"
  nw_netmask :: "'n \<Rightarrow> u8"
  nw_contains :: "'n \<Rightarrow> ip_addr \<Rightarrow> bool"
  tb_new :: 't
  tb_insert :: "'n \<Rightarrow> 'd \<Rightarrow> 't \<Rightarrow> 'd option \<times> 't"
  tb_longest_match :: "ip_addr \<Rightarrow> 't \<Rightarrow> ('n \<times> 'd) option"
  tb_retain :: "('n \<Rightarrow> 'd \<Rightarrow> bool) \<Rightarrow> 't \<Rightarrow> 't"
  tb_iter :: "'t \<Rightarrow> ('n \<times> 'd) list"

record allowed_ip =
  ai_addr :: ip_addr
  ai_cidr :: u8

section \<open>The operations of the table\<close>

definition ips_new :: "('n, 't, 'd) ip_table \<Rightarrow> 't" where
  "ips_new T = tb_new T"

definition ips_clear :: "('n, 't, 'd) ip_table \<Rightarrow> 't \<Rightarrow> 't" where
  "ips_clear T ips = tb_new T"

text \<open>\<open>expect\<close> on an invalid prefix length is a panic; \<open>cidr as u8\<close> keeps the low eight bits.\<close>

definition ips_insert ::
    "('n, 't, 'd) ip_table \<Rightarrow> ip_addr \<Rightarrow> u32 \<Rightarrow> 'd \<Rightarrow> 't \<Rightarrow> ('d option \<times> 't) option" where
  "ips_insert T key cidr data ips =
    (case nw_new_truncate T key (ucast cidr) of
       None \<Rightarrow> None
     | Some net \<Rightarrow> Some (tb_insert T net data ips))"

definition ips_find :: "('n, 't, 'd) ip_table \<Rightarrow> ip_addr \<Rightarrow> 't \<Rightarrow> 'd option" where
  "ips_find T key ips = map_option snd (tb_longest_match T key ips)"

definition ips_remove :: "('n, 't, 'd) ip_table \<Rightarrow> ('d \<Rightarrow> bool) \<Rightarrow> 't \<Rightarrow> 't" where
  "ips_remove T predicate ips = tb_retain T (\<lambda>_ v. \<not> predicate v) ips"

definition ips_iter :: "('n, 't, 'd) ip_table \<Rightarrow> 't \<Rightarrow> ('d \<times> ip_addr \<times> u8) list" where
  "ips_iter T ips = map (\<lambda>(ipa, d). (d, nw_network_address T ipa, nw_netmask T ipa)) (tb_iter T ips)"

text \<open>Inserting a list of prefixes one after the other, as \<open>from_iter\<close> and \<open>update_peer\<close> do.\<close>

fun ips_insert_all ::
    "('n, 't, 'd) ip_table \<Rightarrow> (allowed_ip \<times> 'd) list \<Rightarrow> 't \<Rightarrow> 't option" where
  "ips_insert_all T [] ips = Some ips"
| "ips_insert_all T ((ip, data) # xs) ips =
    (case ips_insert T (ai_addr ip) (ucast (ai_cidr ip)) data ips of
       None \<Rightarrow> None
     | Some (_, ips) \<Rightarrow> ips_insert_all T xs ips)"

definition ips_from_iter :: "('n, 't, 'd) ip_table \<Rightarrow> (allowed_ip \<times> 'd) list \<Rightarrow> 't option" where
  "ips_from_iter T xs = ips_insert_all T xs (ips_new T)"

section \<open>What the table library promises\<close>

fun ip_bits :: "ip_addr \<Rightarrow> bool list" where
  "ip_bits (V4 bs) = concat (map (\<lambda>b. rev (map (bit b) [0..<8])) bs)"
| "ip_bits (V6 bs) = concat (map (\<lambda>b. rev (map (bit b) [0..<8])) bs)"

fun same_family :: "ip_addr \<Rightarrow> ip_addr \<Rightarrow> bool" where
  "same_family (V4 _) (V4 _) = True"
| "same_family (V6 _) (V6 _) = True"
| "same_family _ _ = False"

fun addr_width :: "ip_addr \<Rightarrow> nat" where
  "addr_width (V4 _) = 32"
| "addr_width (V6 _) = 128"

text \<open>The address \<open>b\<close> lies in the network of the first \<open>c\<close> bits of \<open>a\<close>.\<close>

definition in_prefix :: "ip_addr \<Rightarrow> nat \<Rightarrow> ip_addr \<Rightarrow> bool" where
  "in_prefix a c b \<longleftrightarrow> same_family a b \<and> take c (ip_bits a) = take c (ip_bits b)"

definition valid_prefix :: "allowed_ip \<Rightarrow> bool" where
  "valid_prefix ip \<longleftrightarrow> unat (ai_cidr ip) \<le> addr_width (ai_addr ip)"

text \<open>
  \<open>new_truncate\<close> fails exactly on a too long prefix and drops the host bits, so that two prefixes
  give one network when their lengths and network bits agree; the table is a finite map of networks
  whose \<open>longest_match\<close> is an entry that contains the address and has the longest netmask.
\<close>

definition nets_ok :: "('n, 't, 'd) ip_table \<Rightarrow> bool" where
  "nets_ok T \<longleftrightarrow>
    (\<forall>a c. (nw_new_truncate T a c = None) = (addr_width a < unat c)) \<and>
    (\<forall>a c n. nw_new_truncate T a c = Some n \<longrightarrow>
      nw_netmask T n = c \<and> (\<forall>b. nw_contains T n b = in_prefix a (unat c) b)) \<and>
    (\<forall>a b c n m. nw_new_truncate T a c = Some n \<longrightarrow> nw_new_truncate T b c = Some m \<longrightarrow>
      in_prefix a (unat c) b \<longrightarrow> n = m)"

definition store_ok :: "('n, 't, 'd) ip_table \<Rightarrow> bool" where
  "store_ok T \<longleftrightarrow>
    tb_iter T (tb_new T) = [] \<and>
    (\<forall>t n d d'. (n, d) \<in> set (tb_iter T t) \<longrightarrow> (n, d') \<in> set (tb_iter T t) \<longrightarrow> d = d') \<and>
    (\<forall>t n d. set (tb_iter T (snd (tb_insert T n d t))) =
      insert (n, d) {e \<in> set (tb_iter T t). fst e \<noteq> n}) \<and>
    (\<forall>t P. set (tb_iter T (tb_retain T P t)) = {e \<in> set (tb_iter T t). P (fst e) (snd e)})"

definition match_ok :: "('n, 't, 'd) ip_table \<Rightarrow> bool" where
  "match_ok T \<longleftrightarrow>
    (\<forall>t a. (tb_longest_match T a t = None) = (\<forall>e\<in>set (tb_iter T t). \<not> nw_contains T (fst e) a)) \<and>
    (\<forall>t a e. tb_longest_match T a t = Some e \<longrightarrow> e \<in> set (tb_iter T t) \<and> nw_contains T (fst e) a \<and>
      (\<forall>e'\<in>set (tb_iter T t). nw_contains T (fst e') a \<longrightarrow> nw_netmask T (fst e') \<le> nw_netmask T (fst e)))"

definition table_ok :: "('n, 't, 'd) ip_table \<Rightarrow> bool" where
  "table_ok T \<longleftrightarrow> nets_ok T \<and> store_ok T \<and> match_ok T"

lemma table_okD:
  assumes "table_ok T"
  shows ok_valid: "(nw_new_truncate T a c = None) = (addr_width a < unat c)"
    and ok_net: "nw_new_truncate T a c = Some n \<Longrightarrow>
      nw_netmask T n = c \<and> (\<forall>b. nw_contains T n b = in_prefix a (unat c) b)"
    and ok_same: "nw_new_truncate T a c = Some n \<Longrightarrow> nw_new_truncate T b c = Some m \<Longrightarrow>
      in_prefix a (unat c) b \<Longrightarrow> n = m"
    using assms unfolding table_ok_def nets_ok_def by blast+

lemma store_okD:
  assumes "table_ok T"
  shows ok_new: "tb_iter T (tb_new T) = []"
    and ok_map: "(n, d) \<in> set (tb_iter T t) \<Longrightarrow> (n, d') \<in> set (tb_iter T t) \<Longrightarrow> d = d'"
    and ok_insert: "set (tb_iter T (snd (tb_insert T n d t))) =
      insert (n, d) {e \<in> set (tb_iter T t). fst e \<noteq> n}"
    and ok_retain: "set (tb_iter T (tb_retain T P t)) = {e \<in> set (tb_iter T t). P (fst e) (snd e)}"
proof -
  have s: "store_ok T" using assms by (simp add: table_ok_def)
  from s show "tb_iter T (tb_new T) = []" by (simp add: store_ok_def)
  from s show "(n, d) \<in> set (tb_iter T t) \<Longrightarrow> (n, d') \<in> set (tb_iter T t) \<Longrightarrow> d = d'"
    unfolding store_ok_def by (elim conjE) iprover
  from s show "set (tb_iter T (snd (tb_insert T n d t))) =
      insert (n, d) {e \<in> set (tb_iter T t). fst e \<noteq> n}"
    unfolding store_ok_def by (elim conjE) iprover
  from s show "set (tb_iter T (tb_retain T P t)) = {e \<in> set (tb_iter T t). P (fst e) (snd e)}"
    unfolding store_ok_def by (elim conjE) iprover
qed

lemma match_okD:
  assumes "table_ok T"
  shows ok_none: "(tb_longest_match T a t = None) = (\<forall>e\<in>set (tb_iter T t). \<not> nw_contains T (fst e) a)"
    and ok_some: "tb_longest_match T a t = Some e \<Longrightarrow> e \<in> set (tb_iter T t) \<and> nw_contains T (fst e) a \<and>
      (\<forall>e'\<in>set (tb_iter T t). nw_contains T (fst e') a \<longrightarrow> nw_netmask T (fst e') \<le> nw_netmask T (fst e))"
proof -
  have s: "match_ok T" using assms by (simp add: table_ok_def)
  from s show "(tb_longest_match T a t = None) = (\<forall>e\<in>set (tb_iter T t). \<not> nw_contains T (fst e) a)"
    unfolding match_ok_def by (elim conjE) iprover
  from s show "tb_longest_match T a t = Some e \<Longrightarrow> e \<in> set (tb_iter T t) \<and> nw_contains T (fst e) a \<and>
      (\<forall>e'\<in>set (tb_iter T t). nw_contains T (fst e') a \<longrightarrow> nw_netmask T (fst e') \<le> nw_netmask T (fst e))"
    unfolding match_ok_def by (elim conjE) iprover
qed

section \<open>Reference: the last inserted among the longest prefixes\<close>

fun pick_max :: "('e \<Rightarrow> 'k::linorder) \<Rightarrow> 'e option \<Rightarrow> 'e \<Rightarrow> 'e option" where
  "pick_max f None e = Some e"
| "pick_max f (Some b) e = (if f b \<le> f e then Some e else Some b)"

lemma foldl_pick_none: "foldl (pick_max f) None xs = None \<longleftrightarrow> xs = []"
proof (induction xs rule: rev_induct)
  case (snoc x xs)
  then show ?case by (cases "foldl (pick_max f) None xs") auto
qed simp

lemma foldl_pick_some:
  "foldl (pick_max f) None xs = Some e \<Longrightarrow> e \<in> set xs \<and> (\<forall>e'\<in>set xs. f e' \<le> f e)"
proof (induction xs arbitrary: e rule: rev_induct)
  case (snoc x xs)
  show ?case
  proof (cases "foldl (pick_max f) None xs")
    case None
    with snoc.prems show ?thesis by (simp add: foldl_pick_none)
  next
    case (Some b)
    with snoc.IH [OF Some] snoc.prems show ?thesis by (force split: if_splits)
  qed
qed simp

definition covers :: "ip_addr \<Rightarrow> allowed_ip \<times> 'd \<Rightarrow> bool" where
  "covers a e \<longleftrightarrow> in_prefix (ai_addr (fst e)) (unat (ai_cidr (fst e))) a"

definition best_route :: "(allowed_ip \<times> 'd) list \<Rightarrow> ip_addr \<Rightarrow> (allowed_ip \<times> 'd) option" where
  "best_route xs a = foldl (pick_max (\<lambda>e. ai_cidr (fst e))) None (filter (covers a) xs)"

lemma best_route_snoc:
  "best_route (xs @ [e]) a =
    (if in_prefix (ai_addr (fst e)) (unat (ai_cidr (fst e))) a
     then pick_max (\<lambda>e. ai_cidr (fst e)) (best_route xs a) e else best_route xs a)"
  by (simp add: best_route_def covers_def)

lemma same_family_sym: "same_family a b = same_family b a"
  by (cases a; cases b) simp_all

lemma same_family_trans: "same_family a b \<Longrightarrow> same_family b c \<Longrightarrow> same_family a c"
  by (cases a; cases b; cases c) simp_all

lemma in_prefix_sym: "in_prefix a c b = in_prefix b c a"
  by (auto simp: in_prefix_def same_family_sym)

lemma in_prefix_trans: "in_prefix a c b \<Longrightarrow> in_prefix b c d \<Longrightarrow> in_prefix a c d"
  by (auto simp: in_prefix_def intro: same_family_trans)

section \<open>The table against the reference\<close>

lemma best_route_none:
  "best_route xs a = None \<Longrightarrow> \<forall>e\<in>set xs. \<not> in_prefix (ai_addr (fst e)) (unat (ai_cidr (fst e))) a"
  by (simp add: best_route_def foldl_pick_none filter_empty_conv covers_def)

lemma best_route_sound:
  "best_route xs a = Some e \<Longrightarrow>
    e \<in> set xs \<and> in_prefix (ai_addr (fst e)) (unat (ai_cidr (fst e))) a \<and>
    (\<forall>e'\<in>set xs. in_prefix (ai_addr (fst e')) (unat (ai_cidr (fst e'))) a \<longrightarrow> ai_cidr (fst e') \<le> ai_cidr (fst e))"
  unfolding best_route_def by (drule foldl_pick_some) (auto simp: covers_def)

text \<open>The networks of a list of prefixes with their values, the last one for a network first.\<close>

definition net_of :: "('n, 't, 'd) ip_table \<Rightarrow> allowed_ip \<Rightarrow> 'n" where
  "net_of T ip = the (nw_new_truncate T (ai_addr ip) (ai_cidr ip))"

definition routes :: "('n, 't, 'd) ip_table \<Rightarrow> (allowed_ip \<times> 'd) list \<Rightarrow> 'n \<Rightarrow> 'd option" where
  "routes T xs = map_of (rev (map (\<lambda>(ip, d). (net_of T ip, d)) xs))"

lemma routes_snoc: "routes T (xs @ [(ip, d)]) = (routes T xs)(net_of T ip \<mapsto> d)"
  by (simp add: routes_def)

lemma routes_from: "routes T xs n = Some d \<Longrightarrow> \<exists>ip. (ip, d) \<in> set xs \<and> net_of T ip = n"
  by (auto simp: routes_def dest!: map_of_SomeD)

lemma net_of_laws:
  assumes "table_ok T" "valid_prefix x"
  shows "nw_new_truncate T (ai_addr x) (ai_cidr x) = Some (net_of T x)"
    "nw_netmask T (net_of T x) = ai_cidr x"
    "nw_contains T (net_of T x) a = in_prefix (ai_addr x) (unat (ai_cidr x)) a"
proof -
  have "nw_new_truncate T (ai_addr x) (ai_cidr x) \<noteq> None"
    using assms(2) ok_valid [OF assms(1)] by (simp add: valid_prefix_def)
  then show n: "nw_new_truncate T (ai_addr x) (ai_cidr x) = Some (net_of T x)" by (auto simp: net_of_def)
  from ok_net [OF assms(1) n]
  show "nw_netmask T (net_of T x) = ai_cidr x"
    "nw_contains T (net_of T x) a = in_prefix (ai_addr x) (unat (ai_cidr x)) a" by simp_all
qed

lemma net_same:
  assumes T: "table_ok T" and v: "valid_prefix x" "valid_prefix y" and c: "ai_cidr x = ai_cidr y"
    and p: "in_prefix (ai_addr x) (unat (ai_cidr x)) (ai_addr y)"
  shows "net_of T x = net_of T y"
  by (rule ok_same [OF T net_of_laws(1) [OF T v(1)] _ p]) (simp add: c net_of_laws(1) [OF T v(2)])

lemma best_route_last:
  assumes T: "table_ok T"
  shows "\<forall>e\<in>set xs. valid_prefix (fst e) \<Longrightarrow> best_route xs a = Some (ip, d) \<Longrightarrow> routes T xs (net_of T ip) = Some d"
proof (induction xs rule: rev_induct)
  case Nil
  then show ?case by (simp add: best_route_def)
next
  case (snoc x xs)
  obtain j c where x: "x = (j, c)" by (cases x)
  show ?case
  proof (cases "in_prefix (ai_addr j) (unat (ai_cidr j)) a \<and> (\<forall>b. best_route xs a = Some b \<longrightarrow> ai_cidr (fst b) \<le> ai_cidr j)")
    case True
    with snoc.prems have "ip = j" "d = c"
      by (cases "best_route xs a"; auto simp: best_route_snoc x)+
    then show ?thesis by (simp add: x routes_snoc)
  next
    case False
    with snoc.prems have b: "best_route xs a = Some (ip, d)"
      by (cases "best_route xs a") (auto simp: best_route_snoc x split: if_splits)
    have "net_of T ip \<noteq> net_of T j"
    proof
      assume eq: "net_of T ip = net_of T j"
      have v: "valid_prefix ip" "valid_prefix j"
        using best_route_sound [OF b] snoc.prems by (auto simp: x)
      have "ai_cidr ip = ai_cidr j" using eq net_of_laws(2) [OF T] v by metis
      moreover have "in_prefix (ai_addr j) (unat (ai_cidr j)) a"
        using best_route_sound [OF b] net_of_laws(3) [OF T] v eq by (metis fst_conv)
      ultimately show False using False b by simp
    qed
    then show ?thesis using snoc b by (simp add: x routes_snoc)
  qed
qed

text \<open>The entries of the table are the routes.\<close>

definition routes_rel :: "('n, 't, 'd) ip_table \<Rightarrow> (allowed_ip \<times> 'd) list \<Rightarrow> 't \<Rightarrow> bool" where
  "routes_rel T xs t \<longleftrightarrow> (\<forall>n d. (n, d) \<in> set (tb_iter T t) \<longleftrightarrow> routes T xs n = Some d)"

lemma insert_all_rel:
  assumes T: "table_ok T"
  shows "ips_insert_all T xs t = Some t' \<Longrightarrow> routes_rel T ys t \<Longrightarrow>
    routes_rel T (ys @ xs) t' \<and> (\<forall>e\<in>set xs. valid_prefix (fst e))"
proof (induction xs arbitrary: ys t)
  case (Cons x xs)
  obtain ip d where x: "x = (ip, d)" by (cases x)
  have c: "ucast (ucast (ai_cidr ip) :: u32) = ai_cidr ip" by (rule bit_word_eqI) (simp add: bit_simps)
  obtain n where n: "nw_new_truncate T (ai_addr ip) (ai_cidr ip) = Some n"
    and rest: "ips_insert_all T xs (snd (tb_insert T n d t)) = Some t'"
    using Cons.prems(1) c by (auto simp: x ips_insert_def split: option.splits prod.splits)
  have v: "valid_prefix ip"
  proof (rule ccontr)
    assume "\<not> valid_prefix ip"
    then have "nw_new_truncate T (ai_addr ip) (ai_cidr ip) = None"
      by (simp add: ok_valid [OF T] valid_prefix_def)
    then show False using n by simp
  qed
  have n': "n = net_of T ip" using n by (simp add: net_of_def)
  have st: "set (tb_iter T (snd (tb_insert T n d t))) = insert (n, d) {e \<in> set (tb_iter T t). fst e \<noteq> n}"
    by (rule ok_insert [OF T])
  have "routes_rel T (ys @ [(ip, d)]) (snd (tb_insert T n d t))"
    using Cons.prems(2) by (auto simp: routes_rel_def routes_snoc st [unfolded n'] n')
  from Cons.IH [OF rest this] v show ?case by (simp add: x)
qed simp

lemma routes_rel_find:
  assumes T: "table_ok T" and rel: "routes_rel T xs t" and v: "\<forall>e\<in>set xs. valid_prefix (fst e)"
  shows "ips_find T a t = map_option snd (best_route xs a)"
proof (cases "best_route xs a")
  case None
  have "\<not> nw_contains T n a" if "(n, d) \<in> set (tb_iter T t)" for n d
  proof -
    have "routes T xs n = Some d" using that rel by (simp add: routes_rel_def)
    from routes_from [OF this] obtain ip where "(ip, d) \<in> set xs" "net_of T ip = n" by blast
    then show ?thesis using None best_route_none [OF None] v net_of_laws(3) [OF T, of ip a] by fastforce
  qed
  then have "tb_longest_match T a t = None" by (auto simp: ok_none [OF T])
  then show ?thesis by (simp add: ips_find_def None)
next
  case (Some e)
  obtain ip d where e: "e = (ip, d)" by (cases e)
  note sound = best_route_sound [OF Some [unfolded e]]
  have vip: "valid_prefix ip" using sound v by auto
  have entry: "(net_of T ip, d) \<in> set (tb_iter T t)"
    using best_route_last [OF T v Some [unfolded e]] rel by (simp add: routes_rel_def)
  have hit: "nw_contains T (net_of T ip) a" using sound net_of_laws(3) [OF T vip] by simp
  have "tb_longest_match T a t \<noteq> None" using ok_none [OF T, of a t] entry hit by (metis fst_conv)
  then obtain m c where m: "tb_longest_match T a t = Some (m, c)" by auto
  have ms: "(m, c) \<in> set (tb_iter T t)" "nw_contains T m a" "nw_netmask T (net_of T ip) \<le> nw_netmask T m"
    using ok_some [OF T m] entry hit by (metis fst_conv)+
  have "routes T xs m = Some c" using ms(1) rel by (simp add: routes_rel_def)
  from routes_from [OF this] obtain j where j: "(j, c) \<in> set xs" "net_of T j = m" by blast
  have vj: "valid_prefix j" using j v by auto
  have ja: "in_prefix (ai_addr j) (unat (ai_cidr j)) a" using ms(2) j net_of_laws(3) [OF T vj] by simp
  have "ai_cidr j \<le> ai_cidr ip" using sound j ja by fastforce
  moreover have "ai_cidr ip \<le> ai_cidr j" using ms(3) j net_of_laws(2) [OF T vip] net_of_laws(2) [OF T vj] by simp
  ultimately have cj: "ai_cidr ip = ai_cidr j" by simp
  have "in_prefix (ai_addr ip) (unat (ai_cidr ip)) (ai_addr j)"
    using sound ja by (metis cj fst_conv in_prefix_sym in_prefix_trans)
  then have "net_of T ip = m" using net_same [OF T vip vj cj] j by simp
  then have "c = d" using ok_map [OF T ms(1)] entry by simp
  then show ?thesis by (simp add: ips_find_def m Some e)
qed

lemma from_iter_find:
  assumes "table_ok T" "ips_from_iter T xs = Some t"
  shows "ips_find T a t = map_option snd (best_route xs a)"
proof -
  have "routes_rel T [] (ips_new T)"
    using assms(1) by (simp add: routes_rel_def routes_def ips_new_def ok_new)
  from insert_all_rel [OF assms(1) assms(2) [unfolded ips_from_iter_def] this]
  show ?thesis using routes_rel_find [OF assms(1)] by simp
qed

lemma remove_find:
  assumes "table_ok T"
  shows "ips_find T a (ips_remove T P t) = Some d \<Longrightarrow> \<not> P d"
proof -
  assume "ips_find T a (ips_remove T P t) = Some d"
  then obtain n where "tb_longest_match T a (ips_remove T P t) = Some (n, d)" by (auto simp: ips_find_def)
  then have "(n, d) \<in> set (tb_iter T (ips_remove T P t))" using ok_some [OF assms] by blast
  then show "\<not> P d" by (simp add: ips_remove_def ok_retain [OF assms])
qed

section \<open>A table that keeps the promises\<close>

type_synonym toy_net = "bool \<times> u8 \<times> bool list"

fun is_v6 :: "ip_addr \<Rightarrow> bool" where
  "is_v6 (V4 _) = False"
| "is_v6 (V6 _) = True"

definition toy_truncate :: "ip_addr \<Rightarrow> u8 \<Rightarrow> toy_net option" where
  "toy_truncate a c = (if addr_width a < unat c then None else Some (is_v6 a, c, take (unat c) (ip_bits a)))"

definition toy_contains :: "toy_net \<Rightarrow> ip_addr \<Rightarrow> bool" where
  "toy_contains n a \<longleftrightarrow> (case n of (f, c, p) \<Rightarrow> f = is_v6 a \<and> take (unat c) (ip_bits a) = p)"

definition toy_bytes :: "nat \<Rightarrow> bool list \<Rightarrow> bytes" where
  "toy_bytes w p = map (\<lambda>i. foldl (\<lambda>v b. 2 * v + of_bool b) 0 (take 8 (drop (8 * i) (p @ replicate w False)))) [0..<w div 8]"

definition toy_longest :: "ip_addr \<Rightarrow> (toy_net \<times> 'd) list \<Rightarrow> (toy_net \<times> 'd) option" where
  "toy_longest a t =
    foldl (pick_max (\<lambda>e. fst (snd (fst e)))) None (filter (\<lambda>e. toy_contains (fst e) a) (AList.clearjunk t))"

definition toy_table :: "(toy_net, (toy_net \<times> 'd) list, 'd) ip_table" where
  "toy_table =
    \<lparr>nw_new_truncate = toy_truncate,
     nw_network_address = (\<lambda>(f, c, p). if f then V6 (toy_bytes 128 p) else V4 (toy_bytes 32 p)),
     nw_netmask = (\<lambda>n. fst (snd n)), nw_contains = toy_contains,
     tb_new = [], tb_insert = (\<lambda>n d t. (map_of t n, (n, d) # t)), tb_longest_match = toy_longest,
     tb_retain = (\<lambda>P t. filter (\<lambda>e. P (fst e) (snd e)) (AList.clearjunk t)), tb_iter = AList.clearjunk\<rparr>"

lemma same_family_v6: "same_family a b \<longleftrightarrow> is_v6 a = is_v6 b"
  by (cases a; cases b) simp_all

lemma toy_nets_ok: "nets_ok toy_table"
  by (auto simp: nets_ok_def toy_table_def toy_truncate_def toy_contains_def in_prefix_def same_family_v6)

lemma clearjunk_cons:
  "set (AList.clearjunk ((n, d) # t)) = insert (n, d) {e \<in> set (AList.clearjunk t). fst e \<noteq> n}"
proof -
  have "AList.clearjunk ((n, d) # t) = (n, d) # filter (\<lambda>(k, _). n \<noteq> k) (AList.clearjunk t)"
    by (simp add: AList.clearjunk_delete) (simp add: AList.delete_eq)
  then show ?thesis by (simp only: list.set set_filter) force
qed

lemma clearjunk_filter: "AList.clearjunk (filter P (AList.clearjunk t)) = filter P (AList.clearjunk t)"
  by (rule AList.distinct_clearjunk_id) (simp add: distinct_map_filter)

lemma clearjunk_one: "(n, d) \<in> set (AList.clearjunk t) \<Longrightarrow> (n, d') \<in> set (AList.clearjunk t) \<Longrightarrow> d = d'"
  by (rule eq_key_imp_eq_value [OF AList.distinct_clearjunk])

lemma toy_store_ok: "store_ok toy_table"
  unfolding store_ok_def
proof (intro conjI allI impI)
  show "tb_iter toy_table (tb_new toy_table) = []" by (simp add: toy_table_def)
next
  fix t n d d'
  assume "(n, d) \<in> set (tb_iter toy_table t)" "(n, d') \<in> set (tb_iter toy_table t)"
  then show "d = d'" by (simp add: toy_table_def clearjunk_one)
next
  fix t n d
  show "set (tb_iter toy_table (snd (tb_insert toy_table n d t))) =
      insert (n, d) {e \<in> set (tb_iter toy_table t). fst e \<noteq> n}"
    by (simp add: toy_table_def clearjunk_cons del: AList.clearjunk.simps)
next
  fix t P
  show "set (tb_iter toy_table (tb_retain toy_table P t)) = {e \<in> set (tb_iter toy_table t). P (fst e) (snd e)}"
    by (simp add: toy_table_def clearjunk_filter)
qed

lemma toy_fields:
  "tb_longest_match toy_table = toy_longest" "tb_iter toy_table = AList.clearjunk"
  "nw_contains toy_table = toy_contains" "nw_netmask toy_table = (\<lambda>n. fst (snd n))"
  by (simp_all add: toy_table_def)

lemma toy_match_ok: "match_ok (toy_table :: (toy_net, (toy_net \<times> 'd) list, 'd) ip_table)"
proof -
  have none: "(toy_longest a t = None) = (\<forall>e\<in>set (AList.clearjunk t). \<not> toy_contains (fst e) a)"
    for a and t :: "(toy_net \<times> 'd) list"
    by (simp add: toy_longest_def foldl_pick_none filter_empty_conv)
  have some: "toy_longest a t = Some e \<Longrightarrow> e \<in> set (AList.clearjunk t) \<and> toy_contains (fst e) a \<and>
      (\<forall>e'\<in>set (AList.clearjunk t). toy_contains (fst e') a \<longrightarrow> fst (snd (fst e')) \<le> fst (snd (fst e)))"
    for a e and t :: "(toy_net \<times> 'd) list"
    unfolding toy_longest_def by (drule foldl_pick_some) (simp only: set_filter mem_Collect_eq, blast)
  show ?thesis
    unfolding match_ok_def toy_fields by (intro conjI allI impI) (use none some in blast)+
qed

lemma toy_table_ok: "table_ok toy_table"
  by (simp add: table_ok_def toy_nets_ok toy_store_ok toy_match_ok)

section \<open>Properties\<close>

text \<open>C10 Routing by allowed IPs is routing by the longest prefix: a table built from a list of prefixes answers an address with the value of the longest prefix that contains it, the last inserted one if a prefix comes more than once, and with nothing if no prefix contains it.\<close>

theorem allowed_ips_longest_prefix:
  assumes "table_ok T" and "ips_from_iter T xs = Some t"
  shows "ips_find T a t = map_option snd (best_route xs a)"
  by (rule from_iter_find [OF assms])

theorem allowed_ips_longest_prefix_witness:
  "ips_find toy_table (V4 [10, 1, 2, 3])
      (the (ips_from_iter toy_table [(\<lparr>ai_addr = V4 [10, 1, 0, 0], ai_cidr = 16\<rparr>, 1 :: nat),
        (\<lparr>ai_addr = V4 [10, 0, 0, 0], ai_cidr = 8\<rparr>, 2)])) =
    map_option snd (best_route [(\<lparr>ai_addr = V4 [10, 1, 0, 0], ai_cidr = 16\<rparr>, 1),
        (\<lparr>ai_addr = V4 [10, 0, 0, 0], ai_cidr = 8\<rparr>, 2)] (V4 [10, 1, 2, 3]))"
proof -
  have "ips_from_iter toy_table [(\<lparr>ai_addr = V4 [10, 1, 0, 0], ai_cidr = 16\<rparr>, 1 :: nat),
        (\<lparr>ai_addr = V4 [10, 0, 0, 0], ai_cidr = 8\<rparr>, 2)] \<noteq> None"
    by (simp add: ips_from_iter_def ips_insert_def toy_table_def toy_truncate_def split: prod.split)
  then show ?thesis
    by (intro allowed_ips_longest_prefix [OF toy_table_ok]) (simp add: option.collapse)
qed

end
