(* ===== verification/Replay_Window.thy ===== *)
theory Replay_Window
  imports Errors
begin

text \<open>
  The receive window of a session: \<open>ReceivingKeyCounterValidator\<close> of
  src/nekolink-core/src/noise/session.rs. A ring of 16 words of 64 bits remembers which of the
  last 1024 packet counters were received, \<open>vnext\<close> is one more than the highest. The abstract
  window keeps the set of all received counters instead; \<open>window_rel\<close> is the simulation.
\<close>

section \<open>The ring and its operations\<close>

text \<open>\<open>WORD_SIZE = 64\<close>, \<open>N_WORDS = 16\<close> and \<open>N_BITS = WORD_SIZE * N_WORDS\<close> are \<open>u64\<close> constants.\<close>

abbreviation (input) WORD_SIZE :: u64 where
  "WORD_SIZE \<equiv> 64"

abbreviation (input) N_WORDS :: nat where
  "N_WORDS \<equiv> 16"

abbreviation (input) N_BITS :: u64 where
  "N_BITS \<equiv> 1024"

record validator =
  vnext :: u64
  receive_cnt :: u64
  bitmap :: "u64 list"

definition validator_default :: validator where
  "validator_default = \<lparr>vnext = 0, receive_cnt = 0, bitmap = replicate N_WORDS 0\<rparr>"

definition set_bit_v :: "u64 \<Rightarrow> validator \<Rightarrow> validator" where
  "set_bit_v idx v =
     (let bit_idx = idx mod N_BITS; w = unat (bit_idx div WORD_SIZE); b = unat (bit_idx mod WORD_SIZE)
      in v\<lparr>bitmap := (bitmap v)[w := bitmap v ! w OR push_bit b 1]\<rparr>)"

definition clear_bit_v :: "u64 \<Rightarrow> validator \<Rightarrow> validator" where
  "clear_bit_v idx v =
     (let bit_idx = idx mod N_BITS; w = unat (bit_idx div WORD_SIZE); b = unat (bit_idx mod WORD_SIZE)
      in v\<lparr>bitmap := (bitmap v)[w := bitmap v ! w AND NOT (push_bit b 1)]\<rparr>)"

definition clear_word_v :: "u64 \<Rightarrow> validator \<Rightarrow> validator" where
  "clear_word_v idx v =
     (let bit_idx = idx mod N_BITS; w = unat (bit_idx div WORD_SIZE)
      in v\<lparr>bitmap := (bitmap v)[w := 0]\<rparr>)"

definition check_bit_v :: "validator \<Rightarrow> u64 \<Rightarrow> bool" where
  "check_bit_v v idx =
     (let bit_idx = idx mod N_BITS; w = unat (bit_idx div WORD_SIZE); b = unat (bit_idx mod WORD_SIZE)
      in drop_bit b (bitmap v ! w) AND 1 = 1)"

definition will_accept :: "validator \<Rightarrow> u64 \<Rightarrow> wg_error + unit" where
  "will_accept v counter =
     (if vnext v \<le> counter then Inr ()
      else if counter + N_BITS < vnext v then Inl InvalidCounter
      else if \<not> check_bit_v v counter then Inr ()
      else Inl DuplicateCounter)"

text \<open>
  The three loops of \<open>mark_did_receive\<close> that clear the bits of skipped counters. The middle
  one advances by a wrapping \<open>i + WORD_SIZE\<close>, which on \<open>u64\<close> need not stop: it is a partial
  function, \<open>None\<close> when it does not return.
\<close>

function clear_to_align :: "u64 \<Rightarrow> u64 \<Rightarrow> validator \<Rightarrow> u64 \<times> validator" where
  "clear_to_align i counter v =
     (if i mod WORD_SIZE \<noteq> 0 \<and> i < counter then clear_to_align (i + 1) counter (clear_bit_v i v)
      else (i, v))"
  by pat_completeness auto
termination
  by (relation "measure (\<lambda>(i, counter, v). unat counter - unat i)")
    (auto simp: unat_inc word_less_nat_alt)

partial_function (option) clear_words :: "u64 \<Rightarrow> u64 \<Rightarrow> validator \<Rightarrow> (u64 \<times> validator) option" where
  "clear_words i counter v =
     (if i + WORD_SIZE < counter
      then clear_words ((i + WORD_SIZE) AND (0 - WORD_SIZE)) counter (clear_word_v i v)
      else Some (i, v))"

function clear_rest :: "u64 \<Rightarrow> u64 \<Rightarrow> validator \<Rightarrow> validator" where
  "clear_rest i counter v =
     (if i < counter then clear_rest (i + 1) counter (clear_bit_v i v) else v)"
  by pat_completeness auto
termination
  by (relation "measure (\<lambda>(i, counter, v). unat counter - unat i)")
    (auto simp: unat_inc word_less_nat_alt)

declare clear_to_align.simps [simp del] clear_rest.simps [simp del]

definition mark_did_receive :: "u64 \<Rightarrow> validator \<Rightarrow> ((wg_error + unit) \<times> validator) option" where
  "mark_did_receive counter v =
     (if counter + N_BITS < vnext v then Some (Inl InvalidCounter, v)
      else if counter = vnext v then
        (let v1 = set_bit_v counter v in Some (Inr (), v1\<lparr>vnext := vnext v1 + 1\<rparr>))
      else if counter < vnext v then
        (if check_bit_v v counter then Some (Inl InvalidCounter, v)
         else Some (Inr (), set_bit_v counter v))
      else do {
        v2 \<leftarrow> (if counter - vnext v \<ge> N_BITS then Some (v\<lparr>bitmap := map (\<lambda>_. 0) (bitmap v)\<rparr>)
               else (let (i, v1) = clear_to_align (vnext v) counter v in do {
                 (j, v2) \<leftarrow> clear_words i counter v1;
                 Some (clear_rest j counter v2)
               }));
        let v3 = set_bit_v counter v2;
        Some (Inr (), v3\<lparr>vnext := counter + 1\<rparr>)
      })"

section \<open>Ring positions\<close>

text \<open>\<open>pos_bit v p\<close> is bit \<open>p < 1024\<close> of the ring; a counter lives at its value modulo 1024.\<close>

definition pos_bit :: "validator \<Rightarrow> nat \<Rightarrow> bool" where
  "pos_bit v p \<longleftrightarrow> bit (bitmap v ! (p div 64)) (p mod 64)"

abbreviation ring :: "u64 \<Rightarrow> nat" where
  "ring i \<equiv> unat i mod 1024"

lemma ring_index:
  "unat (i mod N_BITS div WORD_SIZE) = ring i div 64"
  "unat (i mod N_BITS mod WORD_SIZE) = ring i mod 64"
  by (simp_all add: unat_div unat_mod)

lemma ring_word_less: "ring i div 64 < 16"
  using mod_less_divisor [of 1024 "unat i"] by simp

lemma pos_split: "p div 64 = q div 64 \<and> p mod 64 = q mod 64 \<longleftrightarrow> p = (q :: nat)"
  by (metis div_mult_mod_eq)

lemma check_bit_v_pos: "check_bit_v v i \<longleftrightarrow> pos_bit v (ring i)"
  by (simp add: check_bit_v_def pos_bit_def ring_index bit_and_1_eq Let_def)

lemma pos_bit_set_bit_v:
  assumes "length (bitmap v) = N_WORDS" and "p < 1024"
  shows "pos_bit (set_bit_v i v) p \<longleftrightarrow> pos_bit v p \<or> p = ring i"
proof -
  have "p div 64 < 16" using assms(2) by simp
  then show ?thesis
    using assms(1) ring_word_less [of i] pos_split [of p "ring i"]
    by (auto simp: pos_bit_def set_bit_v_def ring_index Let_def nth_list_update
        bit_or_iff bit_exp_iff possible_bit_word)
qed

lemma pos_bit_clear_bit_v:
  assumes "length (bitmap v) = N_WORDS" and "p < 1024"
  shows "pos_bit (clear_bit_v i v) p \<longleftrightarrow> pos_bit v p \<and> p \<noteq> ring i"
proof -
  have "p div 64 < 16" using assms(2) by simp
  then show ?thesis
    using assms(1) ring_word_less [of i] pos_split [of p "ring i"]
    by (auto simp: pos_bit_def clear_bit_v_def ring_index Let_def nth_list_update
        bit_and_iff bit_not_iff bit_exp_iff possible_bit_word)
qed

lemma pos_bit_clear_word_v:
  assumes "length (bitmap v) = N_WORDS" and "p < 1024"
  shows "pos_bit (clear_word_v i v) p \<longleftrightarrow> pos_bit v p \<and> p div 64 \<noteq> ring i div 64"
proof -
  have "p div 64 < 16" using assms(2) by simp
  then show ?thesis
    using assms(1) ring_word_less [of i]
    by (auto simp: pos_bit_def clear_word_v_def ring_index Let_def nth_list_update)
qed

lemma ring_op_frames [frame_simps, simp]:
  "vnext (set_bit_v i v) = vnext v" "vnext (clear_bit_v i v) = vnext v"
  "vnext (clear_word_v i v) = vnext v"
  "receive_cnt (set_bit_v i v) = receive_cnt v" "receive_cnt (clear_bit_v i v) = receive_cnt v"
  "receive_cnt (clear_word_v i v) = receive_cnt v"
  "length (bitmap (set_bit_v i v)) = length (bitmap v)"
  "length (bitmap (clear_bit_v i v)) = length (bitmap v)"
  "length (bitmap (clear_word_v i v)) = length (bitmap v)"
  by (simp_all add: set_bit_v_def clear_bit_v_def clear_word_v_def Let_def)

text \<open>Two counters less than 1024 apart have different positions.\<close>

lemma ring_distinct: "a < b \<Longrightarrow> b < a + 1024 \<Longrightarrow> a mod 1024 \<noteq> b mod (1024 :: nat)"
proof
  assume "a < b" "b < a + 1024" "a mod 1024 = b mod 1024"
  then have "1024 dvd b - a" by (metis less_imp_le mod_eq_dvd_iff_nat)
  with \<open>a < b\<close> have "1024 \<le> b - a" by (intro dvd_imp_le) simp_all
  with \<open>b < a + 1024\<close> show False by simp
qed

text \<open>Clearing every position of a range of counters, the effect of the three loops.\<close>

definition cleared :: "nat \<Rightarrow> nat \<Rightarrow> validator \<Rightarrow> validator \<Rightarrow> bool" where
  "cleared a b v v' \<longleftrightarrow>
     vnext v' = vnext v \<and> receive_cnt v' = receive_cnt v \<and> length (bitmap v') = length (bitmap v) \<and>
     (\<forall>p < 1024. pos_bit v' p \<longleftrightarrow> pos_bit v p \<and> \<not> (\<exists>k. a \<le> k \<and> k < b \<and> k mod 1024 = p))"

lemma cleared_refl: "cleared a a v v"
  by (simp add: cleared_def)

lemma cleared_trans:
  assumes "cleared a b v v'" and "cleared b c v' v''" and "a \<le> b" and "b \<le> c"
  shows "cleared a c v v''"
proof -
  have "(\<exists>k. a \<le> k \<and> k < c \<and> k mod 1024 = p) \<longleftrightarrow>
      (\<exists>k. a \<le> k \<and> k < b \<and> k mod 1024 = p) \<or> (\<exists>k. b \<le> k \<and> k < c \<and> k mod 1024 = p)" for p
    using assms(3,4) by (auto intro: order_trans order_less_le_trans) (metis not_le)+
  with assms(1,2) show ?thesis by (simp add: cleared_def)
qed

lemma cleared_step:
  assumes "length (bitmap v) = N_WORDS"
  shows "cleared (unat i) (Suc (unat i)) v (clear_bit_v i v)"
proof -
  have "(\<exists>k. unat i \<le> k \<and> k < Suc (unat i) \<and> k mod 1024 = p) \<longleftrightarrow> p = ring i" for p
    by (metis le_antisym lessI less_Suc_eq_le order_refl)
  then show ?thesis using assms by (simp add: cleared_def pos_bit_clear_bit_v)
qed

lemma div64_mod1024: "k mod 1024 div 64 = k div 64 mod (16 :: nat)"
  by (simp add: mod_mult2_eq [of k 64 16, simplified])

lemma cleared_word:
  assumes len: "length (bitmap v) = N_WORDS" and al: "unat i mod 64 = 0"
  shows "cleared (unat i) (unat i + 64) v (clear_word_v i v)"
proof -
  have range_iff: "p div 64 = ring i div 64 \<longleftrightarrow> (\<exists>k. unat i \<le> k \<and> k < unat i + 64 \<and> k mod 1024 = p)"
    if "p < 1024" for p
  proof
    assume p: "p div 64 = ring i div 64"
    let ?k = "unat i + p mod 64"
    have "ring i mod 64 = 0" using al by (simp add: mod_mod_cancel)
    then have "ring i = 64 * (ring i div 64)" by (metis add_0_right mult_div_mod_eq)
    then have pk: "p = ring i + p mod 64" using p by (metis mult_div_mod_eq)
    have "?k mod 1024 = (ring i + p mod 64) mod 1024" by (simp add: mod_add_left_eq)
    also have "\<dots> = p" using pk that by (metis mod_less)
    finally show "\<exists>k. unat i \<le> k \<and> k < unat i + 64 \<and> k mod 1024 = p"
      by (intro exI [of _ ?k]) simp
  next
    assume "\<exists>k. unat i \<le> k \<and> k < unat i + 64 \<and> k mod 1024 = p"
    then obtain k where k: "unat i \<le> k" "k < unat i + 64" "k mod 1024 = p" by blast
    obtain m where m: "unat i = 64 * m" using al by blast
    have "k div 64 = unat i div 64" using k(1,2) unfolding m by simp
    then show "p div 64 = ring i div 64" by (simp only: k(3) [symmetric] div64_mod1024)
  qed
  show ?thesis using len range_iff by (auto simp: cleared_def pos_bit_clear_word_v)
qed

section \<open>The clearing loops\<close>

lemma clear_to_align_cleared:
  assumes "clear_to_align i counter v = (j, v')" and "i \<le> counter" and "length (bitmap v) = N_WORDS"
  shows "cleared (unat i) (unat j) v v' \<and> i \<le> j \<and> j \<le> counter \<and> (j = counter \<or> unat j mod 64 = 0)"
  using assms
proof (induction i counter v rule: clear_to_align.induct)
  case (1 i counter v)
  show ?case
  proof (cases "i mod WORD_SIZE \<noteq> 0 \<and> i < counter")
    case True
    then have inc: "unat (i + 1) = Suc (unat i)" by (blast intro: unat_inc)
    from True have "i + 1 \<le> counter" by (simp add: inc word_le_nat_alt word_less_nat_alt)
    with 1 True have IH: "cleared (unat (i + 1)) (unat j) (clear_bit_v i v) v'"
        "i + 1 \<le> j" "j \<le> counter" "j = counter \<or> unat j mod 64 = 0"
      by (simp_all add: clear_to_align.simps [of i])
    have "cleared (unat i) (unat j) v v'"
      by (rule cleared_trans [OF cleared_step IH(1) [unfolded inc]])
        (use 1 IH inc in \<open>auto simp: word_le_nat_alt\<close>)
    with IH inc show ?thesis by (simp add: word_le_nat_alt)
  next
    case False
    with 1 have "j = i" "v' = v" by (simp_all add: clear_to_align.simps [of i])
    moreover have "i = counter \<or> unat i mod 64 = 0"
      using False 1(3) by (auto simp: word_eq_iff_unsigned [where ?'a = nat] unat_mod dest: antisym)
    ultimately show ?thesis using 1(3) by (simp add: cleared_refl)
  qed
qed

lemma align_mask: "unat x mod 64 = 0 \<Longrightarrow> x AND (0 - WORD_SIZE) = x"
proof -
  assume "unat x mod 64 = 0"
  then have "take_bit 6 x = 0"
    by (simp add: take_bit_eq_mod word_eq_iff_unsigned [where ?'a = nat] unat_mod)
  then have low: "x AND mask 6 = 0" by (simp add: take_bit_eq_mask)
  have m: "(0 - WORD_SIZE) = NOT (mask 6)" by (simp add: mask_eq_exp_minus_1 not_eq_complement)
  have "x = (x AND mask 6) OR (x AND NOT (mask 6))" by (simp flip: bit.conj_disj_distrib)
  with low show ?thesis unfolding m by simp
qed

lemma clear_words_cleared:
  assumes "i \<le> counter" and "i = counter \<or> unat i mod 64 = 0"
    and "unat counter + 64 < 2 ^ 64" and "length (bitmap v) = N_WORDS"
  shows "\<exists>j v'. clear_words i counter v = Some (j, v') \<and>
    cleared (unat i) (unat j) v v' \<and> i \<le> j \<and> j \<le> counter"
  using assms
proof (induction "unat counter - unat i" arbitrary: i v rule: less_induct)
  case less
  have "unat i \<le> unat counter" using less.prems(1) by (simp add: word_le_nat_alt)
  then have plus: "unat (i + 64) = unat i + 64" using less.prems(3) by (intro unat_plus_small [THEN trans]) simp_all
  show ?case
  proof (cases "i + WORD_SIZE < counter")
    case True
    then have lt: "unat i + 64 < unat counter" by (simp add: word_less_nat_alt plus)
    then have al: "unat i mod 64 = 0" using less.prems(2) by auto
    have mask: "(i + WORD_SIZE) AND (0 - WORD_SIZE) = i + 64"
      by (rule align_mask) (simp add: plus al)
    have "\<exists>j v'. clear_words (i + 64) counter (clear_word_v i v) = Some (j, v') \<and>
        cleared (unat (i + 64)) (unat j) (clear_word_v i v) v' \<and> i + 64 \<le> j \<and> j \<le> counter"
      by (rule less.hyps) (use less.prems lt al plus in \<open>simp_all add: word_le_nat_alt\<close>)
    then obtain j v' where j: "clear_words (i + 64) counter (clear_word_v i v) = Some (j, v')"
        "cleared (unat i + 64) (unat j) (clear_word_v i v) v'" "unat i + 64 \<le> unat j" "j \<le> counter"
      by (auto simp: plus word_le_nat_alt)
    have "cleared (unat i) (unat j) v v'"
      by (rule cleared_trans [OF cleared_word j(2)]) (use less.prems(4) al j(3) in simp_all)
    with j True mask show ?thesis
      by (simp add: clear_words.simps [of i] word_le_nat_alt)
  next
    case False
    then show ?thesis using less.prems(1) by (simp add: clear_words.simps [of i] cleared_refl)
  qed
qed

lemma clear_rest_cleared:
  assumes "i \<le> counter" and "length (bitmap v) = N_WORDS"
  shows "cleared (unat i) (unat counter) v (clear_rest i counter v)"
  using assms
proof (induction i counter v rule: clear_rest.induct)
  case (1 i counter v)
  show ?case
  proof (cases "i < counter")
    case True
    then have inc: "unat (i + 1) = Suc (unat i)" by (rule unat_inc)
    from True have le: "i + 1 \<le> counter" by (simp add: inc word_le_nat_alt word_less_nat_alt)
    with 1 True have IH: "cleared (unat (i + 1)) (unat counter) (clear_bit_v i v)
        (clear_rest (i + 1) counter (clear_bit_v i v))" by simp
    have "cleared (unat i) (unat counter) v (clear_rest (i + 1) counter (clear_bit_v i v))"
      by (rule cleared_trans [OF cleared_step IH [unfolded inc]])
        (use 1 le inc in \<open>auto simp: word_le_nat_alt\<close>)
    with True show ?thesis by (simp add: clear_rest.simps [of i])
  next
    case False
    with 1 have "i = counter" by simp
    then show ?thesis by (simp add: clear_rest.simps [of counter] cleared_refl)
  qed
qed

text \<open>The skip branch as one operation: forget every counter from \<open>vnext\<close> up to \<open>counter\<close>.\<close>

lemma skip_cleared:
  assumes "vnext v < counter" and "\<not> counter - vnext v \<ge> N_BITS"
    and "unat counter + 64 < 2 ^ 64" and "length (bitmap v) = N_WORDS"
  shows "\<exists>v2. (let (i, v1) = clear_to_align (vnext v) counter v in do {
                 (j, v2) \<leftarrow> clear_words i counter v1;
                 Some (clear_rest j counter v2) }) = Some v2 \<and>
             cleared (unat (vnext v)) (unat counter) v v2"
proof -
  obtain i v1 where i: "clear_to_align (vnext v) counter v = (i, v1)" by fastforce
  with assms have c1: "cleared (unat (vnext v)) (unat i) v v1" "vnext v \<le> i" "i \<le> counter"
      "i = counter \<or> unat i mod 64 = 0"
    using clear_to_align_cleared [OF i] by auto
  then have l1: "length (bitmap v1) = N_WORDS" using assms(4) by (simp add: cleared_def)
  obtain j v2 where j: "clear_words i counter v1 = Some (j, v2)" "cleared (unat i) (unat j) v1 v2"
      "i \<le> j" "j \<le> counter"
    using clear_words_cleared [OF c1(3,4) assms(3) l1] by blast
  then have l2: "length (bitmap v2) = N_WORDS" using l1 by (simp add: cleared_def)
  have "cleared (unat (vnext v)) (unat j) v v2"
    using cleared_trans [OF c1(1) j(2)] c1(2) j(3) by (simp add: word_le_nat_alt)
  then have "cleared (unat (vnext v)) (unat counter) v (clear_rest j counter v2)"
    using cleared_trans [OF _ clear_rest_cleared [OF j(4) l2]] c1(2) j(3,4)
    by (simp add: word_le_nat_alt)
  with i j(1) show ?thesis by simp
qed

section \<open>The abstract window and the simulation\<close>

text \<open>
  The promise of the window: it holds one more than the highest counter and the set of all
  counters received; a counter is good when it is new and at most 1024 behind.
\<close>

type_synonym awindow = "nat \<times> nat set"

fun aw_accepts :: "awindow \<Rightarrow> nat \<Rightarrow> bool" where
  "aw_accepts (n, R) c \<longleftrightarrow> n \<le> c \<or> (n \<le> c + 1024 \<and> c \<notin> R)"

fun aw_mark :: "awindow \<Rightarrow> nat \<Rightarrow> awindow" where
  "aw_mark (n, R) c = (max n (Suc c), insert c R)"

fun window_rel :: "validator \<Rightarrow> awindow \<Rightarrow> bool" where
  "window_rel v (n, R) \<longleftrightarrow>
     length (bitmap v) = N_WORDS \<and> unat (vnext v) = n \<and> n + 1024 \<le> 2 ^ 64 \<and> (\<forall>r \<in> R. r < n) \<and>
     (\<forall>c. c < n \<and> n \<le> c + 1024 \<longrightarrow> (pos_bit v (c mod 1024) \<longleftrightarrow> c \<in> R))"

text \<open>Counters that leave room for the window's own arithmetic; see \<open>mark_wraps\<close> for the others.\<close>

definition counter_ok :: "u64 \<Rightarrow> bool" where
  "counter_ok c \<longleftrightarrow> unat c + 1024 < 2 ^ 64"

lemma counter_ok_plus: "counter_ok c \<Longrightarrow> unat (c + N_BITS) = unat c + 1024"
  unfolding counter_ok_def by (subst unat_plus_small) simp_all

lemma window_rel_default: "window_rel validator_default (0, {})"
  by (simp add: validator_default_def)

lemma will_accept_iff:
  assumes rel: "window_rel v (n, R)" and ok: "counter_ok c"
  shows "will_accept v c = Inr () \<longleftrightarrow> aw_accepts (n, R) (unat c)"
  using rel counter_ok_plus [OF ok]
  by (auto simp: will_accept_def check_bit_v_pos word_le_nat_alt word_less_nat_alt)

text \<open>The four ways a mark can change the ring, each against the abstract set.\<close>

lemma rel_in_order:
  assumes "window_rel v (n, R)" and "counter_ok c" and "unat c = n"
  shows "window_rel ((set_bit_v c v)\<lparr>vnext := vnext v + 1\<rparr>) (Suc n, insert n R)"
proof -
  from assms have len: "length (bitmap v) = N_WORDS" by simp
  from assms have "unat (vnext v) = unat c" by simp
  then have vn: "vnext v = c" by (simp only: word_unat_eq_iff)
  have "unat (c + 1) = Suc n" using assms(2,3) unat_plus_small [of c 1] by (simp add: counter_ok_def)
  moreover have "pos_bit (set_bit_v c v) (d mod 1024) \<longleftrightarrow> d \<in> insert n R"
    if "d < Suc n" "Suc n \<le> d + 1024" for d
  proof (cases "d = n")
    case True
    then show ?thesis using assms(3) by (simp add: pos_bit_set_bit_v len)
  next
    case False
    with that have "d mod 1024 \<noteq> ring c" using ring_distinct [of d n] assms(3) by simp
    then show ?thesis using assms(1) that False by (simp add: pos_bit_set_bit_v len)
  qed
  ultimately show ?thesis
    using assms vn by (auto simp: counter_ok_def pos_bit_def less_Suc_eq)
qed

lemma rel_late:
  assumes "window_rel v (n, R)" and "unat c < n" and "n \<le> unat c + 1024"
  shows "window_rel (set_bit_v c v) (n, insert (unat c) R)"
proof -
  from assms have len: "length (bitmap v) = N_WORDS" by simp
  have "pos_bit (set_bit_v c v) (d mod 1024) \<longleftrightarrow> d \<in> insert (unat c) R"
    if "d < n" "n \<le> d + 1024" for d
  proof (cases "d = unat c")
    case True
    then show ?thesis by (simp add: pos_bit_set_bit_v len)
  next
    case False
    with that assms have "d mod 1024 \<noteq> ring c"
      using ring_distinct [of d "unat c"] ring_distinct [of "unat c" d] by linarith
    then show ?thesis using assms(1) that False by (simp add: pos_bit_set_bit_v len)
  qed
  with assms len show ?thesis by auto
qed

lemma rel_skip:
  assumes "window_rel v (n, R)" and ok: "counter_ok c" and "n < unat c"
    and len2: "length (bitmap v2) = N_WORDS"
    and bits: "\<And>d. d < unat c \<Longrightarrow> unat c < d + 1024 \<Longrightarrow> pos_bit v2 (d mod 1024) \<longleftrightarrow> d \<in> R"
  shows "window_rel ((set_bit_v c v2)\<lparr>vnext := c + 1\<rparr>) (Suc (unat c), insert (unat c) R)"
proof -
  have "unat (c + 1) = Suc (unat c)" using ok unat_plus_small [of c 1] by (simp add: counter_ok_def)
  moreover have "pos_bit (set_bit_v c v2) (d mod 1024) \<longleftrightarrow> d \<in> insert (unat c) R"
    if "d < Suc (unat c)" "Suc (unat c) \<le> d + 1024" for d
  proof (cases "d = unat c")
    case True
    then show ?thesis by (simp add: pos_bit_set_bit_v len2)
  next
    case False
    with that have "d mod 1024 \<noteq> ring c" using ring_distinct [of d "unat c"] by simp
    then show ?thesis using bits that False by (simp add: pos_bit_set_bit_v len2)
  qed
  ultimately show ?thesis
    using assms(1,3) len2 ok by (auto simp: counter_ok_def pos_bit_def)
qed

lemma rel_skip_far:
  assumes "window_rel v (n, R)" and "counter_ok c" and "n + 1024 \<le> unat c"
  shows "window_rel ((set_bit_v c (v\<lparr>bitmap := map (\<lambda>_. 0) (bitmap v)\<rparr>))\<lparr>vnext := c + 1\<rparr>)
    (Suc (unat c), insert (unat c) R)"
proof (rule rel_skip [OF assms(1,2)])
  fix d assume "d < unat c" "unat c < d + 1024"
  with assms have "d \<notin> R" by fastforce
  moreover have "\<not> pos_bit (v\<lparr>bitmap := map (\<lambda>_. 0) (bitmap v)\<rparr>) (d mod 1024)"
    using assms(1) by (simp add: pos_bit_def)
  ultimately show "pos_bit (v\<lparr>bitmap := map (\<lambda>_. 0) (bitmap v)\<rparr>) (d mod 1024) \<longleftrightarrow> d \<in> R" by simp
qed (use assms in auto)

lemma rel_skip_near:
  assumes "window_rel v (n, R)" and "counter_ok c" and "n < unat c" and "unat c < n + 1024"
    and "cleared n (unat c) v v2"
  shows "window_rel ((set_bit_v c v2)\<lparr>vnext := c + 1\<rparr>) (Suc (unat c), insert (unat c) R)"
proof (rule rel_skip [OF assms(1,2,3)])
  show "length (bitmap v2) = N_WORDS" using assms(1,5) by (simp add: cleared_def)
  fix d assume d: "d < unat c" "unat c < d + 1024"
  have "pos_bit v2 (d mod 1024) \<longleftrightarrow> pos_bit v (d mod 1024) \<and>
      \<not> (\<exists>k. n \<le> k \<and> k < unat c \<and> k mod 1024 = d mod 1024)"
    using assms(5) by (simp add: cleared_def)
  moreover have "(\<exists>k. n \<le> k \<and> k < unat c \<and> k mod 1024 = d mod 1024) \<longleftrightarrow> n \<le> d"
  proof
    assume "\<exists>k. n \<le> k \<and> k < unat c \<and> k mod 1024 = d mod 1024"
    then obtain k where k: "n \<le> k" "k < unat c" "k mod 1024 = d mod 1024" by blast
    with d show "n \<le> d" using ring_distinct [of d k] by linarith
  next
    assume "n \<le> d"
    with d(1) show "\<exists>k. n \<le> k \<and> k < unat c \<and> k mod 1024 = d mod 1024" by blast
  qed
  ultimately have v2: "pos_bit v2 (d mod 1024) \<longleftrightarrow> pos_bit v (d mod 1024) \<and> d < n" by auto
  show "pos_bit v2 (d mod 1024) \<longleftrightarrow> d \<in> R"
  proof (cases "d < n")
    case True
    with assms(1,3) d show ?thesis by (simp add: v2)
  next
    case False
    with assms(1) have "d \<notin> R" by auto
    with False show ?thesis by (simp add: v2)
  qed
qed

lemma mark_refines:
  assumes rel: "window_rel v (n, R)" and ok: "counter_ok c"
  shows "\<exists>v'. mark_did_receive c v =
      Some (if aw_accepts (n, R) (unat c) then Inr () else Inl InvalidCounter, v') \<and>
    window_rel v' (if aw_accepts (n, R) (unat c) then aw_mark (n, R) (unat c) else (n, R))"
proof -
  note pl = counter_ok_plus [OF ok]
  have vn: "unat (vnext v) = n" and len: "length (bitmap v) = N_WORDS" using rel by simp_all
  consider (far_back) "unat c + 1024 < n" | (in_order) "unat c = n"
    | (late) "unat c < n" "n \<le> unat c + 1024"
    | (near) "n < unat c" "unat c < n + 1024" | (far) "n + 1024 \<le> unat c" by linarith
  then show ?thesis
  proof cases
    case far_back
    with rel show ?thesis by (auto simp: mark_did_receive_def word_less_nat_alt pl vn)
  next
    case in_order
    then have "c = vnext v" using vn by (simp add: word_eq_iff_unsigned [where ?'a = nat])
    moreover have "\<not> c + N_BITS < c" using pl by (simp add: word_less_nat_alt)
    ultimately show ?thesis using rel_in_order [OF rel ok in_order] in_order
      by (simp add: mark_did_receive_def Let_def)
  next
    case late
    then have "\<not> c + N_BITS < vnext v" "c < vnext v" "c \<noteq> vnext v"
      using pl vn by (auto simp: word_less_nat_alt)
    moreover have "check_bit_v v c \<longleftrightarrow> unat c \<in> R" using rel late by (simp add: check_bit_v_pos)
    ultimately show ?thesis using rel_late [OF rel late] late rel
      by (simp add: mark_did_receive_def max_absorb1)
  next
    case near
    then have g: "vnext v < c" "\<not> c - vnext v \<ge> N_BITS"
      using vn by (auto simp: word_less_nat_alt word_le_nat_alt unat_minus_le)
    obtain v2 where v2: "(let (i, v1) = clear_to_align (vnext v) c v in do {
                 (j, v2) \<leftarrow> clear_words i c v1;
                 Some (clear_rest j c v2) }) = Some v2" "cleared n (unat c) v v2"
      using skip_cleared [OF g _ len] ok vn by (auto simp: counter_ok_def)
    from g pl vn near have "\<not> c + N_BITS < vnext v" "c \<noteq> vnext v" "\<not> c < vnext v"
      by (auto simp: word_less_nat_alt)
    then have "mark_did_receive c v = Some (Inr (), (set_bit_v c v2)\<lparr>vnext := c + 1\<rparr>)"
      using g(2) v2(1) by (simp add: mark_did_receive_def Let_def)
    then show ?thesis using rel_skip_near [OF rel ok near v2(2)] near by (simp add: max_def)
  next
    case far
    then have "\<not> c + N_BITS < vnext v" "c \<noteq> vnext v" "\<not> c < vnext v" "c - vnext v \<ge> N_BITS"
      using vn pl by (auto simp: word_less_nat_alt word_le_nat_alt unat_sub_if')
    then show ?thesis using rel_skip_far [OF rel ok far] far
      by (simp add: mark_did_receive_def Let_def max_def)
  qed
qed

section \<open>Runs of a replay filter\<close>

text \<open>
  Offer a sequence of items to a filter, one after the other; the items it let through, in
  order, each with what the filter returned for it.
\<close>

primrec filter_run :: "('p \<Rightarrow> 's \<Rightarrow> (('e + 'r) \<times> 's) option) \<Rightarrow> 'p list \<Rightarrow> 's \<Rightarrow> (('p \<times> 'r) list \<times> 's) option" where
  "filter_run mk [] s = Some ([], s)"
| "filter_run mk (p # ps) s = do {
     (r, s1) \<leftarrow> mk p s;
     (acc, s2) \<leftarrow> filter_run mk ps s1;
     Some ((case r of Inr x \<Rightarrow> (p, x) # acc | Inl _ \<Rightarrow> acc), s2)
   }"

text \<open>
  What a receiver relies on: a filter related to the set of keys it has let through, which
  lets an item through only when its key is not in that set, and always answers.
\<close>

locale replay_filter =
  fixes start :: 's
    and mk :: "'p \<Rightarrow> 's \<Rightarrow> (('e + 'r) \<times> 's) option"
    and key :: "'p \<Rightarrow> 'c"
    and admissible :: "'p \<Rightarrow> bool"
    and passed :: "'s \<Rightarrow> 'c set \<Rightarrow> bool"
  assumes start_passed: "passed start {}"
    and mk_accepts: "passed s P \<Longrightarrow> admissible p \<Longrightarrow> mk p s = Some (Inr x, s') \<Longrightarrow>
      key p \<notin> P \<and> passed s' (insert (key p) P)"
    and mk_refuses: "passed s P \<Longrightarrow> admissible p \<Longrightarrow> mk p s = Some (Inl e, s') \<Longrightarrow> passed s' P"
    and mk_answers: "passed s P \<Longrightarrow> admissible p \<Longrightarrow> mk p s \<noteq> None"
begin

lemma run_fresh:
  assumes "passed s P" and "\<forall>p \<in> set ps. admissible p"
  shows "\<exists>acc s'. filter_run mk ps s = Some (acc, s') \<and> distinct (map (key \<circ> fst) acc) \<and>
    key ` fst ` set acc \<inter> P = {} \<and> fst ` set acc \<subseteq> set ps \<and> passed s' (P \<union> key ` fst ` set acc)"
  using assms
proof (induction ps arbitrary: s P)
  case Nil
  then show ?case by simp
next
  case (Cons p ps)
  then obtain r s1 where r: "mk p s = Some (r, s1)" using mk_answers [of s P p] by auto
  show ?case
  proof (cases r)
    case (Inl e)
    then have "passed s1 P" using mk_refuses [of s P p e s1] Cons.prems r by simp
    from Cons.IH [OF this] Cons.prems(2) show ?thesis using r Inl by (fastforce simp del: o_apply)
  next
    case (Inr x)
    then have new: "key p \<notin> P" "passed s1 (insert (key p) P)"
      using mk_accepts [of s P p x s1] Cons.prems r by auto
    have "\<forall>p \<in> set ps. admissible p" using Cons.prems(2) by simp
    from Cons.IH [OF new(2) this] obtain acc s' where
      IH: "filter_run mk ps s1 = Some (acc, s')" "distinct (map (key \<circ> fst) acc)"
        "key ` fst ` set acc \<inter> insert (key p) P = {}" "fst ` set acc \<subseteq> set ps"
        "passed s' (insert (key p) P \<union> key ` fst ` set acc)" by blast
    have "key p \<notin> (key \<circ> fst) ` set acc" using IH(3) by (auto simp: image_comp [symmetric])
    moreover have "passed s' (P \<union> key ` fst ` set ((p, x) # acc))" using IH(5) by simp
    ultimately show ?thesis using IH r Inr new(1) by (auto simp: o_def)
  qed
qed

lemma run_distinct:
  assumes "\<forall>p \<in> set ps. admissible p"
  shows "\<exists>acc s'. filter_run mk ps start = Some (acc, s') \<and> distinct (map (key \<circ> fst) acc) \<and>
    fst ` set acc \<subseteq> set ps"
  using run_fresh [OF start_passed assms] by blast

end

definition validator_passed :: "validator \<Rightarrow> u64 set \<Rightarrow> bool" where
  "validator_passed v P \<longleftrightarrow> (\<exists>n. window_rel v (n, unat ` P))"

lemma aw_accepts_fresh: "window_rel v (n, R) \<Longrightarrow> aw_accepts (n, R) c \<Longrightarrow> c \<notin> R"
  by fastforce

interpretation vf: replay_filter validator_default mark_did_receive id counter_ok validator_passed
proof
  show "validator_passed validator_default {}"
    using window_rel_default by (auto simp: validator_passed_def)
next
  fix s P c u s' assume *: "validator_passed s P" "counter_ok c" "mark_did_receive c s = Some (Inr u, s')"
  then obtain n where n: "window_rel s (n, unat ` P)" by (auto simp: validator_passed_def)
  with mark_refines [OF n *(2)] *(3) have "aw_accepts (n, unat ` P) (unat c)"
      "window_rel s' (aw_mark (n, unat ` P) (unat c))" by (auto split: if_splits simp del: aw_accepts.simps)
  then show "id c \<notin> P \<and> validator_passed s' (insert (id c) P)"
    using aw_accepts_fresh [OF n] by (auto simp: validator_passed_def simp del: window_rel.simps)
next
  fix s P c e s' assume *: "validator_passed s P" "counter_ok c" "mark_did_receive c s = Some (Inl e, s')"
  then obtain n where n: "window_rel s (n, unat ` P)" by (auto simp: validator_passed_def)
  with mark_refines [OF n *(2)] *(3) have "window_rel s' (n, unat ` P)"
    by (auto split: if_splits simp del: aw_accepts.simps window_rel.simps)
  then show "validator_passed s' P" by (auto simp: validator_passed_def simp del: window_rel.simps)
next
  fix s P c assume "validator_passed s P" "counter_ok c"
  then show "mark_did_receive c s \<noteq> None"
    using mark_refines [of s _ _ c] by (fastforce simp: validator_passed_def simp del: window_rel.simps)
qed

text \<open>Every mark returns, also for counters at the top of the range: the middle loop is only
  reached when its increments cannot wrap.\<close>

lemma mark_returns: "length (bitmap v) = N_WORDS \<Longrightarrow> \<exists>r v'. mark_did_receive c v = Some (r, v') \<and>
    length (bitmap v') = N_WORDS"
proof (cases "\<not> c + N_BITS < vnext v \<and> vnext v < c \<and> \<not> c - vnext v \<ge> N_BITS")
  case True
  assume len: "length (bitmap v) = N_WORDS"
  have "unat (c - vnext v) = unat c - unat (vnext v)" using True by (blast intro: unat_minus_le order_less_imp_le)
  then have "unat c - unat (vnext v) < 1024" using True by (simp add: word_le_nat_alt)
  moreover have "unat (vnext v) < unat c" using True by (simp add: word_less_nat_alt)
  moreover have "unat (vnext v) \<le> (unat c + 1024) mod 2 ^ 64"
    using True by (simp add: word_le_nat_alt unat_word_ariths not_less)
  moreover have "unat c < 2 ^ 64" using unat_bound [of c] by simp
  moreover have "(unat c + 1024) mod 2 ^ 64 = unat c + 1024 - 2 ^ 64"
    if "2 ^ 64 \<le> unat c + 1024" using \<open>unat c < 2 ^ 64\<close> that by (simp add: le_mod_geq)
  ultimately have "unat c + 64 < 2 ^ 64"
    by (cases "2 ^ 64 \<le> unat c + 1024") simp_all
  from skip_cleared [OF _ _ this len] True obtain v2 where
    v2: "(let (i, v1) = clear_to_align (vnext v) c v in do {
                 (j, v2) \<leftarrow> clear_words i c v1;
                 Some (clear_rest j c v2) }) = Some v2" "length (bitmap v2) = N_WORDS"
    using len by (auto simp: cleared_def)
  with True show ?thesis by (auto simp: mark_did_receive_def Let_def)
next
  case False
  assume "length (bitmap v) = N_WORDS"
  with False show ?thesis by (auto simp: mark_did_receive_def Let_def not_less)
qed

section \<open>Properties of the window\<close>

text \<open>C8 Marking a counter does to the ring exactly what receiving it does to the abstract window
  (all counters ever received, one more than the highest): it answers Ok exactly when the
  counter is new and at most 1024 behind, and the resulting ring represents the resulting
  window, through every one of the branches and clearing loops.\<close>

theorem replay_window_simulates:
  assumes "window_rel v (n, R)" and "counter_ok c"
  shows "\<exists>v'. mark_did_receive c v =
      Some (if aw_accepts (n, R) (unat c) then Inr () else Inl InvalidCounter, v') \<and>
    window_rel v' (if aw_accepts (n, R) (unat c) then aw_mark (n, R) (unat c) else (n, R))"
  by (rule mark_refines [OF assms])

theorem replay_window_simulates_witness:
  "\<exists>v'. mark_did_receive 70 validator_default = Some (Inr (), v') \<and> window_rel v' (71, {70})"
  using replay_window_simulates [of validator_default 0 "{}" 70] window_rel_default
  by (simp add: counter_ok_def)

text \<open>Over any sequence of packets, in any order and with any repetitions, no counter is let
  through twice: the counters a fresh window accepts are pairwise distinct.\<close>

theorem replay_never_accepts_twice:
  assumes "\<forall>c \<in> set cs. counter_ok c"
  shows "\<exists>acc v. filter_run mark_did_receive cs validator_default = Some (acc, v) \<and>
    distinct (map fst acc) \<and> fst ` set acc \<subseteq> set cs"
  using vf.run_distinct [OF assms] by simp

theorem replay_never_accepts_twice_witness:
  "\<exists>acc v. filter_run mark_did_receive [0, 0, 1, 63, 15, 63, 5000, 0] validator_default = Some (acc, v) \<and>
    distinct (map fst acc) \<and> fst ` set acc \<subseteq> {0, 1, 63, 15, 5000}"
  using replay_never_accepts_twice [of "[0, 0, 1, 63, 15, 63, 5000, 0]"]
  by (simp add: counter_ok_def insert_commute)

text \<open>The quick check before decryption and the mark after it agree: on the same window the
  one answers Ok exactly when the other does, so an authentic packet that passes the check is
  not lost at the mark.\<close>

theorem replay_quick_check_agrees:
  assumes "window_rel v (n, R)" and "counter_ok c"
  shows "will_accept v c = Inr () \<longleftrightarrow> (\<exists>v'. mark_did_receive c v = Some (Inr (), v'))"
  using mark_refines [OF assms] will_accept_iff [OF assms] by auto

theorem replay_quick_check_agrees_witness:
  "will_accept validator_default 9 = Inr () \<longleftrightarrow>
    (\<exists>v'. mark_did_receive 9 validator_default = Some (Inr (), v'))"
  by (rule replay_quick_check_agrees [OF window_rel_default]) (simp add: counter_ok_def)

text \<open>At the very top of the counter range the window loses its memory: the last counter
  makes \<open>next\<close> wrap to 0, and the same packet counter is accepted again. The sender's
  \<open>REJECT_AFTER_MESSAGES\<close> limit, which would keep a session away from it, is not enforced.\<close>

theorem replay_window_wraps:
  "\<exists>v1 v2. mark_did_receive (0 - 1) validator_default = Some (Inr (), v1) \<and> vnext v1 = 0 \<and>
    mark_did_receive (0 - 1) v1 = Some (Inr (), v2)"
  by (simp add: mark_did_receive_def validator_default_def set_bit_v_def Let_def)

end
