(* ===== verification/Crypto.thy ===== *)
theory Crypto
  imports Errors
begin

text \<open>
  The cryptographic functions of src/nekolink-core/src/noise/handshake.rs. The primitives come
  from the crates ring, blake2, hmac, chacha20poly1305 and x25519-dalek and are parameters: the
  fields of \<open>crypto\<close>. Hashing a sequence of updates is hashing their concatenation. What the
  code relies on is \<open>crypto_ok\<close>: output lengths, agreement of the two ends of a Diffie-Hellman
  exchange, and opening what was sealed. Nothing is assumed about secrecy or collisions.
\<close>

section \<open>The primitives\<close>

record crypto =
  blake2s :: "bytes \<Rightarrow> bytes"
  hmac_blake2s :: "bytes \<Rightarrow> bytes \<Rightarrow> bytes"
  blake2s_mac :: "nat \<Rightarrow> bytes \<Rightarrow> bytes \<Rightarrow> bytes"
  x25519_public :: "bytes \<Rightarrow> bytes"
  x25519_dh :: "bytes \<Rightarrow> bytes \<Rightarrow> bytes"
  chacha_seal :: "bytes \<Rightarrow> bytes \<Rightarrow> bytes \<Rightarrow> bytes \<Rightarrow> bytes \<times> bytes"
  chacha_open :: "bytes \<Rightarrow> bytes \<Rightarrow> bytes \<Rightarrow> bytes \<Rightarrow> bytes option"
  xchacha_seal :: "bytes \<Rightarrow> bytes \<Rightarrow> bytes \<Rightarrow> bytes \<Rightarrow> bytes \<times> bytes"
  xchacha_open :: "bytes \<Rightarrow> bytes \<Rightarrow> bytes \<Rightarrow> bytes \<Rightarrow> bytes option"

definition aead_ok :: "(bytes \<Rightarrow> bytes \<Rightarrow> bytes \<Rightarrow> bytes \<Rightarrow> bytes \<times> bytes) \<Rightarrow>
    (bytes \<Rightarrow> bytes \<Rightarrow> bytes \<Rightarrow> bytes \<Rightarrow> bytes option) \<Rightarrow> bool" where
  "aead_ok sl op \<longleftrightarrow>
     (\<forall>k n a p. length (fst (sl k n a p)) = length p \<and> length (snd (sl k n a p)) = 16 \<and>
       op k n a (fst (sl k n a p) @ snd (sl k n a p)) = Some p) \<and>
     (\<forall>k n a c p. op k n a c = Some p \<longrightarrow> length c = length p + 16)"

definition crypto_ok :: "crypto \<Rightarrow> bool" where
  "crypto_ok C \<longleftrightarrow>
     (\<forall>d. length (blake2s C d) = 32) \<and> (\<forall>k d. length (hmac_blake2s C k d) = 32) \<and>
     (\<forall>n k d. length (blake2s_mac C n k d) = n) \<and> (\<forall>s. length (x25519_public C s) = 32) \<and>
     (\<forall>a b. x25519_dh C a (x25519_public C b) = x25519_dh C b (x25519_public C a)) \<and>
     aead_ok (chacha_seal C) (chacha_open C) \<and> aead_ok (xchacha_seal C) (xchacha_open C)"

lemma crypto_lengths:
  assumes "crypto_ok C"
  shows "length (blake2s C d) = 32" "length (hmac_blake2s C k d) = 32"
    "length (blake2s_mac C n k d) = n" "length (x25519_public C s) = 32"
  using assms by (simp_all add: crypto_ok_def)

lemma dh_agree: "crypto_ok C \<Longrightarrow>
    x25519_dh C a (x25519_public C b) = x25519_dh C b (x25519_public C a)"
  by (simp add: crypto_ok_def)

lemma aead_lengths:
  "aead_ok sl op \<Longrightarrow> sl k n a p = (c, t) \<Longrightarrow> length c = length p \<and> length t = 16"
  unfolding aead_ok_def by (metis fst_conv snd_conv)

lemma aead_open_seal: "aead_ok sl op \<Longrightarrow> sl k n a p = (c, t) \<Longrightarrow> op k n a (c @ t) = Some p"
  unfolding aead_ok_def by (metis fst_conv snd_conv)

lemma aead_open_length: "aead_ok sl op \<Longrightarrow> op k n a c = Some p \<Longrightarrow> length c = length p + 16"
  unfolding aead_ok_def by blast

section \<open>The wrappers of handshake.rs\<close>

definition LABEL_MAC1 :: bytes where
  "LABEL_MAC1 = [109, 97, 99, 49, 45, 45, 45, 45]"

definition LABEL_COOKIE :: bytes where
  "LABEL_COOKIE = [99, 111, 111, 107, 105, 101, 45, 45]"

definition INITIAL_CHAIN_KEY :: bytes where
  "INITIAL_CHAIN_KEY =
     [96, 226, 109, 174, 243, 39, 239, 192, 46, 195, 53, 226, 160, 37, 210, 208, 22, 235, 66, 6, 248,
      114, 119, 245, 45, 56, 209, 152, 139, 120, 205, 54]"

definition INITIAL_CHAIN_HASH :: bytes where
  "INITIAL_CHAIN_HASH =
     [34, 17, 179, 97, 8, 26, 197, 102, 105, 18, 67, 219, 69, 138, 213, 50, 45, 156, 108, 102, 34,
      147, 232, 183, 14, 225, 156, 101, 186, 7, 158, 243]"

definition b2s_hash :: "crypto \<Rightarrow> bytes \<Rightarrow> bytes \<Rightarrow> bytes" where
  "b2s_hash C data1 data2 = blake2s C (data1 @ data2)"

definition b2s_hmac :: "crypto \<Rightarrow> bytes \<Rightarrow> bytes \<Rightarrow> bytes" where
  "b2s_hmac C key data1 = hmac_blake2s C key data1"

definition b2s_hmac2 :: "crypto \<Rightarrow> bytes \<Rightarrow> bytes \<Rightarrow> bytes \<Rightarrow> bytes" where
  "b2s_hmac2 C key data1 data2 = hmac_blake2s C key (data1 @ data2)"

definition b2s_keyed_mac_16 :: "crypto \<Rightarrow> bytes \<Rightarrow> bytes \<Rightarrow> bytes" where
  "b2s_keyed_mac_16 C key data1 = blake2s_mac C 16 key data1"

definition b2s_keyed_mac_16_2 :: "crypto \<Rightarrow> bytes \<Rightarrow> bytes \<Rightarrow> bytes \<Rightarrow> bytes" where
  "b2s_keyed_mac_16_2 C key data1 data2 = blake2s_mac C 16 key (data1 @ data2)"

definition b2s_mac_24 :: "crypto \<Rightarrow> bytes \<Rightarrow> bytes \<Rightarrow> bytes" where
  "b2s_mac_24 C key data1 = blake2s_mac C 24 key data1"

text \<open>The 96 bit nonce: four zero bytes and the counter in little endian.\<close>

definition counter_nonce :: "u64 \<Rightarrow> bytes" where
  "counter_nonce counter = replicate 4 0 @ u64_le counter"

definition aead_chacha20_seal_inner :: "crypto \<Rightarrow> bytes \<Rightarrow> bytes \<Rightarrow> bytes \<Rightarrow> bytes \<Rightarrow> bytes" where
  "aead_chacha20_seal_inner C key nonce data aad =
     (let (ct, tag) = chacha_seal C key nonce aad data in ct @ tag)"

definition aead_chacha20_seal :: "crypto \<Rightarrow> bytes \<Rightarrow> u64 \<Rightarrow> bytes \<Rightarrow> bytes \<Rightarrow> bytes" where
  "aead_chacha20_seal C key counter data aad =
     aead_chacha20_seal_inner C key (counter_nonce counter) data aad"

text \<open>
  Opening copies the plaintext into a buffer of \<open>buf_len\<close> bytes with \<open>copy_from_slice\<close>, which
  panics (\<open>None\<close>) when the lengths differ.
\<close>

definition aead_chacha20_open_inner ::
    "crypto \<Rightarrow> nat \<Rightarrow> bytes \<Rightarrow> bytes \<Rightarrow> bytes \<Rightarrow> bytes \<Rightarrow> (unit + bytes) option" where
  "aead_chacha20_open_inner C buf_len key nonce data aad =
     (case chacha_open C key nonce aad data of
        None \<Rightarrow> Some (Inl ())
      | Some plaintext \<Rightarrow> if length plaintext = buf_len then Some (Inr plaintext) else None)"

definition aead_chacha20_open ::
    "crypto \<Rightarrow> nat \<Rightarrow> bytes \<Rightarrow> u64 \<Rightarrow> bytes \<Rightarrow> bytes \<Rightarrow> (wg_error + bytes) option" where
  "aead_chacha20_open C buf_len key counter data aad =
     (case aead_chacha20_open_inner C buf_len key (counter_nonce counter) data aad of
        None \<Rightarrow> None
      | Some (Inl _) \<Rightarrow> Some (Inl InvalidAeadTag)
      | Some (Inr plaintext) \<Rightarrow> Some (Inr plaintext))"

lemma length_seal:
  "crypto_ok C \<Longrightarrow> length (aead_chacha20_seal C key counter data aad) = length data + 16"
  by (auto simp: aead_chacha20_seal_def aead_chacha20_seal_inner_def crypto_ok_def
      dest: aead_lengths split: prod.split)

lemma open_seal:
  "crypto_ok C \<Longrightarrow> length data = n \<Longrightarrow>
    aead_chacha20_open C n key counter (aead_chacha20_seal C key counter data aad) aad = Some (Inr data)"
  by (auto simp: aead_chacha20_open_def aead_chacha20_open_inner_def aead_chacha20_seal_def
      aead_chacha20_seal_inner_def crypto_ok_def aead_open_seal split: prod.split)

lemma open_returns:
  "crypto_ok C \<Longrightarrow> length data = n + 16 \<Longrightarrow> \<exists>r. aead_chacha20_open C n key counter data aad = Some r"
  by (auto simp: aead_chacha20_open_def aead_chacha20_open_inner_def crypto_ok_def
      dest: aead_open_length split: option.split)

section \<open>A concrete instance\<close>

text \<open>
  Simple functions with the documented laws, on which witnesses run. They are no cryptography.
\<close>

definition pad_to :: "nat \<Rightarrow> bytes \<Rightarrow> bytes" where
  "pad_to n bs = take n (bs @ replicate n 0)"

definition toy_seal :: "bytes \<Rightarrow> bytes \<Rightarrow> bytes \<Rightarrow> bytes \<Rightarrow> bytes \<times> bytes" where
  "toy_seal k n a p = (p, pad_to 16 k)"

definition toy_open :: "bytes \<Rightarrow> bytes \<Rightarrow> bytes \<Rightarrow> bytes \<Rightarrow> bytes option" where
  "toy_open k n a c =
     (if 16 \<le> length c \<and> drop (length c - 16) c = pad_to 16 k then Some (take (length c - 16) c) else None)"

definition toy_crypto :: crypto where
  "toy_crypto = \<lparr>blake2s = pad_to 32, hmac_blake2s = (\<lambda>k d. pad_to 32 d),
     blake2s_mac = (\<lambda>n k d. pad_to n k), x25519_public = pad_to 32,
     x25519_dh = (\<lambda>a p. map2 (XOR) (pad_to 32 a) (pad_to 32 p)),
     chacha_seal = toy_seal, chacha_open = toy_open, xchacha_seal = toy_seal, xchacha_open = toy_open\<rparr>"

lemma length_pad_to [simp]: "length (pad_to n bs) = n"
  by (simp add: pad_to_def)

lemma pad_to_idem [simp]: "pad_to n (pad_to n bs) = pad_to n bs"
  by (simp add: pad_to_def)

lemma toy_aead_ok: "aead_ok toy_seal toy_open"
  by (auto simp: aead_ok_def toy_seal_def toy_open_def split: if_splits)

lemma map2_xor_comm: "map2 (XOR) xs ys = map2 (XOR) ys (xs :: bytes)"
  by (induction xs ys rule: list_induct2') (simp_all add: xor.commute)

lemma toy_crypto_ok: "crypto_ok toy_crypto"
  by (auto simp: crypto_ok_def toy_crypto_def toy_aead_ok intro: map2_xor_comm)

end
