(* ===== verification/Session.thy ===== *)
theory Session
  imports Replay_Window Wire Crypto
begin

text \<open>
  A keyed session: src/nekolink-core/src/noise/session.rs. The buffer a packet is written to
  enters only by its length; the returned slice of it is the result. \<open>usize\<close> has 64 bits.
  Formatting and receiving panic (\<open>None\<close>) when the buffer is too small.
\<close>

record session =
  receiving_index :: u32
  sending_index :: u32
  receiver_key :: bytes
  sender_key :: bytes
  sending_key_counter :: u64
  receiving_key_counter :: validator

definition session_new :: "u32 \<Rightarrow> u32 \<Rightarrow> bytes \<Rightarrow> bytes \<Rightarrow> session" where
  "session_new local_index peer_index receiving_key sending_key =
     \<lparr>receiving_index = local_index, sending_index = peer_index, receiver_key = receiving_key,
      sender_key = sending_key, sending_key_counter = 0, receiving_key_counter = validator_default\<rparr>"

definition session_local_index :: "session \<Rightarrow> nat" where
  "session_local_index s = unat (receiving_index s)"

definition receiving_counter_quick_check :: "session \<Rightarrow> u64 \<Rightarrow> wg_error + unit" where
  "receiving_counter_quick_check s counter = will_accept (receiving_key_counter s) counter"

definition receiving_counter_mark :: "u64 \<Rightarrow> session \<Rightarrow> ((wg_error + unit) \<times> session) option" where
  "receiving_counter_mark counter s =
     (case mark_did_receive counter (receiving_key_counter s) of
        None \<Rightarrow> None
      | Some (ret, v) \<Rightarrow>
          Some (ret, s\<lparr>receiving_key_counter :=
            (case ret of Inr _ \<Rightarrow> v\<lparr>receive_cnt := receive_cnt v + 1\<rparr> | Inl _ \<Rightarrow> v)\<rparr>))"

definition format_packet_data :: "crypto \<Rightarrow> bytes \<Rightarrow> nat \<Rightarrow> session \<Rightarrow> (bytes \<times> session) option" where
  "format_packet_data C src dst_len s =
     (if dst_len < length src + DATA_OVERHEAD_SZ then None
      else
        let counter = sending_key_counter s;
          (ct, tag) = chacha_seal C (sender_key s) (counter_nonce counter) [] src
        in Some (u32_le DATA @ u32_le (sending_index s) @ u64_le counter @ ct @ tag,
                 s\<lparr>sending_key_counter := counter + 1\<rparr>))"

definition receive_packet_data ::
    "crypto \<Rightarrow> packet_data \<Rightarrow> nat \<Rightarrow> session \<Rightarrow> ((wg_error + bytes) \<times> session) option" where
  "receive_packet_data C packet dst_len s =
     (if dst_len < length (pd_payload packet) then None
      else if pd_receiver_idx packet \<noteq> receiving_index s then Some (Inl WrongIndex, s)
      else case receiving_counter_quick_check s (pd_counter packet) of
        Inl e \<Rightarrow> Some (Inl e, s)
      | Inr _ \<Rightarrow>
          (case chacha_open C (receiver_key s) (counter_nonce (pd_counter packet)) [] (pd_payload packet) of
             None \<Rightarrow> Some (Inl InvalidAeadTag, s)
           | Some ret \<Rightarrow> do {
               (m, s1) \<leftarrow> receiving_counter_mark (pd_counter packet) s;
               Some ((case m of Inl e \<Rightarrow> Inl e | Inr _ \<Rightarrow> Inr ret), s1)
             }))"

definition current_packet_cnt :: "session \<Rightarrow> u64 \<times> u64" where
  "current_packet_cnt s = (vnext (receiving_key_counter s), receive_cnt (receiving_key_counter s))"

section \<open>Receiving\<close>

definition session_passed :: "session \<Rightarrow> u64 set \<Rightarrow> bool" where
  "session_passed s P \<longleftrightarrow> validator_passed (receiving_key_counter s) P"

lemma pos_bit_receive_cnt [simp]: "pos_bit (v\<lparr>receive_cnt := k\<rparr>) p = pos_bit v p"
  by (simp add: pos_bit_def)

lemma window_rel_receive_cnt [simp]: "window_rel (v\<lparr>receive_cnt := k\<rparr>) a = window_rel v a"
  by (cases a) simp

lemma session_new_passed: "session_passed (session_new li pi rk sk) {}"
  by (simp add: session_passed_def session_new_def vf.start_passed)

lemma mark_accepts:
  assumes "session_passed s P" "counter_ok c" "receiving_counter_mark c s = Some (Inr u, s')"
  shows "c \<notin> P \<and> session_passed s' (insert c P)"
proof -
  obtain v where v: "mark_did_receive c (receiving_key_counter s) = Some (Inr u, v)"
    "s' = s\<lparr>receiving_key_counter := v\<lparr>receive_cnt := receive_cnt v + 1\<rparr>\<rparr>"
    using assms(3) by (auto simp: receiving_counter_mark_def split: option.splits sum.splits)
  with vf.mk_accepts [of "receiving_key_counter s" P c u v] assms(1,2) show ?thesis
    by (simp add: session_passed_def validator_passed_def)
qed

lemma mark_refuses:
  assumes "session_passed s P" "counter_ok c" "receiving_counter_mark c s = Some (Inl e, s')"
  shows "session_passed s' P"
proof -
  obtain v where v: "mark_did_receive c (receiving_key_counter s) = Some (Inl e, v)"
    "s' = s\<lparr>receiving_key_counter := v\<rparr>"
    using assms(3) by (auto simp: receiving_counter_mark_def split: option.splits sum.splits)
  with vf.mk_refuses [of "receiving_key_counter s" P c e v] assms(1,2) show ?thesis
    by (simp add: session_passed_def)
qed

lemma mark_answers:
  "session_passed s P \<Longrightarrow> counter_ok c \<Longrightarrow> receiving_counter_mark c s \<noteq> None"
  using vf.mk_answers [of "receiving_key_counter s" P c]
  by (auto simp: session_passed_def receiving_counter_mark_def split: option.splits)

lemma receive_cases:
  assumes "receive_packet_data C p n s = Some (r, s')"
  shows "(s' = s \<and> (\<exists>e. r = Inl e)) \<or>
    (\<exists>pt m. chacha_open C (receiver_key s) (counter_nonce (pd_counter p)) [] (pd_payload p) = Some pt \<and>
       pd_receiver_idx p = receiving_index s \<and>
       receiving_counter_mark (pd_counter p) s = Some (m, s') \<and>
       r = (case m of Inl e \<Rightarrow> Inl e | Inr _ \<Rightarrow> Inr pt))"
  using assms by (auto simp: receive_packet_data_def split: if_splits sum.splits option.splits bind_splits)

lemma receive_frames [frame_simps]:
  assumes "receive_packet_data C p n s = Some (r, s')"
  shows "receiving_index s' = receiving_index s" "sending_index s' = sending_index s"
    "receiver_key s' = receiver_key s" "sender_key s' = sender_key s"
    "sending_key_counter s' = sending_key_counter s"
  using receive_cases [OF assms]
  by (auto simp: receiving_counter_mark_def split: option.splits)

text \<open>A receiver that offers buffers of \<open>n\<close> bytes filters packets by their counter.\<close>

definition receivable :: "nat \<Rightarrow> packet_data \<Rightarrow> bool" where
  "receivable n p \<longleftrightarrow> counter_ok (pd_counter p) \<and> length (pd_payload p) \<le> n"

interpretation sf: replay_filter "session_new li pi rk sk" "\<lambda>p. receive_packet_data C p n"
  pd_counter "receivable n" session_passed for li pi rk sk C n
proof
  show "session_passed (session_new li pi rk sk) {}" by (rule session_new_passed)
next
  fix s P p x s' assume *: "session_passed s P" "receivable n p" "receive_packet_data C p n s = Some (Inr x, s')"
  from receive_cases [OF *(3)] obtain u where "receiving_counter_mark (pd_counter p) s = Some (Inr u, s')"
    by (fastforce split: sum.splits)
  with * show "pd_counter p \<notin> P \<and> session_passed s' (insert (pd_counter p) P)"
    using mark_accepts by (auto simp: receivable_def)
next
  fix s P p e s' assume *: "session_passed s P" "receivable n p" "receive_packet_data C p n s = Some (Inl e, s')"
  from receive_cases [OF *(3)] consider "s' = s" |
    e' where "receiving_counter_mark (pd_counter p) s = Some (Inl e', s')" by (fastforce split: sum.splits)
  then show "session_passed s' P" using * mark_refuses by cases (auto simp: receivable_def)
next
  fix s P p assume "session_passed s P" "receivable n p"
  then show "receive_packet_data C p n s \<noteq> None"
    using mark_answers [of s P "pd_counter p"]
    by (auto simp: receivable_def receive_packet_data_def split: sum.splits option.splits)
qed

section \<open>Streams of packets\<close>

text \<open>Format a list of payloads one after the other, into buffers of \<open>n\<close> bytes.\<close>

primrec format_packets :: "crypto \<Rightarrow> nat \<Rightarrow> bytes list \<Rightarrow> session \<Rightarrow> (bytes list \<times> session) option" where
  "format_packets C n [] s = Some ([], s)"
| "format_packets C n (src # srcs) s = do {
     (p, s1) \<leftarrow> format_packet_data C src n s;
     (ps, s2) \<leftarrow> format_packets C n srcs s1;
     Some (p # ps, s2)
   }"

text \<open>\<open>d\<close> is packet number \<open>c\<close> with payload \<open>src\<close>, for the receiver \<open>idx\<close> that holds \<open>key\<close>.\<close>

definition carries :: "crypto \<Rightarrow> bytes \<Rightarrow> u32 \<Rightarrow> u64 \<Rightarrow> bytes \<Rightarrow> packet_data \<Rightarrow> bool" where
  "carries C key idx c src d \<longleftrightarrow> pd_receiver_idx d = idx \<and> pd_counter d = c \<and>
     length (pd_payload d) = length src + 16 \<and>
     chacha_open C key (counter_nonce c) [] (pd_payload d) = Some src"

lemma format_carries:
  assumes "crypto_ok C" and "format_packet_data C src n s = Some (pkt, s')"
  shows "s' = s\<lparr>sending_key_counter := sending_key_counter s + 1\<rparr> \<and>
    (\<exists>d. parse_incoming_packet pkt = Inr (PacketData d) \<and>
      carries C (sender_key s) (sending_index s) (sending_key_counter s) src d)"
proof -
  let ?c = "sending_key_counter s"
  obtain ct tag where seal: "chacha_seal C (sender_key s) (counter_nonce ?c) [] src = (ct, tag)" by fastforce
  have ok: "aead_ok (chacha_seal C) (chacha_open C)" using assms(1) by (simp add: crypto_ok_def)
  from aead_lengths [OF ok seal] have len: "length ct = length src" "length tag = 16" by simp_all
  have pkt: "pkt = u32_le DATA @ u32_le (sending_index s) @ u64_le ?c @ (ct @ tag)"
    and s': "s' = s\<lparr>sending_key_counter := ?c + 1\<rparr>"
    using assms(2) seal by (auto simp: format_packet_data_def Let_def split: if_splits)
  have "parse_incoming_packet pkt = Inr (PacketData
      \<lparr>pd_receiver_idx = sending_index s, pd_counter = ?c, pd_payload = ct @ tag\<rparr>)"
    unfolding pkt by (rule parse_formatted_data) (simp add: len)
  then show ?thesis using s' len aead_open_seal [OF ok seal] by (simp add: carries_def)
qed

lemma format_packets_carry:
  assumes "crypto_ok C" and "format_packets C n srcs s = Some (ps, s')"
  shows "\<exists>ds. map parse_incoming_packet ps = map (\<lambda>d. Inr (PacketData d)) ds \<and> length ds = length srcs \<and>
    (\<forall>i < length srcs. carries C (sender_key s) (sending_index s)
      (sending_key_counter s + word_of_nat i) (srcs ! i) (ds ! i))"
  using assms(2)
proof (induction srcs arbitrary: s ps)
  case Nil
  then show ?case by simp
next
  case (Cons src srcs)
  then obtain p s1 ps1 where step: "format_packet_data C src n s = Some (p, s1)"
      "format_packets C n srcs s1 = Some (ps1, s')" "ps = p # ps1" by (auto split: bind_splits)
  from format_carries [OF assms(1) step(1)] obtain d where
    s1: "s1 = s\<lparr>sending_key_counter := sending_key_counter s + 1\<rparr>" and
    d: "parse_incoming_packet p = Inr (PacketData d)"
      "carries C (sender_key s) (sending_index s) (sending_key_counter s) src d" by blast
  from Cons.IH [OF step(2)] obtain ds where
    ds: "map parse_incoming_packet ps1 = map (\<lambda>d. Inr (PacketData d)) ds" "length ds = length srcs"
      "\<forall>i < length srcs. carries C (sender_key s) (sending_index s)
        (sending_key_counter s + 1 + word_of_nat i) (srcs ! i) (ds ! i)" using s1 by auto
  have "carries C (sender_key s) (sending_index s) (sending_key_counter s + word_of_nat i)
      ((src # srcs) ! i) ((d # ds) ! i)" if "i < length (src # srcs)" for i
    using that d(2) ds(3) by (cases i) (auto simp: add.assoc)
  with d(1) ds(1,2) step(3) show ?case by (intro exI [of _ "d # ds"]) simp
qed

lemma run_outputs:
  assumes "filter_run (\<lambda>p. receive_packet_data C p n) ps s = Some (acc, s')"
  shows "\<forall>(p, x) \<in> set acc. chacha_open C (receiver_key s) (counter_nonce (pd_counter p)) [] (pd_payload p) = Some x"
  using assms
proof (induction ps arbitrary: s acc)
  case Nil
  then show ?case by simp
next
  case (Cons p ps)
  then obtain r s1 acc1 where r: "receive_packet_data C p n s = Some (r, s1)"
      "filter_run (\<lambda>p. receive_packet_data C p n) ps s1 = Some (acc1, s')"
      "acc = (case r of Inr x \<Rightarrow> (p, x) # acc1 | Inl _ \<Rightarrow> acc1)" by (auto split: bind_splits)
  show ?case using Cons.IH [OF r(2)] receive_frames(3) [OF r(1)] receive_cases [OF r(1)] r(3)
    by (fastforce split: sum.splits)
qed

lemma receive_good:
  assumes "carries C (receiver_key r) (receiving_index r) c src d" and "length src + 16 \<le> n"
    and "window_rel (receiving_key_counter r) (k, R)" and "counter_ok c" and "aw_accepts (k, R) (unat c)"
  shows "\<exists>r'. receive_packet_data C d n r = Some (Inr src, r') \<and>
    window_rel (receiving_key_counter r') (aw_mark (k, R) (unat c)) \<and>
    receiver_key r' = receiver_key r \<and> receiving_index r' = receiving_index r"
proof -
  from mark_refines [OF assms(3,4)] assms(5) obtain v where
    "mark_did_receive c (receiving_key_counter r) = Some (Inr (), v)"
    "window_rel v (aw_mark (k, R) (unat c))" by auto
  moreover have "will_accept (receiving_key_counter r) c = Inr ()"
    using will_accept_iff [OF assms(3,4)] assms(5) by simp
  ultimately show ?thesis using assms(1,2)
    by (simp add: carries_def receive_packet_data_def receiving_counter_quick_check_def
        receiving_counter_mark_def)
qed

lemma receive_in_order:
  assumes "\<forall>i < length srcs. carries C (receiver_key r) (receiving_index r)
      (word_of_nat (k + i)) (srcs ! i) (ds ! i)" and "length ds = length srcs"
    and "k + length srcs + 1024 < 2 ^ 64" and "\<forall>src \<in> set srcs. length src + 16 \<le> n"
    and "window_rel (receiving_key_counter r) (k, R)"
  shows "\<exists>r'. filter_run (\<lambda>p. receive_packet_data C p n) ds r = Some (zip ds srcs, r')"
  using assms
proof (induction srcs arbitrary: ds k R r)
  case Nil
  then show ?case by simp
next
  case (Cons src srcs)
  then obtain d ds1 where ds: "ds = d # ds1" by (cases ds) auto
  let ?c = "word_of_nat k :: u64"
  have c: "unat ?c = k" "counter_ok ?c" using Cons.prems(3)
    by (simp_all add: counter_ok_def unat_word_of_nat_small)
  have "carries C (receiver_key r) (receiving_index r) ?c src d" using Cons.prems(1) ds by force
  moreover have "length src + 16 \<le> n" using Cons.prems(4) by simp
  ultimately obtain r1 where
    r1: "receive_packet_data C d n r = Some (Inr src, r1)"
      "window_rel (receiving_key_counter r1) (Suc k, insert k R)"
      "receiver_key r1 = receiver_key r" "receiving_index r1 = receiving_index r"
    using receive_good [OF _ _ Cons.prems(5) c(2), of C src d n] c(1) by (auto simp del: window_rel.simps)
  have "\<forall>i < length srcs. carries C (receiver_key r1) (receiving_index r1)
      (word_of_nat (Suc k + i)) (srcs ! i) (ds1 ! i)"
    using Cons.prems(1) [rule_format, of "Suc i" for i] r1(3,4) ds by (auto simp: add.assoc add.left_commute)
  from Cons.IH [OF this _ _ _ r1(2)] Cons.prems ds r1(1) show ?case by auto
qed

section \<open>Properties of a session\<close>

lemma receive_shuffled:
  assumes carry: "\<forall>i < length srcs. carries C (receiver_key r) idx (word_of_nat i) (srcs ! i) (ds ! i)"
    and len: "length ds = length srcs" "length srcs + 1024 < 2 ^ 64" "\<forall>src \<in> set srcs. length src + 16 \<le> n"
    and js: "\<forall>j \<in> set js. j < length srcs" and r: "r = session_new ri pi rk sk"
  shows "\<exists>acc r'. filter_run (\<lambda>p. receive_packet_data C p n) (map ((!) ds) js) r = Some (acc, r') \<and>
    (\<exists>ks. distinct ks \<and> set ks \<subseteq> set js \<and> map snd acc = map ((!) srcs) ks)"
proof -
  have un: "unat (word_of_nat j :: u64) = j" if "j < length srcs" for j
    using that len(2) by (simp add: unat_word_of_nat_small)
  have d: "pd_counter (ds ! j) = word_of_nat j" "length (pd_payload (ds ! j)) \<le> n"
    if "j < length srcs" for j using that carry len(3) by (auto simp: carries_def)
  have "\<forall>p \<in> set (map ((!) ds) js). receivable n p"
    using js d un len(2) by (force simp: receivable_def counter_ok_def)
  from sf.run_distinct [OF this, where rk = rk and li = ri and pi = pi and sk = sk] obtain acc r'
    where run: "filter_run (\<lambda>p. receive_packet_data C p n) (map ((!) ds) js) r = Some (acc, r')"
      "distinct (map (pd_counter \<circ> fst) acc)" "fst ` set acc \<subseteq> set (map ((!) ds) js)"
    unfolding r by blast
  let ?k = "\<lambda>px. unat (pd_counter (fst px))"
  have one: "?k px \<in> set js \<and> snd px = srcs ! ?k px" if "px \<in> set acc" for px
  proof -
    from that run(3) have "fst px \<in> (!) ds ` set js" by auto
    then obtain j where j: "j \<in> set js" "fst px = ds ! j" by auto
    then have k: "?k px = j" "j < length srcs" using js d(1) un by auto
    have "chacha_open C (receiver_key r) (counter_nonce (pd_counter (fst px))) [] (pd_payload (fst px)) = Some (snd px)"
      using run_outputs [OF run(1)] that by force
    then show ?thesis using carry k j by (auto simp: carries_def)
  qed
  have "distinct (map ?k acc)"
  proof -
    have "map ?k acc = map unat (map (pd_counter \<circ> fst) acc)" by simp
    then show ?thesis using run(2) by (simp only: distinct_map inj_on_def) (auto simp: word_unat_eq_iff)
  qed
  moreover have "map snd acc = map ((!) srcs) (map ?k acc)" using one by simp
  ultimately show ?thesis using run(1) one by (intro exI conjI) auto
qed

text \<open>C7 Data sent over a session arrives at most once and unaltered, whatever the network does:
  format any list of packets with one end, deliver them to the matching fresh end in any order,
  with losses and repetitions (\<open>js\<close> is the order of arrival), and what the receiver hands on is
  a list of sent payloads without repeating one. It never panics on the way.\<close>

theorem session_delivers_at_most_once:
  assumes "crypto_ok C" and "format_packets C m srcs (session_new si ri k' k) = Some (ps, s')"
    and "length srcs + 1024 < 2 ^ 64" and "\<forall>src \<in> set srcs. length src + 16 \<le> n"
    and "\<forall>j \<in> set js. j < length srcs"
  shows "\<exists>ds acc r'. map parse_incoming_packet ps = map (\<lambda>d. Inr (PacketData d)) ds \<and>
    filter_run (\<lambda>p. receive_packet_data C p n) (map ((!) ds) js) (session_new ri si k k') = Some (acc, r') \<and>
    (\<exists>ks. distinct ks \<and> set ks \<subseteq> set js \<and> map snd acc = map ((!) srcs) ks)"
proof -
  from format_packets_carry [OF assms(1,2)] obtain ds where
    ds: "map parse_incoming_packet ps = map (\<lambda>d. Inr (PacketData d)) ds" "length ds = length srcs"
      "\<forall>i < length srcs. carries C k ri (word_of_nat i) (srcs ! i) (ds ! i)"
    by (auto simp: session_new_def)
  have "receiver_key (session_new ri si k k') = k" by (simp add: session_new_def)
  with receive_shuffled [of srcs C "session_new ri si k k'" ri ds n js ri si k k'] ds assms(3-5)
  show ?thesis by auto
qed

theorem session_delivers_at_most_once_witness:
  "\<exists>ps s' ds acc r'. format_packets toy_crypto 100 [[1, 2], [3]] (session_new 7 9 [5] [6]) = Some (ps, s') \<and>
    map parse_incoming_packet ps = map (\<lambda>d. Inr (PacketData d)) ds \<and>
    filter_run (\<lambda>p. receive_packet_data toy_crypto p 50) (map ((!) ds) [1, 0, 1, 1])
      (session_new 9 7 [6] [5]) = Some (acc, r') \<and>
    (\<exists>ks. distinct ks \<and> set ks \<subseteq> {0, 1} \<and> map snd acc = map ((!) [[1, 2], [3]]) ks)"
proof -
  obtain ps s' where f: "format_packets toy_crypto 100 [[1, 2], [3]] (session_new 7 9 [5] [6]) = Some (ps, s')"
    by (simp add: format_packet_data_def session_new_def toy_crypto_def toy_seal_def)
  show ?thesis
    using session_delivers_at_most_once [OF toy_crypto_ok f, of 50 "[1, 0, 1, 1]"] f by auto
qed

text \<open>C39 On a network that keeps the order, nothing is lost: every payload a session formats is
  received, in order, by the matching end.\<close>

theorem session_delivers_in_order:
  assumes "crypto_ok C" and "format_packets C m srcs (session_new si ri k' k) = Some (ps, s')"
    and "length srcs + 1024 < 2 ^ 64" and "\<forall>src \<in> set srcs. length src + 16 \<le> n"
  shows "\<exists>ds r'. map parse_incoming_packet ps = map (\<lambda>d. Inr (PacketData d)) ds \<and>
    filter_run (\<lambda>p. receive_packet_data C p n) ds (session_new ri si k k') = Some (zip ds srcs, r')"
proof -
  from format_packets_carry [OF assms(1,2)] obtain ds where
    ds: "map parse_incoming_packet ps = map (\<lambda>d. Inr (PacketData d)) ds" "length ds = length srcs"
      "\<forall>i < length srcs. carries C k ri (word_of_nat i) (srcs ! i) (ds ! i)"
    by (auto simp: session_new_def)
  with receive_in_order [of srcs C "session_new ri si k k'" 0 ds n "{}"] assms(3,4) window_rel_default
  show ?thesis by (auto simp: session_new_def simp del: window_rel.simps)
qed

theorem session_delivers_in_order_witness:
  "\<exists>ps s' ds r'. format_packets toy_crypto 100 [[1, 2], [3]] (session_new 7 9 [5] [6]) = Some (ps, s') \<and>
    map parse_incoming_packet ps = map (\<lambda>d. Inr (PacketData d)) ds \<and>
    filter_run (\<lambda>p. receive_packet_data toy_crypto p 50) ds (session_new 9 7 [6] [5]) =
      Some (zip ds [[1, 2], [3]], r')"
proof -
  obtain ps s' where f: "format_packets toy_crypto 100 [[1, 2], [3]] (session_new 7 9 [5] [6]) = Some (ps, s')"
    by (simp add: format_packet_data_def session_new_def toy_crypto_def toy_seal_def)
  show ?thesis using session_delivers_in_order [OF toy_crypto_ok f, of 50] f by auto
qed

end
