(* ===== verification/Instants.thy ===== *)
theory Instants
  imports Prelude
begin

text \<open>
  Clock readings and durations: src/nekolink-core/src/sleepyinstant/unix.rs. An instant is the
  \<open>timespec\<close> the kernel returned, a duration a number of nanoseconds. The clock itself is not
  modelled: an operation that reads it takes the reading as an argument. Subtracting a longer
  duration from a shorter one panics in Rust, so \<open>dur_sub\<close> is an option.
\<close>

type_synonym duration = nat

abbreviation secs :: "nat \<Rightarrow> duration" where
  "secs n \<equiv> n * 1000000000"

definition as_secs :: "duration \<Rightarrow> nat" where
  "as_secs d = d div 1000000000"

definition subsec_nanos :: "duration \<Rightarrow> nat" where
  "subsec_nanos d = d mod 1000000000"

definition as_millis :: "duration \<Rightarrow> nat" where
  "as_millis d = d div 1000000"

definition dur_sub :: "duration \<Rightarrow> duration \<Rightarrow> duration option" where
  "dur_sub a b = (if b \<le> a then Some (a - b) else None)"

record instant =
  tv_sec :: int
  tv_nsec :: int

definition NANOSECOND :: int where
  "NANOSECOND = 1000000000"

definition checked_duration_since :: "instant \<Rightarrow> instant \<Rightarrow> duration option" where
  "checked_duration_since self earlier =
     (let (s, n) = (if tv_nsec self < tv_nsec earlier
                    then (tv_sec self - tv_sec earlier - 1, tv_nsec self - tv_nsec earlier + NANOSECOND)
                    else (tv_sec self - tv_sec earlier, tv_nsec self - tv_nsec earlier))
      in if s < 0 then None else Some (nat s * 1000000000 + nat n))"

definition duration_since :: "instant \<Rightarrow> instant \<Rightarrow> duration" where
  "duration_since self earlier =
     (case checked_duration_since self earlier of None \<Rightarrow> 0 | Some d \<Rightarrow> d)"

text \<open>A reading the kernel can return has its nanoseconds in range; readings compare by their total.\<close>

definition wf_instant :: "instant \<Rightarrow> bool" where
  "wf_instant t \<longleftrightarrow> 0 \<le> tv_nsec t \<and> tv_nsec t < NANOSECOND"

definition ts_ns :: "instant \<Rightarrow> int" where
  "ts_ns t = tv_sec t * NANOSECOND + tv_nsec t"

lemma duration_since_eq:
  assumes "wf_instant a" and "wf_instant b"
  shows "duration_since a b = nat (ts_ns a - ts_ns b)"
proof -
  have nat_split: "nat s * 1000000000 + nat n = nat (s * 1000000000 + n)"
    if "0 \<le> s" "0 \<le> n" for s n :: int using that by (simp add: nat_add_distrib nat_mult_distrib)
  show ?thesis using assms
    by (auto simp: duration_since_def checked_duration_since_def wf_instant_def ts_ns_def
        NANOSECOND_def Let_def nat_split algebra_simps)
qed

lemma duration_since_mono:
  "wf_instant a \<Longrightarrow> wf_instant b \<Longrightarrow> wf_instant z \<Longrightarrow> ts_ns a \<le> ts_ns b \<Longrightarrow>
    duration_since a z \<le> duration_since b z"
  by (simp add: duration_since_eq nat_mono)

lemma duration_since_self [simp]: "duration_since t t = 0"
  by (simp add: duration_since_def checked_duration_since_def)

lemma dur_sub_Some [simp]: "b \<le> a \<Longrightarrow> dur_sub a b = Some (a - b)"
  by (simp add: dur_sub_def)

text \<open>The distance between two clock readings is their exact difference in nanoseconds, borrow
  from the seconds included, and zero, not a panic, when the readings are out of order.\<close>

theorem duration_since_exact:
  assumes "wf_instant a" and "wf_instant b"
  shows "int (duration_since a b) = max 0 (ts_ns a - ts_ns b)"
  by (simp add: duration_since_eq [OF assms])

theorem duration_since_exact_witness:
  "int (duration_since \<lparr>tv_sec = 7, tv_nsec = 5\<rparr> \<lparr>tv_sec = 5, tv_nsec = 999999999\<rparr>) = 1000000006"
  using duration_since_exact [of "\<lparr>tv_sec = 7, tv_nsec = 5\<rparr>" "\<lparr>tv_sec = 5, tv_nsec = 999999999\<rparr>"]
  by (simp add: wf_instant_def ts_ns_def NANOSECOND_def)

end
