(* ===== verification/Handshake.thy ===== *)
theory Handshake
  imports Session Instants
begin

text \<open>
  The Noise IKpsk2 handshake: src/nekolink-core/src/noise/handshake.rs. Ephemeral secrets and
  clock readings are arguments. A fallible operation returns its result together with the
  handshake state it leaves, because an error can come after a state change; a panic is \<open>None\<close>.
  The key schedule, which the code writes out once in the sender and once in the receiver of
  each message, is a function per message here.
\<close>

section \<open>Timestamps\<close>

record tai64n =
  tai_secs :: u64
  tai_nano :: u32

record time_stamper =
  duration_at_start :: duration
  instant_at_start :: instant

definition stamper_new :: "duration \<Rightarrow> instant \<Rightarrow> time_stamper" where
  "stamper_new system_time now = \<lparr>duration_at_start = system_time, instant_at_start = now\<rparr>"

definition TAI64_BASE :: u64 where
  "TAI64_BASE = push_bit 62 1 + 37"

definition stamp :: "instant \<Rightarrow> time_stamper \<Rightarrow> bytes" where
  "stamp now ts =
     (let d = duration_since now (instant_at_start ts) + duration_at_start ts
      in u64_be (word_of_nat (as_secs d) + TAI64_BASE) @ u32_be (word_of_nat (subsec_nanos d)))"

definition tai64n_zero :: tai64n where
  "tai64n_zero = \<lparr>tai_secs = 0, tai_nano = 0\<rparr>"

definition tai64n_parse :: "bytes \<Rightarrow> wg_error + tai64n" where
  "tai64n_parse buf =
     (if length buf < 12 then Inl InvalidTai64nTimestamp
      else Inr \<lparr>tai_secs = u64_of_be (take 8 buf), tai_nano = u32_of_be (drop 8 buf)\<rparr>)"

definition tai_after :: "tai64n \<Rightarrow> tai64n \<Rightarrow> bool" where
  "tai_after t u \<longleftrightarrow> tai_secs u < tai_secs t \<or> (tai_secs t = tai_secs u \<and> tai_nano u < tai_nano t)"

section \<open>State\<close>

record noise_params =
  static_public :: bytes
  static_private :: bytes
  peer_static_public :: bytes
  static_shared :: bytes
  sending_mac1_key :: bytes
  preshared_key :: "bytes option"

record init_sent =
  is_local_index :: u32
  is_hash :: bytes
  is_chaining_key :: bytes
  is_ephemeral_private :: bytes
  is_time_sent :: instant

datatype handshake_state =
    HsNone
  | InitSent init_sent
  | InitReceived (ir_hash: bytes) (ir_chaining_key: bytes) (ir_peer_ephemeral_public: bytes) (ir_peer_index: u32)
  | Expired

record cookies =
  last_mac1 :: "bytes option"
  cookie_index :: u32
  write_cookie :: "bytes option"

record handshake =
  params :: noise_params
  next_index :: u32
  previous :: handshake_state
  hs_state :: handshake_state
  hs_cookies :: cookies
  last_handshake_timestamp :: tai64n
  stamper :: time_stamper
  last_rtt :: "u32 option"

record half_handshake =
  hh_peer_index :: u32
  hh_peer_static_public :: bytes

definition noise_params_new :: "crypto \<Rightarrow> bytes \<Rightarrow> bytes \<Rightarrow> bytes \<Rightarrow> bytes option \<Rightarrow> noise_params" where
  "noise_params_new C priv pub peer psk =
     \<lparr>static_public = pub, static_private = priv, peer_static_public = peer,
      static_shared = x25519_dh C priv peer, sending_mac1_key = b2s_hash C LABEL_MAC1 peer,
      preshared_key = psk\<rparr>"

definition params_set_static_private :: "crypto \<Rightarrow> bytes \<Rightarrow> bytes \<Rightarrow> noise_params \<Rightarrow> noise_params option" where
  "params_set_static_private C priv pub p =
     (if x25519_public C priv \<noteq> pub then None
      else Some (p\<lparr>static_private := priv, static_public := pub,
                   static_shared := x25519_dh C priv (peer_static_public p)\<rparr>))"

definition handshake_new ::
    "crypto \<Rightarrow> bytes \<Rightarrow> bytes \<Rightarrow> bytes \<Rightarrow> u32 \<Rightarrow> bytes option \<Rightarrow> time_stamper \<Rightarrow> handshake" where
  "handshake_new C priv pub peer global_idx psk ts =
     \<lparr>params = noise_params_new C priv pub peer psk, next_index = global_idx, previous = HsNone,
      hs_state = HsNone, hs_cookies = \<lparr>last_mac1 = None, cookie_index = 0, write_cookie = None\<rparr>,
      last_handshake_timestamp = tai64n_zero, stamper = ts, last_rtt = None\<rparr>"

definition is_in_progress :: "handshake \<Rightarrow> bool" where
  "is_in_progress h \<longleftrightarrow> hs_state h \<noteq> HsNone \<and> hs_state h \<noteq> Expired"

definition timer :: "handshake \<Rightarrow> instant option" where
  "timer h = (case hs_state h of InitSent s \<Rightarrow> Some (is_time_sent s) | _ \<Rightarrow> None)"

definition set_expired :: "handshake \<Rightarrow> handshake" where
  "set_expired h = h\<lparr>previous := Expired, hs_state := Expired\<rparr>"

definition is_expired :: "handshake \<Rightarrow> bool" where
  "is_expired h \<longleftrightarrow> hs_state h = Expired"

definition has_cookie :: "handshake \<Rightarrow> bool" where
  "has_cookie h \<longleftrightarrow> write_cookie (hs_cookies h) \<noteq> None"

definition clear_cookie :: "handshake \<Rightarrow> handshake" where
  "clear_cookie h = h\<lparr>hs_cookies := (hs_cookies h)\<lparr>write_cookie := None\<rparr>\<rparr>"

text \<open>The upper 24 bits name the peer, the lower 8 count its handshakes cyclically.\<close>

definition inc_index :: "handshake \<Rightarrow> u32 \<times> handshake" where
  "inc_index h =
     (let index = next_index h; idx8 = (ucast index :: u8);
          next = (index AND NOT 0xff) OR ucast (idx8 + 1)
      in (next, h\<lparr>next_index := next\<rparr>))"

definition handshake_set_static_private :: "crypto \<Rightarrow> bytes \<Rightarrow> bytes \<Rightarrow> handshake \<Rightarrow> handshake option" where
  "handshake_set_static_private C priv pub h =
     map_option (\<lambda>p. h\<lparr>params := p\<rparr>) (params_set_static_private C priv pub (params h))"

section \<open>Key schedule\<close>

text \<open>First message up to the encrypted static key: chaining key, hash and AEAD key from the
  responder's static key, the initiator's ephemeral key and their shared secret.\<close>

definition noise_init_static :: "crypto \<Rightarrow> bytes \<Rightarrow> bytes \<Rightarrow> bytes \<Rightarrow> bytes \<times> bytes \<times> bytes" where
  "noise_init_static C responder_public ephemeral_public ephemeral_shared =
     (let hash = b2s_hash C INITIAL_CHAIN_HASH responder_public;
          hash = b2s_hash C hash ephemeral_public;
          chaining_key = b2s_hmac C (b2s_hmac C INITIAL_CHAIN_KEY ephemeral_public) [1];
          temp = b2s_hmac C chaining_key ephemeral_shared;
          chaining_key = b2s_hmac C temp [1];
          key = b2s_hmac2 C temp chaining_key [2]
      in (chaining_key, hash, key))"

text \<open>First message from the encrypted static key to the encrypted timestamp.\<close>

definition noise_init_timestamp :: "crypto \<Rightarrow> bytes \<Rightarrow> bytes \<Rightarrow> bytes \<Rightarrow> bytes \<Rightarrow> bytes \<times> bytes \<times> bytes" where
  "noise_init_timestamp C chaining_key hash encrypted_static shared =
     (let hash = b2s_hash C hash encrypted_static;
          temp = b2s_hmac C chaining_key shared;
          chaining_key = b2s_hmac C temp [1];
          key = b2s_hmac2 C temp chaining_key [2]
      in (chaining_key, hash, key))"

text \<open>Second message: from the state after the first one, the responder's ephemeral key, the two
  shared secrets and the preshared key (zero when there is none).\<close>

definition noise_response ::
    "crypto \<Rightarrow> bytes \<Rightarrow> bytes \<Rightarrow> bytes \<Rightarrow> bytes \<Rightarrow> bytes \<Rightarrow> bytes option \<Rightarrow> bytes \<times> bytes \<times> bytes" where
  "noise_response C chaining_key hash ephemeral_public ephemeral_shared static_sh psk =
     (let hash = b2s_hash C hash ephemeral_public;
          temp = b2s_hmac C chaining_key ephemeral_public;
          chaining_key = b2s_hmac C temp [1];
          temp = b2s_hmac C chaining_key ephemeral_shared;
          chaining_key = b2s_hmac C temp [1];
          temp = b2s_hmac C chaining_key static_sh;
          chaining_key = b2s_hmac C temp [1];
          temp = b2s_hmac C chaining_key (case psk of Some k \<Rightarrow> k | None \<Rightarrow> replicate 32 0);
          chaining_key = b2s_hmac C temp [1];
          temp2 = b2s_hmac2 C temp chaining_key [2];
          key = b2s_hmac2 C temp temp2 [3];
          hash = b2s_hash C hash temp2
      in (chaining_key, hash, key))"

text \<open>The transport keys \<open>(temp2, temp3)\<close>: what the initiator sends and receives with.\<close>

definition derive_keys :: "crypto \<Rightarrow> bytes \<Rightarrow> bytes \<times> bytes" where
  "derive_keys C chaining_key =
     (let temp1 = b2s_hmac C chaining_key [];
          temp2 = b2s_hmac C temp1 [1];
          temp3 = b2s_hmac2 C temp1 temp2 [2]
      in (temp2, temp3))"

section \<open>Operations\<close>

definition parse_handshake_anon ::
    "crypto \<Rightarrow> bytes \<Rightarrow> bytes \<Rightarrow> handshake_init \<Rightarrow> (wg_error + half_handshake) option" where
  "parse_handshake_anon C priv pub packet =
     (let (chaining_key, hash, key) =
            noise_init_static C pub (hi_ephemeral packet) (x25519_dh C priv (hi_ephemeral packet))
      in do {
        r \<leftarrow> aead_chacha20_open C 32 key 0 (hi_static packet) hash;
        Some (case r of
            Inl e \<Rightarrow> Inl e
          | Inr pk \<Rightarrow> Inr \<lparr>hh_peer_index = hi_sender_idx packet, hh_peer_static_public = pk\<rparr>)
      })"

text \<open>\<open>body\<close> is the message up to its two MACs.\<close>

definition append_mac1_and_mac2 :: "crypto \<Rightarrow> u32 \<Rightarrow> bytes \<Rightarrow> handshake \<Rightarrow> bytes \<times> handshake" where
  "append_mac1_and_mac2 C local_index body h =
     (let mac1 = b2s_keyed_mac_16 C (sending_mac1_key (params h)) body;
          mac2 = (case write_cookie (hs_cookies h) of
                    Some cookie \<Rightarrow> b2s_keyed_mac_16 C cookie (body @ mac1)
                  | None \<Rightarrow> replicate 16 0)
      in (body @ mac1 @ mac2,
          h\<lparr>hs_cookies := (hs_cookies h)\<lparr>cookie_index := local_index, last_mac1 := Some mac1\<rparr>\<rparr>))"

text \<open>\<open>eph\<close> is the generated ephemeral secret, \<open>now1\<close> the reading that stamps the message and \<open>now2\<close>
  the one recorded as the time it was sent.\<close>

definition format_handshake_initiation ::
    "crypto \<Rightarrow> bytes \<Rightarrow> instant \<Rightarrow> instant \<Rightarrow> nat \<Rightarrow> handshake \<Rightarrow> (wg_error + bytes) \<times> handshake" where
  "format_handshake_initiation C eph now1 now2 dst_len h =
     (if dst_len < HANDSHAKE_INIT_SZ then (Inl DestinationBufferTooSmall, h)
      else
        let (local_index, h1) = inc_index h;
            ephemeral_public = x25519_public C eph;
            (chaining_key, hash, key) = noise_init_static C (peer_static_public (params h1)) ephemeral_public
              (x25519_dh C eph (peer_static_public (params h1)));
            encrypted_static = aead_chacha20_seal C key 0 (static_public (params h1)) hash;
            (chaining_key, hash, key) =
              noise_init_timestamp C chaining_key hash encrypted_static (static_shared (params h1));
            encrypted_timestamp = aead_chacha20_seal C key 0 (stamp now1 (stamper h1)) hash;
            hash = b2s_hash C hash encrypted_timestamp;
            h2 = h1\<lparr>previous := hs_state h1,
              hs_state := InitSent \<lparr>is_local_index = local_index, is_hash = hash,
                is_chaining_key = chaining_key, is_ephemeral_private = eph, is_time_sent = now2\<rparr>\<rparr>;
            (msg, h3) = append_mac1_and_mac2 C local_index
              (u32_le HANDSHAKE_INIT @ u32_le local_index @ ephemeral_public @ encrypted_static @
                encrypted_timestamp) h2
        in (Inr msg, h3))"

definition format_handshake_response ::
    "crypto \<Rightarrow> bytes \<Rightarrow> nat \<Rightarrow> handshake \<Rightarrow> ((wg_error + bytes \<times> session) \<times> handshake) option" where
  "format_handshake_response C eph dst_len h =
     (if dst_len < HANDSHAKE_RESP_SZ then Some (Inl DestinationBufferTooSmall, h)
      else case hs_state h of
        InitReceived hash chaining_key peer_ephemeral_public peer_index \<Rightarrow>
          (let (local_index, h1) = inc_index (h\<lparr>hs_state := HsNone\<rparr>);
               ephemeral_public = x25519_public C eph;
               (chaining_key, hash, key) = noise_response C chaining_key hash ephemeral_public
                 (x25519_dh C eph peer_ephemeral_public)
                 (x25519_dh C eph (peer_static_public (params h1))) (preshared_key (params h1));
               encrypted_nothing = aead_chacha20_seal C key 0 [] hash;
               (temp2, temp3) = derive_keys C chaining_key;
               (msg, h2) = append_mac1_and_mac2 C local_index
                 (u32_le HANDSHAKE_RESP @ u32_le local_index @ u32_le peer_index @ ephemeral_public @
                   encrypted_nothing) h1
           in Some (Inr (msg, session_new local_index peer_index temp2 temp3), h2))
      | _ \<Rightarrow> None)"

definition receive_handshake_initialization ::
    "crypto \<Rightarrow> bytes \<Rightarrow> handshake_init \<Rightarrow> nat \<Rightarrow> handshake \<Rightarrow> ((wg_error + bytes \<times> session) \<times> handshake) option" where
  "receive_handshake_initialization C eph packet dst_len h =
     (let (chaining_key, hash, key) = noise_init_static C (static_public (params h)) (hi_ephemeral packet)
            (x25519_dh C (static_private (params h)) (hi_ephemeral packet))
      in do {
        r \<leftarrow> aead_chacha20_open C 32 key 0 (hi_static packet) hash;
        case r of
          Inl e \<Rightarrow> Some (Inl e, h)
        | Inr decrypted \<Rightarrow>
            if peer_static_public (params h) \<noteq> decrypted then Some (Inl WrongKey, h)
            else
              (let (chaining_key, hash, key) =
                     noise_init_timestamp C chaining_key hash (hi_static packet) (static_shared (params h))
               in do {
                 r \<leftarrow> aead_chacha20_open C 12 key 0 (hi_timestamp packet) hash;
                 case r of
                   Inl e \<Rightarrow> Some (Inl e, h)
                 | Inr buf \<Rightarrow>
                     (case tai64n_parse buf of
                        Inl e \<Rightarrow> Some (Inl e, h)
                      | Inr timestamp \<Rightarrow>
                          if \<not> tai_after timestamp (last_handshake_timestamp h)
                          then Some (Inl WrongTai64nTimestamp, h)
                          else format_handshake_response C eph dst_len
                            (h\<lparr>last_handshake_timestamp := timestamp, previous := hs_state h,
                               hs_state := InitReceived (b2s_hash C hash (hi_timestamp packet)) chaining_key
                                 (hi_ephemeral packet) (hi_sender_idx packet)\<rparr>))
               })
      })"

text \<open>The handshake a response answers: the current one or, when it was superseded, the previous.\<close>

definition awaiting :: "u32 \<Rightarrow> handshake \<Rightarrow> (init_sent \<times> bool) option" where
  "awaiting idx h =
     (case hs_state h of
        InitSent s \<Rightarrow>
          if is_local_index s = idx then Some (s, False)
          else (case previous h of
                  InitSent s' \<Rightarrow> if is_local_index s' = idx then Some (s', True) else None
                | _ \<Rightarrow> None)
      | _ \<Rightarrow>
          (case previous h of
             InitSent s' \<Rightarrow> if is_local_index s' = idx then Some (s', True) else None
           | _ \<Rightarrow> None))"

definition receive_handshake_response ::
    "crypto \<Rightarrow> instant \<Rightarrow> handshake_response \<Rightarrow> handshake \<Rightarrow> ((wg_error + session) \<times> handshake) option" where
  "receive_handshake_response C now packet h =
     (case awaiting (hr_receiver_idx packet) h of
        None \<Rightarrow> Some (Inl UnexpectedPacket, h)
      | Some (st, is_previous) \<Rightarrow>
          (let (chaining_key, hash, key) = noise_response C (is_chaining_key st) (is_hash st) (hr_ephemeral packet)
                 (x25519_dh C (is_ephemeral_private st) (hr_ephemeral packet))
                 (x25519_dh C (static_private (params h)) (hr_ephemeral packet)) (preshared_key (params h))
           in do {
             r \<leftarrow> aead_chacha20_open C 0 key 0 (hr_nothing packet) hash;
             case r of
               Inl e \<Rightarrow> Some (Inl e, h)
             | Inr _ \<Rightarrow>
                 (let (temp2, temp3) = derive_keys C chaining_key;
                      h1 = h\<lparr>last_rtt := Some (word_of_nat (as_millis (duration_since now (is_time_sent st))))\<rparr>;
                      h2 = (if is_previous then h1\<lparr>previous := HsNone\<rparr> else h1\<lparr>hs_state := HsNone\<rparr>)
                  in Some (Inr (session_new (is_local_index st) (hr_sender_idx packet) temp3 temp2), h2))
           }))"

text \<open>The nonce is copied into a 24 byte array, which panics at another length; the parser
  passes only slices of that length.\<close>

definition receive_cookie_reply :: "crypto \<Rightarrow> cookie_reply \<Rightarrow> handshake \<Rightarrow> ((wg_error + unit) \<times> handshake) option" where
  "receive_cookie_reply C packet h =
     (case last_mac1 (hs_cookies h) of
        None \<Rightarrow> Some (Inl UnexpectedPacket, h)
      | Some mac1 \<Rightarrow>
          if cr_receiver_idx packet \<noteq> cookie_index (hs_cookies h) then Some (Inl WrongIndex, h)
          else if length (cr_nonce packet) \<noteq> 24 then None
          else
            (let key = b2s_hash C LABEL_COOKIE (peer_static_public (params h))
             in case xchacha_open C key (cr_nonce packet) mac1 (cr_cookie packet) of
                  None \<Rightarrow> Some (Inl InvalidAeadTag, h)
                | Some plaintext \<Rightarrow>
                    if length plaintext \<noteq> 16 then Some (Inl InvalidPacket, h)
                    else Some (Inr (), h\<lparr>hs_cookies := (hs_cookies h)\<lparr>write_cookie := Some plaintext\<rparr>\<rparr>)))"

section \<open>Indices\<close>

lemma ff_mask: "(0xff :: u32) = mask 8"
  by (simp add: mask_eq_exp_minus_1)

lemma high_bits: "unat (w AND NOT 0xff) = unat w div 256 * 256" for w :: u32
proof -
  have "w AND NOT 0xff = push_bit 8 (drop_bit 8 w)"
    unfolding ff_mask by (rule bit_eqI) (auto simp: bit_simps)
  then have "unat (w AND NOT 0xff) = unat w div 256 * 256 mod 2 ^ 32"
    by (simp add: push_bit_eq_mult drop_bit_eq_div unat_word_ariths unat_div mod_simps)
  also have "unat w div 256 * 256 \<le> unat w" by simp
  then have "unat w div 256 * 256 mod 2 ^ 32 = unat w div 256 * 256"
    using unat_bound [of w] by simp
  finally show ?thesis .
qed

lemma unat_inc_byte: "unat (ucast ((ucast w :: u8) + 1) :: u32) = (unat w + 1) mod 256" for w :: u32
  by (simp add: unsigned_ucast_eq take_bit_eq_mod unat_word_ariths mod_simps)

lemma inc_index_unat:
  "unat (fst (inc_index h)) = unat (next_index h) div 256 * 256 + (unat (next_index h) + 1) mod 256"
proof -
  let ?w = "next_index h"
  let ?b = "ucast ((ucast ?w :: u8) + 1) :: u32"
  have "(?w AND NOT 0xff) OR ?b = (?w AND NOT 0xff) + ?b"
  proof (rule disjunctive_add [symmetric])
    fix n
    show "\<not> bit (?w AND NOT 0xff) n \<or> \<not> bit ?b n"
      unfolding ff_mask by (auto simp: bit_simps dest: bit_imp_le_length)
  qed
  moreover have "unat ((?w AND NOT 0xff) + ?b) = unat ?w div 256 * 256 + (unat ?w + 1) mod 256"
  proof -
    have "unat ?w div 256 * 256 + (unat ?w + 1) mod 256 < 2 ^ 32"
    proof -
      have "unat ?w div 256 < 16777216" using unat_bound [of ?w] by (simp add: div_less_iff_less_mult)
      moreover have "(unat ?w + 1) mod 256 < 256" by simp
      ultimately show ?thesis by simp
    qed
    then show ?thesis using high_bits [of ?w] unat_inc_byte [of ?w]
      by (subst unat_plus_small) simp_all
  qed
  ultimately show ?thesis by (simp add: inc_index_def Let_def)
qed

lemma inc_index_frames [frame_simps, simp]:
  "next_index (snd (inc_index h)) = fst (inc_index h)"
  "params (snd (inc_index h)) = params h" "previous (snd (inc_index h)) = previous h"
  "hs_state (snd (inc_index h)) = hs_state h" "hs_cookies (snd (inc_index h)) = hs_cookies h"
  "last_handshake_timestamp (snd (inc_index h)) = last_handshake_timestamp h"
  "stamper (snd (inc_index h)) = stamper h" "last_rtt (snd (inc_index h)) = last_rtt h"
  by (simp_all add: inc_index_def Let_def)

lemma inc_index_state [simp]: "fst (inc_index (h\<lparr>hs_state := x\<rparr>)) = fst (inc_index h)"
  "fst (inc_index (h\<lparr>previous := x\<rparr>)) = fst (inc_index h)"
  "fst (inc_index (h\<lparr>last_handshake_timestamp := t\<rparr>)) = fst (inc_index h)"
  by (simp_all add: inc_index_def Let_def)

section \<open>What each operation leaves alone\<close>

lemma append_mac_frames [frame_simps, simp]:
  "params (snd (append_mac1_and_mac2 C i body h)) = params h"
  "next_index (snd (append_mac1_and_mac2 C i body h)) = next_index h"
  "previous (snd (append_mac1_and_mac2 C i body h)) = previous h"
  "hs_state (snd (append_mac1_and_mac2 C i body h)) = hs_state h"
  "last_handshake_timestamp (snd (append_mac1_and_mac2 C i body h)) = last_handshake_timestamp h"
  "stamper (snd (append_mac1_and_mac2 C i body h)) = stamper h"
  "last_rtt (snd (append_mac1_and_mac2 C i body h)) = last_rtt h"
  by (simp_all add: append_mac1_and_mac2_def Let_def)

lemma append_mac_message:
  "crypto_ok C \<Longrightarrow> (\<And>c. write_cookie (hs_cookies h) = Some c \<Longrightarrow> length c = 16) \<Longrightarrow>
    \<exists>macs. fst (append_mac1_and_mac2 C i body h) = body @ macs \<and> length macs = 32 \<and>
      take 16 macs = b2s_keyed_mac_16 C (sending_mac1_key (params h)) body"
  by (auto simp: append_mac1_and_mac2_def Let_def b2s_keyed_mac_16_def crypto_lengths split: option.split)

lemma length_macs: "crypto_ok C \<Longrightarrow> fst (append_mac1_and_mac2 C i body h) = msg \<Longrightarrow>
    \<exists>macs. msg = body @ macs \<and> length macs = 32"
  by (auto simp: append_mac1_and_mac2_def Let_def b2s_keyed_mac_16_def crypto_lengths split: option.split)

definition params_wf :: "crypto \<Rightarrow> noise_params \<Rightarrow> bool" where
  "params_wf C p \<longleftrightarrow> static_public p = x25519_public C (static_private p) \<and>
     static_shared p = x25519_dh C (static_private p) (peer_static_public p) \<and>
     sending_mac1_key p = b2s_hash C LABEL_MAC1 (peer_static_public p)"

lemma noise_params_new_wf: "params_wf C (noise_params_new C priv (x25519_public C priv) peer psk)"
  by (simp add: params_wf_def noise_params_new_def)

lemma set_static_private_wf:
  "params_set_static_private C priv pub p = Some p' \<Longrightarrow> params_wf C p \<Longrightarrow> params_wf C p'"
  by (auto simp: params_set_static_private_def params_wf_def split: if_splits)

text \<open>Two ends that were configured for each other.\<close>

definition paired :: "crypto \<Rightarrow> noise_params \<Rightarrow> noise_params \<Rightarrow> bool" where
  "paired C p q \<longleftrightarrow> params_wf C p \<and> params_wf C q \<and> peer_static_public p = static_public q \<and>
     peer_static_public q = static_public p \<and> preshared_key p = preshared_key q"

lemma paired_shared: "crypto_ok C \<Longrightarrow> paired C p q \<Longrightarrow> static_shared q = static_shared p"
  by (simp add: paired_def params_wf_def dh_agree)

lemma paired_dh:
  "crypto_ok C \<Longrightarrow> paired C p q \<Longrightarrow>
    x25519_dh C (static_private q) (x25519_public C e) = x25519_dh C e (peer_static_public p)"
  "crypto_ok C \<Longrightarrow> paired C p q \<Longrightarrow>
    x25519_dh C (static_private p) (x25519_public C e) = x25519_dh C e (peer_static_public q)"
  by (simp_all add: paired_def params_wf_def dh_agree)

section \<open>The two messages meet\<close>

definition stamp_time :: "instant \<Rightarrow> time_stamper \<Rightarrow> tai64n" where
  "stamp_time now ts =
     (let d = duration_since now (instant_at_start ts) + duration_at_start ts
      in \<lparr>tai_secs = word_of_nat (as_secs d) + TAI64_BASE, tai_nano = word_of_nat (subsec_nanos d)\<rparr>)"

lemma length_stamp [simp]: "length (stamp now ts) = 12"
  by (simp add: stamp_def Let_def)

lemma tai64n_parse_stamp [simp]: "tai64n_parse (stamp now ts) = Inr (stamp_time now ts)"
  by (simp add: tai64n_parse_def stamp_def stamp_time_def Let_def)

text \<open>The initiation an initiator formats is one the paired responder reads: it decrypts the
  static key and the timestamp and ends in the state that mirrors the initiator's.\<close>

lemma initiation_accepted:
  assumes ok: "crypto_ok C" and pair: "paired C (params I) (params R)" and len: "HANDSHAKE_INIT_SZ \<le> n"
    and fmt: "format_handshake_initiation C eI now1 now2 n I = (r, I')"
  shows "\<exists>msg p st. r = Inr msg \<and> parse_incoming_packet msg = Inr (HandshakeInit p) \<and>
    hi_sender_idx p = is_local_index st \<and> hi_ephemeral p = x25519_public C eI \<and>
    is_local_index st = fst (inc_index I) \<and> is_ephemeral_private st = eI \<and>
    hs_state I' = InitSent st \<and> previous I' = hs_state I \<and> params I' = params I \<and>
    parse_handshake_anon C (static_private (params R)) (static_public (params R)) p =
      Some (Inr \<lparr>hh_peer_index = hi_sender_idx p, hh_peer_static_public = static_public (params I)\<rparr>) \<and>
    (\<forall>eR m. receive_handshake_initialization C eR p m R =
      (if tai_after (stamp_time now1 (stamper I)) (last_handshake_timestamp R)
       then format_handshake_response C eR m
         (R\<lparr>last_handshake_timestamp := stamp_time now1 (stamper I), previous := hs_state R,
            hs_state := InitReceived (is_hash st) (is_chaining_key st) (x25519_public C eI) (is_local_index st)\<rparr>)
       else Some (Inl WrongTai64nTimestamp, R)))"
proof -
  let ?P = "params I" and ?e = "x25519_public C eI" and ?li = "fst (inc_index I)"
  obtain ck h k where k: "noise_init_static C (peer_static_public ?P) ?e (x25519_dh C eI (peer_static_public ?P)) = (ck, h, k)"
    by (metis prod_cases3)
  let ?s = "aead_chacha20_seal C k 0 (static_public ?P) h"
  obtain ck2 h2 k2 where k2: "noise_init_timestamp C ck h ?s (static_shared ?P) = (ck2, h2, k2)"
    by (metis prod_cases3)
  let ?t = "aead_chacha20_seal C k2 0 (stamp now1 (stamper I)) h2"
  let ?st = "\<lparr>is_local_index = ?li, is_hash = b2s_hash C h2 ?t, is_chaining_key = ck2,
      is_ephemeral_private = eI, is_time_sent = now2\<rparr>"
  let ?body = "u32_le HANDSHAKE_INIT @ u32_le ?li @ ?e @ ?s @ ?t"
  let ?h2 = "(snd (inc_index I))\<lparr>previous := hs_state I, hs_state := InitSent ?st\<rparr>"
  have r: "r = Inr (fst (append_mac1_and_mac2 C ?li ?body ?h2))"
    and I': "I' = snd (append_mac1_and_mac2 C ?li ?body ?h2)"
    using fmt len by (simp_all add: format_handshake_initiation_def k k2 Let_def split_beta)
  obtain macs where m: "fst (append_mac1_and_mac2 C ?li ?body ?h2) = ?body @ macs" "length macs = 32"
    using length_macs [OF ok refl] by blast
  let ?p = "\<lparr>hi_sender_idx = ?li, hi_ephemeral = ?e, hi_static = ?s, hi_timestamp = ?t\<rparr>"
  have lp: "length (static_public ?P) = 32"
    using pair ok by (simp add: paired_def params_wf_def crypto_lengths)
  have parse: "parse_incoming_packet (?body @ macs) = Inr (HandshakeInit ?p)"
    unfolding append_assoc by (rule parse_formatted_init) (simp_all add: crypto_lengths [OF ok] length_seal [OF ok] lp m(2))
  have recv: "receive_handshake_initialization C eR ?p m R =
      (if tai_after (stamp_time now1 (stamper I)) (last_handshake_timestamp R)
       then format_handshake_response C eR m
         (R\<lparr>last_handshake_timestamp := stamp_time now1 (stamper I), previous := hs_state R,
            hs_state := InitReceived (is_hash ?st) (is_chaining_key ?st) ?e ?li\<rparr>)
       else Some (Inl WrongTai64nTimestamp, R))" for eR m
    using pair lp k k2 by (simp add: receive_handshake_initialization_def paired_dh(1) [OF ok pair]
        paired_shared [OF ok pair] open_seal [OF ok] paired_def)
  have anon: "parse_handshake_anon C (static_private (params R)) (static_public (params R)) ?p =
      Some (Inr \<lparr>hh_peer_index = hi_sender_idx ?p, hh_peer_static_public = static_public (params I)\<rparr>)"
    using pair lp k by (simp add: parse_handshake_anon_def paired_dh(1) [OF ok pair] open_seal [OF ok] paired_def)
  show ?thesis
    by (intro exI [of _ "?body @ macs"] exI [of _ ?p] exI [of _ ?st])
      (simp add: r m(1) parse [unfolded append_assoc] recv anon I')
qed

text \<open>Two sessions that belong to each other: each sends with what the other receives with.\<close>

definition matched :: "session \<Rightarrow> session \<Rightarrow> bool" where
  "matched a b \<longleftrightarrow> receiving_index a = sending_index b \<and> sending_index a = receiving_index b \<and>
     receiver_key a = sender_key b \<and> sender_key a = receiver_key b"

text \<open>The response the responder formats is one the initiator it answers reads, and both end with
  sessions that match.\<close>

lemma response_accepted:
  assumes ok: "crypto_ok C" and pair: "paired C (params I) (params R)" and len: "HANDSHAKE_RESP_SZ \<le> m"
    and state: "hs_state R = InitReceived (is_hash st) (is_chaining_key st) (x25519_public C (is_ephemeral_private st)) idx"
    and await: "awaiting idx I = Some (st, prev)" and idx: "is_local_index st = idx"
  shows "\<exists>msg sR R' q. format_handshake_response C eR m R = Some (Inr (msg, sR), R') \<and>
    parse_incoming_packet msg = Inr (HandshakeResponse q) \<and> hr_receiver_idx q = idx \<and>
    receiving_index sR = fst (inc_index R) \<and> params R' = params R \<and>
    last_handshake_timestamp R' = last_handshake_timestamp R \<and>
    (\<exists>sI I'. receive_handshake_response C now q I = Some (Inr sI, I') \<and> matched sI sR \<and>
      receiving_index sI = idx \<and> params I' = params I)"
proof -
  let ?P = "params R" and ?e = "x25519_public C eR"
  let ?R1 = "R\<lparr>hs_state := HsNone\<rparr>"
  let ?li = "fst (inc_index R)"
  obtain ck h k where k: "noise_response C (is_chaining_key st) (is_hash st) ?e
      (x25519_dh C eR (x25519_public C (is_ephemeral_private st))) (x25519_dh C eR (peer_static_public ?P))
      (preshared_key ?P) = (ck, h, k)" by (metis prod_cases3)
  obtain t2 t3 where t: "derive_keys C ck = (t2, t3)" by fastforce
  let ?n = "aead_chacha20_seal C k 0 [] h"
  let ?body = "u32_le HANDSHAKE_RESP @ u32_le ?li @ u32_le idx @ ?e @ ?n"
  let ?h1 = "snd (inc_index ?R1)"
  obtain macs where mac: "fst (append_mac1_and_mac2 C ?li ?body ?h1) = ?body @ macs" "length macs = 32"
    using length_macs [OF ok refl] by blast
  let ?sR = "session_new ?li idx t2 t3"
  have fmt: "format_handshake_response C eR m R =
      Some (Inr (?body @ macs, ?sR), snd (append_mac1_and_mac2 C ?li ?body ?h1))"
    using len k t mac(1) by (simp add: format_handshake_response_def state Let_def split_beta)
  let ?q = "\<lparr>hr_sender_idx = ?li, hr_receiver_idx = idx, hr_ephemeral = ?e, hr_nothing = ?n\<rparr>"
  have parse: "parse_incoming_packet (?body @ macs) = Inr (HandshakeResponse ?q)"
    unfolding append_assoc
    by (rule parse_formatted_response) (simp_all add: crypto_lengths [OF ok] length_seal [OF ok] mac(2))
  have "preshared_key (params I) = preshared_key ?P" using pair by (simp add: paired_def)
  with k have k': "noise_response C (is_chaining_key st) (is_hash st) ?e
      (x25519_dh C (is_ephemeral_private st) ?e) (x25519_dh C (static_private (params I)) ?e)
      (preshared_key (params I)) = (ck, h, k)"
    by (simp add: dh_agree [OF ok, of "is_ephemeral_private st" eR] paired_dh(2) [OF ok pair])
  then have "\<exists>sI I'. receive_handshake_response C now ?q I = Some (Inr sI, I') \<and> matched sI ?sR \<and>
      receiving_index sI = idx \<and> params I' = params I"
    using t idx by (simp add: receive_handshake_response_def await open_seal [OF ok] matched_def session_new_def Let_def)
  then show ?thesis
    by - (rule exI [of _ "?body @ macs"], rule exI [of _ ?sR],
        rule exI [of _ "snd (append_mac1_and_mac2 C ?li ?body ?h1)"], rule exI [of _ ?q],
        simp add: fmt parse [unfolded append_assoc] session_new_def)
qed

lemma awaiting_current: "hs_state h = InitSent st \<Longrightarrow> awaiting (is_local_index st) h = Some (st, False)"
  by (simp add: awaiting_def)

lemma awaiting_previous:
  "hs_state h = InitSent st' \<Longrightarrow> previous h = InitSent st \<Longrightarrow> is_local_index st' \<noteq> is_local_index st \<Longrightarrow>
    awaiting (is_local_index st) h = Some (st, True)"
  by (simp add: awaiting_def)

lemma handshake_parts:
  assumes "crypto_ok C" and "paired C (params I) (params R)"
    and "HANDSHAKE_INIT_SZ \<le> n" and "HANDSHAKE_RESP_SZ \<le> m"
    and "tai_after (stamp_time t1 (stamper I)) (last_handshake_timestamp R)"
    and f: "format_handshake_initiation C eI t1 t2 n I = (Inr m1, I1)"
  shows "\<exists>p m2 sR R1 q sI I2. parse_incoming_packet m1 = Inr (HandshakeInit p) \<and>
    receive_handshake_initialization C eR p m R = Some (Inr (m2, sR), R1) \<and>
    parse_incoming_packet m2 = Inr (HandshakeResponse q) \<and>
    receive_handshake_response C t3 q I1 = Some (Inr sI, I2) \<and> matched sI sR \<and>
    parse_handshake_anon C (static_private (params R)) (static_public (params R)) p =
      Some (Inr \<lparr>hh_peer_index = hi_sender_idx p, hh_peer_static_public = static_public (params I)\<rparr>)"
proof -
  from initiation_accepted [OF assms(1-3) f] obtain p st where
    p: "parse_incoming_packet m1 = Inr (HandshakeInit p)" "hs_state I1 = InitSent st"
      "params I1 = params I" "is_ephemeral_private st = eI"
      "parse_handshake_anon C (static_private (params R)) (static_public (params R)) p =
        Some (Inr \<lparr>hh_peer_index = hi_sender_idx p, hh_peer_static_public = static_public (params I)\<rparr>)" and
    recv: "\<And>eR m. receive_handshake_initialization C eR p m R =
      (if tai_after (stamp_time t1 (stamper I)) (last_handshake_timestamp R)
       then format_handshake_response C eR m
         (R\<lparr>last_handshake_timestamp := stamp_time t1 (stamper I), previous := hs_state R,
            hs_state := InitReceived (is_hash st) (is_chaining_key st) (x25519_public C eI) (is_local_index st)\<rparr>)
       else Some (Inl WrongTai64nTimestamp, R))" by blast
  let ?R = "R\<lparr>last_handshake_timestamp := stamp_time t1 (stamper I), previous := hs_state R,
      hs_state := InitReceived (is_hash st) (is_chaining_key st) (x25519_public C eI) (is_local_index st)\<rparr>"
  have "paired C (params I1) (params ?R)" using assms(2) p(3) by simp
  from response_accepted [OF assms(1) this assms(4) _ awaiting_current [OF p(2)] refl] p(4)
  obtain m2 sR R1 q where "format_handshake_response C eR m ?R = Some (Inr (m2, sR), R1)"
      "parse_incoming_packet m2 = Inr (HandshakeResponse q)"
      "\<exists>sI I'. receive_handshake_response C t3 q I1 = Some (Inr sI, I') \<and> matched sI sR" by fastforce
  with p(1,5) recv assms(5) show ?thesis by auto
qed

text \<open>C6 A complete handshake agrees: whatever state two paired ends are in, an initiation of the
  one with a timestamp newer than the other has seen is accepted, answered, and the answer
  accepted, and the two sessions hold each other's index and the same two keys crosswise.\<close>

theorem handshake_agreement:
  assumes "crypto_ok C" and "paired C (params I) (params R)"
    and "HANDSHAKE_INIT_SZ \<le> n" and "HANDSHAKE_RESP_SZ \<le> m"
    and "tai_after (stamp_time t1 (stamper I)) (last_handshake_timestamp R)"
  shows "\<exists>m1 I1 p m2 sR R1 q sI I2.
    format_handshake_initiation C eI t1 t2 n I = (Inr m1, I1) \<and>
    parse_incoming_packet m1 = Inr (HandshakeInit p) \<and>
    receive_handshake_initialization C eR p m R = Some (Inr (m2, sR), R1) \<and>
    parse_incoming_packet m2 = Inr (HandshakeResponse q) \<and>
    receive_handshake_response C t3 q I1 = Some (Inr sI, I2) \<and> matched sI sR"
proof -
  obtain r I1 where f: "format_handshake_initiation C eI t1 t2 n I = (r, I1)" by fastforce
  from initiation_accepted [OF assms(1-3) f] obtain m1 where "r = Inr m1" by blast
  with handshake_parts [OF assms, of eI t2 m1 I1 eR t3] f show ?thesis by blast
qed

text \<open>Two concrete ends on which the properties run.\<close>

definition epoch :: instant where
  "epoch = \<lparr>tv_sec = 0, tv_nsec = 0\<rparr>"

definition toy_end :: "bytes \<Rightarrow> bytes \<Rightarrow> handshake" where
  "toy_end a b = handshake_new toy_crypto a (x25519_public toy_crypto a) (x25519_public toy_crypto b) 256 None
     (stamper_new 5 epoch)"

lemma toy_paired: "paired toy_crypto (params (toy_end a b)) (params (toy_end b a))"
  by (simp add: paired_def toy_end_def handshake_new_def noise_params_new_wf)
    (simp add: noise_params_new_def)

lemma toy_stamp: "tai_after (stamp_time epoch (stamper (toy_end a b))) (last_handshake_timestamp (toy_end b a))"
  by (simp add: toy_end_def handshake_new_def stamper_new_def stamp_time_def tai_after_def tai64n_zero_def
      TAI64_BASE_def as_secs_def Let_def)

theorem handshake_agreement_witness:
  "\<exists>m1 I1 p m2 sR R1 q sI I2.
    format_handshake_initiation toy_crypto [3] epoch epoch 148 (toy_end [1] [2]) = (Inr m1, I1) \<and>
    parse_incoming_packet m1 = Inr (HandshakeInit p) \<and>
    receive_handshake_initialization toy_crypto [4] p 92 (toy_end [2] [1]) = Some (Inr (m2, sR), R1) \<and>
    parse_incoming_packet m2 = Inr (HandshakeResponse q) \<and>
    receive_handshake_response toy_crypto epoch q I1 = Some (Inr sI, I2) \<and> matched sI sR"
  using handshake_agreement [OF toy_crypto_ok toy_paired order_refl order_refl toy_stamp] by blast

section \<open>Replayed initiations\<close>

lemma tai_after_irrefl [simp]: "\<not> tai_after t t"
  by (simp add: tai_after_def)

lemma not_tai_after_trans: "tai_after u t \<Longrightarrow> \<not> tai_after s t \<Longrightarrow> \<not> tai_after s u"
  by (auto simp: tai_after_def)

text \<open>The timestamp an initiation carries for a responder, when it decrypts there.\<close>

definition init_time :: "crypto \<Rightarrow> noise_params \<Rightarrow> handshake_init \<Rightarrow> tai64n option" where
  "init_time C P packet =
     (let (ck, hash, key) = noise_init_static C (static_public P) (hi_ephemeral packet)
            (x25519_dh C (static_private P) (hi_ephemeral packet));
          (ck2, hash2, key2) = noise_init_timestamp C ck hash (hi_static packet) (static_shared P)
      in case aead_chacha20_open C 12 key2 0 (hi_timestamp packet) hash2 of
           Some (Inr buf) \<Rightarrow> (case tai64n_parse buf of Inr t \<Rightarrow> Some t | Inl _ \<Rightarrow> None)
         | _ \<Rightarrow> None)"

lemma format_response_frames [frame_simps]:
  assumes "format_handshake_response C e n h = Some (r, h')"
  shows "params h' = params h" "last_handshake_timestamp h' = last_handshake_timestamp h"
    "stamper h' = stamper h"
  using assms by (auto simp: format_handshake_response_def Let_def split_beta split: if_splits handshake_state.splits)

lemma format_response_answers:
  "hs_state h = InitReceived a b c d \<Longrightarrow> \<exists>r h'. format_handshake_response C e n h = Some (r, h')"
  by (simp add: format_handshake_response_def Let_def split_beta)

lemma receive_init_cases:
  assumes "receive_handshake_initialization C e p n h = Some (r, h')"
  shows "(h' = h \<and> (\<exists>err. r = Inl err)) \<or>
    (\<exists>t. init_time C (params h) p = Some t \<and> tai_after t (last_handshake_timestamp h) \<and>
      last_handshake_timestamp h' = t \<and> params h' = params h \<and> stamper h' = stamper h)"
  using assms
  by (auto simp: receive_handshake_initialization_def init_time_def Let_def split_beta frame_simps
      split: if_splits sum.splits option.splits bind_splits)

lemma receive_init_answers:
  assumes "crypto_ok C" and "wf_packet (HandshakeInit p)"
  shows "receive_handshake_initialization C e p n h \<noteq> None"
proof -
  obtain ck h1 k where k: "noise_init_static C (static_public (params h)) (hi_ephemeral p)
      (x25519_dh C (static_private (params h)) (hi_ephemeral p)) = (ck, h1, k)" by (metis prod_cases3)
  obtain ck2 h2 k2 where k2: "noise_init_timestamp C ck h1 (hi_static p) (static_shared (params h)) = (ck2, h2, k2)"
    by (metis prod_cases3)
  obtain r1 r2 where "aead_chacha20_open C 32 k 0 (hi_static p) h1 = Some r1"
      "aead_chacha20_open C 12 k2 0 (hi_timestamp p) h2 = Some r2"
    using open_returns [OF assms(1), of "hi_static p" 32 k 0 h1]
      open_returns [OF assms(1), of "hi_timestamp p" 12 k2 0 h2] assms(2) by auto
  then show ?thesis using k k2 format_response_answers
    by (fastforce simp: receive_handshake_initialization_def split: sum.split)
qed

definition inits_passed :: "crypto \<Rightarrow> noise_params \<Rightarrow> handshake \<Rightarrow> handshake_init set \<Rightarrow> bool" where
  "inits_passed C P h S \<longleftrightarrow> params h = P \<and>
     (\<forall>p \<in> S. \<exists>t. init_time C P p = Some t \<and> \<not> tai_after t (last_handshake_timestamp h))"

lemma inits_passed_step:
  assumes "inits_passed C P h S" and "receive_handshake_initialization C e p n h = Some (r, h')"
  shows "(h' = h \<and> (\<exists>err. r = Inl err)) \<or>
    (p \<notin> S \<and> inits_passed C P h' (insert p S) \<and> inits_passed C P h' S)"
  using receive_init_cases [OF assms(2)]
proof
  assume "\<exists>t. init_time C (params h) p = Some t \<and> tai_after t (last_handshake_timestamp h) \<and>
      last_handshake_timestamp h' = t \<and> params h' = params h \<and> stamper h' = stamper h"
  then obtain t where t: "init_time C P p = Some t" "tai_after t (last_handshake_timestamp h)"
      "last_handshake_timestamp h' = t" "params h' = P"
    using assms(1) by (auto simp: inits_passed_def)
  then have "inits_passed C P h' S"
    using assms(1) not_tai_after_trans [OF t(2)] by (fastforce simp: inits_passed_def)
  moreover have "p \<notin> S" using assms(1) t(1,2) by (auto simp: inits_passed_def)
  ultimately show ?thesis using t by (simp add: inits_passed_def)
qed simp

interpretation initf: replay_filter h0 "\<lambda>(e, p). receive_handshake_initialization C e p n" snd
  "\<lambda>(e, p). wf_packet (HandshakeInit p) \<and> crypto_ok C" "inits_passed C (params h0)" for h0 C and n :: nat
proof
  show "inits_passed C (params h0) h0 {}" by (simp add: inits_passed_def)
next
  fix s P x s' and ep :: "bytes \<times> handshake_init"
  assume *: "inits_passed C (params h0) s P" "(\<lambda>(e, p). receive_handshake_initialization C e p n) ep s = Some (Inr x, s')"
  show "snd ep \<notin> P \<and> inits_passed C (params h0) s' (insert (snd ep) P)"
    using inits_passed_step [OF *(1), of "fst ep" "snd ep" n "Inr x" s'] *(2) by (auto simp: split_beta)
next
  fix s P err s' and ep :: "bytes \<times> handshake_init"
  assume *: "inits_passed C (params h0) s P" "(\<lambda>(e, p). receive_handshake_initialization C e p n) ep s = Some (Inl err, s')"
  show "inits_passed C (params h0) s' P"
    using inits_passed_step [OF *(1), of "fst ep" "snd ep" n "Inl err" s'] * by (auto simp: split_beta)
next
  fix s P and ep :: "bytes \<times> handshake_init"
  assume "(\<lambda>(e, p). wf_packet (HandshakeInit p) \<and> crypto_ok C) ep"
  then show "(\<lambda>(e, p). receive_handshake_initialization C e p n) ep s \<noteq> None"
    using receive_init_answers [of C "snd ep" "fst ep" n s] by (simp add: split_beta del: wf_packet.simps)
qed

text \<open>C32 A replayed initiation is never answered: over any sequence of initiations, however they are
  ordered and repeated, the responder answers each message at most once, and it never panics.\<close>

theorem initiation_answered_once:
  assumes "crypto_ok C" and "\<forall>(e, p) \<in> set ps. wf_packet (HandshakeInit p)"
  shows "\<exists>acc h'. filter_run (\<lambda>(e, p). receive_handshake_initialization C e p n) ps h = Some (acc, h') \<and>
    distinct (map (snd \<circ> fst) acc) \<and> fst ` set acc \<subseteq> set ps"
  using initf.run_distinct [of ps C n h] assms by fastforce

theorem initiation_answered_once_witness:
  "\<exists>acc h'. filter_run (\<lambda>(e, p). receive_handshake_initialization toy_crypto e p 92)
      (replicate 3 ([4], \<lparr>hi_sender_idx = 1, hi_ephemeral = replicate 32 0, hi_static = replicate 48 0,
        hi_timestamp = replicate 28 0\<rparr>)) (toy_end [2] [1]) = Some (acc, h') \<and>
    distinct (map (snd \<circ> fst) acc) \<and>
    fst ` set acc \<subseteq> {([4], \<lparr>hi_sender_idx = 1, hi_ephemeral = replicate 32 0, hi_static = replicate 48 0,
        hi_timestamp = replicate 28 0\<rparr>)}"
proof -
  let ?p = "\<lparr>hi_sender_idx = 1, hi_ephemeral = replicate 32 0, hi_static = replicate 48 0,
        hi_timestamp = replicate 28 0\<rparr>"
  have wf: "\<forall>(e, p) \<in> set (replicate 3 ([4] :: bytes, ?p)). wf_packet (HandshakeInit p)" by simp
  show ?thesis
    using initiation_answered_once [OF toy_crypto_ok wf, where n = 92 and h = "toy_end [2] [1]"]
    by (simp del: filter_run.simps replicate.simps)
qed

section \<open>Superseded handshakes, indices and failures\<close>

lemma inc_index_differs: "next_index h' = fst (inc_index h) \<Longrightarrow> fst (inc_index h') \<noteq> fst (inc_index h)"
proof -
  assume n: "next_index h' = fst (inc_index h)"
  have "(unat (next_index h') + 1) mod 256 \<noteq> unat (next_index h') mod 256"
    by (auto simp: mod_Suc)
  then have "unat (fst (inc_index h')) mod 256 \<noteq> unat (next_index h') mod 256"
    by (simp add: inc_index_unat)
  with n show ?thesis by auto
qed

lemma next_index_after_initiation:
  "HANDSHAKE_INIT_SZ \<le> n \<Longrightarrow> next_index (snd (format_handshake_initiation C e t1 t2 n h)) = fst (inc_index h)"
  by (simp add: format_handshake_initiation_def Let_def split_beta)

text \<open>A late answer is not lost: when an initiator retransmits, the answer to its first
  initiation, arriving after the second was sent, still completes the handshake.\<close>

theorem late_response_accepted:
  assumes "crypto_ok C" and "paired C (params I) (params R)"
    and "HANDSHAKE_INIT_SZ \<le> n" and "HANDSHAKE_RESP_SZ \<le> m"
    and "tai_after (stamp_time t1 (stamper I)) (last_handshake_timestamp R)"
  shows "\<exists>m1 I1 p m2 sR R1 q sI I3.
    format_handshake_initiation C e1 t1 t2 n I = (Inr m1, I1) \<and>
    parse_incoming_packet m1 = Inr (HandshakeInit p) \<and>
    receive_handshake_initialization C eR p m R = Some (Inr (m2, sR), R1) \<and>
    parse_incoming_packet m2 = Inr (HandshakeResponse q) \<and>
    receive_handshake_response C t5 q (snd (format_handshake_initiation C e2 t3 t4 n I1)) = Some (Inr sI, I3) \<and>
    matched sI sR"
proof -
  obtain r I1 where f: "format_handshake_initiation C e1 t1 t2 n I = (r, I1)" by fastforce
  from initiation_accepted [OF assms(1-3) f] obtain m1 p st where
    p: "r = Inr m1" "parse_incoming_packet m1 = Inr (HandshakeInit p)" "hs_state I1 = InitSent st"
      "params I1 = params I" "is_ephemeral_private st = e1" "is_local_index st = fst (inc_index I)" and
    recv: "\<And>eR m. receive_handshake_initialization C eR p m R =
      (if tai_after (stamp_time t1 (stamper I)) (last_handshake_timestamp R)
       then format_handshake_response C eR m
         (R\<lparr>last_handshake_timestamp := stamp_time t1 (stamper I), previous := hs_state R,
            hs_state := InitReceived (is_hash st) (is_chaining_key st) (x25519_public C e1) (is_local_index st)\<rparr>)
       else Some (Inl WrongTai64nTimestamp, R))" by blast
  obtain r2 I2 where f2: "format_handshake_initiation C e2 t3 t4 n I1 = (r2, I2)" by fastforce
  have pair1: "paired C (params I1) (params R)" using assms(2) p(4) by simp
  from initiation_accepted [OF assms(1) pair1 assms(3) f2] p(3) obtain st2 where
    st2: "hs_state I2 = InitSent st2" "previous I2 = InitSent st" "params I2 = params I1"
      "is_local_index st2 = fst (inc_index I1)" by auto
  have "next_index I1 = fst (inc_index I)"
    using next_index_after_initiation [of n C e1 t1 t2 I] assms(3) f by simp
  then have "is_local_index st2 \<noteq> is_local_index st" using inc_index_differs st2(4) p(6) by simp
  from awaiting_previous [OF st2(1,2) this]
  have aw: "awaiting (is_local_index st) I2 = Some (st, True)" .
  let ?R = "R\<lparr>last_handshake_timestamp := stamp_time t1 (stamper I), previous := hs_state R,
      hs_state := InitReceived (is_hash st) (is_chaining_key st) (x25519_public C e1) (is_local_index st)\<rparr>"
  have "paired C (params I2) (params ?R)" using pair1 st2(3) by simp
  from response_accepted [OF assms(1) this assms(4) _ aw refl] p(5)
  obtain m2 sR R1 q where "format_handshake_response C eR m ?R = Some (Inr (m2, sR), R1)"
      "parse_incoming_packet m2 = Inr (HandshakeResponse q)"
      "\<exists>sI I'. receive_handshake_response C t5 q I2 = Some (Inr sI, I') \<and> matched sI sR" by fastforce
  with f f2 p(1,2) recv assms(5) show ?thesis by auto
qed

theorem late_response_accepted_witness:
  "\<exists>m1 I1 p m2 sR R1 q sI I3.
    format_handshake_initiation toy_crypto [3] epoch epoch 148 (toy_end [1] [2]) = (Inr m1, I1) \<and>
    parse_incoming_packet m1 = Inr (HandshakeInit p) \<and>
    receive_handshake_initialization toy_crypto [4] p 92 (toy_end [2] [1]) = Some (Inr (m2, sR), R1) \<and>
    parse_incoming_packet m2 = Inr (HandshakeResponse q) \<and>
    receive_handshake_response toy_crypto epoch q
      (snd (format_handshake_initiation toy_crypto [5] epoch epoch 148 I1)) = Some (Inr sI, I3) \<and>
    matched sI sR"
  using late_response_accepted [OF toy_crypto_ok toy_paired order_refl order_refl toy_stamp] by blast

text \<open>The index of a session names its peer: taking indices any number of times keeps the upper
  24 bits, and 256 consecutive ones differ in the lower 8.\<close>

theorem index_names_peer:
  fixes h :: handshake
  defines "iter \<equiv> \<lambda>k. next_index (((snd \<circ> inc_index) ^^ k) h)"
  shows "unat (iter k) div 256 = unat (next_index h) div 256 \<and>
    unat (iter k) mod 256 = (unat (next_index h) + k) mod 256"
proof (induction k)
  case 0
  then show ?case by (simp add: iter_def)
next
  case (Suc k)
  have "iter (Suc k) = fst (inc_index (((snd \<circ> inc_index) ^^ k) h))" by (simp add: iter_def)
  then have "unat (iter (Suc k)) = unat (iter k) div 256 * 256 + (unat (iter k) + 1) mod 256"
    by (simp add: inc_index_unat iter_def)
  moreover have "(unat (iter k) + 1) mod 256 = (unat (next_index h) + Suc k) mod 256"
    using Suc by (metis add.assoc mod_add_left_eq Suc_eq_plus1)
  ultimately show ?case using Suc by simp
qed

text \<open>Rejected messages change nothing: an initiation, response or cookie reply that is refused
  leaves the handshake exactly as it was; only an authentic initiation whose answer does not fit
  the buffer moves the timestamp and the state.\<close>

theorem refused_leaves_handshake:
  "(receive_handshake_response C now q h = Some (Inl err, h') \<longrightarrow> h' = h) \<and>
   (receive_cookie_reply C c h = Some (Inl err, h') \<longrightarrow> h' = h) \<and>
   (receive_handshake_initialization C e p n h = Some (Inl err, h') \<and> err \<noteq> DestinationBufferTooSmall \<longrightarrow> h' = h)"
proof (intro conjI impI)
  assume "receive_handshake_response C now q h = Some (Inl err, h')"
  then show "h' = h"
    by (auto simp: receive_handshake_response_def Let_def split_beta split: option.splits sum.splits bind_splits)
next
  assume "receive_cookie_reply C c h = Some (Inl err, h')"
  then show "h' = h"
    by (auto simp: receive_cookie_reply_def Let_def split: option.splits if_splits)
next
  assume "receive_handshake_initialization C e p n h = Some (Inl err, h') \<and> err \<noteq> DestinationBufferTooSmall"
  then show "h' = h"
    by (auto simp: receive_handshake_initialization_def format_handshake_response_def Let_def split_beta
        split: option.splits sum.splits if_splits bind_splits handshake_state.splits)
qed

theorem refused_leaves_handshake_witness:
  "\<exists>h'. receive_cookie_reply toy_crypto \<lparr>cr_receiver_idx = 0, cr_nonce = [], cr_cookie = []\<rparr> (toy_end [1] [2]) =
      Some (Inl UnexpectedPacket, h') \<and> h' = toy_end [1] [2]"
proof -
  have "receive_cookie_reply toy_crypto \<lparr>cr_receiver_idx = 0, cr_nonce = [], cr_cookie = []\<rparr> (toy_end [1] [2]) =
      Some (Inl UnexpectedPacket, snd (the (receive_cookie_reply toy_crypto
        \<lparr>cr_receiver_idx = 0, cr_nonce = [], cr_cookie = []\<rparr> (toy_end [1] [2]))))"
    by (simp add: receive_cookie_reply_def toy_end_def handshake_new_def)
  then show ?thesis
    using refused_leaves_handshake [where C = toy_crypto and h = "toy_end [1] [2]" and err = UnexpectedPacket] by blast
qed

end
