(* ===== verification/RateLimiter.thy ===== *)
theory RateLimiter
  imports Handshake
begin

text \<open>
  Denial of service protection: src/nekolink-core/src/noise/rate_limiter.rs. The limiter checks
  the MACs of handshake messages, counts them, and over its limit answers with a cookie that the
  sender has to prove. Its atomic counters are fields of the state each operation returns; every
  operation changes a counter by one atomic instruction, so a sequence of operations stands for
  an interleaving of threads. Random bytes and clock readings are arguments.
\<close>

abbreviation (input) COOKIE_REFRESH :: nat where "COOKIE_REFRESH \<equiv> 128"

abbreviation (input) RESET_PERIOD :: nat where "RESET_PERIOD \<equiv> 1"

record rate_limiter =
  nonce_key :: bytes
  secret_key :: bytes
  start_time :: instant
  nonce_ctr :: u64
  mac1_key :: bytes
  cookie_key :: bytes
  limit :: u64
  rl_count :: u64
  last_reset :: instant

definition rate_limiter_new ::
    "crypto \<Rightarrow> bytes \<Rightarrow> bytes \<Rightarrow> instant \<Rightarrow> instant \<Rightarrow> bytes \<Rightarrow> u64 \<Rightarrow> rate_limiter" where
  "rate_limiter_new C rand16 rand32 now1 now2 pub lim =
     \<lparr>nonce_key = rand32, secret_key = rand16, start_time = now1, nonce_ctr = 0,
      mac1_key = b2s_hash C LABEL_MAC1 pub, cookie_key = b2s_hash C LABEL_COOKIE pub,
      limit = lim, rl_count = 0, last_reset = now2\<rparr>"

definition reset_count :: "instant \<Rightarrow> rate_limiter \<Rightarrow> rate_limiter" where
  "reset_count current_time rl =
     (if as_secs (duration_since current_time (last_reset rl)) \<ge> RESET_PERIOD
      then rl\<lparr>rl_count := 0, last_reset := current_time\<rparr> else rl)"

definition addr_bytes :: "ip_addr \<Rightarrow> bytes" where
  "addr_bytes addr = (case addr of V4 a \<Rightarrow> a @ replicate 12 0 | V6 a \<Rightarrow> a)"

definition current_cookie :: "crypto \<Rightarrow> instant \<Rightarrow> ip_addr \<Rightarrow> rate_limiter \<Rightarrow> bytes" where
  "current_cookie C now addr rl =
     (let cur_counter = as_secs (duration_since now (start_time rl)) div COOKIE_REFRESH
      in b2s_keyed_mac_16_2 C (secret_key rl) (u64_le (word_of_nat cur_counter)) (addr_bytes addr))"

definition nonce :: "crypto \<Rightarrow> rate_limiter \<Rightarrow> bytes \<times> rate_limiter" where
  "nonce C rl =
     (let ctr = nonce_ctr rl in (b2s_mac_24 C (nonce_key rl) (u64_le ctr), rl\<lparr>nonce_ctr := ctr + 1\<rparr>))"

definition is_under_load :: "rate_limiter \<Rightarrow> bool \<times> rate_limiter" where
  "is_under_load rl = (rl_count rl \<ge> limit rl, rl\<lparr>rl_count := rl_count rl + 1\<rparr>)"

definition format_cookie_reply ::
    "crypto \<Rightarrow> u32 \<Rightarrow> bytes \<Rightarrow> bytes \<Rightarrow> nat \<Rightarrow> rate_limiter \<Rightarrow> (wg_error + bytes) \<times> rate_limiter" where
  "format_cookie_reply C idx cookie mac1 dst_len rl =
     (if dst_len < COOKIE_REPLY_SZ then (Inl DestinationBufferTooSmall, rl)
      else
        let (n, rl1) = nonce C rl;
            (encrypted_cookie, tag) = xchacha_seal C (cookie_key rl1) n mac1 cookie
        in (Inr (u32_le COOKIE_REPLY @ u32_le idx @ n @ encrypted_cookie @ tag), rl1))"

text \<open>The sender index of the messages that are subject to the limit.\<close>

fun handshake_sender :: "packet \<Rightarrow> u32 option" where
  "handshake_sender (HandshakeInit p) = Some (hi_sender_idx p)"
| "handshake_sender (HandshakeResponse p) = Some (hr_sender_idx p)"
| "handshake_sender (PacketCookieReply _) = None"
| "handshake_sender (PacketData _) = None"

definition verify_packet ::
    "crypto \<Rightarrow> instant \<Rightarrow> ip_addr option \<Rightarrow> bytes \<Rightarrow> nat \<Rightarrow> rate_limiter \<Rightarrow>
      (tunn_result + packet) \<times> rate_limiter" where
  "verify_packet C now src_addr src dst_len rl =
     (case parse_incoming_packet src of
        Inl e \<Rightarrow> (Inl (tunn_result_from e), rl)
      | Inr packet \<Rightarrow>
          (case handshake_sender packet of
             None \<Rightarrow> (Inr packet, rl)
           | Some sender_idx \<Rightarrow>
               (let msg = take (length src - 32) src; macs = drop (length src - 32) src;
                    mac1 = take 16 macs; mac2 = drop 16 macs
                in if b2s_keyed_mac_16 C (mac1_key rl) msg \<noteq> mac1 then (Inl (TErr InvalidMac), rl)
                   else let (loaded, rl1) = is_under_load rl
                   in if \<not> loaded then (Inr packet, rl1)
                   else case src_addr of
                     None \<Rightarrow> (Inl (TErr UnderLoad), rl1)
                   | Some addr \<Rightarrow>
                       let cookie = current_cookie C now addr rl1
                       in if b2s_keyed_mac_16_2 C cookie msg mac1 = mac2 then (Inr packet, rl1)
                          else case format_cookie_reply C sender_idx cookie mac1 dst_len rl1 of
                            (Inl e, rl2) \<Rightarrow> (Inl (TErr e), rl2)
                          | (Inr cookie_packet, rl2) \<Rightarrow> (Inl (WriteToNetwork cookie_packet), rl2))))"

section \<open>The limit\<close>

text \<open>A handshake message whose sender did not prove its address with a valid second MAC.\<close>

definition unproved :: "crypto \<Rightarrow> instant \<Rightarrow> ip_addr option \<Rightarrow> bytes \<Rightarrow> rate_limiter \<Rightarrow> bool" where
  "unproved C now src_addr src rl \<longleftrightarrow>
     (case src_addr of None \<Rightarrow> True
      | Some addr \<Rightarrow> b2s_keyed_mac_16_2 C (current_cookie C now addr rl)
          (take (length src - 32) src) (take 16 (drop (length src - 32) src)) \<noteq> drop 16 (drop (length src - 32) src))"

definition lets_through_unproved :: "crypto \<Rightarrow> instant \<Rightarrow> ip_addr option \<Rightarrow> bytes \<Rightarrow> nat \<Rightarrow> rate_limiter \<Rightarrow> bool" where
  "lets_through_unproved C now a src n rl \<longleftrightarrow> unproved C now a src rl \<and>
     (case fst (verify_packet C now a src n rl) of
        Inr p \<Rightarrow> handshake_sender p \<noteq> None | Inl _ \<Rightarrow> False)"

text \<open>Datagrams as they arrive: clock reading, source, bytes.\<close>

type_synonym arrival = "instant \<times> ip_addr option \<times> bytes"

primrec unproved_passed :: "crypto \<Rightarrow> nat \<Rightarrow> arrival list \<Rightarrow> rate_limiter \<Rightarrow> nat" where
  "unproved_passed C n [] rl = 0"
| "unproved_passed C n (a # as) rl =
     (case a of (now, addr, src) \<Rightarrow>
        (if lets_through_unproved C now addr src n rl then 1 else 0) +
        unproved_passed C n as (snd (verify_packet C now addr src n rl)))"

lemma verify_frames:
  assumes "verify_packet C now a src n rl = (r, rl')"
  shows "limit rl' = limit rl" "mac1_key rl' = mac1_key rl" "cookie_key rl' = cookie_key rl"
    "secret_key rl' = secret_key rl" "start_time rl' = start_time rl"
    "rl_count rl' = rl_count rl \<or> rl_count rl' = rl_count rl + 1"
  using assms
  by (auto simp: verify_packet_def is_under_load_def format_cookie_reply_def nonce_def Let_def split_beta
      split: sum.splits option.splits if_splits prod.splits)

lemma current_cookie_count [simp]: "current_cookie C now addr (rl\<lparr>rl_count := k\<rparr>) = current_cookie C now addr rl"
  by (simp add: current_cookie_def)

lemma unproved_counts:
  assumes "lets_through_unproved C now a src n rl"
  shows "rl_count rl < limit rl \<and> rl_count (snd (verify_packet C now a src n rl)) = rl_count rl + 1"
  using assms
  by (auto simp: lets_through_unproved_def unproved_def verify_packet_def is_under_load_def Let_def
      split: sum.splits option.splits if_splits prod.splits)

lemma unproved_passed_bound:
  assumes "unat (rl_count rl) + length as < 2 ^ 64"
  shows "unproved_passed C n as rl \<le> unat (limit rl) - unat (rl_count rl)"
  using assms
proof (induction as arbitrary: rl)
  case Nil
  then show ?case by simp
next
  case (Cons a as)
  obtain now addr src where a: "a = (now, addr, src)" by (cases a)
  let ?rl = "snd (verify_packet C now addr src n rl)"
  have fr: "limit ?rl = limit rl" "rl_count ?rl = rl_count rl \<or> rl_count ?rl = rl_count rl + 1"
    using verify_frames [of C now addr src n rl "fst (verify_packet C now addr src n rl)" ?rl] by simp_all
  have plus: "unat (rl_count rl + 1) = unat (rl_count rl) + 1"
    using Cons.prems by (subst unat_plus_small) simp_all
  have "unat (rl_count ?rl) + length as < 2 ^ 64" using fr(2) Cons.prems plus by auto
  from Cons.IH [OF this] fr(1)
  have IH: "unproved_passed C n as ?rl \<le> unat (limit rl) - unat (rl_count ?rl)" by simp
  show ?case
  proof (cases "lets_through_unproved C now addr src n rl")
    case True
    from unproved_counts [OF this] IH plus show ?thesis using True
      by (simp add: a word_less_nat_alt Suc_le_eq) linarith
  next
    case False
    with IH fr(2) plus show ?thesis by (auto simp: a)
  qed
qed

text \<open>C33 Between two resets the limiter lets at most \<open>limit\<close> handshake messages through from
  senders that did not prove their address, whatever arrives from wherever.\<close>

theorem rate_limit_holds:
  assumes "rl_count rl = 0" and "length as < 2 ^ 64"
  shows "unproved_passed C n as rl \<le> unat (limit rl)"
  using unproved_passed_bound [of rl as C n] assms by simp

theorem rate_limit_holds_witness:
  "unproved_passed toy_crypto 64 (replicate 5 (epoch, None, replicate 148 1))
    (rate_limiter_new toy_crypto [] [] epoch epoch [] 2) \<le> 2"
  using rate_limit_holds [of "rate_limiter_new toy_crypto [] [] epoch epoch [] 2"
      "replicate 5 (epoch, None, replicate 148 1)" toy_crypto 64]
  by (simp add: rate_limiter_new_def del: unproved_passed.simps replicate.simps)

section \<open>Paired ends pass, also under load\<close>

text \<open>The limiter a responder with these parameters uses.\<close>

definition limiter_for :: "crypto \<Rightarrow> noise_params \<Rightarrow> rate_limiter \<Rightarrow> bool" where
  "limiter_for C P rl \<longleftrightarrow> mac1_key rl = b2s_hash C LABEL_MAC1 (static_public P) \<and>
     cookie_key rl = b2s_hash C LABEL_COOKIE (static_public P)"

lemma initiation_macs:
  assumes ok: "crypto_ok C" and fmt: "format_handshake_initiation C e t1 t2 n h = (Inr msg, h')"
    and lp: "length (static_public (params h)) = 32"
  shows "\<exists>body mac1 mac2 p. msg = body @ mac1 @ mac2 \<and> length msg = 148 \<and> length mac1 = 16 \<and> length mac2 = 16 \<and>
    parse_incoming_packet msg = Inr (HandshakeInit p) \<and> hi_sender_idx p = fst (inc_index h) \<and>
    mac1 = b2s_keyed_mac_16 C (sending_mac1_key (params h)) body \<and>
    (\<forall>c. write_cookie (hs_cookies h) = Some c \<longrightarrow> mac2 = b2s_keyed_mac_16 C c (body @ mac1)) \<and>
    (write_cookie (hs_cookies h) = None \<longrightarrow> mac2 = replicate 16 0) \<and>
    last_mac1 (hs_cookies h') = Some mac1 \<and> cookie_index (hs_cookies h') = fst (inc_index h) \<and>
    params h' = params h"
proof -
  let ?P = "params h" and ?e = "x25519_public C e" and ?li = "fst (inc_index h)"
  obtain ck hs k where k: "noise_init_static C (peer_static_public ?P) ?e (x25519_dh C e (peer_static_public ?P)) = (ck, hs, k)"
    by (metis prod_cases3)
  let ?s = "aead_chacha20_seal C k 0 (static_public ?P) hs"
  obtain ck2 h2 k2 where k2: "noise_init_timestamp C ck hs ?s (static_shared ?P) = (ck2, h2, k2)"
    by (metis prod_cases3)
  let ?t = "aead_chacha20_seal C k2 0 (stamp t1 (stamper h)) h2"
  obtain body where body: "body = u32_le HANDSHAKE_INIT @ u32_le ?li @ ?e @ ?s @ ?t" by blast
  let ?m1 = "b2s_keyed_mac_16 C (sending_mac1_key ?P) body"
  let ?m2 = "case write_cookie (hs_cookies h) of Some c \<Rightarrow> b2s_keyed_mac_16 C c (body @ ?m1) | None \<Rightarrow> replicate 16 0"
  have msg: "msg = body @ ?m1 @ ?m2"
    and h': "last_mac1 (hs_cookies h') = Some ?m1" "cookie_index (hs_cookies h') = ?li" "params h' = ?P"
  proof -
    let ?h2 = "(snd (inc_index h))\<lparr>previous := hs_state h, hs_state := InitSent
      \<lparr>is_local_index = ?li, is_hash = b2s_hash C h2 ?t, is_chaining_key = ck2,
        is_ephemeral_private = e, is_time_sent = t2\<rparr>\<rparr>"
    have a: "msg = fst (append_mac1_and_mac2 C ?li body ?h2)" "h' = snd (append_mac1_and_mac2 C ?li body ?h2)"
      using fmt by (simp_all add: body format_handshake_initiation_def k k2 Let_def split_beta split: if_splits)
    show "msg = body @ ?m1 @ ?m2" "last_mac1 (hs_cookies h') = Some ?m1"
        "cookie_index (hs_cookies h') = ?li" "params h' = ?P"
      unfolding a by (simp_all add: append_mac1_and_mac2_def Let_def)
  qed
  have m: "length ?m1 = 16" "length ?m2 = 16"
    by (auto simp: b2s_keyed_mac_16_def crypto_lengths [OF ok] split: option.split)
  have len: "length ?s = 48" "length ?t = 28" "length ?e = 32"
    by (simp_all add: length_seal [OF ok] lp crypto_lengths [OF ok])
  have "parse_incoming_packet (body @ (?m1 @ ?m2)) = Inr (HandshakeInit
      \<lparr>hi_sender_idx = ?li, hi_ephemeral = ?e, hi_static = ?s, hi_timestamp = ?t\<rparr>)"
    using parse_formatted_init [OF len(3,1,2), of "?m1 @ ?m2" ?li] m by (simp only: body append_assoc length_append)
  moreover have "length body = 116" using len by (simp add: body)
  then have "length (body @ ?m1 @ ?m2) = 148" using m by simp
  ultimately show ?thesis using m h' unfolding msg
    by - (rule exI [of _ body], rule exI [of _ ?m1], rule exI [of _ ?m2], auto)
qed

lemma limiter_mac1: "paired C (params I) P \<Longrightarrow> limiter_for C P rl \<Longrightarrow> sending_mac1_key (params I) = mac1_key rl"
  by (simp add: paired_def params_wf_def limiter_for_def)

text \<open>A limiter for the concrete responder; the limit is a parameter.\<close>

definition toy_limiter :: "u64 \<Rightarrow> rate_limiter" where
  "toy_limiter lim = rate_limiter_new toy_crypto [1] [8] epoch epoch (x25519_public toy_crypto [2]) lim"

lemma toy_limiter_for: "limiter_for toy_crypto (params (toy_end [2] [1])) (toy_limiter lim)"
  by (simp add: limiter_for_def toy_limiter_def rate_limiter_new_def toy_end_def handshake_new_def noise_params_new_def)

lemma toy_initiation: "\<exists>msg I1. format_handshake_initiation toy_crypto e t1 t2 148 h = (Inr msg, I1)"
  by (simp add: format_handshake_initiation_def Let_def split_beta)

text \<open>The first MAC identifies the addressee: an initiation formatted for the owner of a limiter
  passes it while it is not under load.\<close>

theorem initiation_passes_limiter:
  assumes "crypto_ok C" and "paired C (params I) P" and "limiter_for C P rl"
    and "format_handshake_initiation C e t1 t2 n I = (Inr msg, I')" and "rl_count rl < limit rl"
  shows "\<exists>p. verify_packet C now addr msg m rl = (Inr (HandshakeInit p), rl\<lparr>rl_count := rl_count rl + 1\<rparr>)"
proof -
  have "length (static_public (params I)) = 32"
    using assms(1,2) by (simp add: paired_def params_wf_def crypto_lengths)
  from initiation_macs [OF assms(1,4) this] limiter_mac1 [OF assms(2,3)] obtain body mac1 mac2 p where
    m: "msg = body @ mac1 @ mac2" "length msg = 148" "length mac1 = 16" "length mac2 = 16"
      "parse_incoming_packet msg = Inr (HandshakeInit p)" "mac1 = b2s_keyed_mac_16 C (mac1_key rl) body" by auto
  then have "take (length msg - 32) msg = body" "take 16 (drop (length msg - 32) msg) = mac1" by simp_all
  with m(5,6) assms(5) show ?thesis
    by (simp add: verify_packet_def is_under_load_def Let_def not_le)
qed

theorem initiation_passes_limiter_witness:
  "\<exists>msg I1 p. format_handshake_initiation toy_crypto [3] epoch epoch 148 (toy_end [1] [2]) = (Inr msg, I1) \<and>
    verify_packet toy_crypto epoch None msg 64 (toy_limiter 5) =
      (Inr (HandshakeInit p), (toy_limiter 5)\<lparr>rl_count := rl_count (toy_limiter 5) + 1\<rparr>)"
proof -
  obtain msg I1 where f: "format_handshake_initiation toy_crypto [3] epoch epoch 148 (toy_end [1] [2]) = (Inr msg, I1)"
    using toy_initiation by blast
  have "rl_count (toy_limiter 5) < limit (toy_limiter 5)" by (simp add: toy_limiter_def rate_limiter_new_def)
  from initiation_passes_limiter [OF toy_crypto_ok toy_paired toy_limiter_for f this] f show ?thesis by blast
qed

lemma cookie_reply_verify:
  assumes "paired C (params I) P" and "limiter_for C P rl" and "limit rl \<le> rl_count rl"
    and m: "msg = body @ mac1 @ mac2" "length msg = 148" "length mac1 = 16" "length mac2 = 16"
      "parse_incoming_packet msg = Inr (HandshakeInit p)" "mac1 = b2s_keyed_mac_16 C (sending_mac1_key (params I)) body"
    and "64 \<le> m"
  shows "verify_packet C now (Some addr) msg m rl =
    (let rl1 = rl\<lparr>rl_count := rl_count rl + 1\<rparr>; cookie = current_cookie C now addr rl
     in if b2s_keyed_mac_16_2 C cookie body mac1 = mac2 then (Inr (HandshakeInit p), rl1)
        else let (n, rl2) = nonce C rl1; (ct, tag) = xchacha_seal C (cookie_key rl) n mac1 cookie
        in (Inl (WriteToNetwork (u32_le COOKIE_REPLY @ u32_le (hi_sender_idx p) @ n @ ct @ tag)), rl2))"
proof -
  from m have "take (length msg - 32) msg = body" "take 16 (drop (length msg - 32) msg) = mac1"
      "drop 16 (drop (length msg - 32) msg) = mac2" by simp_all
  then show ?thesis using m(5,6) limiter_mac1 [OF assms(1,2)] assms(3,10)
    by (simp add: verify_packet_def is_under_load_def format_cookie_reply_def nonce_def Let_def split_beta)
qed

text \<open>C31 A client survives load: when its initiation is answered with a cookie, it reads the cookie,
  and its next initiation passes the loaded limiter from the same address in the same cookie
  period, whether or not the limiter answers more messages in between.\<close>

theorem cookie_exchange_completes:
  assumes "crypto_ok C" and "paired C (params I) P" and "limiter_for C P rl" and "limiter_for C P rl'"
    and "limit rl \<le> rl_count rl" and "limit rl' \<le> rl_count rl'"
    and "secret_key rl' = secret_key rl" and "start_time rl' = start_time rl"
    and "as_secs (duration_since now' (start_time rl)) div COOKIE_REFRESH =
         as_secs (duration_since now (start_time rl)) div COOKIE_REFRESH"
    and "format_handshake_initiation C e1 t1 t2 n1 I = (Inr m1, I1)" and "64 \<le> m"
    and "verify_packet C now (Some addr) m1 m rl = (Inl (WriteToNetwork reply), rl1)"
  shows "\<exists>c I2 m2 I3 p rl2. parse_incoming_packet reply = Inr (PacketCookieReply c) \<and>
    receive_cookie_reply C c I1 = Some (Inr (), I2) \<and>
    format_handshake_initiation C e2 t3 t4 HANDSHAKE_INIT_SZ I2 = (Inr m2, I3) \<and>
    verify_packet C now' (Some addr) m2 m rl' = (Inr (HandshakeInit p), rl2)"
proof -
  note ok = assms(1)
  have lp: "length (static_public (params I)) = 32"
    using assms(1,2) by (simp add: paired_def params_wf_def crypto_lengths)
  let ?cookie = "current_cookie C now addr rl"
  have lc: "length ?cookie = 16"
    by (simp add: current_cookie_def b2s_keyed_mac_16_2_def crypto_lengths [OF ok] Let_def)
  from initiation_macs [OF ok assms(10) lp] obtain body mac1 mac2 p where
    m: "m1 = body @ mac1 @ mac2" "length m1 = 148" "length mac1 = 16" "length mac2 = 16"
      "parse_incoming_packet m1 = Inr (HandshakeInit p)" "mac1 = b2s_keyed_mac_16 C (sending_mac1_key (params I)) body"
    and I1: "hi_sender_idx p = cookie_index (hs_cookies I1)" "last_mac1 (hs_cookies I1) = Some mac1"
      "params I1 = params I" by auto
  obtain n rln where n: "nonce C (rl\<lparr>rl_count := rl_count rl + 1\<rparr>) = (n, rln)" by fastforce
  obtain ct tag where x: "xchacha_seal C (cookie_key rl) n mac1 ?cookie = (ct, tag)" by fastforce
  have xok: "aead_ok (xchacha_seal C) (xchacha_open C)" using ok by (simp add: crypto_ok_def)
  have ln: "length n = 24" using n by (auto simp: nonce_def b2s_mac_24_def crypto_lengths [OF ok] Let_def)
  let ?c = "\<lparr>cr_receiver_idx = hi_sender_idx p, cr_nonce = n, cr_cookie = ct @ tag\<rparr>"
  have reply: "reply = u32_le COOKIE_REPLY @ u32_le (hi_sender_idx p) @ n @ ct @ tag"
    using assms(12) cookie_reply_verify [OF assms(2,3,5) m assms(11), of now addr]
    by (simp add: n x Let_def split: if_splits)
  have parse: "parse_incoming_packet reply = Inr (PacketCookieReply ?c)"
    unfolding reply using aead_lengths [OF xok x] lc ln by (intro parse_formatted_cookie) simp_all
  have "cookie_key rl = b2s_hash C LABEL_COOKIE (peer_static_public (params I1))"
    using assms(2,3) by (simp add: I1(3) paired_def limiter_for_def)
  then have recv: "receive_cookie_reply C ?c I1 =
      Some (Inr (), I1\<lparr>hs_cookies := (hs_cookies I1)\<lparr>write_cookie := Some ?cookie\<rparr>\<rparr>)" (is "_ = Some (_, ?I2)")
    using I1 ln lc aead_open_seal [OF xok x] by (simp add: receive_cookie_reply_def)
  obtain m2 I3 where f2: "format_handshake_initiation C e2 t3 t4 HANDSHAKE_INIT_SZ ?I2 = (Inr m2, I3)"
    by (simp add: format_handshake_initiation_def Let_def split_beta)
  from initiation_macs [OF ok f2] lp I1(3) obtain body2 mac1' mac2' p2 where
    m2: "m2 = body2 @ mac1' @ mac2'" "length m2 = 148" "length mac1' = 16" "length mac2' = 16"
      "parse_incoming_packet m2 = Inr (HandshakeInit p2)"
      "mac1' = b2s_keyed_mac_16 C (sending_mac1_key (params I)) body2"
      "mac2' = b2s_keyed_mac_16 C ?cookie (body2 @ mac1')" by auto
  have "current_cookie C now' addr rl' = ?cookie"
    using assms(7-9) by (simp add: current_cookie_def Let_def)
  then have "verify_packet C now' (Some addr) m2 m rl' = (Inr (HandshakeInit p2), rl'\<lparr>rl_count := rl_count rl' + 1\<rparr>)"
    using cookie_reply_verify [OF assms(2,4,6) m2(1-6) assms(11), of now' addr] m2(7)
    by (simp add: Let_def b2s_keyed_mac_16_2_def b2s_keyed_mac_16_def)
  with parse recv f2 show ?thesis by blast
qed

lemma one_not_zeros: "1 # xs \<noteq> replicate 16 (0 :: u8)"
proof
  assume "1 # xs = replicate 16 (0 :: u8)"
  then have "hd (1 # xs) = hd (replicate 16 (0 :: u8))" by (rule arg_cong)
  then show False by simp
qed

theorem cookie_exchange_completes_witness:
  "\<exists>m1 I1 reply rl1 c I2 m2 I3 p rl2.
    format_handshake_initiation toy_crypto [3] epoch epoch 148 (toy_end [1] [2]) = (Inr m1, I1) \<and>
    verify_packet toy_crypto epoch (Some (V4 [1, 2, 3, 4])) m1 64 (toy_limiter 0) = (Inl (WriteToNetwork reply), rl1) \<and>
    parse_incoming_packet reply = Inr (PacketCookieReply c) \<and>
    receive_cookie_reply toy_crypto c I1 = Some (Inr (), I2) \<and>
    format_handshake_initiation toy_crypto [5] epoch epoch 148 I2 = (Inr m2, I3) \<and>
    verify_packet toy_crypto epoch (Some (V4 [1, 2, 3, 4])) m2 64 (toy_limiter 0) = (Inr (HandshakeInit p), rl2)"
proof -
  let ?I = "toy_end [1] [2]"
  obtain m1 I1 where f: "format_handshake_initiation toy_crypto [3] epoch epoch 148 ?I = (Inr m1, I1)"
    using toy_initiation by blast
  have lp: "length (static_public (params ?I)) = 32"
    using toy_paired [of "[1]" "[2]"] toy_crypto_ok by (simp add: paired_def params_wf_def crypto_lengths)
  have nc: "write_cookie (hs_cookies ?I) = None" by (simp add: toy_end_def handshake_new_def)
  from initiation_macs [OF toy_crypto_ok f lp] nc obtain body mac1 p where
    m: "m1 = body @ mac1 @ replicate 16 0" "length m1 = 148" "length mac1 = 16" "length (replicate 16 (0 :: u8)) = 16"
      "parse_incoming_packet m1 = Inr (HandshakeInit p)"
      "mac1 = b2s_keyed_mac_16 toy_crypto (sending_mac1_key (params ?I)) body" by auto
  have lim: "limit (toy_limiter 0) \<le> rl_count (toy_limiter 0)" by (simp add: toy_limiter_def rate_limiter_new_def)
  let ?cookie = "current_cookie toy_crypto epoch (V4 [1, 2, 3, 4]) (toy_limiter 0)"
  have "b2s_keyed_mac_16_2 toy_crypto ?cookie body mac1 \<noteq> replicate 16 0"
    by (simp add: current_cookie_def b2s_keyed_mac_16_2_def toy_crypto_def toy_limiter_def rate_limiter_new_def pad_to_def one_not_zeros)
  with cookie_reply_verify [OF toy_paired toy_limiter_for lim m order_refl, of epoch "V4 [1, 2, 3, 4]"]
  obtain reply rl1 where v: "verify_packet toy_crypto epoch (Some (V4 [1, 2, 3, 4])) m1 64 (toy_limiter 0) =
      (Inl (WriteToNetwork reply), rl1)" by (simp add: Let_def split_beta)
  from cookie_exchange_completes [where ?e2.0 = "[5]" and ?t3.0 = epoch and ?t4.0 = epoch, OF toy_crypto_ok toy_paired toy_limiter_for toy_limiter_for lim lim refl refl refl
      f order_refl v] f v show ?thesis by (elim exE conjE) (intro exI conjI, assumption+)
qed

end
