(* ===== verification/Timers.thy ===== *)
theory Timers
  imports RateLimiter
begin

text \<open>
  The timers of a tunnel: the data of src/nekolink-core/src/noise/timers.rs. The array indexed by
  \<open>TimerName\<close> is a function of the name (its last constructor, \<open>Top\<close>, only gives the array its
  length and is never an index); the session timers are a list of \<open>N_SESSIONS\<close> durations.
\<close>

abbreviation (input) N_SESSIONS :: nat where "N_SESSIONS \<equiv> 8"

abbreviation (input) REKEY_AFTER_TIME :: duration where "REKEY_AFTER_TIME \<equiv> secs 120"
abbreviation (input) REJECT_AFTER_TIME :: duration where "REJECT_AFTER_TIME \<equiv> secs 180"
abbreviation (input) REKEY_ATTEMPT_TIME :: duration where "REKEY_ATTEMPT_TIME \<equiv> secs 90"
abbreviation (input) REKEY_TIMEOUT :: duration where "REKEY_TIMEOUT \<equiv> secs 5"
abbreviation (input) KEEPALIVE_TIMEOUT :: duration where "KEEPALIVE_TIMEOUT \<equiv> secs 10"
abbreviation (input) COOKIE_EXPIRATION_TIME :: duration where "COOKIE_EXPIRATION_TIME \<equiv> secs 120"

datatype timer_name =
    TimeCurrent
  | TimeSessionEstablished
  | TimeLastHandshakeStarted
  | TimeLastPacketReceived
  | TimeLastPacketSent
  | TimeLastDataPacketReceived
  | TimeLastDataPacketSent
  | TimeCookieReceived
  | TimePersistentKeepalive

record timers =
  tm_is_initiator :: bool
  time_started :: instant
  tm :: "timer_name \<Rightarrow> duration"
  session_timers :: "duration list"
  want_keepalive :: bool
  want_handshake :: bool
  tm_persistent_keepalive :: nat
  should_reset_rr :: bool

definition timers_new :: "u16 option \<Rightarrow> bool \<Rightarrow> instant \<Rightarrow> timers" where
  "timers_new keepalive reset_rr now =
     \<lparr>tm_is_initiator = False, time_started = now, tm = (\<lambda>_. 0), session_timers = replicate N_SESSIONS 0,
      want_keepalive = False, want_handshake = False,
      tm_persistent_keepalive = unat (case keepalive of Some k \<Rightarrow> k | None \<Rightarrow> 0), should_reset_rr = reset_rr\<rparr>"

definition timers_clear :: "instant \<Rightarrow> timers \<Rightarrow> timers" where
  "timers_clear reading ts =
     (let now = duration_since reading (time_started ts)
      in ts\<lparr>tm := (\<lambda>_. now), want_handshake := False, want_keepalive := False\<rparr>)"

text \<open>\<open>Tunn::timer_tick\<close>, on the tunnel's timers.\<close>

definition tick :: "timer_name \<Rightarrow> timers \<Rightarrow> timers" where
  "tick name ts =
     (let ts1 = (case name of
            TimeLastPacketReceived \<Rightarrow> ts\<lparr>want_keepalive := True, want_handshake := False\<rparr>
          | TimeLastPacketSent \<Rightarrow> ts\<lparr>want_handshake := True, want_keepalive := False\<rparr>
          | _ \<Rightarrow> ts)
      in ts1\<lparr>tm := (tm ts1)(name := tm ts1 TimeCurrent)\<rparr>)"

section \<open>Timers never run ahead\<close>

text \<open>Every timer is at most the time of the last update, and the arrays have their length.\<close>

definition timers_inv :: "timers \<Rightarrow> bool" where
  "timers_inv ts \<longleftrightarrow> length (session_timers ts) = N_SESSIONS \<and> wf_instant (time_started ts) \<and>
     (\<forall>n. tm ts n \<le> tm ts TimeCurrent) \<and> (\<forall>d \<in> set (session_timers ts). d \<le> tm ts TimeCurrent)"

lemma timers_inv_new: "wf_instant now \<Longrightarrow> timers_inv (timers_new k r now)"
  by (simp add: timers_inv_def timers_new_def)

lemma timers_inv_tick [intro]: "timers_inv ts \<Longrightarrow> timers_inv (tick n ts)"
  by (auto simp: timers_inv_def tick_def Let_def split: timer_name.split)

lemma timers_inv_clear [intro]:
  "timers_inv ts \<Longrightarrow> tm ts TimeCurrent \<le> duration_since now (time_started ts) \<Longrightarrow> timers_inv (timers_clear now ts)"
  by (fastforce simp: timers_inv_def timers_clear_def Let_def)

lemma tick_frames [frame_simps, simp]:
  "tm (tick n ts) TimeCurrent = tm ts TimeCurrent" "time_started (tick n ts) = time_started ts"
  "session_timers (tick n ts) = session_timers ts" "tm_is_initiator (tick n ts) = tm_is_initiator ts"
  "tm_persistent_keepalive (tick n ts) = tm_persistent_keepalive ts" "should_reset_rr (tick n ts) = should_reset_rr ts"
  "m \<noteq> n \<Longrightarrow> tm (tick n ts) m = tm ts m" "tm (tick n ts) n = tm ts TimeCurrent"
  by (auto simp: tick_def Let_def split: timer_name.split)

lemma clear_frames [frame_simps, simp]:
  "tm (timers_clear now ts) n = duration_since now (time_started ts)"
  "time_started (timers_clear now ts) = time_started ts"
  "session_timers (timers_clear now ts) = session_timers ts"
  "tm_is_initiator (timers_clear now ts) = tm_is_initiator ts"
  "should_reset_rr (timers_clear now ts) = should_reset_rr ts"
  by (simp_all add: timers_clear_def Let_def)

end
