(* ===== verification/Tunn.thy ===== *)
theory Tunn
  imports Timers
begin

text \<open>
  A point to point tunnel: \<open>Tunn\<close> of src/nekolink-core/src/noise/mod.rs with the timer driven
  part of src/nekolink-core/src/noise/timers.rs. The rate limiter, which tunnels share through an
  \<open>Arc\<close>, is an argument and a result of the operations that use it. \<open>env\<close> holds what an operation
  reads from outside: fresh ephemeral secrets and clock readings, one field per place. A buffer
  \<open>dst\<close> is its length. \<open>None\<close> is a panic. The loss estimate of \<open>stats\<close> (floating point) is left out.
\<close>

section \<open>State\<close>

abbreviation (input) MAX_QUEUE_DEPTH :: nat where "MAX_QUEUE_DEPTH \<equiv> 256"

abbreviation (input) PEER_HANDSHAKE_RATE_LIMIT :: u64 where "PEER_HANDSHAKE_RATE_LIMIT \<equiv> 10"

record env =
  e_eph :: bytes
  e_stamp :: instant
  e_sent :: instant
  e_rtt :: instant
  e_cookie :: instant
  e_clear :: instant
  e_time :: instant
  e_reset :: instant
  e_elapsed :: instant

record tunn =
  tn_handshake :: handshake
  sessions :: "session option list"
  current :: nat
  packet_queue :: "bytes list"
  tn_timers :: timers
  tx_bytes :: u64
  rx_bytes :: u64

text \<open>What \<open>RateLimiter::new\<close> draws and reads: 16 and 32 random bytes, two readings.\<close>

type_synonym limiter_env = "bytes \<times> bytes \<times> instant \<times> instant"

definition limiter_or_new :: "crypto \<Rightarrow> limiter_env \<Rightarrow> bytes \<Rightarrow> rate_limiter option \<Rightarrow> rate_limiter" where
  "limiter_or_new C le pub rl =
     (case rl of Some r \<Rightarrow> r
      | None \<Rightarrow> (case le of (r16, r32, now1, now2) \<Rightarrow>
          rate_limiter_new C r16 r32 now1 now2 pub PEER_HANDSHAKE_RATE_LIMIT))"

definition tunn_new ::
    "crypto \<Rightarrow> time_stamper \<Rightarrow> instant \<Rightarrow> limiter_env \<Rightarrow> bytes \<Rightarrow> bytes \<Rightarrow> bytes option \<Rightarrow> u16 option \<Rightarrow> u32 \<Rightarrow>
      rate_limiter option \<Rightarrow> tunn \<times> rate_limiter" where
  "tunn_new C ts now le priv peer psk keepalive index rl =
     (let pub = x25519_public C priv
      in (\<lparr>tn_handshake = handshake_new C priv pub peer (push_bit 8 index) psk ts,
           sessions = replicate N_SESSIONS None, current = 0, packet_queue = [],
           tn_timers = timers_new keepalive (rl = None) now, tx_bytes = 0, rx_bytes = 0\<rparr>,
          limiter_or_new C le pub rl))"

definition tunn_set_static_private ::
    "crypto \<Rightarrow> limiter_env \<Rightarrow> bytes \<Rightarrow> bytes \<Rightarrow> rate_limiter option \<Rightarrow> tunn \<Rightarrow> (tunn \<times> rate_limiter) option" where
  "tunn_set_static_private C le priv pub rl t = do {
     h \<leftarrow> handshake_set_static_private C priv pub (tn_handshake t);
     Some (t\<lparr>tn_timers := (tn_timers t)\<lparr>should_reset_rr := (rl = None)\<rparr>, tn_handshake := h,
             sessions := map (\<lambda>_. None) (sessions t)\<rparr>,
           limiter_or_new C le pub rl)
   }"

definition tunn_is_expired :: "tunn \<Rightarrow> bool" where
  "tunn_is_expired t = Handshake.is_expired (tn_handshake t)"

definition timer_tick :: "timer_name \<Rightarrow> tunn \<Rightarrow> tunn" where
  "timer_tick name t = t\<lparr>tn_timers := tick name (tn_timers t)\<rparr>"

definition timer_tick_session_established :: "bool \<Rightarrow> nat \<Rightarrow> tunn \<Rightarrow> tunn" where
  "timer_tick_session_established initiator session_idx t =
     (let t1 = timer_tick TimeSessionEstablished t; ts = tn_timers t1
      in t1\<lparr>tn_timers := ts\<lparr>session_timers := (session_timers ts)[session_idx mod N_SESSIONS := tm ts TimeCurrent],
                             tm_is_initiator := initiator\<rparr>\<rparr>)"

section \<open>The queue of blocked packets\<close>

definition queue_packet :: "bytes \<Rightarrow> tunn \<Rightarrow> tunn" where
  "queue_packet packet t =
     (if length (packet_queue t) < MAX_QUEUE_DEPTH then t\<lparr>packet_queue := packet_queue t @ [packet]\<rparr> else t)"

definition requeue_packet :: "bytes \<Rightarrow> tunn \<Rightarrow> tunn" where
  "requeue_packet packet t =
     (if length (packet_queue t) < MAX_QUEUE_DEPTH then t\<lparr>packet_queue := packet # packet_queue t\<rparr> else t)"

definition dequeue_packet :: "tunn \<Rightarrow> bytes option \<times> tunn" where
  "dequeue_packet t =
     (case packet_queue t of [] \<Rightarrow> (None, t) | p # ps \<Rightarrow> (Some p, t\<lparr>packet_queue := ps\<rparr>))"

section \<open>Sending\<close>

definition tunn_format_handshake_initiation ::
    "crypto \<Rightarrow> env \<Rightarrow> nat \<Rightarrow> bool \<Rightarrow> tunn \<Rightarrow> tunn_result \<times> tunn" where
  "tunn_format_handshake_initiation C env dst_len force_resend t =
     (if is_in_progress (tn_handshake t) \<and> \<not> force_resend then (TDone, t)
      else
        let t1 = (if Handshake.is_expired (tn_handshake t) then t\<lparr>tn_timers := timers_clear (e_clear env) (tn_timers t)\<rparr> else t);
            starting_new_handshake = (\<not> is_in_progress (tn_handshake t1));
            (r, h) = format_handshake_initiation C (e_eph env) (e_stamp env) (e_sent env) dst_len (tn_handshake t1);
            t2 = t1\<lparr>tn_handshake := h\<rparr>
        in case r of
             Inr packet \<Rightarrow>
               (let t3 = (if starting_new_handshake then timer_tick TimeLastHandshakeStarted t2 else t2)
                in (WriteToNetwork packet, timer_tick TimeLastPacketSent t3))
           | Inl e \<Rightarrow> (TErr e, t2))"

definition encapsulate :: "crypto \<Rightarrow> env \<Rightarrow> bytes \<Rightarrow> nat \<Rightarrow> tunn \<Rightarrow> (tunn_result \<times> tunn) option" where
  "encapsulate C env src dst_len t =
     (case sessions t ! (current t mod N_SESSIONS) of
        Some session \<Rightarrow> do {
          (packet, session') \<leftarrow> format_packet_data C src dst_len session;
          let t1 = timer_tick TimeLastPacketSent (t\<lparr>sessions := (sessions t)[current t mod N_SESSIONS := Some session']\<rparr>);
          let t2 = (if src \<noteq> [] then timer_tick TimeLastDataPacketSent t1 else t1);
          Some (WriteToNetwork packet, t2\<lparr>tx_bytes := tx_bytes t2 + word_of_nat (length src)\<rparr>)
        }
      | None \<Rightarrow> Some (tunn_format_handshake_initiation C env dst_len False (queue_packet src t)))"

definition send_queued_packet :: "crypto \<Rightarrow> env \<Rightarrow> nat \<Rightarrow> tunn \<Rightarrow> (tunn_result \<times> tunn) option" where
  "send_queued_packet C env dst_len t =
     (case dequeue_packet t of
        (None, t1) \<Rightarrow> Some (TDone, t1)
      | (Some packet, t1) \<Rightarrow> do {
          (r, t2) \<leftarrow> encapsulate C env packet dst_len t1;
          Some (case r of TErr _ \<Rightarrow> (TDone, requeue_packet packet t2) | _ \<Rightarrow> (r, t2))
        })"

section \<open>Receiving\<close>

definition handle_handshake_init ::
    "crypto \<Rightarrow> env \<Rightarrow> handshake_init \<Rightarrow> nat \<Rightarrow> tunn \<Rightarrow> ((wg_error + tunn_result) \<times> tunn) option" where
  "handle_handshake_init C env p dst_len t = do {
     (r, h) \<leftarrow> receive_handshake_initialization C (e_eph env) p dst_len (tn_handshake t);
     let t1 = t\<lparr>tn_handshake := h\<rparr>;
     Some (case r of
         Inl e \<Rightarrow> (Inl e, t1)
       | Inr (packet, session) \<Rightarrow>
           (let index = session_local_index session;
                t2 = t1\<lparr>sessions := (sessions t1)[index mod N_SESSIONS := Some session]\<rparr>;
                t3 = timer_tick TimeLastPacketReceived t2;
                t4 = timer_tick TimeLastPacketSent t3
            in (Inr (WriteToNetwork packet), timer_tick_session_established False index t4)))
   }"

definition set_current_session :: "nat \<Rightarrow> tunn \<Rightarrow> tunn" where
  "set_current_session new_idx t =
     (let cur_idx = current t
      in if cur_idx = new_idx then t
         else if sessions t ! (cur_idx mod N_SESSIONS) = None \<or>
           session_timers (tn_timers t) ! (new_idx mod N_SESSIONS) \<ge> session_timers (tn_timers t) ! (cur_idx mod N_SESSIONS)
         then t\<lparr>current := new_idx\<rparr> else t)"

definition handle_handshake_response ::
    "crypto \<Rightarrow> env \<Rightarrow> handshake_response \<Rightarrow> nat \<Rightarrow> tunn \<Rightarrow> ((wg_error + tunn_result) \<times> tunn) option" where
  "handle_handshake_response C env p dst_len t = do {
     (r, h) \<leftarrow> receive_handshake_response C (e_rtt env) p (tn_handshake t);
     let t1 = t\<lparr>tn_handshake := h\<rparr>;
     case r of
       Inl e \<Rightarrow> Some (Inl e, t1)
     | Inr session \<Rightarrow> do {
         (keepalive_packet, session') \<leftarrow> format_packet_data C [] dst_len session;
         let l_idx = session_local_index session';
         let index = l_idx mod N_SESSIONS;
         let t2 = t1\<lparr>sessions := (sessions t1)[index := Some session']\<rparr>;
         let t3 = timer_tick TimeLastPacketReceived t2;
         let t4 = timer_tick_session_established True index t3;
         Some (Inr (WriteToNetwork keepalive_packet), set_current_session l_idx t4)
       }
   }"

definition handle_cookie_reply ::
    "crypto \<Rightarrow> cookie_reply \<Rightarrow> tunn \<Rightarrow> ((wg_error + tunn_result) \<times> tunn) option" where
  "handle_cookie_reply C p t = do {
     (r, h) \<leftarrow> receive_cookie_reply C p (tn_handshake t);
     let t1 = t\<lparr>tn_handshake := h\<rparr>;
     Some (case r of
         Inl e \<Rightarrow> (Inl e, t1)
       | Inr _ \<Rightarrow> (Inr TDone, timer_tick TimeCookieReceived (timer_tick TimeLastPacketReceived t1)))
   }"

definition validate_decapsulated_packet :: "bytes \<Rightarrow> tunn \<Rightarrow> tunn_result \<times> tunn" where
  "validate_decapsulated_packet packet t =
     (if packet = [] then (TDone, t)
      else
        let parsed =
          (if drop_bit 4 (packet ! 0) = 4 \<and> length packet \<ge> IPV4_MIN_HEADER_SIZE
           then Some (unat (u16_of_be (slice 2 4 packet)), V4 (slice 12 16 packet))
           else if drop_bit 4 (packet ! 0) = 6 \<and> length packet \<ge> IPV6_MIN_HEADER_SIZE
           then Some (unat (u16_of_be (slice 4 6 packet)) + IPV6_MIN_HEADER_SIZE, V6 (slice 8 24 packet))
           else None)
        in case parsed of
             None \<Rightarrow> (TErr InvalidPacket, t)
           | Some (computed_len, src_ip_address) \<Rightarrow>
               if computed_len > length packet then (TErr InvalidPacket, t)
               else
                 (let t1 = timer_tick TimeLastDataPacketReceived t;
                      t2 = t1\<lparr>rx_bytes := rx_bytes t1 + word_of_nat computed_len\<rparr>
                  in (case src_ip_address of
                        V4 addr \<Rightarrow> WriteToTunnelV4 (take computed_len packet) addr
                      | V6 addr \<Rightarrow> WriteToTunnelV6 (take computed_len packet) addr, t2)))"

definition handle_data ::
    "crypto \<Rightarrow> packet_data \<Rightarrow> nat \<Rightarrow> tunn \<Rightarrow> ((wg_error + tunn_result) \<times> tunn) option" where
  "handle_data C packet dst_len t =
     (let r_idx = unat (pd_receiver_idx packet); idx = r_idx mod N_SESSIONS
      in case sessions t ! idx of
           None \<Rightarrow> Some (Inl NoCurrentSession, t)
         | Some session \<Rightarrow> do {
             (r, session') \<leftarrow> receive_packet_data C packet dst_len session;
             let t1 = t\<lparr>sessions := (sessions t)[idx := Some session']\<rparr>;
             Some (case r of
                 Inl e \<Rightarrow> (Inl e, t1)
               | Inr decapsulated \<Rightarrow>
                   (let t2 = timer_tick TimeLastPacketReceived (set_current_session r_idx t1);
                        (res, t3) = validate_decapsulated_packet decapsulated t2
                    in (Inr res, t3)))
           })"

definition handle_verified_packet ::
    "crypto \<Rightarrow> env \<Rightarrow> packet \<Rightarrow> nat \<Rightarrow> tunn \<Rightarrow> (tunn_result \<times> tunn) option" where
  "handle_verified_packet C env packet dst_len t = do {
     (r, t1) \<leftarrow> (case packet of
         HandshakeInit p \<Rightarrow> handle_handshake_init C env p dst_len t
       | HandshakeResponse p \<Rightarrow> handle_handshake_response C env p dst_len t
       | PacketCookieReply p \<Rightarrow> handle_cookie_reply C p t
       | PacketData p \<Rightarrow> handle_data C p dst_len t);
     Some (case r of Inr res \<Rightarrow> res | Inl e \<Rightarrow> tunn_result_from e, t1)
   }"

definition decapsulate ::
    "crypto \<Rightarrow> env \<Rightarrow> ip_addr option \<Rightarrow> bytes \<Rightarrow> nat \<Rightarrow> tunn \<Rightarrow> rate_limiter \<Rightarrow>
      (tunn_result \<times> tunn \<times> rate_limiter) option" where
  "decapsulate C env src_addr datagram dst_len t rl =
     (if datagram = [] then do {
        (r, t1) \<leftarrow> send_queued_packet C env dst_len t;
        Some (r, t1, rl)
      }
      else case verify_packet C (e_cookie env) src_addr datagram COOKIE_REPLY_SZ rl of
        (Inr packet, rl1) \<Rightarrow> do {
          (r, t1) \<leftarrow> handle_verified_packet C env packet dst_len t;
          Some (r, t1, rl1)
        }
      | (Inl (WriteToNetwork cookie), rl1) \<Rightarrow>
          if dst_len < length cookie then None else Some (WriteToNetwork cookie, t, rl1)
      | (Inl (TErr e), rl1) \<Rightarrow> Some (TErr e, t, rl1)
      | (Inl _, rl1) \<Rightarrow> None)"

section \<open>Timers\<close>

definition clear_all :: "instant \<Rightarrow> tunn \<Rightarrow> tunn" where
  "clear_all now t =
     t\<lparr>sessions := map (\<lambda>_. None) (sessions t), packet_queue := [], tn_timers := timers_clear now (tn_timers t)\<rparr>"

text \<open>The loop over the session timers, from index \<open>i\<close> on.\<close>

fun expire_sessions ::
    "duration \<Rightarrow> nat \<Rightarrow> duration list \<Rightarrow> session option list \<Rightarrow> (duration list \<times> session option list) option" where
  "expire_sessions time_now i [] ss = Some ([], ss)"
| "expire_sessions time_now i (d # ds) ss = do {
     age \<leftarrow> dur_sub time_now d;
     let (d', ss') = (if age > REJECT_AFTER_TIME then (time_now, ss[i := None]) else (d, ss));
     (ds', ss'') \<leftarrow> expire_sessions time_now (Suc i) ds ss';
     Some (d' # ds', ss'')
   }"

definition update_session_timers :: "duration \<Rightarrow> tunn \<Rightarrow> tunn option" where
  "update_session_timers time_now t = do {
     (ds, ss) \<leftarrow> expire_sessions time_now 0 (session_timers (tn_timers t)) (sessions t);
     Some (t\<lparr>sessions := ss, tn_timers := (tn_timers t)\<lparr>session_timers := ds\<rparr>\<rparr>)
   }"

text \<open>What the timers ask for: nothing, a new handshake, or a keepalive packet, and the tunnel with
  the flags that were consumed. This is the block for a handshake that is not in flight.\<close>

definition timer_demands :: "duration \<Rightarrow> tunn \<Rightarrow> (bool \<times> bool \<times> tunn) option" where
  "timer_demands now t =
     (let ts = tn_timers t; session_established = tm ts TimeSessionEstablished;
          aut_packet_received = tm ts TimeLastPacketReceived; aut_packet_sent = tm ts TimeLastPacketSent;
          data_packet_received = tm ts TimeLastDataPacketReceived; data_packet_sent = tm ts TimeLastDataPacketSent
      in do {
        age \<leftarrow> dur_sub now session_established;
        let on_send = tm_is_initiator ts \<and> session_established < data_packet_sent \<and> age \<ge> REKEY_AFTER_TIME;
        let on_receive = tm_is_initiator ts \<and> session_established < data_packet_received \<and>
          age \<ge> REJECT_AFTER_TIME - KEEPALIVE_TIMEOUT - REKEY_TIMEOUT;
        silent \<leftarrow> (if data_packet_sent > aut_packet_received then dur_sub now aut_packet_received else Some 0);
        let no_answer = (data_packet_sent > aut_packet_received \<and> silent \<ge> KEEPALIVE_TIMEOUT + REKEY_TIMEOUT);
        let init1 = (on_send \<or> on_receive \<or> (no_answer \<and> want_handshake ts));
        let t1 = (if no_answer then t\<lparr>tn_timers := ts\<lparr>want_handshake := False\<rparr>\<rparr> else t);
        if init1 then Some (True, False, t1)
        else do {
          idle \<leftarrow> (if data_packet_received > aut_packet_sent then dur_sub now aut_packet_sent else Some 0);
          let owes = (data_packet_received > aut_packet_sent \<and> idle \<ge> KEEPALIVE_TIMEOUT);
          let keep1 = (owes \<and> want_keepalive ts);
          let t2 = (if owes then t1\<lparr>tn_timers := (tn_timers t1)\<lparr>want_keepalive := False\<rparr>\<rparr> else t1);
          since \<leftarrow> (if tm_persistent_keepalive ts > 0 then dur_sub now (tm (tn_timers t2) TimePersistentKeepalive) else Some 0);
          if tm_persistent_keepalive ts > 0 \<and> since \<ge> secs (tm_persistent_keepalive ts)
          then Some (False, True, timer_tick TimePersistentKeepalive t2)
          else Some (False, keep1, t2)
        }
      })"

definition expire_tunn :: "instant \<Rightarrow> tunn \<Rightarrow> tunn" where
  "expire_tunn reading t = clear_all reading (t\<lparr>tn_handshake := set_expired (tn_handshake t)\<rparr>)"

text \<open>The decisions of \<open>update_timers\<close> once sessions and cookie are up to date: expire the connection,
  retransmit or give up an initiation in flight, or do what the other timers demand.\<close>

definition timer_action ::
    "crypto \<Rightarrow> env \<Rightarrow> nat \<Rightarrow> duration \<Rightarrow> tunn \<Rightarrow> (tunn_result \<times> tunn) option" where
  "timer_action C env dst_len now t = do {
     age \<leftarrow> dur_sub now (tm (tn_timers t) TimeSessionEstablished);
     if age \<ge> REJECT_AFTER_TIME * 3 then Some (TErr ConnectionExpired, expire_tunn (e_clear env) t)
     else case timer (tn_handshake t) of
       Some time_init_sent \<Rightarrow> do {
         trying \<leftarrow> dur_sub now (tm (tn_timers t) TimeLastHandshakeStarted);
         if trying \<ge> REKEY_ATTEMPT_TIME then Some (TErr ConnectionExpired, expire_tunn (e_clear env) t)
         else if duration_since (e_elapsed env) time_init_sent \<ge> REKEY_TIMEOUT
         then Some (tunn_format_handshake_initiation C env dst_len True t)
         else Some (TDone, t)
       }
     | None \<Rightarrow> do {
         (handshake_initiation_required, keepalive_required, t1) \<leftarrow> timer_demands now t;
         if handshake_initiation_required then Some (tunn_format_handshake_initiation C env dst_len True t1)
         else if keepalive_required then encapsulate C env [] dst_len t1
         else Some (TDone, t1)
       }
   }"

definition update_timers :: "crypto \<Rightarrow> env \<Rightarrow> nat \<Rightarrow> tunn \<Rightarrow> rate_limiter \<Rightarrow> (tunn_result \<times> tunn \<times> rate_limiter) option" where
  "update_timers C env dst_len t rl =
     (let rl1 = (if should_reset_rr (tn_timers t) then reset_count (e_reset env) rl else rl);
          now = duration_since (e_time env) (time_started (tn_timers t))
      in do {
        t1 \<leftarrow> update_session_timers now
               (t\<lparr>tn_timers := (tn_timers t)\<lparr>tm := (tm (tn_timers t))(TimeCurrent := now)\<rparr>\<rparr>);
        if Handshake.is_expired (tn_handshake t1) then Some (TErr ConnectionExpired, t1, rl1)
        else do {
          cookie_age \<leftarrow> (if has_cookie (tn_handshake t1) then dur_sub now (tm (tn_timers t1) TimeCookieReceived) else Some 0);
          let t2 = (if has_cookie (tn_handshake t1) \<and> cookie_age \<ge> COOKIE_EXPIRATION_TIME
                    then t1\<lparr>tn_handshake := clear_cookie (tn_handshake t1)\<rparr> else t1);
          (r, t3) \<leftarrow> timer_action C env dst_len now t2;
          Some (r, t3, rl1)
        }
      })"

definition time_since_last_handshake :: "instant \<Rightarrow> tunn \<Rightarrow> duration option option" where
  "time_since_last_handshake reading t =
     (if sessions t ! (current t mod N_SESSIONS) \<noteq> None
      then map_option Some (dur_sub (duration_since reading (time_started (tn_timers t)))
        (tm (tn_timers t) TimeSessionEstablished))
      else Some None)"

definition tunn_persistent_keepalive :: "tunn \<Rightarrow> u16 option" where
  "tunn_persistent_keepalive t =
     (let keepalive = tm_persistent_keepalive (tn_timers t)
      in if keepalive > 0 then Some (word_of_nat keepalive) else None)"

end
