(* ===== verification/Peer.thy ===== *)
theory Peer
  imports Allowed_Ips Tunn
begin

text \<open>
  Peers (src/nekolink-core/src/device/peer.rs): a tunnel, where the other end is believed to be,
  and the addresses it may use inside the tunnel. Sockets are numbers; what the operating system
  answers when a socket is opened is the argument \<open>os\<close>, given the whole request. The rate limiter
  that a tunnel holds through an \<open>Arc\<close> is a reference into the device's limiters.
\<close>

section \<open>Socket addresses\<close>

datatype sock_addr =
    SockV4 bytes u16
  | SockV6 bytes u16 u32 u32

fun sock_ip :: "sock_addr \<Rightarrow> ip_addr" where
  "sock_ip (SockV4 a _) = V4 a"
| "sock_ip (SockV6 a _ _ _) = V6 a"

fun sock_port :: "sock_addr \<Rightarrow> u16" where
  "sock_port (SockV4 _ p) = p"
| "sock_port (SockV6 _ p _ _) = p"

fun sock_is_ipv4 :: "sock_addr \<Rightarrow> bool" where
  "sock_is_ipv4 (SockV4 _ _) = True"
| "sock_is_ipv4 (SockV6 _ _ _ _) = False"

text \<open>\<open>SocketAddr::new\<close>: an IPv6 address gets flow information and scope 0.\<close>

fun sock_new :: "ip_addr \<Rightarrow> u16 \<Rightarrow> sock_addr" where
  "sock_new (V4 a) p = SockV4 a p"
| "sock_new (V6 a) p = SockV6 a p 0 0"

section \<open>State\<close>

datatype transport_mode = Udp | RawIp | Tcp

datatype device_error =
    IoError
  | SocketError
  | Bind string
  | FCntl
  | EventQueue
  | IOCtl
  | Connect string
  | SetSockOpt string
  | InvalidTunnelName
  | GetSockName string
  | TimerError
  | IfaceRead
  | DropPrivileges string
  | ApiSocket

type_synonym socket = nat

record endpoint =
  ep_addr :: "sock_addr option"
  ep_conn :: "socket option"

record 'u peer =
  p_tunnel :: tunn
  p_limiter :: nat
  p_index :: u32
  p_endpoint :: endpoint
  p_allowed_ips :: 'u
  p_preshared_key :: "bytes option"
  p_transport_mode :: transport_mode

section \<open>Operations\<close>

definition peer_new ::
    "('n, 'u, unit) ip_table \<Rightarrow> tunn \<Rightarrow> nat \<Rightarrow> u32 \<Rightarrow> sock_addr option \<Rightarrow> allowed_ip list \<Rightarrow> bytes option \<Rightarrow>
      transport_mode \<Rightarrow> 'u peer option" where
  "peer_new U tunnel limiter index endpoint allowed psk mode =
    do {
      ips \<leftarrow> ips_from_iter U (map (\<lambda>ip. (ip, ())) allowed);
      Some \<lparr>p_tunnel = tunnel, p_limiter = limiter, p_index = index,
        p_endpoint = \<lparr>ep_addr = endpoint, ep_conn = None\<rparr>, p_allowed_ips = ips,
        p_preshared_key = psk, p_transport_mode = mode\<rparr>
    }"

text \<open>The socket that is shut down, if any, and the peer.\<close>

definition shutdown_endpoint :: "'u peer \<Rightarrow> socket option \<times> 'u peer" where
  "shutdown_endpoint p = (ep_conn (p_endpoint p), p\<lparr>p_endpoint := (p_endpoint p)\<lparr>ep_conn := None\<rparr>\<rparr>)"

definition set_endpoint :: "sock_addr \<Rightarrow> 'u peer \<Rightarrow> socket option \<times> 'u peer" where
  "set_endpoint addr p =
    (let endpoint = p_endpoint p
     in if ep_addr endpoint \<noteq> Some addr
        then (ep_conn endpoint, p\<lparr>p_endpoint := \<lparr>ep_addr = Some addr, ep_conn = None\<rparr>\<rparr>)
        else (None, p))"

text \<open>
  What \<open>connect_endpoint\<close> asks the operating system for. The answer is the new descriptor and its
  duplicate (\<open>try_clone\<close>), which the peer keeps; \<open>None\<close> is any failure on the way.
\<close>

record sock_request =
  rq_v4 :: bool
  rq_raw :: bool
  rq_protocol :: int
  rq_bind_port :: u16
  rq_connect :: sock_addr
  rq_mark :: "u32 option"
  rq_tclass :: bool

definition endpoint_request :: "u16 \<Rightarrow> u32 option \<Rightarrow> u8 option \<Rightarrow> sock_addr \<Rightarrow> transport_mode \<Rightarrow> sock_request" where
  "endpoint_request port fwmark ip_protocol addr mode =
    \<lparr>rq_v4 = sock_is_ipv4 addr,
     rq_raw = (mode = RawIp),
     rq_protocol = (if mode = RawIp then (case ip_protocol of Some p \<Rightarrow> uint p | None \<Rightarrow> 141) else 17),
     rq_bind_port = port,
     rq_connect = addr,
     rq_mark = fwmark,
     rq_tclass = (\<not> sock_is_ipv4 addr \<and> ip_protocol \<noteq> None)\<rparr>"

definition connect_endpoint ::
    "(sock_request \<Rightarrow> (socket \<times> socket) option) \<Rightarrow> u16 \<Rightarrow> u32 option \<Rightarrow> u8 option \<Rightarrow> 'u peer \<Rightarrow>
      ((device_error + socket) \<times> 'u peer) option" where
  "connect_endpoint os port fwmark ip_protocol p =
    (if ep_conn (p_endpoint p) \<noteq> None then Some (Inl (Connect ''Connected''), p)
     else case ep_addr (p_endpoint p) of
       None \<Rightarrow> None
     | Some addr \<Rightarrow>
         (case os (endpoint_request port fwmark ip_protocol addr (p_transport_mode p)) of
            None \<Rightarrow> Some (Inl IoError, p)
          | Some (s, dup) \<Rightarrow> Some (Inr s, p\<lparr>p_endpoint := (p_endpoint p)\<lparr>ep_conn := Some dup\<rparr>\<rparr>)))"

definition is_allowed_ip :: "('n, 'u, unit) ip_table \<Rightarrow> ip_addr \<Rightarrow> 'u peer \<Rightarrow> bool" where
  "is_allowed_ip U addr p \<longleftrightarrow> ips_find U addr (p_allowed_ips p) \<noteq> None"

definition allowed_ips :: "('n, 'u, unit) ip_table \<Rightarrow> 'u peer \<Rightarrow> (ip_addr \<times> u8) list" where
  "allowed_ips U p = map (\<lambda>(_, ip, cidr). (ip, cidr)) (ips_iter U (p_allowed_ips p))"

section \<open>Lemmas\<close>

lemma set_endpoint_frame [frame_simps]:
  "set_endpoint a p = (s, p') \<Longrightarrow> p_tunnel p' = p_tunnel p \<and> p_index p' = p_index p \<and>
    p_allowed_ips p' = p_allowed_ips p \<and> p_limiter p' = p_limiter p \<and> ep_addr (p_endpoint p') = Some a"
  by (auto simp: set_endpoint_def Let_def split: if_splits)

lemma connect_endpoint_frame [frame_simps]:
  "connect_endpoint os port m proto p = Some (r, p') \<Longrightarrow> p_tunnel p' = p_tunnel p \<and> p_index p' = p_index p \<and>
    p_allowed_ips p' = p_allowed_ips p \<and> p_limiter p' = p_limiter p \<and>
    ep_addr (p_endpoint p') = ep_addr (p_endpoint p)"
  by (auto simp: connect_endpoint_def split: if_splits option.splits)

lemma shutdown_endpoint_frame [frame_simps]:
  "shutdown_endpoint p = (s, p') \<Longrightarrow> p_tunnel p' = p_tunnel p \<and> p_index p' = p_index p \<and>
    p_allowed_ips p' = p_allowed_ips p \<and> p_limiter p' = p_limiter p \<and>
    ep_addr (p_endpoint p') = ep_addr (p_endpoint p)"
  by (auto simp: shutdown_endpoint_def)

lemma peer_new_fields:
  "peer_new U t l i e a psk m = Some p \<Longrightarrow> p_tunnel p = t \<and> p_limiter p = l \<and> p_index p = i \<and>
    p_endpoint p = \<lparr>ep_addr = e, ep_conn = None\<rparr> \<and> ips_from_iter U (map (\<lambda>ip. (ip, ())) a) = Some (p_allowed_ips p)"
  by (auto simp: peer_new_def bind_eq_Some_conv)

text \<open>A peer takes packets from exactly the addresses its prefixes contain.\<close>

lemma new_peer_allows:
  assumes U: "table_ok U" and new: "peer_new U t l i e as psk m = Some p"
  shows "is_allowed_ip U a p \<longleftrightarrow> (\<exists>ip\<in>set as. in_prefix (ai_addr ip) (unat (ai_cidr ip)) a)"
proof -
  have find: "ips_find U a (p_allowed_ips p) = map_option snd (best_route (map (\<lambda>ip. (ip, ())) as) a)"
    using from_iter_find [OF U] peer_new_fields [OF new] by blast
  show ?thesis
  proof (cases "best_route (map (\<lambda>ip. (ip, ())) as) a")
    case None
    then show ?thesis using best_route_none [OF None] by (simp add: is_allowed_ip_def find)
  next
    case (Some b)
    then show ?thesis using best_route_sound [OF Some] by (auto simp: is_allowed_ip_def find)
  qed
qed

text \<open>A peer accepts inside its tunnel exactly the source addresses that one of the prefixes it was configured with contains.\<close>

theorem peer_accepts_its_prefixes:
  assumes "table_ok U" and "peer_new U t l i e as psk m = Some p"
  shows "is_allowed_ip U a p \<longleftrightarrow> (\<exists>ip\<in>set as. in_prefix (ai_addr ip) (unat (ai_cidr ip)) a)"
  by (rule new_peer_allows [OF assms])

lemma toy_peer_new:
  "\<exists>p. peer_new toy_table t l i e [\<lparr>ai_addr = V4 [10, 0, 0, 0], ai_cidr = 8\<rparr>] psk m = Some p"
  by (simp add: peer_new_def ips_from_iter_def ips_insert_def toy_table_def toy_truncate_def split: prod.split)

theorem peer_accepts_its_prefixes_witness:
  "\<forall>t. \<exists>p. peer_new toy_table t 0 7 None [\<lparr>ai_addr = V4 [10, 0, 0, 0], ai_cidr = 8\<rparr>] None Udp = Some p \<and>
    is_allowed_ip toy_table (V4 [10, 1, 2, 3]) p = (\<exists>ip\<in>set [\<lparr>ai_addr = V4 [10, 0, 0, 0], ai_cidr = 8\<rparr>].
      in_prefix (ai_addr ip) (unat (ai_cidr ip)) (V4 [10, 1, 2, 3]))"
proof
  fix t
  obtain p where p: "peer_new toy_table t 0 7 None [\<lparr>ai_addr = V4 [10, 0, 0, 0], ai_cidr = 8\<rparr>] None Udp = Some p"
    using toy_peer_new by blast
  show "\<exists>p. peer_new toy_table t 0 7 None [\<lparr>ai_addr = V4 [10, 0, 0, 0], ai_cidr = 8\<rparr>] None Udp = Some p \<and>
    is_allowed_ip toy_table (V4 [10, 1, 2, 3]) p = (\<exists>ip\<in>set [\<lparr>ai_addr = V4 [10, 0, 0, 0], ai_cidr = 8\<rparr>].
      in_prefix (ai_addr ip) (unat (ai_cidr ip)) (V4 [10, 1, 2, 3]))"
    by (rule exI [of _ p], rule conjI [OF p peer_accepts_its_prefixes [OF toy_table_ok p]])
qed

end
