(* ===== verification/Index_Lfsr.thy ===== *)
theory Index_Lfsr
  imports Prelude
begin

text \<open>
  The generator of peer indexes (src/nekolink-core/src/device/mod.rs, \<open>IndexLfsr\<close>). The random
  words of \<open>OsRng\<close> are an argument; a list that runs out stands for a generator that has not
  yet produced a usable word, so \<open>random_index\<close> then has no result. The assertion of \<open>next\<close> is a
  panic, hence the option.
\<close>

record index_lfsr =
  l_initial :: u32
  l_lfsr :: u32
  l_mask :: u32

abbreviation (input) LFSR_MAX :: u32 where "LFSR_MAX \<equiv> 0xffffff"

abbreviation (input) LFSR_POLY :: u32 where "LFSR_POLY \<equiv> 0xd80000"

text \<open>One word is drawn for each round of the loop; the unused words are returned.\<close>

fun random_index :: "u32 list \<Rightarrow> (u32 \<times> u32 list) option" where
  "random_index [] = None"
| "random_index (r # rs) = (let i = r AND LFSR_MAX in if i > 0 then Some (i, rs) else random_index rs)"

text \<open>The new register of \<open>next\<close>.\<close>

definition lfsr_step :: "u32 \<Rightarrow> u32" where
  "lfsr_step s = (drop_bit 1 s) XOR ((0 - (s AND 1)) AND LFSR_POLY)"

definition lfsr_next :: "index_lfsr \<Rightarrow> (u32 \<times> index_lfsr) option" where
  "lfsr_next g =
    (let value = l_lfsr g - 1;
         g' = g\<lparr>l_lfsr := lfsr_step (l_lfsr g)\<rparr>
     in if l_lfsr g' \<noteq> l_initial g' then Some (value XOR l_mask g', g') else None)"

definition lfsr_default :: "u32 list \<Rightarrow> (index_lfsr \<times> u32 list) option" where
  "lfsr_default rs =
    do {
      (seed, rs) \<leftarrow> random_index rs;
      (m, rs) \<leftarrow> random_index rs;
      Some (\<lparr>l_initial = seed, l_lfsr = seed, l_mask = m\<rparr>, rs)
    }"

text \<open>A run of \<open>n\<close> calls: the indexes it hands out.\<close>

fun lfsr_take :: "nat \<Rightarrow> index_lfsr \<Rightarrow> (u32 list \<times> index_lfsr) option" where
  "lfsr_take 0 g = Some ([], g)"
| "lfsr_take (Suc n) g =
    do {
      (i, g) \<leftarrow> lfsr_next g;
      (is, g) \<leftarrow> lfsr_take n g;
      Some (i # is, g)
    }"

section \<open>The register\<close>

definition reg_ok :: "u32 \<Rightarrow> bool" where
  "reg_ok s \<longleftrightarrow> s \<noteq> 0 \<and> s < 2 ^ 24"

lemma high_bits_clear: "s < 2 ^ 24 \<Longrightarrow> 24 \<le> n \<Longrightarrow> \<not> bit s n" for s :: u32
proof -
  assume s: "s < 2 ^ 24" and n: "24 \<le> n"
  have "s = take_bit 24 s" using s by (simp add: less_mask_eq [symmetric] take_bit_eq_mod word_mod_less_divisor mod_word_less)
  then show ?thesis using n by (metis bit_take_bit_iff not_less)
qed

lemma below_24_iff: "s < 2 ^ 24 \<longleftrightarrow> (\<forall>n\<ge>24. \<not> bit s n)" for s :: u32
proof
  assume "\<forall>n\<ge>24. \<not> bit s n"
  then have "s = take_bit 24 s" by (intro bit_eqI) (auto simp: bit_take_bit_iff not_less intro: ccontr)
  also have "\<dots> < 2 ^ 24" by (simp add: take_bit_eq_mod word_mod_less_divisor)
  finally show "s < 2 ^ 24" .
qed (use high_bits_clear in blast)

lemma and_1_cases: "(s AND 1 = 0 \<and> \<not> bit s 0) \<or> (s AND 1 = 1 \<and> bit s 0)" for s :: u32
  by (cases "bit s 0") (simp_all add: and_one_eq bit_0 mod_2_eq_odd)

lemma lfsr_step_bit: "n < 32 \<Longrightarrow> bit (lfsr_step s) n = (bit s (Suc n) \<noteq> (bit s 0 \<and> bit LFSR_POLY n))"
  using and_1_cases [of s]
  by (auto simp: lfsr_step_def bit_xor_iff bit_and_iff bit_drop_bit_eq)

lemma poly_bit_23: "bit LFSR_POLY 23" by simp

lemma poly_below: "LFSR_POLY < 2 ^ 24" by simp

lemma lfsr_step_below:
  assumes "s < 2 ^ 24"
  shows "lfsr_step s < 2 ^ 24"
  unfolding below_24_iff
proof (intro allI impI)
  fix n :: nat
  assume n: "24 \<le> n"
  show "\<not> bit (lfsr_step s) n"
  proof (cases "n < 32")
    case True
    with n show ?thesis
      using high_bits_clear [OF assms, of "Suc n"] high_bits_clear [OF poly_below n]
      by (simp add: lfsr_step_bit del: bit_numeral_word_iff)
  next
    case False
    then show ?thesis using bit_imp_le_length [of "lfsr_step s" n] by auto
  qed
qed

text \<open>The register step can be undone: the top bit of the result is the bit shifted out.\<close>

lemma lfsr_step_inject:
  assumes a: "a < 2 ^ 24" and b: "b < 2 ^ 24" and eq: "lfsr_step a = lfsr_step b"
  shows "a = b"
proof -
  have "bit (lfsr_step a) 23 = bit a 0" "bit (lfsr_step b) 23 = bit b 0"
    using high_bits_clear [OF a, of 24] high_bits_clear [OF b, of 24] poly_bit_23
    by (simp_all add: lfsr_step_bit)
  with eq have lsb: "bit a 0 = bit b 0" by simp
  show ?thesis
  proof (rule bit_word_eqI)
    fix n assume "n < LENGTH(32)"
    then show "bit a n = bit b n"
    proof (cases n)
      case (Suc k)
      have "bit (lfsr_step a) k = bit (lfsr_step b) k" using eq by simp
      with Suc \<open>n < LENGTH(32)\<close> lsb show ?thesis by (auto simp: lfsr_step_bit simp del: bit_numeral_word_iff)
    qed (simp add: lsb)
  qed
qed

lemma lfsr_step_0: "lfsr_step 0 = 0"
  by (simp add: lfsr_step_def)

lemma lfsr_step_ok: "reg_ok s \<Longrightarrow> reg_ok (lfsr_step s)"
  using lfsr_step_inject [of s 0] lfsr_step_below [of s] by (auto simp: reg_ok_def lfsr_step_0)

lemma iterate_inject:
  "(lfsr_step ^^ k) a = (lfsr_step ^^ k) b \<Longrightarrow> reg_ok a \<Longrightarrow> reg_ok b \<Longrightarrow> a = b"
proof (induction k arbitrary: a b)
  case (Suc k)
  from Suc.prems(1) have "(lfsr_step ^^ k) (lfsr_step a) = (lfsr_step ^^ k) (lfsr_step b)"
    by (simp add: funpow_swap1)
  from Suc.IH [OF this] Suc.prems have "lfsr_step a = lfsr_step b" by (simp add: lfsr_step_ok)
  then show ?case using Suc.prems lfsr_step_inject by (auto simp: reg_ok_def)
qed simp

section \<open>Runs of the generator\<close>

lemma random_index_ok: "random_index rs = Some (i, rs') \<Longrightarrow> reg_ok i"
proof (induction rs)
  case (Cons r rs)
  have "r AND LFSR_MAX < 2 ^ 24"
    unfolding below_24_iff by (auto simp: bit_and_iff high_bits_clear simp del: bit_numeral_word_iff)
  with Cons show ?case
    by (auto simp: Let_def reg_ok_def word_gt_0 split: if_splits)
qed simp

lemma lfsr_take_shape:
  "lfsr_take n g = Some (xs, g') \<Longrightarrow>
    xs = map (\<lambda>k. ((lfsr_step ^^ k) (l_lfsr g) - 1) XOR l_mask g) [0..<n] \<and>
    (\<forall>k\<in>{1..n}. (lfsr_step ^^ k) (l_lfsr g) \<noteq> l_initial g)"
proof (induction n arbitrary: g xs)
  case (Suc n)
  from Suc.prems obtain i g1 ys where nx: "lfsr_next g = Some (i, g1)"
    and tk: "lfsr_take n g1 = Some (ys, g')" and xs: "xs = i # ys"
    by (auto simp: bind_eq_Some_conv)
  from nx have g1: "g1 = g\<lparr>l_lfsr := lfsr_step (l_lfsr g)\<rparr>"
    and i: "i = (l_lfsr g - 1) XOR l_mask g" and ne: "lfsr_step (l_lfsr g) \<noteq> l_initial g"
    by (auto simp: lfsr_next_def Let_def split: if_splits)
  note ih = Suc.IH [OF tk]
  have sh: "(lfsr_step ^^ k) (lfsr_step s) = (lfsr_step ^^ Suc k) s" for k s
    by (simp add: funpow_swap1)
  have ys: "ys = map (\<lambda>k. ((lfsr_step ^^ Suc k) (l_lfsr g) - 1) XOR l_mask g) [0..<n]"
    using ih by (simp add: g1 funpow_swap1)
  have "(lfsr_step ^^ k) (l_lfsr g) \<noteq> l_initial g" if "k \<in> {1..Suc n}" for k
  proof (cases "k = 1")
    case False
    with that obtain j where j: "k = Suc j" "j \<in> {1..n}" by (cases k) auto
    have "(lfsr_step ^^ j) (l_lfsr g1) \<noteq> l_initial g1" using ih j by blast
    then show ?thesis using j by (simp add: g1 funpow_swap1)
  qed (simp add: ne)
  moreover have "xs = map (\<lambda>k. ((lfsr_step ^^ k) (l_lfsr g) - 1) XOR l_mask g) [0..<Suc n]"
    unfolding xs i ys by (simp add: upt_conv_Cons map_Suc_upt [symmetric] o_def del: upt_Suc)
  ultimately show ?case by blast
qed simp

lemma iterates_distinct:
  assumes ok: "reg_ok s" and fresh: "\<forall>k\<in>{1..n}. (lfsr_step ^^ k) s \<noteq> s"
    and ij: "i < j" "j \<le> n"
  shows "(lfsr_step ^^ i) s \<noteq> (lfsr_step ^^ j) s"
proof
  have ok': "reg_ok ((lfsr_step ^^ k) s)" for k by (induction k) (simp_all add: ok lfsr_step_ok)
  assume "(lfsr_step ^^ i) s = (lfsr_step ^^ j) s"
  also have "j = i + (j - i)" using ij by simp
  then have "(lfsr_step ^^ j) s = (lfsr_step ^^ i) ((lfsr_step ^^ (j - i)) s)"
    by (metis comp_apply funpow_add)
  finally have "s = (lfsr_step ^^ (j - i)) s" using iterate_inject ok ok' by blast
  moreover have "j - i \<in> {1..n}" using ij by auto
  ultimately show False using fresh by (metis)
qed

lemma index_inject: "((a - 1) XOR m = (b - 1) XOR m) \<longleftrightarrow> a = b" for a b m :: u32
proof
  assume "(a - 1) XOR m = (b - 1) XOR m"
  then have "((a - 1) XOR m) XOR m = ((b - 1) XOR m) XOR m" by (rule arg_cong)
  then show "a = b" by (simp add: xor.assoc)
qed simp

lemma iterate_ok: "reg_ok s \<Longrightarrow> reg_ok ((lfsr_step ^^ k) s)"
  by (induction k) (simp_all add: lfsr_step_ok)

lemma index_below:
  assumes "reg_ok s" "reg_ok m"
  shows "(s - 1) XOR m < 2 ^ 24"
proof -
  have "s - 1 < 2 ^ 24"
    using assms(1) measure_unat [of s] by (auto simp: reg_ok_def word_less_nat_alt)
  moreover have "m < 2 ^ 24" using assms(2) by (simp add: reg_ok_def)
  ultimately show ?thesis unfolding below_24_iff by (simp add: bit_xor_iff)
qed

text \<open>The indexes \<open>I\<close> are among those the generator has handed out since it was seeded.\<close>

definition issued :: "index_lfsr \<Rightarrow> u32 set \<Rightarrow> bool" where
  "issued g I \<longleftrightarrow> reg_ok (l_initial g) \<and> reg_ok (l_mask g) \<and>
    (\<exists>n. l_lfsr g = (lfsr_step ^^ n) (l_initial g) \<and>
      (\<forall>k\<in>{1..n}. (lfsr_step ^^ k) (l_initial g) \<noteq> l_initial g) \<and>
      I \<subseteq> (\<lambda>k. ((lfsr_step ^^ k) (l_initial g) - 1) XOR l_mask g) ` {..<n})"

lemma issued_default: "lfsr_default rs = Some (g, rs') \<Longrightarrow> issued g {}"
  by (auto simp: lfsr_default_def bind_eq_Some_conv issued_def dest!: random_index_ok intro!: exI [of _ 0])

lemma issued_subset: "issued g I \<Longrightarrow> J \<subseteq> I \<Longrightarrow> issued g J"
  unfolding issued_def by (meson order_trans)

lemma issued_next:
  assumes "lfsr_next g = Some (i, g')" and "issued g I"
  shows "issued g' (insert i I) \<and> i \<notin> I \<and> i < 2 ^ 24"
proof -
  let ?f = "\<lambda>k. ((lfsr_step ^^ k) (l_initial g) - 1) XOR l_mask g"
  obtain n where ok: "reg_ok (l_initial g)" "reg_ok (l_mask g)" and n: "l_lfsr g = (lfsr_step ^^ n) (l_initial g)"
    and fresh: "\<forall>k\<in>{1..n}. (lfsr_step ^^ k) (l_initial g) \<noteq> l_initial g" and I: "I \<subseteq> ?f ` {..<n}"
    using assms(2) by (auto simp: issued_def)
  have g': "g' = g\<lparr>l_lfsr := lfsr_step (l_lfsr g)\<rparr>" and i: "i = ?f n" and ne: "lfsr_step (l_lfsr g) \<noteq> l_initial g"
    using assms(1) n by (auto simp: lfsr_next_def Let_def split: if_splits)
  have "i \<notin> I"
  proof
    assume "i \<in> I"
    then obtain k where "k < n" "?f n = ?f k" using I i by auto
    then show False using iterates_distinct [OF ok(1) fresh, of k n] by (simp add: index_inject)
  qed
  moreover have "i < 2 ^ 24" unfolding i by (rule index_below [OF iterate_ok [OF ok(1)] ok(2)])
  moreover have "issued g' (insert i I)"
    unfolding issued_def
  proof (intro conjI exI [of _ "Suc n"] ballI)
    fix k assume "k \<in> {1..Suc n}"
    then show "(lfsr_step ^^ k) (l_initial g') \<noteq> l_initial g'"
      using fresh ne n by (cases "k = Suc n") (auto simp: g')
  qed (use ok n I i in \<open>auto simp: g'\<close>)
  ultimately show ?thesis by blast
qed

lemma lfsr_take_distinct:
  assumes start: "lfsr_default rs = Some (g, rs')" and run: "lfsr_take n g = Some (xs, g')"
  shows "distinct xs \<and> length xs = n \<and> (\<forall>x\<in>set xs. x < 2 ^ 24)"
proof -
  obtain s m where g: "g = \<lparr>l_initial = s, l_lfsr = s, l_mask = m\<rparr>" and s: "reg_ok s" and m: "reg_ok m"
    using start by (auto simp: lfsr_default_def bind_eq_Some_conv dest: random_index_ok)
  from lfsr_take_shape [OF run]
  have xs: "xs = map (\<lambda>k. ((lfsr_step ^^ k) s - 1) XOR m) [0..<n]"
    and fresh: "\<forall>k\<in>{1..n}. (lfsr_step ^^ k) s \<noteq> s" by (simp_all add: g)
  have "inj_on (\<lambda>k. ((lfsr_step ^^ k) s - 1) XOR m) {0..<n}"
  proof (rule inj_onI)
    fix i j assume "i \<in> {0..<n}" "j \<in> {0..<n}" "((lfsr_step ^^ i) s - 1) XOR m = ((lfsr_step ^^ j) s - 1) XOR m"
    then show "i = j"
      using iterates_distinct [OF s fresh, of i j] iterates_distinct [OF s fresh, of j i]
      by (cases i j rule: linorder_cases) (auto simp: index_inject)
  qed
  then have "distinct xs" by (simp add: xs distinct_map)
  moreover have "x < 2 ^ 24" if x: "x \<in> set xs" for x
  proof -
    obtain k where k: "x = ((lfsr_step ^^ k) s - 1) XOR m" using x by (auto simp: xs)
    then show ?thesis using index_below [OF iterate_ok [OF s] m] by simp
  qed
  ultimately show ?thesis by (simp add: xs)
qed

text \<open>C40 The indexes a device gives to its peers are pairwise different 24 bit numbers: in every run of the generator from its random start, as many as are drawn before the assertion fires, no index comes twice and each fits the 24 bits that a tunnel shifts to the left of its session number.\<close>

theorem peer_indexes_distinct:
  assumes "lfsr_default rs = Some (g, rs')" and "lfsr_take n g = Some (xs, g')"
  shows "distinct xs \<and> length xs = n \<and> (\<forall>x\<in>set xs. x < 2 ^ 24)"
  by (rule lfsr_take_distinct [OF assms])

lemma toy_lfsr:
  "lfsr_default [0, 5, 7] = Some (\<lparr>l_initial = 5, l_lfsr = 5, l_mask = 7\<rparr>, [])"
  "lfsr_take 2 \<lparr>l_initial = 5, l_lfsr = 5, l_mask = 7\<rparr> =
    Some ([3, 0xd80006], \<lparr>l_initial = 5, l_lfsr = 0x6c0001, l_mask = 7\<rparr>)"
  by code_simp+

theorem peer_indexes_distinct_witness:
  "\<exists>xs g. lfsr_take 2 \<lparr>l_initial = 5, l_lfsr = 5, l_mask = 7\<rparr> = Some (xs, g) \<and> distinct xs \<and> length xs = 2 \<and>
    xs ! 1 < 2 ^ 24"
  using peer_indexes_distinct [OF toy_lfsr] toy_lfsr(2) by simp

end
