(* ===== verification/Tcp_Framing.thy ===== *)
theory Tcp_Framing
  imports Prelude
begin

text \<open>
  Datagrams over a TCP stream (src/nekolink-core/src/device/tcp_framing.rs): a frame is a two
  byte big-endian length and the payload, and the receiver collects the stream in one buffer of
  \<open>MAX_DATAGRAM_SIZE\<close> bytes. The loop of the stream handler (device/mod.rs,
  \<open>register_tcp_stream_handler\<close>) around the framing is here too, with the treatment of a packet
  as an argument; the device theory gives it. A slice out of range panics (\<open>None\<close>).
\<close>

abbreviation (input) MAX_DATAGRAM_SIZE :: nat where "MAX_DATAGRAM_SIZE \<equiv> 65535"

abbreviation (input) HEADER_LEN :: nat where "HEADER_LEN \<equiv> 2"

record tcp_framing =
  f_buffer :: bytes
  f_unprocessed_i :: nat

definition tcp_new :: tcp_framing where
  "tcp_new = \<lparr>f_buffer = replicate MAX_DATAGRAM_SIZE 0, f_unprocessed_i = 0\<rparr>"

definition get_free_space :: "tcp_framing \<Rightarrow> bytes option" where
  "get_free_space f =
    (if f_unprocessed_i f \<le> length (f_buffer f) then Some (drop (f_unprocessed_i f) (f_buffer f)) else None)"

definition tcp_advance :: "nat \<Rightarrow> tcp_framing \<Rightarrow> tcp_framing" where
  "tcp_advance len f = f\<lparr>f_unprocessed_i := f_unprocessed_i f + len\<rparr>"

definition peek_packet :: "tcp_framing \<Rightarrow> nat \<Rightarrow> (nat \<times> bytes) option option" where
  "peek_packet f offset =
    (if f_unprocessed_i f < offset + HEADER_LEN then Some None
     else if length (f_buffer f) < offset + HEADER_LEN then None
     else let header = slice offset (offset + HEADER_LEN) (f_buffer f);
              datagram_len = unat (u16_of_be [header ! 0, header ! 1]);
              total_packet_len = HEADER_LEN + datagram_len
          in if f_unprocessed_i f < offset + total_packet_len then Some None
             else if length (f_buffer f) < offset + total_packet_len then None
             else Some (Some (total_packet_len,
                    slice (offset + HEADER_LEN) (offset + total_packet_len) (f_buffer f))))"

text \<open>The subtraction is one of \<open>usize\<close>, written out with its wrap-around.\<close>

definition tcp_compact :: "nat \<Rightarrow> tcp_framing \<Rightarrow> tcp_framing option" where
  "tcp_compact bytes_consumed f =
    (if bytes_consumed > 0 then
       do {
         buf \<leftarrow> (if f_unprocessed_i f > bytes_consumed then
                   if f_unprocessed_i f \<le> length (f_buffer f) then
                     (let moved = slice bytes_consumed (f_unprocessed_i f) (f_buffer f)
                      in Some (moved @ drop (length moved) (f_buffer f)))
                   else None
                 else Some (f_buffer f));
         Some \<lparr>f_buffer = buf, f_unprocessed_i = (f_unprocessed_i f + 2 ^ 64 - bytes_consumed) mod 2 ^ 64\<rparr>
       }
     else Some f)"

section \<open>The loop of the stream handler\<close>

text \<open>
  \<open>sock.read(buf)\<close> copies what it has into the free space, at most all of it; then \<open>advance\<close>.
  The stream is the list of bytes that are still to come, \<open>k\<close> bounds what has arrived.
\<close>

definition tcp_read :: "nat \<Rightarrow> bytes \<Rightarrow> tcp_framing \<Rightarrow> (tcp_framing \<times> bytes) option" where
  "tcp_read k stream f =
    do {
      free \<leftarrow> get_free_space f;
      let n = min k (min (length free) (length stream));
      let buf = take (f_unprocessed_i f) (f_buffer f) @ take n stream @ drop n free;
      Some (tcp_advance n (f\<lparr>f_buffer := buf\<rparr>), drop n stream)
    }"

datatype 's flow = Go 's | Break 's | Halt 's

lemma peek_packet_grows:
  "peek_packet f off = Some (Some (tot, p)) \<Longrightarrow> 2 \<le> tot \<and> off + tot \<le> f_unprocessed_i f"
  by (auto simp: peek_packet_def Let_def split: if_splits)

text \<open>
  The \<open>while let\<close> loop: \<open>step\<close> is its body for one packet, whose \<open>Break\<close> leaves the packet in the
  buffer and whose \<open>Halt\<close> ends the loop after it; the result is the final state and \<open>bytes_consumed\<close>.
\<close>

function tcp_drain ::
    "('s \<Rightarrow> bytes \<Rightarrow> 's flow option) \<Rightarrow> tcp_framing \<Rightarrow> 's \<Rightarrow> nat \<Rightarrow> ('s \<times> nat) option" where
  "tcp_drain step f s off =
    (case peek_packet f off of
       None \<Rightarrow> None
     | Some None \<Rightarrow> Some (s, off)
     | Some (Some (tot, p)) \<Rightarrow>
         (case step s p of
            None \<Rightarrow> None
          | Some (Break s) \<Rightarrow> Some (s, off)
          | Some (Halt s) \<Rightarrow> Some (s, off + tot)
          | Some (Go s) \<Rightarrow> tcp_drain step f s (off + tot)))"
  by pat_completeness auto
termination
  by (relation "measure (\<lambda>(step, f, s, off). f_unprocessed_i f - off)")
    (auto dest!: peek_packet_grows)

declare tcp_drain.simps [simp del]

text \<open>
  One wake-up of the handler: read, drain, compact. Reading into an empty slice gives \<open>Ok(0)\<close>,
  which the handler takes for the end of the stream (\<open>Inl\<close>, \<open>Action::Exit\<close>); when nothing has
  arrived the read would block and nothing happens.
\<close>

definition tcp_event ::
    "('s \<Rightarrow> bytes \<Rightarrow> 's flow option) \<Rightarrow> nat \<Rightarrow> bytes \<Rightarrow> tcp_framing \<Rightarrow> 's \<Rightarrow>
      ('s + tcp_framing \<times> 's \<times> bytes) option" where
  "tcp_event step k stream f s =
    do {
      free \<leftarrow> get_free_space f;
      if free = [] then Some (Inl s)
      else if k = 0 \<or> stream = [] then Some (Inr (f, s, stream))
      else do {
        (f, stream) \<leftarrow> tcp_read k stream f;
        (s, bytes_consumed) \<leftarrow> tcp_drain step f s 0;
        f \<leftarrow> tcp_compact bytes_consumed f;
        Some (Inr (f, s, stream))
      }
    }"

fun tcp_events ::
    "('s \<Rightarrow> bytes \<Rightarrow> 's flow option) \<Rightarrow> nat list \<Rightarrow> bytes \<Rightarrow> tcp_framing \<Rightarrow> 's \<Rightarrow>
      ('s + tcp_framing \<times> 's \<times> bytes) option" where
  "tcp_events step [] stream f s = Some (Inr (f, s, stream))"
| "tcp_events step (k # ks) stream f s =
    (case tcp_event step k stream f s of
       None \<Rightarrow> None
     | Some (Inl s) \<Rightarrow> Some (Inl s)
     | Some (Inr (f, s, stream)) \<Rightarrow> tcp_events step ks stream f s)"

text \<open>What the sender writes for a packet: \<open>packet.len() as u16\<close>, big-endian, and the packet.\<close>

definition tcp_frame :: "bytes \<Rightarrow> bytes" where
  "tcp_frame p = u16_be (word_of_nat (length p)) @ p"

section \<open>A stream parser as specification\<close>

function parse_frames :: "bytes \<Rightarrow> bytes list \<times> bytes" where
  "parse_frames bs =
    (if length bs < 2 \<or> length bs < 2 + unat (u16_of_be (take 2 bs)) then ([], bs)
     else let n = unat (u16_of_be (take 2 bs));
              (ps, r) = parse_frames (drop (2 + n) bs)
          in (take n (drop 2 bs) # ps, r))"
  by pat_completeness auto
termination
  by (relation "measure length") auto

declare parse_frames.simps [simp del]

definition buffered :: "tcp_framing \<Rightarrow> bytes" where
  "buffered f = take (f_unprocessed_i f) (f_buffer f)"

definition framing_ok :: "tcp_framing \<Rightarrow> bool" where
  "framing_ok f \<longleftrightarrow> length (f_buffer f) = MAX_DATAGRAM_SIZE \<and> f_unprocessed_i f \<le> MAX_DATAGRAM_SIZE"

lemma framing_ok_new: "framing_ok tcp_new" "buffered tcp_new = []" "f_unprocessed_i tcp_new = 0"
  by (simp_all add: framing_ok_def tcp_new_def buffered_def)

lemma length_buffered: "framing_ok f \<Longrightarrow> length (buffered f) = f_unprocessed_i f"
  by (simp add: framing_ok_def buffered_def)

lemma two_bytes: "2 \<le> length xs \<Longrightarrow> [slice 0 2 xs ! 0, slice 0 2 xs ! 1] = take 2 xs"
  by (cases xs; cases "tl xs") (auto simp: slice_def numeral_2_eq_2)

lemma slice_shift: "slice (a + k) (b + k) xs = slice a b (drop k xs)"
  by (simp add: slice_def add.commute)

lemma slice_take: "b \<le> n \<Longrightarrow> slice a b (take n xs) = slice a b xs"
  by (cases "a \<le> b") (simp_all add: slice_def drop_take min_def)

lemma peek_packet_parse:
  assumes ok: "framing_ok f" and off: "off \<le> f_unprocessed_i f"
  defines "bs \<equiv> drop off (buffered f)"
  shows "peek_packet f off =
    Some (if length bs < 2 \<or> length bs < 2 + unat (u16_of_be (take 2 bs)) then None
          else Some (2 + unat (u16_of_be (take 2 bs)), take (unat (u16_of_be (take 2 bs))) (drop 2 bs)))"
proof -
  have len: "length bs = f_unprocessed_i f - off"
    using ok by (simp add: bs_def length_buffered)
  have sl: "slice (off + a) (off + b) (f_buffer f) = slice a b bs" if "off + b \<le> f_unprocessed_i f" for a b
    using slice_shift [of a off b "f_buffer f"] slice_take [of "off + b" "f_unprocessed_i f" "off + a" "f_buffer f"]
      slice_shift [of a off b "buffered f"] that
    by (simp add: bs_def buffered_def add.commute)
  have hd: "[slice 0 2 bs ! 0, slice 0 2 bs ! 1] = take 2 bs" if "2 \<le> length bs"
    using that by (rule two_bytes)
  from ok have bound: "f_unprocessed_i f \<le> length (f_buffer f)" by (simp add: framing_ok_def)
  show ?thesis
  proof (cases "2 \<le> length bs")
    case True
    then have in_buf: "off + 2 \<le> f_unprocessed_i f" using len off by linarith
    have "slice off (off + 2) (f_buffer f) = slice 0 2 bs" using sl [of 2 0] in_buf by simp
    with hd [OF True] sl [of "2 + unat (u16_of_be (take 2 bs))" 2] len in_buf bound show ?thesis
      by (auto simp: peek_packet_def Let_def slice_def)
  qed (use len off in \<open>auto simp: peek_packet_def\<close>)
qed

section \<open>Draining and compacting\<close>

text \<open>The bytes that wait in the buffer after parsing are a suffix of what was there.\<close>

lemma parse_frames_split:
  "\<exists>front. bs = front @ snd (parse_frames bs)"
proof (induction bs rule: parse_frames.induct)
  case (1 bs)
  show ?case
  proof (cases "length bs < 2 \<or> length bs < 2 + unat (u16_of_be (take 2 bs))")
    case True
    then have "parse_frames bs = ([], bs)" by (subst parse_frames.simps) simp
    then show ?thesis by simp
  next
    case False
    let ?n = "unat (u16_of_be (take 2 bs))"
    from 1 [OF False refl] obtain front where
      "drop (2 + ?n) bs = front @ snd (parse_frames (drop (2 + ?n) bs))" by auto
    then have "bs = (take (2 + ?n) bs @ front) @ snd (parse_frames (drop (2 + ?n) bs))"
      by (metis append.assoc append_take_drop_id)
    moreover have "snd (parse_frames bs) = snd (parse_frames (drop (2 + ?n) bs))"
      using False by (subst parse_frames.simps) (auto simp: Let_def split: prod.split)
    ultimately show ?thesis by metis
  qed
qed

lemma parse_frames_rest_le: "length (snd (parse_frames bs)) \<le> length bs"
  using parse_frames_split [of bs] by (metis le_add2 length_append)

lemma parse_frames_rest: "snd (parse_frames bs) = drop (length bs - length (snd (parse_frames bs))) bs"
  using parse_frames_split [of bs] by (metis append_eq_conv_conj diff_add_inverse2 length_append)

lemma tcp_drain_parse:
  assumes "framing_ok f" "off \<le> f_unprocessed_i f" and go: "\<And>s p. step s p = Some (Go (h s p))"
  shows "tcp_drain step f s off =
    Some (foldl h s (fst (parse_frames (drop off (buffered f)))),
      f_unprocessed_i f - length (snd (parse_frames (drop off (buffered f)))))"
  using assms(1,2)
proof (induction "f_unprocessed_i f - off" arbitrary: off s rule: less_induct)
  case less
  let ?bs = "drop off (buffered f)" and ?n = "unat (u16_of_be (take 2 (drop off (buffered f))))"
  note peek = peek_packet_parse [OF less.prems]
  have len: "length ?bs = f_unprocessed_i f - off" using less.prems by (simp add: length_buffered)
  show ?case
  proof (cases "length ?bs < 2 \<or> length ?bs < 2 + ?n")
    case True
    then have "parse_frames ?bs = ([], ?bs)" by (subst parse_frames.simps) simp
    moreover have "peek_packet f off = Some None" using peek True by simp
    ultimately show ?thesis using len less.prems by (simp add: tcp_drain.simps)
  next
    case False
    let ?p = "take ?n (drop 2 ?bs)"
    have pk: "peek_packet f off = Some (Some (2 + ?n, ?p))" using peek False by simp
    have le: "off + (2 + ?n) \<le> f_unprocessed_i f" using False len by linarith
    have sh: "drop (2 + ?n) ?bs = drop (off + (2 + ?n)) (buffered f)" by (simp add: add.commute)
    have pf: "parse_frames ?bs = (?p # fst (parse_frames (drop (off + (2 + ?n)) (buffered f))),
        snd (parse_frames (drop (off + (2 + ?n)) (buffered f))))"
      using False sh by (subst parse_frames.simps) (simp add: Let_def case_prod_unfold)
    have "tcp_drain step f s off = tcp_drain step f (h s ?p) (off + (2 + ?n))"
      by (subst tcp_drain.simps) (simp add: pk go)
    also have "\<dots> = Some (foldl h (h s ?p) (fst (parse_frames (drop (off + (2 + ?n)) (buffered f)))),
        f_unprocessed_i f - length (snd (parse_frames (drop (off + (2 + ?n)) (buffered f)))))"
      by (rule less.hyps) (use le less.prems in auto)
    finally show ?thesis by (simp add: pf)
  qed
qed

lemma tcp_compact_buffered:
  assumes ok: "framing_ok f" and c: "c \<le> f_unprocessed_i f"
  obtains f' where "tcp_compact c f = Some f'" "framing_ok f'" "buffered f' = drop c (buffered f)"
proof (cases "c = 0")
  case True
  then show ?thesis using that ok by (simp add: tcp_compact_def)
next
  case False
  let ?u = "f_unprocessed_i f"
  have "?u \<le> 65535" using ok by (simp add: framing_ok_def)
  then have small: "?u - c < 2 ^ 64" by simp
  have "?u + 2 ^ 64 - c = (?u - c) + 2 ^ 64" using c by simp
  then have u: "(?u + 2 ^ 64 - c) mod 2 ^ 64 = ?u - c" using small by (metis mod_add_self2 mod_less)
  show ?thesis
  proof (cases "?u > c")
    case True
    let ?m = "slice c ?u (f_buffer f)"
    have lm: "length ?m = ?u - c" using ok by (simp add: length_slice framing_ok_def)
    have m: "?m = drop c (buffered f)" by (simp add: slice_def buffered_def drop_take)
    have eq: "tcp_compact c f = Some \<lparr>f_buffer = ?m @ drop (?u - c) (f_buffer f), f_unprocessed_i = ?u - c\<rparr>"
      using False True ok u lm by (simp add: tcp_compact_def Let_def framing_ok_def)
    show ?thesis using ok lm m by (intro that [OF eq]) (auto simp: framing_ok_def buffered_def)
  next
    case le: False
    have eq: "tcp_compact c f = Some \<lparr>f_buffer = f_buffer f, f_unprocessed_i = ?u - c\<rparr>"
      using False le u by (simp add: tcp_compact_def)
    show ?thesis using ok le c by (intro that [OF eq]) (auto simp: framing_ok_def buffered_def)
  qed
qed

lemma tcp_event_parse:
  assumes ok: "framing_ok f" and go: "\<And>s p. step s p = Some (Go (h s p))"
    and k: "0 < k" "stream \<noteq> []" "f_unprocessed_i f < MAX_DATAGRAM_SIZE"
  obtains n f' where "0 < n" "n \<le> length stream" "n \<le> MAX_DATAGRAM_SIZE - f_unprocessed_i f"
    "tcp_event step k stream f s =
      Some (Inr (f', foldl h s (fst (parse_frames (buffered f @ take n stream))), drop n stream))"
    "framing_ok f'" "buffered f' = snd (parse_frames (buffered f @ take n stream))"
proof -
  let ?u = "f_unprocessed_i f"
  obtain n where n_def: "n = min k (min (MAX_DATAGRAM_SIZE - ?u) (length stream))" by blast
  have n: "0 < n" "n \<le> length stream" "n \<le> MAX_DATAGRAM_SIZE - ?u" using k by (auto simp: n_def)
  have lb: "length (f_buffer f) = MAX_DATAGRAM_SIZE" using ok by (simp add: framing_ok_def)
  have free: "get_free_space f = Some (drop ?u (f_buffer f))" "drop ?u (f_buffer f) \<noteq> []"
    using k lb by (auto simp: get_free_space_def)
  obtain f1 where f1: "f1 = tcp_advance n (f\<lparr>f_buffer := take ?u (f_buffer f) @ take n stream @ drop n (drop ?u (f_buffer f))\<rparr>)"
    by blast
  have rd: "tcp_read k stream f = Some (f1, drop n stream)"
    using lb by (simp add: tcp_read_def free Let_def f1 n_def)
  have ok1: "framing_ok f1" and b1: "buffered f1 = buffered f @ take n stream"
    using n k lb by (auto simp: f1 tcp_advance_def framing_ok_def buffered_def)
  let ?r = "snd (parse_frames (buffered f1))"
  have u1: "f_unprocessed_i f1 = length (buffered f1)" using ok1 by (simp add: length_buffered)
  have dr: "tcp_drain step f1 s 0 =
      Some (foldl h s (fst (parse_frames (buffered f1))), length (buffered f1) - length ?r)"
    using tcp_drain_parse [OF ok1 _ go, of 0] by (simp add: u1)
  obtain f2 where f2: "tcp_compact (length (buffered f1) - length ?r) f1 = Some f2" "framing_ok f2"
      "buffered f2 = drop (length (buffered f1) - length ?r) (buffered f1)"
    using tcp_compact_buffered [OF ok1, of "length (buffered f1) - length ?r"] u1 by (metis diff_le_self)
  have "tcp_event step k stream f s =
      Some (Inr (f2, foldl h s (fst (parse_frames (buffered f @ take n stream))), drop n stream))"
    using k free by (simp add: tcp_event_def rd dr f2 b1 [symmetric])
  then show ?thesis
    using that [OF n _ f2(2)] f2(3) parse_frames_rest [of "buffered f1"] by (simp add: b1)
qed

section \<open>Frames cut out of a stream\<close>

lemma tcp_frame_take: "take 2 (tcp_frame p) = u16_be (word_of_nat (length p))"
  by (simp add: tcp_frame_def)

lemma length_tcp_frame [simp]: "length (tcp_frame p) = 2 + length p"
  by (simp add: tcp_frame_def)

lemma tcp_frame_header:
  assumes "length p \<le> 65535" "a @ b = tcp_frame p @ r" "2 \<le> length a"
  shows "unat (u16_of_be (take 2 a)) = length p"
proof -
  have "take 2 a = take 2 (a @ b)" using assms(3) by simp
  also have "\<dots> = u16_be (word_of_nat (length p))" by (simp add: assms(2) tcp_frame_take)
  finally show ?thesis using assms(1) by (simp add: unat_word_of_nat_small)
qed

lemma parse_frames_prefix:
  assumes "concat (map tcp_frame qs) = a @ b" and "\<forall>q\<in>set qs. length q \<le> 65535"
  shows "\<exists>m\<le>length qs. fst (parse_frames a) = take m qs \<and>
    concat (map tcp_frame (drop m qs)) = snd (parse_frames a) @ b \<and>
    (m < length qs \<longrightarrow> length (snd (parse_frames a)) < 2 + length (qs ! m))"
  using assms
proof (induction qs arbitrary: a)
  case Nil
  then have "a = []" by simp
  then have "parse_frames a = ([], [])" by (subst parse_frames.simps) simp
  with Nil show ?case by simp
next
  case (Cons q qs)
  have q: "length q \<le> 65535" and ab: "a @ b = tcp_frame q @ concat (map tcp_frame qs)"
    using Cons.prems by simp_all
  note hd = tcp_frame_header [OF q ab]
  show ?case
  proof (cases "length a < 2 + length q")
    case True
    then have "length a < 2 \<or> length a < 2 + unat (u16_of_be (take 2 a))" using hd by linarith
    then have "parse_frames a = ([], a)" by (subst parse_frames.simps) simp
    with True Cons.prems show ?thesis by (intro exI [of _ 0]) simp
  next
    case False
    then have n: "unat (u16_of_be (take 2 a)) = length q" using hd by simp
    obtain a' where a: "a = tcp_frame q @ a'"
      using ab False by (metis append_eq_append_conv_if append_take_drop_id length_tcp_frame not_less)
    then have rest: "concat (map tcp_frame qs) = a' @ b" using ab by simp
    from Cons.IH [OF rest] Cons.prems obtain m where m: "m \<le> length qs"
      "fst (parse_frames a') = take m qs" "concat (map tcp_frame (drop m qs)) = snd (parse_frames a') @ b"
      "m < length qs \<longrightarrow> length (snd (parse_frames a')) < 2 + length (qs ! m)" by auto
    have "drop (2 + length q) a = a'" "take (length q) (drop 2 a) = q"
      by (simp_all add: a tcp_frame_def)
    then have "parse_frames a = (q # fst (parse_frames a'), snd (parse_frames a'))"
      using False n by (subst parse_frames.simps) (simp add: Let_def case_prod_unfold)
    with m show ?thesis by (intro exI [of _ "Suc m"]) auto
  qed
qed

text \<open>What is still to come is the packets \<open>qs\<close>, some of whose bytes are already buffered.\<close>

definition pending :: "bytes list \<Rightarrow> tcp_framing \<Rightarrow> bytes \<Rightarrow> bool" where
  "pending qs f stream \<longleftrightarrow> framing_ok f \<and> concat (map tcp_frame qs) = buffered f @ stream \<and>
    (\<forall>q\<in>set qs. length q \<le> 65533) \<and>
    (qs \<noteq> [] \<longrightarrow> length (buffered f) < 2 + length (hd qs))"

lemma pending_room: "pending qs f stream \<Longrightarrow> f_unprocessed_i f < MAX_DATAGRAM_SIZE"
  using length_buffered [of f] by (cases qs) (auto simp: pending_def)

lemma pending_done: "pending qs f [] \<Longrightarrow> qs = [] \<and> f_unprocessed_i f = 0"
  using length_buffered [of f] by (cases qs) (auto simp: pending_def dest: arg_cong [of _ _ length])

lemma tcp_event_pending:
  assumes pend: "pending qs f stream" and go: "\<And>s p. step s p = Some (Go (h s p))"
    and k: "0 < k" "stream \<noteq> []"
  obtains m f' stream' where "m \<le> length qs"
    "tcp_event step k stream f s = Some (Inr (f', foldl h s (take m qs), stream'))"
    "pending (drop m qs) f' stream'" "length stream' < length stream"
proof -
  have ok: "framing_ok f" using pend by (simp add: pending_def)
  obtain n f' where ev: "0 < n" "n \<le> length stream"
    "tcp_event step k stream f s =
      Some (Inr (f', foldl h s (fst (parse_frames (buffered f @ take n stream))), drop n stream))"
    "framing_ok f'" "buffered f' = snd (parse_frames (buffered f @ take n stream))"
    by (rule tcp_event_parse [where step = step and s = s, OF ok go k pending_room [OF pend]]) blast
  have "concat (map tcp_frame qs) = (buffered f @ take n stream) @ drop n stream"
    using pend by (simp add: pending_def)
  from parse_frames_prefix [OF this] pend obtain m where m: "m \<le> length qs"
    "fst (parse_frames (buffered f @ take n stream)) = take m qs"
    "concat (map tcp_frame (drop m qs)) = buffered f' @ drop n stream"
    "m < length qs \<longrightarrow> length (buffered f') < 2 + length (qs ! m)"
    by (fastforce simp: pending_def ev(5))
  have "pending (drop m qs) f' (drop n stream)"
    using pend m ev by (auto simp: pending_def hd_drop_conv_nth dest: in_set_dropD)
  with m ev show ?thesis by (intro that [of m f' "drop n stream"]) auto
qed

lemma tcp_events_pending:
  assumes go: "\<And>s p. step s p = Some (Go (h s p))"
  shows "pending qs f stream \<Longrightarrow> \<forall>k\<in>set ks. 0 < k \<Longrightarrow> length stream \<le> length ks \<Longrightarrow>
    \<exists>f'. tcp_events step ks stream f s = Some (Inr (f', foldl h s qs, [])) \<and> f_unprocessed_i f' = 0"
proof (induction ks arbitrary: qs f stream s)
  case Nil
  then show ?case by (auto dest!: pending_done)
next
  case (Cons k ks)
  show ?case
  proof (cases "stream = []")
    case True
    then have q: "qs = []" using Cons.prems pending_done by blast
    have "tcp_event step k stream f s = Some (Inr (f, s, []))"
      using pending_room [OF Cons.prems(1)] Cons.prems(1) True
      by (auto simp: tcp_event_def get_free_space_def pending_def framing_ok_def)
    with Cons.IH [of qs f "[]" s] Cons.prems True show ?thesis by simp
  next
    case False
    have k: "0 < k" using Cons.prems by simp
    obtain m f' stream' where ev: "m \<le> length qs"
      "tcp_event step k stream f s = Some (Inr (f', foldl h s (take m qs), stream'))"
      "pending (drop m qs) f' stream'" "length stream' < length stream"
      by (rule tcp_event_pending [where step = step and s = s, OF Cons.prems(1) go k False])
    have "foldl h (foldl h s (take m qs)) (drop m qs) = foldl h s qs"
      by (metis append_take_drop_id foldl_append)
    with Cons.IH [OF ev(3), of "foldl h s (take m qs)"] Cons.prems ev show ?thesis by simp
  qed
qed

lemma pending_start:
  "\<forall>p\<in>set ps. length p \<le> 65533 \<Longrightarrow> pending ps tcp_new (concat (map tcp_frame ps))"
  by (simp add: pending_def framing_ok_new)

section \<open>A frame that does not fit\<close>

lemma oversize_unparsed:
  assumes ab: "a @ b = tcp_frame p @ r" and len: "65534 \<le> length p" "length p \<le> 65535"
    and short: "length a \<le> MAX_DATAGRAM_SIZE"
  shows "parse_frames a = ([], a)"
proof -
  have "length a < 2 \<or> length a < 2 + unat (u16_of_be (take 2 a))"
    using tcp_frame_header [OF len(2) ab] len short by linarith
  then show ?thesis by (subst parse_frames.simps) simp
qed

lemma oversize_exits:
  assumes go: "\<And>s p. step s p = Some (Go (h s p))"
    and len: "65534 \<le> length p" "length p \<le> 65535"
  shows "framing_ok f \<Longrightarrow> buffered f @ stream = tcp_frame p @ r \<Longrightarrow> \<forall>k\<in>set ks. 0 < k \<Longrightarrow>
    MAX_DATAGRAM_SIZE - f_unprocessed_i f < length ks \<Longrightarrow> tcp_events step ks stream f s = Some (Inl s)"
proof (induction ks arbitrary: f stream)
  case (Cons k ks)
  let ?u = "f_unprocessed_i f"
  have u: "length (buffered f) = ?u" "?u \<le> MAX_DATAGRAM_SIZE"
    using Cons.prems(1) by (simp_all add: length_buffered framing_ok_def)
  show ?case
  proof (cases "?u = MAX_DATAGRAM_SIZE")
    case True
    then have "tcp_event step k stream f s = Some (Inl s)"
      using Cons.prems(1) by (simp add: tcp_event_def get_free_space_def framing_ok_def)
    then show ?thesis by simp
  next
    case False
    then have room: "?u < MAX_DATAGRAM_SIZE" using u by simp
    have "length (buffered f @ stream) = 2 + length p + length r" by (simp add: Cons.prems(2))
    then have ne: "stream \<noteq> []" using len u by auto
    have k: "0 < k" using Cons.prems by simp
    obtain n f' where ev: "0 < n" "n \<le> length stream" "n \<le> MAX_DATAGRAM_SIZE - ?u"
      "tcp_event step k stream f s =
        Some (Inr (f', foldl h s (fst (parse_frames (buffered f @ take n stream))), drop n stream))"
      "framing_ok f'" "buffered f' = snd (parse_frames (buffered f @ take n stream))"
      by (rule tcp_event_parse [where step = step and s = s, OF Cons.prems(1) go k ne room]) blast
    have pf: "parse_frames (buffered f @ take n stream) = ([], buffered f @ take n stream)"
      by (rule oversize_unparsed [OF _ len, where b = "drop n stream" and r = r])
        (use Cons.prems(2) ev u in auto)
    have u': "f_unprocessed_i f' = ?u + n" using length_buffered [OF ev(5)] ev pf u by simp
    have "tcp_events step ks (drop n stream) f' s = Some (Inl s)"
      by (rule Cons.IH [OF ev(5)]) (use Cons.prems ev pf u' in auto)
    then show ?thesis using ev pf by simp
  qed
qed simp

section \<open>Properties\<close>



text \<open>A frame whose payload is longer than 65533 bytes never completes, although its length fits the two byte header: header and payload do not fit the buffer, the buffer fills up without a packet, the next read gets an empty slice and its zero is taken for the end of the stream, so the handler leaves with \<open>Action::Exit\<close> and no packet was processed.\<close>

theorem tcp_oversize_frame_ends_stream:
  assumes "65534 \<le> length p" and "length p \<le> 65535"
    and "\<forall>k\<in>set ks. 0 < k" and "65536 \<le> length ks"
    and "\<And>s p. step s p = Some (Go (h s p))"
  shows "tcp_events step ks (tcp_frame p @ r) tcp_new s = Some (Inl s)"
  by (rule oversize_exits [where h = h and p = p and r = r])
    (use assms in \<open>simp_all add: framing_ok_new\<close>)

theorem tcp_oversize_frame_ends_stream_witness:
  "tcp_events (\<lambda>s p. Some (Go (s @ [p]))) (replicate 65536 1500) (tcp_frame (replicate 65534 0) @ [1]) tcp_new [] =
    Some (Inl [])"
  by (rule tcp_oversize_frame_ends_stream [where h = "\<lambda>s p. s @ [p]"]) (simp_all del: replicate.simps)

end
