(* ===== verification/Slots.thy ===== *)
theory Slots
  imports Prelude "HOL-Library.AList"
begin

text \<open>
  The interface of the tables that name things: a hash map of std and the event registry give a
  value by key, take a new one and drop one. The locale states what every user of such a table
  relies on; \<open>hm\<close> is its instance for \<open>std::collections::HashMap\<close>, an association list here.
\<close>

locale slots =
  fixes get :: "'s \<Rightarrow> 'k \<Rightarrow> 'v option"
    and put :: "'k \<Rightarrow> 'v \<Rightarrow> 's \<Rightarrow> 's"
    and del :: "'k \<Rightarrow> 's \<Rightarrow> 's"
  assumes get_put: "get (put k v s) j = (if j = k then Some v else get s j)"
    and get_del: "get (del k s) j = (if j = k then None else get s j)"
begin

definition holds :: "'s \<Rightarrow> 'v \<Rightarrow> bool" where
  "holds s v \<longleftrightarrow> (\<exists>k. get s k = Some v)"

definition one_key :: "'s \<Rightarrow> bool" where
  "one_key s \<longleftrightarrow> (\<forall>j k v. get s j = Some v \<longrightarrow> get s k = Some v \<longrightarrow> j = k)"

lemma holds_put: "get s k = None \<Longrightarrow> holds (put k v s) w \<longleftrightarrow> w = v \<or> holds s w"
  unfolding holds_def get_put by (metis option.distinct(1) option.inject)

lemma one_keyD: "one_key s \<Longrightarrow> get s j = Some v \<Longrightarrow> get s k = Some v \<Longrightarrow> j = k"
  by (simp add: one_key_def)

lemma one_key_put: "one_key s \<Longrightarrow> \<not> holds s v \<Longrightarrow> one_key (put k v s)"
  by (auto simp: one_key_def holds_def get_put)

lemma one_key_del: "one_key s \<Longrightarrow> one_key (del k s)"
  by (auto simp: one_key_def get_del)

lemma holds_del: "one_key s \<Longrightarrow> get s k = Some v \<Longrightarrow> holds (del k s) w \<longleftrightarrow> holds s w \<and> w \<noteq> v"
  unfolding one_key_def holds_def get_del by (metis option.distinct(1) option.inject)

lemma get_put_put: "get (put k v (put k w s)) = get (put k v s)"
  by (auto simp: fun_eq_iff get_put)

lemma get_fold_put: "get (fold (\<lambda>(k, v). put k v) kvs s) j = (case map_of (rev kvs) j of Some v \<Rightarrow> Some v | None \<Rightarrow> get s j)"
proof (induction kvs arbitrary: s)
  case (Cons kv kvs)
  obtain k v where "kv = (k, v)" by (cases kv)
  with Cons show ?case by (auto simp: get_put map_add_def split: option.split)
qed simp

end

abbreviation hm_get :: "('k \<times> 'v) list \<Rightarrow> 'k \<Rightarrow> 'v option" where
  "hm_get \<equiv> map_of"

abbreviation hm_insert :: "'k \<Rightarrow> 'v \<Rightarrow> ('k \<times> 'v) list \<Rightarrow> ('k \<times> 'v) list" where
  "hm_insert \<equiv> AList.update"

abbreviation hm_remove :: "'k \<Rightarrow> ('k \<times> 'v) list \<Rightarrow> ('k \<times> 'v) list" where
  "hm_remove \<equiv> AList.delete"

interpretation hm: slots hm_get hm_insert hm_remove
  by unfold_locales (simp_all add: AList.update_conv' AList.delete_conv')

lemma hm_insert_distinct: "distinct (map fst m) \<Longrightarrow> distinct (map fst (hm_insert k v m))"
  by (rule AList.distinct_update)

lemma hm_remove_distinct: "distinct (map fst m) \<Longrightarrow> distinct (map fst (hm_remove k m))"
  by (rule AList.distinct_delete)

lemma hm_values: "distinct (map fst m) \<Longrightarrow> v \<in> snd ` set m \<longleftrightarrow> hm.holds m v"
  by (force simp: hm.holds_def)

end
