(* ===== verification/Event_Poll.thy ===== *)
theory Event_Poll
  imports Slots
begin

text \<open>
  The registry of pollable events (src/nekolink-core/src/device/epoll.rs): handlers are found by the
  file descriptor they were registered with. The kernel's side is the list \<open>pl_interest\<close> of
  descriptors it watches; whether it takes a new one is the argument \<open>os_add\<close>.
\<close>

record 'h event =
  ev_fd :: nat
  ev_handler :: 'h
  ev_oneshot :: bool
  ev_notifier :: bool
  ev_needs_read :: bool

record 'h event_poll =
  pl_events :: "'h event option list"
  pl_interest :: "nat list"

definition poll_new :: "'h event_poll" where
  "poll_new = \<lparr>pl_events = [], pl_interest = []\<rparr>"

text \<open>\<open>epoll_ctl\<close> with \<open>EPOLL_CTL_DEL\<close>; its result is ignored everywhere.\<close>

definition ctl_del :: "nat \<Rightarrow> 'h event_poll \<Rightarrow> 'h event_poll" where
  "ctl_del fd p = p\<lparr>pl_interest := removeAll fd (pl_interest p)\<rparr>"

definition insert_at :: "nat \<Rightarrow> 'h event \<Rightarrow> 'h event_poll \<Rightarrow> 'h event_poll" where
  "insert_at index data p =
    (let grown = pl_events p @ replicate (Suc index - length (pl_events p)) None;
         p1 = p\<lparr>pl_events := grown[index := None]\<rparr>;
         p2 = (if grown ! index \<noteq> None then ctl_del index p1 else p1)
     in p2\<lparr>pl_events := (pl_events p2)[index := Some data]\<rparr>)"

text \<open>The result is the trigger of the \<open>EventRef\<close>, or \<open>None\<close> for the error \<open>EventQueue\<close>.\<close>

definition register_event :: "(nat \<Rightarrow> bool) \<Rightarrow> 'h event \<Rightarrow> 'h event_poll \<Rightarrow> nat option \<times> 'h event_poll" where
  "register_event os_add ev p =
    (let trigger = ev_fd ev; p1 = insert_at trigger ev p
     in if os_add trigger then (Some trigger, p1\<lparr>pl_interest := trigger # pl_interest p1\<rparr>)
        else (None, p1))"

definition new_event :: "(nat \<Rightarrow> bool) \<Rightarrow> nat \<Rightarrow> 'h \<Rightarrow> 'h event_poll \<Rightarrow> nat option \<times> 'h event_poll" where
  "new_event os_add trigger handler p =
    register_event os_add \<lparr>ev_fd = trigger, ev_handler = handler, ev_oneshot = True, ev_notifier = False,
      ev_needs_read = False\<rparr> p"

text \<open>\<open>tfd\<close> is the timer, \<open>efd\<close> the notifier, \<open>sfd\<close> the signal descriptor the kernel gave, if it did.\<close>

definition new_periodic_event :: "(nat \<Rightarrow> bool) \<Rightarrow> nat option \<Rightarrow> 'h \<Rightarrow> 'h event_poll \<Rightarrow> nat option \<times> 'h event_poll" where
  "new_periodic_event os_add tfd handler p =
    (case tfd of None \<Rightarrow> (None, p)
     | Some fd \<Rightarrow> register_event os_add \<lparr>ev_fd = fd, ev_handler = handler, ev_oneshot = True, ev_notifier = False,
         ev_needs_read = True\<rparr> p)"

definition new_notifier :: "(nat \<Rightarrow> bool) \<Rightarrow> nat option \<Rightarrow> 'h \<Rightarrow> 'h event_poll \<Rightarrow> nat option \<times> 'h event_poll" where
  "new_notifier os_add efd handler p =
    (case efd of None \<Rightarrow> (None, p)
     | Some fd \<Rightarrow> register_event os_add \<lparr>ev_fd = fd, ev_handler = handler, ev_oneshot = False, ev_notifier = True,
         ev_needs_read = False\<rparr> p)"

definition new_signal_event :: "(nat \<Rightarrow> bool) \<Rightarrow> nat option \<Rightarrow> 'h \<Rightarrow> 'h event_poll \<Rightarrow> nat option \<times> 'h event_poll" where
  "new_signal_event os_add sfd handler p =
    (case sfd of None \<Rightarrow> (None, p)
     | Some fd \<Rightarrow> register_event os_add \<lparr>ev_fd = fd, ev_handler = handler, ev_oneshot = True, ev_notifier = False,
         ev_needs_read = True\<rparr> p)"

text \<open>Indexing past the end of the vector panics.\<close>

definition clear_event_by_fd :: "nat \<Rightarrow> 'h event_poll \<Rightarrow> 'h event_poll option" where
  "clear_event_by_fd index p =
    (if index < length (pl_events p) then
       Some (if pl_events p ! index \<noteq> None then ctl_del index (p\<lparr>pl_events := (pl_events p)[index := None]\<rparr>) else p)
     else None)"

text \<open>The event of a guard is cancelled by the descriptor it was registered with.\<close>

definition guard_cancel :: "'h event \<Rightarrow> 'h event_poll \<Rightarrow> 'h event_poll option" where
  "guard_cancel ev p = clear_event_by_fd (ev_fd ev) p"

text \<open>A notification is written to, or read from, its descriptor; anything else there is a panic.\<close>

definition notification :: "nat \<Rightarrow> 'h event_poll \<Rightarrow> nat option" where
  "notification trigger p =
    (if trigger < length (pl_events p) then
       case pl_events p ! trigger of
         None \<Rightarrow> None
       | Some ev \<Rightarrow> if ev_notifier ev then Some trigger else None
     else None)"

section \<open>The registry as a table\<close>

definition poll_get :: "'h event_poll \<Rightarrow> nat \<Rightarrow> 'h event option" where
  "poll_get p fd = (if fd < length (pl_events p) then pl_events p ! fd else None)"

text \<open>Clearing where it does not panic, and without effect where it does.\<close>

definition poll_clear :: "nat \<Rightarrow> 'h event_poll \<Rightarrow> 'h event_poll" where
  "poll_clear fd p = (case clear_event_by_fd fd p of Some p' \<Rightarrow> p' | None \<Rightarrow> p)"

lemma get_insert_at: "poll_get (insert_at k v p) j = (if j = k then Some v else poll_get p j)"
  by (auto simp: poll_get_def insert_at_def ctl_del_def Let_def nth_append)

lemma get_poll_clear: "poll_get (poll_clear k p) j = (if j = k then None else poll_get p j)"
  by (auto simp: poll_get_def poll_clear_def clear_event_by_fd_def ctl_del_def)

interpretation registry: slots poll_get insert_at poll_clear
  by unfold_locales (rule get_insert_at, rule get_poll_clear)

lemma get_register: "register_event os_add ev p = (r, p') \<Longrightarrow>
    poll_get p' j = (if j = ev_fd ev then Some ev else poll_get p j)"
  using registry.get_put [of "ev_fd ev" ev p j] by (auto simp: register_event_def Let_def poll_get_def split: if_splits)

lemma get_new_event: "new_event os_add fd h p = (r, p') \<Longrightarrow> j \<noteq> fd \<Longrightarrow> poll_get p' j = poll_get p j"
  by (auto simp: new_event_def dest!: get_register [where j = j])

lemma get_clear: "clear_event_by_fd fd p = Some p' \<Longrightarrow> poll_get p' j = (if j = fd then None else poll_get p j)"
  using registry.get_del [of fd p j] by (simp add: poll_clear_def)

lemma clear_unregistered: "poll_get p fd = None \<Longrightarrow> clear_event_by_fd fd p = Some p' \<Longrightarrow> p' = p"
  by (auto simp: clear_event_by_fd_def poll_get_def split: if_splits)

end
