(* ===== verification/Tunn_Invariant.thy ===== *)
theory Tunn_Invariant
  imports Tunn
begin

text \<open>
  The invariant of a tunnel and its preservation: the shape of the session ring and of the queue,
  timers that never run ahead of the clock. From it follows that no operation of a tunnel panics
  as long as its clock does not run backwards and its buffers are large enough.
\<close>

section \<open>The invariant\<close>

definition session_ok :: "session \<Rightarrow> bool" where
  "session_ok s \<longleftrightarrow> length (bitmap (receiving_key_counter s)) = N_WORDS"

definition ring_ok :: "session option list \<Rightarrow> bool" where
  "ring_ok ss \<longleftrightarrow> length ss = N_SESSIONS \<and>
     (\<forall>i < N_SESSIONS. \<forall>s. ss ! i = Some s \<longrightarrow> session_local_index s mod N_SESSIONS = i \<and> session_ok s)"

definition tunn_inv :: "tunn \<Rightarrow> bool" where
  "tunn_inv t \<longleftrightarrow> ring_ok (sessions t) \<and> length (packet_queue t) \<le> MAX_QUEUE_DEPTH \<and> timers_inv (tn_timers t)"

lemma tunn_inv_fields:
  "tunn_inv t \<Longrightarrow> ring_ok (sessions t)" "tunn_inv t \<Longrightarrow> length (packet_queue t) \<le> MAX_QUEUE_DEPTH"
  "tunn_inv t \<Longrightarrow> timers_inv (tn_timers t)"
  by (simp_all add: tunn_inv_def)

lemma ring_ok_update:
  "ring_ok ss \<Longrightarrow> session_ok s \<Longrightarrow> i = session_local_index s mod N_SESSIONS \<Longrightarrow> ring_ok (ss[i := Some s])"
  by (auto simp: ring_ok_def nth_list_update)

lemma ring_ok_none: "ring_ok ss \<Longrightarrow> ring_ok (ss[i := None])"
  unfolding ring_ok_def by (cases "i < length ss") (auto simp: nth_list_update)

lemma ring_ok_clear: "ring_ok ss \<Longrightarrow> ring_ok (map (\<lambda>_. None) ss)"
  by (simp add: ring_ok_def)

lemma ring_ok_nth:
  "ring_ok ss \<Longrightarrow> ss ! (k mod N_SESSIONS) = Some s \<Longrightarrow> session_local_index s mod N_SESSIONS = k mod N_SESSIONS \<and> session_ok s"
proof -
  have "k mod N_SESSIONS < N_SESSIONS" by simp
  then show "ring_ok ss \<Longrightarrow> ss ! (k mod N_SESSIONS) = Some s \<Longrightarrow>
    session_local_index s mod N_SESSIONS = k mod N_SESSIONS \<and> session_ok s"
    unfolding ring_ok_def by blast
qed

lemma session_ok_new [intro, simp]: "session_ok (session_new a b c d)"
  by (simp add: session_ok_def session_new_def validator_default_def)

section \<open>Sessions keep their index\<close>

lemma format_packet_frames:
  assumes "format_packet_data C src n s = Some (p, s')"
  shows "session_local_index s' = session_local_index s" "session_ok s' = session_ok s"
  using assms by (auto simp: format_packet_data_def session_local_index_def session_ok_def Let_def split_beta split: if_splits)

lemma receive_packet_ok:
  assumes "receive_packet_data C p n s = Some (r, s')" and "session_ok s"
  shows "session_local_index s' = session_local_index s" "session_ok s'"
proof -
  show "session_local_index s' = session_local_index s"
    using receive_frames(1) [OF assms(1)] by (simp add: session_local_index_def)
  from receive_cases [OF assms(1)] consider "s' = s" |
    m where "receiving_counter_mark (pd_counter p) s = Some (m, s')" by blast
  then show "session_ok s'" using assms(2) mark_returns [of "receiving_key_counter s" "pd_counter p"]
    by cases (auto simp: session_ok_def receiving_counter_mark_def split: option.splits sum.splits)
qed

lemma receive_packet_returns:
  assumes "session_ok s" and "length (pd_payload p) \<le> n"
  shows "\<exists>r s'. receive_packet_data C p n s = Some (r, s')"
proof -
  obtain m v where "mark_did_receive (pd_counter p) (receiving_key_counter s) = Some (m, v)"
    using mark_returns assms(1) unfolding session_ok_def by blast
  then show ?thesis using assms(2)
    by (auto simp: receive_packet_data_def receiving_counter_mark_def split: sum.split option.split)
qed

lemma format_packet_returns: "length src + 32 \<le> n \<Longrightarrow> \<exists>p s'. format_packet_data C src n s = Some (p, s')"
  by (simp add: format_packet_data_def Let_def split_beta)

section \<open>Preservation, one lemma per operation\<close>

lemma inv_new:
  "wf_instant now \<Longrightarrow> tunn_inv (fst (tunn_new C ts now le priv peer psk k i rl))"
  by (simp add: tunn_new_def tunn_inv_def ring_ok_def timers_inv_new Let_def)

lemma inv_set_static_private:
  "tunn_set_static_private C le priv pub rl t = Some (t', rl') \<Longrightarrow> tunn_inv t \<Longrightarrow> tunn_inv t'"
  by (auto simp: tunn_set_static_private_def tunn_inv_def ring_ok_clear timers_inv_def split: bind_splits)

lemma inv_timer_tick [intro, simp]: "tunn_inv t \<Longrightarrow> tunn_inv (timer_tick n t)"
  by (auto simp: tunn_inv_def timer_tick_def)

lemma inv_tick_established [intro, simp]: "tunn_inv t \<Longrightarrow> tunn_inv (timer_tick_session_established b i t)"
  by (auto simp: tunn_inv_def timer_tick_session_established_def timer_tick_def timers_inv_def Let_def tick_def
      dest: set_update_subset_insert [THEN subsetD])

lemma inv_queue_packet [intro, simp]: "tunn_inv t \<Longrightarrow> tunn_inv (queue_packet p t)"
  by (simp add: tunn_inv_def queue_packet_def)

lemma inv_requeue_packet [intro, simp]: "tunn_inv t \<Longrightarrow> tunn_inv (requeue_packet p t)"
  by (simp add: tunn_inv_def requeue_packet_def)

lemma inv_dequeue_packet: "dequeue_packet t = (p, t') \<Longrightarrow> tunn_inv t \<Longrightarrow> tunn_inv t'"
  by (auto simp: tunn_inv_def dequeue_packet_def split: list.splits)

lemma inv_set_current [intro, simp]: "tunn_inv t \<Longrightarrow> tunn_inv (set_current_session i t)"
  by (simp add: tunn_inv_def set_current_session_def Let_def)

lemma inv_handshake [simp]: "tunn_inv (t\<lparr>tn_handshake := h\<rparr>) = tunn_inv t"
  "tunn_inv (t\<lparr>tx_bytes := x\<rparr>) = tunn_inv t" "tunn_inv (t\<lparr>rx_bytes := x\<rparr>) = tunn_inv t"
  by (simp_all add: tunn_inv_def)

lemma inv_store:
  "tunn_inv t \<Longrightarrow> session_ok s \<Longrightarrow> i = session_local_index s mod N_SESSIONS \<Longrightarrow>
    tunn_inv (t\<lparr>sessions := (sessions t)[i := Some s]\<rparr>)"
  by (simp add: tunn_inv_def ring_ok_update)

lemma inv_validate: "validate_decapsulated_packet p t = (r, t') \<Longrightarrow> tunn_inv t \<Longrightarrow> tunn_inv t'"
  by (auto simp: validate_decapsulated_packet_def Let_def split: if_splits option.splits)

text \<open>The clock of a tunnel: no reading is earlier than the last update.\<close>

definition not_before :: "tunn \<Rightarrow> instant \<Rightarrow> bool" where
  "not_before t reading \<longleftrightarrow> tm (tn_timers t) TimeCurrent \<le> duration_since reading (time_started (tn_timers t))"

lemma inv_clear: "tunn_inv t \<Longrightarrow> not_before t now \<Longrightarrow> tunn_inv (t\<lparr>tn_timers := timers_clear now (tn_timers t)\<rparr>)"
  by (auto simp: tunn_inv_def not_before_def)

lemma inv_format_initiation:
  assumes "tunn_format_handshake_initiation C env n f t = (r, t')" and "tunn_inv t" and "not_before t (e_clear env)"
  shows "tunn_inv t'"
  using assms inv_clear [OF assms(2,3)]
  by (auto simp: tunn_format_handshake_initiation_def Let_def split_beta split: if_splits sum.splits)

lemma not_before_queue [simp]: "not_before (queue_packet p t) = not_before t"
  by (simp add: not_before_def queue_packet_def fun_eq_iff)

lemma inv_encapsulate:
  assumes "encapsulate C env src n t = Some (r, t')" and "tunn_inv t" and "not_before t (e_clear env)"
  shows "tunn_inv t'"
proof (cases "sessions t ! (current t mod N_SESSIONS)")
  case None
  then show ?thesis using assms inv_format_initiation [of C env n False "queue_packet src t" r t']
    by (simp add: encapsulate_def)
next
  case (Some s)
  from ring_ok_nth [OF tunn_inv_fields(1) [OF assms(2)] Some]
  have s: "session_local_index s mod N_SESSIONS = current t mod N_SESSIONS" "session_ok s" by simp_all
  from assms(1) Some obtain p s' where f: "format_packet_data C src n s = Some (p, s')"
      "t' = (let t1 = timer_tick TimeLastPacketSent (t\<lparr>sessions := (sessions t)[current t mod N_SESSIONS := Some s']\<rparr>);
             t2 = (if src \<noteq> [] then timer_tick TimeLastDataPacketSent t1 else t1)
             in t2\<lparr>tx_bytes := tx_bytes t2 + word_of_nat (length src)\<rparr>)"
    by (auto simp: encapsulate_def Let_def split: bind_splits)
  have "tunn_inv (t\<lparr>sessions := (sessions t)[current t mod N_SESSIONS := Some s']\<rparr>)"
    using assms(2) s format_packet_frames [OF f(1)] by (intro inv_store) simp_all
  then show ?thesis by (simp add: f(2) Let_def)
qed

lemma inv_send_queued:
  assumes "send_queued_packet C env n t = Some (r, t')" and "tunn_inv t" and "not_before t (e_clear env)"
  shows "tunn_inv t'"
proof -
  obtain p t1 where d: "dequeue_packet t = (p, t1)" by fastforce
  have nb: "not_before t1 (e_clear env)"
    using d assms(3) by (auto simp: dequeue_packet_def not_before_def split: list.splits)
  have t1: "tunn_inv t1" by (rule inv_dequeue_packet [OF d assms(2)])
  show ?thesis
  proof (cases p)
    case None
    then show ?thesis using assms(1) d t1 by (simp add: send_queued_packet_def)
  next
    case (Some pk)
    then obtain r2 t2 where e: "encapsulate C env pk n t1 = Some (r2, t2)"
        "t' = (case r2 of TErr _ \<Rightarrow> requeue_packet pk t2 | _ \<Rightarrow> t2)"
      using assms(1) d by (auto simp: send_queued_packet_def split: bind_splits tunn_result.splits)
    from inv_encapsulate [OF e(1) t1 nb] show ?thesis by (simp add: e(2) split: tunn_result.split)
  qed
qed

lemma receive_init_session:
  assumes "receive_handshake_initialization C e p n h = Some (Inr (m, s), h')"
  shows "session_ok s"
  using assms by (auto simp: receive_handshake_initialization_def format_handshake_response_def Let_def split_beta
      split: if_splits sum.splits option.splits bind_splits handshake_state.splits)

lemma receive_response_session:
  assumes "receive_handshake_response C now q h = Some (Inr s, h')"
  shows "session_ok s"
  using assms by (auto simp: receive_handshake_response_def Let_def split_beta
      split: if_splits sum.splits option.splits bind_splits)

lemma inv_handle_init:
  assumes "handle_handshake_init C env p n t = Some (r, t')" and "tunn_inv t"
  shows "tunn_inv t'"
proof -
  obtain r1 h where h: "receive_handshake_initialization C (e_eph env) p n (tn_handshake t) = Some (r1, h)"
    using assms(1) by (auto simp: handle_handshake_init_def split: bind_splits)
  show ?thesis
  proof (cases r1)
    case (Inl e)
    then show ?thesis using assms h by (auto simp: handle_handshake_init_def)
  next
    case (Inr ms)
    obtain m s where ms: "ms = (m, s)" by fastforce
    have "session_ok s" using receive_init_session h Inr ms by blast
    then have "tunn_inv ((t\<lparr>tn_handshake := h\<rparr>)\<lparr>sessions := (sessions t)[session_local_index s mod N_SESSIONS := Some s]\<rparr>)"
      using inv_store [of "t\<lparr>tn_handshake := h\<rparr>" s] assms(2) by simp
    then show ?thesis using assms(1) h Inr ms
      by (auto simp: handle_handshake_init_def Let_def intro!: inv_tick_established inv_timer_tick)
  qed
qed

lemma inv_handle_response:
  assumes "handle_handshake_response C env p n t = Some (r, t')" and "tunn_inv t"
  shows "tunn_inv t'"
proof -
  obtain r1 h where h: "receive_handshake_response C (e_rtt env) p (tn_handshake t) = Some (r1, h)"
    using assms(1) by (auto simp: handle_handshake_response_def split: bind_splits)
  show ?thesis
  proof (cases r1)
    case (Inl e)
    then show ?thesis using assms h by (auto simp: handle_handshake_response_def)
  next
    case (Inr s)
    then obtain k s' where f: "format_packet_data C [] n s = Some (k, s')"
      using assms(1) h by (auto simp: handle_handshake_response_def split: bind_splits)
    have "session_ok s'" using format_packet_frames [OF f] receive_response_session h Inr by blast
    then have "tunn_inv ((t\<lparr>tn_handshake := h\<rparr>)\<lparr>sessions := (sessions t)[session_local_index s' mod N_SESSIONS := Some s']\<rparr>)"
      using inv_store [of "t\<lparr>tn_handshake := h\<rparr>" s'] assms(2) by simp
    then show ?thesis using assms(1) h Inr f
      by (auto simp: handle_handshake_response_def Let_def intro!: inv_set_current inv_tick_established inv_timer_tick)
  qed
qed

lemma inv_handle_cookie: "handle_cookie_reply C p t = Some (r, t') \<Longrightarrow> tunn_inv t \<Longrightarrow> tunn_inv t'"
  by (auto simp: handle_cookie_reply_def Let_def split: bind_splits sum.splits)

lemma inv_handle_data:
  assumes "handle_data C p n t = Some (r, t')" and "tunn_inv t"
  shows "tunn_inv t'"
proof (cases "sessions t ! (unat (pd_receiver_idx p) mod N_SESSIONS)")
  case None
  then show ?thesis using assms by (simp add: handle_data_def)
next
  case (Some s)
  from ring_ok_nth [OF tunn_inv_fields(1) [OF assms(2)] Some]
  have s: "session_local_index s mod N_SESSIONS = unat (pd_receiver_idx p) mod N_SESSIONS" "session_ok s" by simp_all
  from assms(1) Some obtain r1 s' where v: "receive_packet_data C p n s = Some (r1, s')"
    by (auto simp: handle_data_def Let_def split: bind_splits)
  have t1: "tunn_inv (t\<lparr>sessions := (sessions t)[unat (pd_receiver_idx p) mod N_SESSIONS := Some s']\<rparr>)"
    using assms(2) s receive_packet_ok [OF v s(2)] by (intro inv_store) simp_all
  show ?thesis
  proof (cases r1)
    case (Inl e)
    then show ?thesis using assms(1) Some v t1 by (auto simp: handle_data_def Let_def)
  next
    case (Inr d)
    let ?t2 = "timer_tick TimeLastPacketReceived (set_current_session (unat (pd_receiver_idx p))
        (t\<lparr>sessions := (sessions t)[unat (pd_receiver_idx p) mod N_SESSIONS := Some s']\<rparr>))"
    have "tunn_inv ?t2" using t1 by simp
    moreover have "t' = snd (validate_decapsulated_packet d ?t2)"
      using assms(1) Some v Inr by (simp add: handle_data_def Let_def split_beta)
    ultimately show ?thesis using inv_validate [of d ?t2 _ t'] by (metis prod.collapse)
  qed
qed

lemma inv_handle_verified:
  "handle_verified_packet C env p n t = Some (r, t') \<Longrightarrow> tunn_inv t \<Longrightarrow> tunn_inv t'"
  by (cases p) (auto simp: handle_verified_packet_def split: bind_splits
      dest: inv_handle_init inv_handle_response inv_handle_cookie inv_handle_data)

lemma inv_decapsulate:
  assumes "decapsulate C env a d n t rl = Some (r, t', rl')" and "tunn_inv t" and "not_before t (e_clear env)"
  shows "tunn_inv t'"
  using assms by (auto simp: decapsulate_def split: if_splits bind_splits prod.splits sum.splits tunn_result.splits
      dest: inv_send_queued inv_handle_verified)

section \<open>Timers do not panic\<close>

lemma expire_sessions_returns:
  assumes "\<forall>d \<in> set ds. d \<le> now" and "ring_ok ss"
  shows "\<exists>ds' ss'. expire_sessions now i ds ss = Some (ds', ss') \<and> length ds' = length ds \<and>
    (\<forall>d \<in> set ds'. d \<le> now) \<and> ring_ok ss'"
  using assms
proof (induction now i ds ss rule: expire_sessions.induct)
  case (1 now i ss)
  then show ?case by simp
next
  case (2 now i d ds ss)
  let ?ss = "if now - d > REJECT_AFTER_TIME then ss[i := None] else ss"
  have "ring_ok ?ss" using 2(3) by (simp add: ring_ok_none)
  with 2 obtain ds' ss' where "expire_sessions now (Suc i) ds ?ss = Some (ds', ss')" "length ds' = length ds"
      "\<forall>d \<in> set ds'. d \<le> now" "ring_ok ss'" by (fastforce split: if_splits)
  with 2(2) show ?case by (auto simp: Let_def)
qed

lemma update_session_timers_returns:
  assumes "tunn_inv t" and "now = tm (tn_timers t) TimeCurrent"
  shows "\<exists>t'. update_session_timers now t = Some t' \<and> tunn_inv t' \<and> tm (tn_timers t') = tm (tn_timers t) \<and>
    time_started (tn_timers t') = time_started (tn_timers t) \<and> tn_handshake t' = tn_handshake t"
proof -
  have "\<forall>d \<in> set (session_timers (tn_timers t)). d \<le> now" "ring_ok (sessions t)"
    using assms by (auto simp: tunn_inv_def timers_inv_def)
  from expire_sessions_returns [OF this] obtain ds ss where
    "expire_sessions now 0 (session_timers (tn_timers t)) (sessions t) = Some (ds, ss)"
    "length ds = length (session_timers (tn_timers t))" "\<forall>d \<in> set ds. d \<le> now" "ring_ok ss" by blast
  with assms show ?thesis by (auto simp: update_session_timers_def tunn_inv_def timers_inv_def)
qed

lemma inv_flags [simp]:
  "tunn_inv (t\<lparr>tn_timers := (tn_timers t)\<lparr>want_handshake := b\<rparr>\<rparr>) = tunn_inv t"
  "tunn_inv (t\<lparr>tn_timers := (tn_timers t)\<lparr>want_keepalive := b\<rparr>\<rparr>) = tunn_inv t"
  "tunn_inv (t\<lparr>tn_timers := (tn_timers t)\<lparr>want_handshake := b, want_keepalive := c\<rparr>\<rparr>) = tunn_inv t"
  by (simp_all add: tunn_inv_def timers_inv_def)

text \<open>The second tunnel differs from the first at most in flags and in timers set to the current time.\<close>

definition only_ticked :: "tunn \<Rightarrow> tunn \<Rightarrow> bool" where
  "only_ticked t t' \<longleftrightarrow> sessions t' = sessions t \<and> packet_queue t' = packet_queue t \<and>
     tn_handshake t' = tn_handshake t \<and> current t' = current t \<and>
     session_timers (tn_timers t') = session_timers (tn_timers t) \<and>
     time_started (tn_timers t') = time_started (tn_timers t) \<and>
     tm (tn_timers t') TimeCurrent = tm (tn_timers t) TimeCurrent \<and>
     (\<forall>n. tm (tn_timers t') n = tm (tn_timers t) n \<or> tm (tn_timers t') n = tm (tn_timers t) TimeCurrent)"

lemma only_ticked_inv: "only_ticked t t' \<Longrightarrow> tunn_inv t \<Longrightarrow> tunn_inv t'"
  unfolding only_ticked_def tunn_inv_def timers_inv_def by (metis order_refl)

lemma only_ticked_flags:
  "only_ticked t t" "only_ticked t (t\<lparr>tn_timers := (tn_timers t)\<lparr>want_handshake := a\<rparr>\<rparr>)"
  "only_ticked t (t\<lparr>tn_timers := (tn_timers t)\<lparr>want_keepalive := b\<rparr>\<rparr>)"
  "only_ticked t (t\<lparr>tn_timers := (tn_timers t)\<lparr>want_handshake := a, want_keepalive := b\<rparr>\<rparr>)"
  by (simp_all add: only_ticked_def)

lemma only_ticked_tick: "only_ticked t t' \<Longrightarrow> only_ticked t (timer_tick n t')"
  by (simp add: only_ticked_def timer_tick_def) (metis tick_frames(7,8))

lemma timer_demands_effect: "timer_demands now t = Some (i, k, t') \<Longrightarrow> only_ticked t t'"
  by (auto simp: timer_demands_def Let_def only_ticked_flags only_ticked_tick split: bind_splits if_splits)

lemma timer_demands_answers:
  assumes "tunn_inv t" and "now = tm (tn_timers t) TimeCurrent"
  shows "timer_demands now t \<noteq> None"
proof -
  have le: "tm (tn_timers t) n \<le> now" for n using assms by (simp add: tunn_inv_def timers_inv_def)
  show ?thesis by (auto simp: timer_demands_def le Let_def split: bind_splits if_splits)
qed

lemma timer_demands_returns:
  assumes "tunn_inv t" and "now = tm (tn_timers t) TimeCurrent"
  shows "\<exists>i k t'. timer_demands now t = Some (i, k, t') \<and> tunn_inv t' \<and> only_ticked t t'"
  using timer_demands_answers [OF assms] timer_demands_effect only_ticked_inv assms(1) by fastforce

lemma encapsulate_returns:
  "length src + 32 \<le> n \<Longrightarrow> \<exists>r t'. encapsulate C env src n t = Some (r, t')"
proof (cases "sessions t ! (current t mod N_SESSIONS)")
  case (Some s)
  assume "length src + 32 \<le> n"
  from format_packet_returns [OF this] obtain p s' where "format_packet_data C src n s = Some (p, s')" by blast
  with Some show ?thesis by (simp add: encapsulate_def Let_def)
qed (cases "tunn_format_handshake_initiation C env n False (queue_packet src t)", simp add: encapsulate_def)

text \<open>The clock readings of one call, in the order they are taken, and none before the last update.\<close>

definition readings_ok :: "env \<Rightarrow> tunn \<Rightarrow> bool" where
  "readings_ok env t \<longleftrightarrow> not_before t (e_time env) \<and>
     duration_since (e_time env) (time_started (tn_timers t)) \<le> duration_since (e_clear env) (time_started (tn_timers t))"

lemma inv_expire: "tunn_inv t \<Longrightarrow> not_before t now \<Longrightarrow> tunn_inv (expire_tunn now t)"
  by (auto simp: expire_tunn_def clear_all_def tunn_inv_def not_before_def ring_ok_clear)

section \<open>The current time moves only by clock readings\<close>

definition clock_frame :: "env \<Rightarrow> tunn \<Rightarrow> tunn \<Rightarrow> bool" where
  "clock_frame env t t' \<longleftrightarrow> time_started (tn_timers t') = time_started (tn_timers t) \<and>
     (tm (tn_timers t') TimeCurrent = tm (tn_timers t) TimeCurrent \<or>
      tm (tn_timers t') TimeCurrent = duration_since (e_clear env) (time_started (tn_timers t)))"

lemma clock_frame_refl [simp]: "clock_frame env t t"
  by (simp add: clock_frame_def)

lemma clock_tick [simp]: "clock_frame env t (timer_tick n t') = clock_frame env t t'"
  by (simp add: clock_frame_def timer_tick_def)

lemma clock_established [simp]: "clock_frame env t (timer_tick_session_established b i t') = clock_frame env t t'"
  by (simp add: clock_frame_def timer_tick_session_established_def timer_tick_def Let_def)

lemma clock_fields [simp]:
  "clock_frame env t (t'\<lparr>sessions := ss\<rparr>) = clock_frame env t t'"
  "clock_frame env t (t'\<lparr>tn_handshake := h\<rparr>) = clock_frame env t t'"
  "clock_frame env t (t'\<lparr>tx_bytes := x\<rparr>) = clock_frame env t t'"
  "clock_frame env t (t'\<lparr>rx_bytes := x\<rparr>) = clock_frame env t t'"
  "clock_frame env t (queue_packet p t') = clock_frame env t t'"
  "clock_frame env t (requeue_packet p t') = clock_frame env t t'"
  "clock_frame env t (set_current_session i t') = clock_frame env t t'"
  "clock_frame env (queue_packet p t) t' = clock_frame env t t'"
  by (auto simp: clock_frame_def queue_packet_def requeue_packet_def set_current_session_def Let_def)

lemma clock_format_initiation:
  "tunn_format_handshake_initiation C env n f t = (r, t') \<Longrightarrow> clock_frame env t t'"
  by (auto simp: tunn_format_handshake_initiation_def Let_def split_beta clock_frame_def timer_tick_def
      split: if_splits sum.splits)

lemma clock_encapsulate: "encapsulate C env src n t = Some (r, t') \<Longrightarrow> clock_frame env t t'"
  using clock_format_initiation [of C env n False "queue_packet src t" r t']
  by (auto simp: encapsulate_def Let_def split: option.splits bind_splits)

lemma clock_dequeue: "dequeue_packet t = (p, t1) \<Longrightarrow> clock_frame env t1 = clock_frame env t"
  by (auto simp: dequeue_packet_def clock_frame_def fun_eq_iff split: list.splits)

lemma clock_send_queued: "send_queued_packet C env n t = Some (r, t') \<Longrightarrow> clock_frame env t t'"
proof -
  assume a: "send_queued_packet C env n t = Some (r, t')"
  obtain p t1 where d: "dequeue_packet t = (p, t1)" by fastforce
  note fr = clock_dequeue [OF d, of env]
  show ?thesis
  proof (cases p)
    case None
    with a d fr show ?thesis by (simp add: send_queued_packet_def) (metis clock_frame_refl)
  next
    case (Some pk)
    with a d obtain r2 t2 where "encapsulate C env pk n t1 = Some (r2, t2)"
        "t' = (case r2 of TErr _ \<Rightarrow> requeue_packet pk t2 | _ \<Rightarrow> t2)"
      by (auto simp: send_queued_packet_def split: bind_splits tunn_result.splits)
    with clock_encapsulate [of C env pk n t1 r2 t2] fr show ?thesis by (simp split: tunn_result.split)
  qed
qed

lemma clock_validate: "validate_decapsulated_packet p t' = (r, t'') \<Longrightarrow> clock_frame env t t'' = clock_frame env t t'"
  by (auto simp: validate_decapsulated_packet_def Let_def split: if_splits option.splits ip_addr.splits)

lemma clock_handle_verified: "handle_verified_packet C env p n t = Some (r, t') \<Longrightarrow> clock_frame env t t'"
  by (auto simp: handle_verified_packet_def handle_handshake_init_def handle_handshake_response_def
      handle_cookie_reply_def handle_data_def Let_def clock_validate
      split: packet.splits bind_splits sum.splits prod.splits option.splits)

lemma clock_decapsulate: "decapsulate C env a d n t rl = Some (r, t', rl') \<Longrightarrow> clock_frame env t t'"
  by (auto simp: decapsulate_def split: if_splits bind_splits prod.splits sum.splits tunn_result.splits
      dest: clock_send_queued clock_handle_verified)

section \<open>Updating the timers\<close>

text \<open>The tunnel once the current time is set to \<open>now\<close>.\<close>

lemma inv_set_now:
  assumes "tunn_inv t" and "tm (tn_timers t) TimeCurrent \<le> now"
  shows "tunn_inv (t\<lparr>tn_timers := (tn_timers t)\<lparr>tm := (tm (tn_timers t))(TimeCurrent := now)\<rparr>\<rparr>)"
  using assms by (auto simp: tunn_inv_def timers_inv_def intro: order_trans)

text \<open>What is left to do after the session timers, as one step from a tunnel whose current time is
  \<open>now\<close>: every branch answers and keeps the invariant.\<close>

lemma only_ticked_not_before: "only_ticked t t' \<Longrightarrow> not_before t' r = not_before t r"
  by (simp add: only_ticked_def not_before_def)

lemma clock_clear_cookie: "clock_frame env (t\<lparr>tn_handshake := h\<rparr>) t' = clock_frame env t t'"
  by (simp add: clock_frame_def)

lemma not_before_handshake [simp]: "not_before (t\<lparr>tn_handshake := h\<rparr>) r = not_before t r"
  by (simp add: not_before_def)

lemma clock_expire: "clock_frame env t (expire_tunn (e_clear env) t)"
  by (simp add: clock_frame_def expire_tunn_def clear_all_def)

lemma inv_action:
  assumes inv: "tunn_inv t" and now: "now = tm (tn_timers t) TimeCurrent" and nb: "not_before t (e_clear env)"
    and len: "32 \<le> n"
  shows "\<exists>r t'. timer_action C env n now t = Some (r, t') \<and> tunn_inv t' \<and> clock_frame env t t'"
proof -
  have le: "tm (tn_timers t) m \<le> now" for m using inv by (simp add: now tunn_inv_def timers_inv_def)
  from timer_demands_returns [OF inv now] obtain i k t3 where
    d: "timer_demands now t = Some (i, k, t3)" "tunn_inv t3" "only_ticked t t3" by blast
  have nb3: "not_before t3 (e_clear env)" using only_ticked_not_before [OF d(3)] nb by simp
  have cf: "clock_frame env t3 = clock_frame env t"
    using d(3) by (auto simp: clock_frame_def only_ticked_def fun_eq_iff)
  have cf3: "clock_frame env t t3" using cf by (metis clock_frame_refl)
  obtain r2 t2 where f2: "tunn_format_handshake_initiation C env n True t = (r2, t2)" by fastforce
  obtain r4 t4 where f4: "tunn_format_handshake_initiation C env n True t3 = (r4, t4)" by fastforce
  obtain r5 t5 where e: "encapsulate C env [] n t3 = Some (r5, t5)"
    using encapsulate_returns [of "[]" n C env t3] len by auto
  note good = inv_format_initiation [OF f2 inv nb] clock_format_initiation [OF f2]
    inv_format_initiation [OF f4 d(2) nb3] clock_format_initiation [OF f4, unfolded cf]
    inv_encapsulate [OF e d(2) nb3] clock_encapsulate [OF e, unfolded cf]
    inv_expire [OF inv nb] clock_expire [of env t]
  show ?thesis
  proof (cases "timer (tn_handshake t)")
    case None
    then show ?thesis using good inv d cf3 by (simp add: timer_action_def le f4 e)
  next
    case (Some s)
    then show ?thesis using good inv by (simp add: timer_action_def le f2)
  qed
qed

lemma update_timers_returns:
  assumes inv: "tunn_inv t" and rd: "readings_ok env t" and len: "32 \<le> n"
  shows "\<exists>r t' rl'. update_timers C env n t rl = Some (r, t', rl') \<and> tunn_inv t' \<and>
    time_started (tn_timers t') = time_started (tn_timers t) \<and>
    tm (tn_timers t') TimeCurrent \<le> duration_since (e_clear env) (time_started (tn_timers t))"
proof -
  let ?now = "duration_since (e_time env) (time_started (tn_timers t))"
  let ?t0 = "t\<lparr>tn_timers := (tn_timers t)\<lparr>tm := (tm (tn_timers t))(TimeCurrent := ?now)\<rparr>\<rparr>"
  have "tunn_inv ?t0" using rd by (intro inv_set_now inv) (simp add: readings_ok_def not_before_def)
  from update_session_timers_returns [OF this] obtain t1 where
    t1: "update_session_timers ?now ?t0 = Some t1" "tunn_inv t1" "tm (tn_timers t1) = tm (tn_timers ?t0)"
      "time_started (tn_timers t1) = time_started (tn_timers t)" by auto
  have now: "?now = tm (tn_timers t1) TimeCurrent" using t1(3) by simp
  have le: "tm (tn_timers t1) m \<le> ?now" for m using t1(2) by (simp add: now tunn_inv_def timers_inv_def)
  have nb: "not_before t1 (e_clear env)" using rd t1(3,4) by (simp add: readings_ok_def not_before_def)
  obtain h where h: "h = (if has_cookie (tn_handshake t1) \<and> ?now - tm (tn_timers t1) TimeCookieReceived \<ge> COOKIE_EXPIRATION_TIME
      then clear_cookie (tn_handshake t1) else tn_handshake t1)" by blast
  let ?t2 = "t1\<lparr>tn_handshake := h\<rparr>"
  have t2: "(if has_cookie (tn_handshake t1) \<and> ?now - tm (tn_timers t1) TimeCookieReceived \<ge> COOKIE_EXPIRATION_TIME
      then t1\<lparr>tn_handshake := clear_cookie (tn_handshake t1)\<rparr> else t1) = ?t2" by (simp add: h)
  from inv_action [of ?t2 ?now env n C] t1(2) now nb len obtain r3 t3 where
    a: "timer_action C env n ?now ?t2 = Some (r3, t3)" "tunn_inv t3" "clock_frame env t1 t3"
    by (auto simp: clock_clear_cookie)
  have fin: "\<exists>r t' rl'. update_timers C env n t rl = Some (r, t', rl') \<and> tunn_inv t' \<and> clock_frame env t1 t'"
    using t1(1,2) a(2,3) a(1) [folded t2]
    by (cases "has_cookie (tn_handshake t1)"; cases "Handshake.is_expired (tn_handshake t1)")
      (simp_all add: update_timers_def Let_def le split del: if_split)
  have "duration_since (e_time env) (time_started (tn_timers t)) \<le> duration_since (e_clear env) (time_started (tn_timers t))"
    using rd by (simp add: readings_ok_def)
  with fin t1(4) now [symmetric] show ?thesis by (fastforce simp: clock_frame_def)
qed

section \<open>Receiving does not panic\<close>

lemma verify_parse: "verify_packet C now a src n rl = (Inr p, rl') \<Longrightarrow> parse_incoming_packet src = Inr p"
  by (auto simp: verify_packet_def Let_def split_beta split: sum.splits option.splits if_splits prod.splits)

lemma verify_refuses:
  assumes "crypto_ok C" and "verify_packet C now a src n rl = (Inl x, rl')"
  shows "(\<exists>e. x = TErr e) \<or> (\<exists>c. x = WriteToNetwork c \<and> length c = 64)"
proof -
  have lc: "length (current_cookie C now addr r) = 16" for addr r
    by (simp add: current_cookie_def b2s_keyed_mac_16_2_def crypto_lengths [OF assms(1)] Let_def)
  have xok: "aead_ok (xchacha_seal C) (xchacha_open C)" using assms(1) by (simp add: crypto_ok_def)
  have len: "length c = 64" if "format_cookie_reply C i ck m n r = (Inr c, r')" "length ck = 16" for i ck m r c r'
    using that aead_lengths [OF xok, of _ _ _ ck]
    by (fastforce simp: format_cookie_reply_def nonce_def b2s_mac_24_def crypto_lengths [OF assms(1)] Let_def
        split: if_splits prod.splits)
  show ?thesis using assms(2) len lc
    by (auto simp: verify_packet_def tunn_result_from_def Let_def split: sum.splits option.splits if_splits prod.splits)
qed

lemma receive_response_answers:
  assumes "crypto_ok C" and "length (hr_nothing q) = 16"
  shows "\<exists>r h'. receive_handshake_response C now q h = Some (r, h')"
proof (cases "awaiting (hr_receiver_idx q) h")
  case None
  then show ?thesis by (simp add: receive_handshake_response_def)
next
  case (Some sp)
  obtain st b where sp: "sp = (st, b)" by fastforce
  obtain ck hs k where k: "noise_response C (is_chaining_key st) (is_hash st) (hr_ephemeral q)
      (x25519_dh C (is_ephemeral_private st) (hr_ephemeral q)) (x25519_dh C (static_private (params h)) (hr_ephemeral q))
      (preshared_key (params h)) = (ck, hs, k)" by (metis prod_cases3)
  obtain r where "aead_chacha20_open C 0 k 0 (hr_nothing q) hs = Some r"
    using open_returns [OF assms(1), of "hr_nothing q" 0 k 0 hs] assms(2) by auto
  with Some sp k show ?thesis
    by (simp add: receive_handshake_response_def Let_def split_beta split: sum.split)
qed

lemma receive_cookie_answers:
  "length (cr_nonce c) = 24 \<Longrightarrow> \<exists>r h'. receive_cookie_reply C c h = Some (r, h')"
  by (auto simp: receive_cookie_reply_def Let_def split: option.split)

lemma handle_verified_returns:
  assumes ok: "crypto_ok C" and wf: "wf_packet p" and inv: "tunn_inv t" and n: "32 \<le> n"
    and payload: "\<And>d. p = PacketData d \<Longrightarrow> length (pd_payload d) \<le> n"
  shows "\<exists>r t'. handle_verified_packet C env p n t = Some (r, t')"
proof (cases p)
  case (HandshakeInit q)
  then obtain r h where "receive_handshake_initialization C (e_eph env) q n (tn_handshake t) = Some (r, h)"
    using receive_init_answers [OF ok, of q "e_eph env" n "tn_handshake t"] wf by auto
  with HandshakeInit show ?thesis
    by (simp add: handle_verified_packet_def handle_handshake_init_def Let_def split_beta)
next
  case (HandshakeResponse q)
  then obtain r h where rh: "receive_handshake_response C (e_rtt env) q (tn_handshake t) = Some (r, h)"
    using receive_response_answers [OF ok, of q "e_rtt env" "tn_handshake t"] wf by auto
  show ?thesis
  proof (cases r)
    case (Inl e)
    with rh HandshakeResponse show ?thesis
      by (simp add: handle_verified_packet_def handle_handshake_response_def Let_def)
  next
    case (Inr s)
    obtain k s' where "format_packet_data C [] n s = Some (k, s')"
      using format_packet_returns [of "[]" n C s] n by auto
    with rh HandshakeResponse Inr show ?thesis
      by (simp add: handle_verified_packet_def handle_handshake_response_def Let_def)
  qed
next
  case (PacketCookieReply q)
  then obtain r h where "receive_cookie_reply C q (tn_handshake t) = Some (r, h)"
    using receive_cookie_answers [of q C "tn_handshake t"] wf by auto
  with PacketCookieReply show ?thesis
    by (simp add: handle_verified_packet_def handle_cookie_reply_def Let_def split_beta)
next
  case (PacketData q)
  show ?thesis
  proof (cases "sessions t ! (unat (pd_receiver_idx q) mod N_SESSIONS)")
    case None
    with PacketData show ?thesis by (simp add: handle_verified_packet_def handle_data_def Let_def)
  next
    case (Some s)
    then have "session_ok s" using ring_ok_nth [OF tunn_inv_fields(1) [OF inv] Some] by simp
    from receive_packet_returns [OF this payload [OF PacketData]] obtain r s' where
      "receive_packet_data C q n s = Some (r, s')" by blast
    with Some PacketData show ?thesis
      by (simp add: handle_verified_packet_def handle_data_def Let_def split_beta)
  qed
qed

end
