(* ===== verification/Tunn_Names.thy ===== *)
theory Tunn_Names
  imports Tunn_Invariant
begin

text \<open>
  The names a tunnel keeps: the static key of its peer never changes, and every index it gives out
  or still answers to (of a handshake in flight or of a session) has in its upper 24 bits the index
  the device gave to the peer. The device theory looks peers up by these 24 bits.
\<close>

fun state_named :: "u32 \<Rightarrow> handshake_state \<Rightarrow> bool" where
  "state_named i (InitSent s) \<longleftrightarrow> drop_bit 8 (is_local_index s) = i"
| "state_named i _ \<longleftrightarrow> True"

definition hs_named :: "bytes \<Rightarrow> u32 \<Rightarrow> handshake \<Rightarrow> bool" where
  "hs_named k i h \<longleftrightarrow> peer_static_public (params h) = k \<and> drop_bit 8 (next_index h) = i \<and>
    state_named i (hs_state h) \<and> state_named i (previous h)"

definition ring_named :: "u32 \<Rightarrow> session option list \<Rightarrow> bool" where
  "ring_named i ss \<longleftrightarrow> ring_ok ss \<and> (\<forall>s. Some s \<in> set ss \<longrightarrow> drop_bit 8 (receiving_index s) = i)"

definition tunn_named :: "bytes \<Rightarrow> u32 \<Rightarrow> tunn \<Rightarrow> bool" where
  "tunn_named k i t \<longleftrightarrow> hs_named k i (tn_handshake t) \<and> ring_named i (sessions t)"

section \<open>Handshakes\<close>

lemma inc_index_named: "drop_bit 8 (fst (inc_index h)) = drop_bit 8 (next_index h)"
proof -
  have "unat (fst (inc_index h)) div 256 = unat (next_index h) div 256"
    by (simp add: inc_index_unat)
  then have "unat (drop_bit 8 (fst (inc_index h))) = unat (drop_bit 8 (next_index h))"
    by (simp add: unat_drop_bit_eq drop_bit_eq_div unat_div)
  then show ?thesis by (simp only: word_unat_eq_iff)
qed

lemma named_new:
  assumes "i < 2 ^ 24"
  shows "hs_named k i (handshake_new C priv pub k (push_bit 8 i) psk ts)"
proof -
  have "drop_bit 8 (push_bit 8 i) = i"
  proof (rule bit_word_eqI)
    fix n assume "n < LENGTH(32)"
    have "take_bit 24 i = i" using assms by (simp add: take_bit_eq_mod mod_word_less)
    then have "bit i n \<Longrightarrow> n < 24" by (metis bit_take_bit_iff)
    then show "bit (drop_bit 8 (push_bit 8 i)) n = bit i n" by (auto simp: bit_simps)
  qed
  then show ?thesis by (simp add: hs_named_def handshake_new_def noise_params_new_def)
qed

lemma named_set_static_private:
  "handshake_set_static_private C priv pub h = Some h' \<Longrightarrow> hs_named k i h \<Longrightarrow> hs_named k i h'"
  by (auto simp: handshake_set_static_private_def params_set_static_private_def hs_named_def split: if_splits)

lemma named_expired [simp]: "hs_named k i h \<Longrightarrow> hs_named k i (set_expired h)"
  by (simp add: hs_named_def set_expired_def)

lemma named_clear_cookie [simp]: "hs_named k i (clear_cookie h) = hs_named k i h"
  by (simp add: hs_named_def clear_cookie_def)

lemma named_format_initiation:
  assumes "format_handshake_initiation C eph now1 now2 n h = (r, h')" and "hs_named k i h"
  shows "hs_named k i h'"
  using assms by (auto simp: format_handshake_initiation_def Let_def split_beta hs_named_def inc_index_named
      split: if_splits)

lemma named_format_response:
  assumes "format_handshake_response C eph n h = Some (r, h')" and "hs_named k i h"
  shows "hs_named k i h' \<and> (\<forall>m s. r = Inr (m, s) \<longrightarrow> drop_bit 8 (receiving_index s) = i)"
  using assms by (auto simp: format_handshake_response_def Let_def split_beta hs_named_def inc_index_named
      session_new_def split: if_splits handshake_state.splits)

lemma named_receive_init:
  assumes "receive_handshake_initialization C eph p n h = Some (r, h')" and "hs_named k i h"
  shows "hs_named k i h' \<and> (\<forall>m s. r = Inr (m, s) \<longrightarrow> drop_bit 8 (receiving_index s) = i)"
proof -
  have st: "hs_named k i (h\<lparr>last_handshake_timestamp := t, previous := hs_state h, hs_state := InitReceived a b c d\<rparr>)"
    for t a b c d using assms(2) by (simp add: hs_named_def)
  show ?thesis
    using assms by (auto simp: receive_handshake_initialization_def Let_def split_beta
        split: if_splits sum.splits bind_splits dest!: named_format_response [OF _ st])
qed

lemma awaiting_named: "awaiting idx h = Some (s, b) \<Longrightarrow> hs_named k i h \<Longrightarrow> drop_bit 8 (is_local_index s) = i"
  by (auto simp: awaiting_def hs_named_def split: handshake_state.splits if_splits)

lemma named_receive_response:
  assumes "receive_handshake_response C now p h = Some (r, h')" and "hs_named k i h"
  shows "hs_named k i h' \<and> (\<forall>s. r = Inr s \<longrightarrow> drop_bit 8 (receiving_index s) = i)"
proof (cases "awaiting (hr_receiver_idx p) h")
  case None
  then show ?thesis using assms by (auto simp: receive_handshake_response_def)
next
  case (Some sb)
  then obtain s b where sb: "awaiting (hr_receiver_idx p) h = Some (s, b)" by (cases sb) simp
  have "drop_bit 8 (is_local_index s) = i" by (rule awaiting_named [OF sb assms(2)])
  then show ?thesis using assms sb
    by (auto simp: receive_handshake_response_def Let_def split_beta hs_named_def session_new_def
        split: if_splits sum.splits bind_splits)
qed

lemma named_receive_cookie:
  "receive_cookie_reply C p h = Some (r, h') \<Longrightarrow> hs_named k i h \<Longrightarrow> hs_named k i h'"
  by (auto simp: receive_cookie_reply_def hs_named_def Let_def split: option.splits if_splits)

section \<open>Tunnels\<close>

lemma ring_named_update:
  "ring_named i ss \<Longrightarrow> drop_bit 8 (receiving_index s) = i \<Longrightarrow> session_ok s \<Longrightarrow>
    ring_named i (ss[session_local_index s mod N_SESSIONS := Some s])"
  by (auto simp: ring_named_def ring_ok_update dest!: subsetD [OF set_update_subset_insert])

lemma ring_named_none: "ring_named i ss \<Longrightarrow> ring_named i (ss[j := None])"
  by (auto simp: ring_named_def ring_ok_none dest!: subsetD [OF set_update_subset_insert])

lemma ring_named_clear: "ring_named i ss \<Longrightarrow> ring_named i (map (\<lambda>_. None) ss)"
  by (auto simp: ring_named_def ring_ok_clear)

lemma tunn_named_frames [simp]:
  "tunn_named k i (timer_tick n t) = tunn_named k i t"
  "tunn_named k i (timer_tick_session_established b j t) = tunn_named k i t"
  "tunn_named k i (queue_packet p t) = tunn_named k i t"
  "tunn_named k i (requeue_packet p t) = tunn_named k i t"
  "tunn_named k i (set_current_session j t) = tunn_named k i t"
  "tunn_named k i (t\<lparr>tx_bytes := x\<rparr>) = tunn_named k i t"
  "tunn_named k i (t\<lparr>rx_bytes := x\<rparr>) = tunn_named k i t"
  "tunn_named k i (t\<lparr>tn_timers := ts\<rparr>) = tunn_named k i t"
  "tunn_named k i (t\<lparr>packet_queue := q\<rparr>) = tunn_named k i t"
  by (simp_all add: tunn_named_def timer_tick_def timer_tick_session_established_def queue_packet_def
      requeue_packet_def set_current_session_def Let_def)

lemma tunn_named_dequeue: "dequeue_packet t = (p, t') \<Longrightarrow> tunn_named k i t' = tunn_named k i t"
  by (auto simp: dequeue_packet_def split: list.splits)

lemma format_packet_index: "format_packet_data C src n s = Some (m, s') \<Longrightarrow> receiving_index s' = receiving_index s"
  by (auto simp: format_packet_data_def Let_def split_beta split: if_splits)

lemma receive_packet_index: "receive_packet_data C p n s = Some (r, s') \<Longrightarrow> receiving_index s' = receiving_index s"
  by (auto simp: receive_packet_data_def receiving_counter_mark_def split: if_splits sum.splits option.splits bind_splits prod.splits)

lemma named_tunn_new:
  assumes "tunn_new C ts now le priv k psk ka i rl = (t, l)" and "i < 2 ^ 24"
  shows "tunn_named k i t"
  using assms named_new [OF assms(2)] by (auto simp: tunn_new_def Let_def tunn_named_def ring_named_def ring_ok_def)

lemma named_tunn_set_static_private:
  "tunn_set_static_private C le priv pub rl t = Some (t', l) \<Longrightarrow> tunn_named k i t \<Longrightarrow> tunn_named k i t'"
  by (auto simp: tunn_set_static_private_def tunn_named_def ring_named_clear
      intro: named_set_static_private split: bind_splits)

lemma named_tunn_initiation:
  assumes "tunn_format_handshake_initiation C env n force t = (r, t')" and "tunn_named k i t"
  shows "tunn_named k i t'"
  using assms by (auto simp: tunn_format_handshake_initiation_def Let_def tunn_named_def timer_tick_def split_beta
      split: if_splits sum.splits intro: named_format_initiation [OF surjective_pairing])

lemma session_slot_named:
  assumes "tunn_named k i t" and "sessions t ! (j mod N_SESSIONS) = Some s"
  shows "drop_bit 8 (receiving_index s) = i \<and> session_ok s \<and> session_local_index s mod N_SESSIONS = j mod N_SESSIONS"
proof -
  have ring: "ring_ok (sessions t)" using assms(1) by (simp add: tunn_named_def ring_named_def)
  then have "j mod N_SESSIONS < length (sessions t)" by (simp add: ring_ok_def)
  then have "Some s \<in> set (sessions t)" using assms(2) by (metis nth_mem)
  then show ?thesis using assms ring ring_ok_nth [OF ring assms(2)] by (simp add: tunn_named_def ring_named_def)
qed

lemma named_store:
  "tunn_named k i t \<Longrightarrow> drop_bit 8 (receiving_index s) = i \<Longrightarrow> session_ok s \<Longrightarrow>
    tunn_named k i (t\<lparr>sessions := (sessions t)[session_local_index s mod N_SESSIONS := Some s]\<rparr>)"
  by (simp add: tunn_named_def ring_named_update)

lemma named_encapsulate:
  assumes "encapsulate C env src n t = Some (r, t')" and named: "tunn_named k i t"
  shows "tunn_named k i t'"
proof (cases "sessions t ! (current t mod N_SESSIONS)")
  case None
  then show ?thesis using assms named_tunn_initiation [of C env n False "queue_packet src t"]
    by (simp add: encapsulate_def)
next
  case (Some s)
  obtain m s' where f: "format_packet_data C src n s = Some (m, s')"
    using assms(1) Some by (auto simp: encapsulate_def split: bind_splits)
  note slot = session_slot_named [OF named Some] format_packet_frames [OF f]
  have "tunn_named k i (t\<lparr>sessions := (sessions t)[current t mod N_SESSIONS := Some s']\<rparr>)"
    using named_store [OF named, of s'] slot format_packet_index [OF f] by simp
  then show ?thesis using assms(1) Some f by (auto simp: encapsulate_def Let_def)
qed

lemma named_send_queued:
  assumes "send_queued_packet C env n t = Some (r, t')" and named: "tunn_named k i t"
  shows "tunn_named k i t'"
proof -
  obtain p t1 where d: "dequeue_packet t = (p, t1)" by fastforce
  have t1: "tunn_named k i t1" using tunn_named_dequeue [OF d] named by simp
  show ?thesis
  proof (cases p)
    case None
    then show ?thesis using assms(1) d t1 by (simp add: send_queued_packet_def)
  next
    case (Some pk)
    then obtain r2 t2 where e: "encapsulate C env pk n t1 = Some (r2, t2)"
        "t' = (case r2 of TErr _ \<Rightarrow> requeue_packet pk t2 | _ \<Rightarrow> t2)"
      using assms(1) d by (auto simp: send_queued_packet_def split: bind_splits tunn_result.splits)
    from named_encapsulate [OF e(1) t1] show ?thesis by (simp add: e(2) split: tunn_result.split)
  qed
qed

lemma tunn_named_handshake: "tunn_named k i t \<Longrightarrow> hs_named k i h \<Longrightarrow> tunn_named k i (t\<lparr>tn_handshake := h\<rparr>)"
  by (simp add: tunn_named_def)

lemma named_handle_init:
  assumes "handle_handshake_init C env p n t = Some (r, t')" and named: "tunn_named k i t"
  shows "tunn_named k i t'"
proof -
  obtain r1 h where h: "receive_handshake_initialization C (e_eph env) p n (tn_handshake t) = Some (r1, h)"
    using assms(1) by (auto simp: handle_handshake_init_def split: bind_splits)
  have hn: "hs_named k i h" and sn: "\<forall>m s. r1 = Inr (m, s) \<longrightarrow> drop_bit 8 (receiving_index s) = i"
    using named_receive_init [OF h] named by (auto simp: tunn_named_def)
  have t1: "tunn_named k i (t\<lparr>tn_handshake := h\<rparr>)" by (rule tunn_named_handshake [OF named hn])
  show ?thesis
  proof (cases r1)
    case (Inl e)
    then show ?thesis using assms(1) h t1 by (auto simp: handle_handshake_init_def)
  next
    case (Inr ms)
    obtain m s where ms: "ms = (m, s)" by fastforce
    have "session_ok s" using receive_init_session h Inr ms by blast
    then have "tunn_named k i (t\<lparr>tn_handshake := h, sessions := (sessions t)[session_local_index s mod N_SESSIONS := Some s]\<rparr>)"
      using named_store [OF t1, of s] sn Inr ms by simp
    then show ?thesis using assms(1) h Inr ms by (auto simp: handle_handshake_init_def Let_def)
  qed
qed

lemma named_handle_response:
  assumes "handle_handshake_response C env p n t = Some (r, t')" and named: "tunn_named k i t"
  shows "tunn_named k i t'"
proof -
  obtain r1 h where h: "receive_handshake_response C (e_rtt env) p (tn_handshake t) = Some (r1, h)"
    using assms(1) by (auto simp: handle_handshake_response_def split: bind_splits)
  have hn: "hs_named k i h" and sn: "\<forall>s. r1 = Inr s \<longrightarrow> drop_bit 8 (receiving_index s) = i"
    using named_receive_response [OF h] named by (auto simp: tunn_named_def)
  have t1: "tunn_named k i (t\<lparr>tn_handshake := h\<rparr>)" by (rule tunn_named_handshake [OF named hn])
  show ?thesis
  proof (cases r1)
    case (Inl e)
    then show ?thesis using assms(1) h t1 by (auto simp: handle_handshake_response_def)
  next
    case (Inr s)
    then obtain m s' where f: "format_packet_data C [] n s = Some (m, s')"
      using assms(1) h by (auto simp: handle_handshake_response_def split: bind_splits)
    have "session_ok s'" using format_packet_frames [OF f] receive_response_session h Inr by blast
    then have "tunn_named k i (t\<lparr>tn_handshake := h, sessions := (sessions t)[session_local_index s' mod N_SESSIONS := Some s']\<rparr>)"
      using named_store [OF t1, of s'] sn Inr format_packet_index [OF f] by simp
    then show ?thesis using assms(1) h Inr f by (auto simp: handle_handshake_response_def Let_def)
  qed
qed

lemma named_handle_cookie:
  assumes "handle_cookie_reply C p t = Some (r, t')" and named: "tunn_named k i t"
  shows "tunn_named k i t'"
proof -
  obtain r1 h where h: "receive_cookie_reply C p (tn_handshake t) = Some (r1, h)"
    using assms(1) by (auto simp: handle_cookie_reply_def split: bind_splits)
  have "hs_named k i h" using named_receive_cookie [OF h] named by (simp add: tunn_named_def)
  from tunn_named_handshake [OF named this] show ?thesis
    using assms(1) h by (auto simp: handle_cookie_reply_def Let_def split: sum.splits)
qed

lemma named_validate: "validate_decapsulated_packet p t = (r, t') \<Longrightarrow> tunn_named k i t' = tunn_named k i t"
  by (auto simp: validate_decapsulated_packet_def Let_def split: if_splits option.splits)

lemma named_handle_data:
  assumes "handle_data C p n t = Some (r, t')" and named: "tunn_named k i t"
  shows "tunn_named k i t'"
proof -
  let ?j = "unat (pd_receiver_idx p) mod N_SESSIONS"
  show ?thesis
  proof (cases "sessions t ! ?j")
    case None
    then show ?thesis using assms by (simp add: handle_data_def)
  next
    case (Some s)
    obtain r1 s' where v: "receive_packet_data C p n s = Some (r1, s')"
      using assms(1) Some by (auto simp: handle_data_def Let_def split: bind_splits)
    have t1: "tunn_named k i (t\<lparr>sessions := (sessions t)[?j := Some s']\<rparr>)"
      using named_store [OF named, of s'] session_slot_named [OF named Some] receive_packet_ok [OF v]
        receive_packet_index [OF v] by simp
    show ?thesis
    proof (cases r1)
      case (Inl e)
      then show ?thesis using assms(1) Some v t1 by (auto simp: handle_data_def Let_def)
    next
      case (Inr d)
      then have "t' = snd (validate_decapsulated_packet d (timer_tick TimeLastPacketReceived
          (set_current_session (unat (pd_receiver_idx p)) (t\<lparr>sessions := (sessions t)[?j := Some s']\<rparr>))))"
        using assms(1) Some v by (simp add: handle_data_def Let_def split_beta)
      then show ?thesis using t1 named_validate [OF surjective_pairing] by simp
    qed
  qed
qed

lemma named_handle_verified:
  "handle_verified_packet C env p n t = Some (r, t') \<Longrightarrow> tunn_named k i t \<Longrightarrow> tunn_named k i t'"
  by (cases p) (auto simp: handle_verified_packet_def split: bind_splits
      dest: named_handle_init named_handle_response named_handle_cookie named_handle_data)

lemma named_decapsulate:
  assumes "decapsulate C env a d n t rl = Some (r, t', rl')" and "tunn_named k i t"
  shows "tunn_named k i t'"
  using assms by (auto simp: decapsulate_def split: if_splits bind_splits prod.splits sum.splits tunn_result.splits
      dest: named_send_queued named_handle_verified)

section \<open>Timers\<close>

lemma named_expire_sessions:
  "expire_sessions now j ds ss = Some (ds', ss') \<Longrightarrow> ring_named i ss \<Longrightarrow> ring_named i ss'"
proof (induction now j ds ss arbitrary: ds' ss' rule: expire_sessions.induct)
  case (2 now j d ds ss)
  from 2(2) obtain age ds1 where a: "dur_sub now d = Some age"
    and b: "expire_sessions now (Suc j) ds (if age > REJECT_AFTER_TIME then ss[j := None] else ss) = Some (ds1, ss')"
    by (auto split: bind_splits if_splits)
  let ?ss = "if age > REJECT_AFTER_TIME then ss[j := None] else ss"
  have pair: "(if age > REJECT_AFTER_TIME then now else d, ?ss) =
      (if age > REJECT_AFTER_TIME then (now, ss[j := None]) else (d, ss))" by simp
  have "ring_named i ?ss" using 2(3) by (simp add: ring_named_none)
  from 2(1) [OF a refl pair b this] show ?case .
qed simp

lemma named_session_timers:
  "update_session_timers now t = Some t' \<Longrightarrow> tunn_named k i t \<Longrightarrow> tunn_named k i t'"
  by (auto simp: update_session_timers_def tunn_named_def split: bind_splits dest: named_expire_sessions)

lemma named_demands:
  assumes "timer_demands now t = Some (a, b, t')" and "tunn_named k i t"
  shows "tunn_named k i t'"
  using timer_demands_effect [OF assms(1)] assms(2) by (simp add: only_ticked_def tunn_named_def)

lemma named_expire: "tunn_named k i t \<Longrightarrow> tunn_named k i (expire_tunn now t)"
  by (simp add: expire_tunn_def clear_all_def tunn_named_def ring_named_clear)

lemma named_action:
  assumes "timer_action C env n now t = Some (r, t')" and named: "tunn_named k i t"
  shows "tunn_named k i t'"
proof -
  consider "t' = expire_tunn (e_clear env) t" | "t' = t"
    | "tunn_format_handshake_initiation C env n True t = (r, t')"
    | a b t1 where "timer_demands now t = Some (a, b, t1)"
        "t' = t1 \<or> tunn_format_handshake_initiation C env n True t1 = (r, t') \<or> encapsulate C env [] n t1 = Some (r, t')"
    using assms by (auto simp: timer_action_def split: bind_splits if_splits option.splits)
  then show ?thesis
  proof cases
    case 4
    note t1 = named_demands [OF 4(1) named]
    then show ?thesis using 4(2) named_tunn_initiation named_encapsulate by blast
  qed (use named in \<open>auto intro: named_expire named_tunn_initiation\<close>)
qed

lemma named_update_timers:
  assumes "update_timers C env n t rl = Some (r, t', rl')" and named: "tunn_named k i t"
  shows "tunn_named k i t'"
proof -
  let ?now = "duration_since (e_time env) (time_started (tn_timers t))"
  let ?t0 = "t\<lparr>tn_timers := (tn_timers t)\<lparr>tm := (tm (tn_timers t))(TimeCurrent := ?now)\<rparr>\<rparr>"
  obtain t1 where t1: "update_session_timers ?now ?t0 = Some t1"
    using assms(1) by (auto simp: update_timers_def Let_def split: bind_splits)
  have n1: "tunn_named k i t1"
    using named_session_timers [OF t1, of k i] named by simp
  have n2: "tunn_named k i (t1\<lparr>tn_handshake := clear_cookie (tn_handshake t1)\<rparr>)"
    using n1 by (simp add: tunn_named_def)
  show ?thesis
    using assms(1) t1 n1 n2 by (auto simp: update_timers_def Let_def split: bind_splits if_splits dest!: named_action)
qed

end
