(* ===== verification/Device.thy ===== *)
theory Device
  imports Peer Index_Lfsr Tcp_Framing Event_Poll Tunn_Names
begin

text \<open>
  The device (src/nekolink-core/src/device/mod.rs): its configuration, the tables that find a peer
  by public key, by index and by address, and the operations that change them. An
  \<open>Arc<Mutex<Peer>>\<close> is a position in \<open>d_heap\<close>, an \<open>Arc<RateLimiter>\<close> one in \<open>d_limiters\<close>, so that
  the sharing of the source is explicit; a \<open>HashMap\<close> is an association list with distinct keys.
  A handler closure is a value of \<open>handler\<close> with what it captured, kept by the event registry under
  the descriptor it was registered with. \<open>shutdown\<close> of a connected socket makes the poll report its
  end, on which \<open>event_loop\<close> cancels the handler; here the handler goes away with the shutdown.
\<close>

section \<open>State\<close>

abbreviation (input) HANDSHAKE_RATE_LIMIT :: u64 where "HANDSHAKE_RATE_LIMIT \<equiv> 100"
abbreviation (input) MAX_UDP_SIZE :: nat where "MAX_UDP_SIZE \<equiv> 65535"
abbreviation (input) MAX_PACKET_COUNT :: nat where "MAX_PACKET_COUNT \<equiv> 64"
abbreviation (input) MAX_ITR :: nat where "MAX_ITR \<equiv> 100"

datatype action = Continue | Yield | Exit

record device_config =
  cfg_n_threads :: nat
  cfg_use_connected_socket :: bool
  cfg_use_multi_queue :: bool
  cfg_uapi_fd :: int
  cfg_ip_protocol :: "u8 option"
  cfg_transport_mode :: transport_mode
  cfg_enable_udp_gro :: bool

definition config_default :: device_config where
  "config_default =
    \<lparr>cfg_n_threads = 4, cfg_use_connected_socket = True, cfg_use_multi_queue = True, cfg_uapi_fd = -1,
     cfg_ip_protocol = None, cfg_transport_mode = Udp, cfg_enable_udp_gro = True\<rparr>"

text \<open>
  What the registered closures captured: the connection handler its peer, the address and, as its
  own socket's name, the duplicate that the peer keeps; the stream handler the address of the
  other end and the framing buffer.
\<close>

datatype handler =
    HYield
  | HExit
  | HLimiterTimer
  | HPeerTimer
  | HIface
  | HUdp
  | HConn nat ip_addr socket
  | HTcpListener
  | HTcpStream sock_addr tcp_framing

record ('t, 'u) device =
  d_key_pair :: "(bytes \<times> bytes) option"
  d_poll :: "handler event_poll"
  d_listen_port :: u16
  d_fwmark :: "u32 option"
  d_udp4 :: "socket option"
  d_udp6 :: "socket option"
  d_tcp_listener :: "socket option"
  d_tcp_connections :: "(sock_addr \<times> socket) list"
  d_yield_notice :: "nat option"
  d_exit_notice :: "nat option"
  d_peers :: "(bytes \<times> nat) list"
  d_peers_by_ip :: 't
  d_peers_by_idx :: "(u32 \<times> nat) list"
  d_next_index :: index_lfsr
  d_config :: device_config
  d_mtu :: nat
  d_rate_limiter :: "nat option"
  d_heap :: "'u peer list"
  d_limiters :: "rate_limiter list"

text \<open>The libraries: the primitives of the protocol and the two instances of the prefix table.\<close>

record ('n, 't, 'u) libs =
  lib_crypto :: crypto
  lib_routes :: "('n, 't, nat) ip_table"
  lib_allowed :: "('n, 'u, unit) ip_table"

text \<open>
  The operating system's answers. A socket that is opened comes with the duplicate made of it:
  of \<open>os_connect\<close> the peer keeps the duplicate and the handler the socket, of \<open>os_udp\<close> and
  \<open>os_listen\<close> the device keeps the socket and the handler the duplicate, of \<open>os_tcp\<close> the table of
  connections keeps the duplicate. \<open>os_udp\<close> gets address family, rawness, protocol and port and also
  tells the local port.
\<close>

record os =
  os_add :: "nat \<Rightarrow> bool"
  os_connect :: "sock_request \<Rightarrow> (socket \<times> socket) option"
  os_udp :: "bool \<Rightarrow> bool \<Rightarrow> int \<Rightarrow> u16 \<Rightarrow> (socket \<times> socket \<times> u16) option"
  os_listen :: "u16 \<Rightarrow> (socket \<times> socket) option"
  os_tcp :: "sock_addr \<Rightarrow> (socket \<times> socket) option"
  os_mark :: "socket \<Rightarrow> u32 \<Rightarrow> bool"
  os_mtu :: "nat option"

abbreviation put_peer :: "nat \<Rightarrow> 'u peer \<Rightarrow> ('t, 'u) device \<Rightarrow> ('t, 'u) device" where
  "put_peer r p d \<equiv> d\<lparr>d_heap := (d_heap d)[r := p]\<rparr>"

fun conn_socket :: "handler event option \<Rightarrow> socket option" where
  "conn_socket None = None"
| "conn_socket (Some ev) = (case ev_handler ev of HConn _ _ s \<Rightarrow> Some s | _ \<Rightarrow> None)"

definition cancel_conn :: "socket \<Rightarrow> handler event_poll \<Rightarrow> handler event_poll" where
  "cancel_conn s p =
    p\<lparr>pl_events := map (\<lambda>e. if conn_socket e = Some s then None else e) (pl_events p),
      pl_interest := filter (\<lambda>fd. conn_socket (poll_get p fd) \<noteq> Some s) (pl_interest p)\<rparr>"

text \<open>\<open>s\<close> is the socket that an operation on a peer shut down, if it did.\<close>

definition close_conn :: "socket option \<Rightarrow> ('t, 'u) device \<Rightarrow> ('t, 'u) device" where
  "close_conn s d = (case s of None \<Rightarrow> d | Some s \<Rightarrow> d\<lparr>d_poll := cancel_conn s (d_poll d)\<rparr>)"

definition add_event :: "os \<Rightarrow> nat \<Rightarrow> handler \<Rightarrow> ('t, 'u) device \<Rightarrow> bool \<times> ('t, 'u) device" where
  "add_event X fd h d =
    (let (r, poll) = new_event (os_add X) fd h (d_poll d) in (r \<noteq> None, d\<lparr>d_poll := poll\<rparr>))"

section \<open>Peers come and go\<close>

definition device_next_index :: "('t, 'u) device \<Rightarrow> (u32 \<times> ('t, 'u) device) option" where
  "device_next_index d =
    map_option (\<lambda>(i, g). (i, d\<lparr>d_next_index := g\<rparr>)) (lfsr_next (d_next_index d))"

definition remove_peer :: "('n, 't, 'u) libs \<Rightarrow> bytes \<Rightarrow> ('t, 'u) device \<Rightarrow> ('t, 'u) device" where
  "remove_peer L pub_key d =
    (case hm_get (d_peers d) pub_key of
       None \<Rightarrow> d
     | Some r \<Rightarrow>
         (let d1 = d\<lparr>d_peers := hm_remove pub_key (d_peers d)\<rparr>;
              (s, p) = shutdown_endpoint (d_heap d1 ! r);
              d2 = close_conn s (put_peer r p d1);
              d3 = d2\<lparr>d_peers_by_idx := hm_remove (p_index p) (d_peers_by_idx d2)\<rparr>
          in d3\<lparr>d_peers_by_ip := ips_remove (lib_routes L) (\<lambda>r'. r' = r) (d_peers_by_ip d3)\<rparr>))"

text \<open>
  \<open>ts\<close>, \<open>now\<close> and \<open>le\<close> are what creating the tunnel reads from the clock and draws at random. The
  limiter argument of \<open>Tunn::new\<close> is \<open>None\<close> in the source: the new tunnel gets a limiter of its own.
\<close>

definition update_peer ::
    "('n, 't, 'u) libs \<Rightarrow> time_stamper \<Rightarrow> instant \<Rightarrow> limiter_env \<Rightarrow> bytes \<Rightarrow> bool \<Rightarrow> bool \<Rightarrow> sock_addr option \<Rightarrow>
      allowed_ip list \<Rightarrow> u16 option \<Rightarrow> bytes option \<Rightarrow> ('t, 'u) device \<Rightarrow> ('t, 'u) device option" where
  "update_peer L ts now le pub_key remove replace_ips endpoint allowed keepalive psk d =
    (if remove then Some (remove_peer L pub_key d)
     else if hm_get (d_peers d) pub_key \<noteq> None then Some d
     else do {
       (next_index, d1) \<leftarrow> device_next_index d;
       case d_key_pair d1 of
         None \<Rightarrow> Some d1
       | Some (private_key, _) \<Rightarrow>
           (let (tunn, limiter) = tunn_new (lib_crypto L) ts now le private_key pub_key psk keepalive next_index None
            in do {
              peer \<leftarrow> peer_new (lib_allowed L) tunn (length (d_limiters d1)) next_index endpoint allowed psk
                (cfg_transport_mode (d_config d1));
              let r = length (d_heap d1);
              routes \<leftarrow> ips_insert_all (lib_routes L) (map (\<lambda>ip. (ip, r)) allowed) (d_peers_by_ip d1);
              Some (d1\<lparr>d_limiters := d_limiters d1 @ [limiter], d_heap := d_heap d1 @ [peer],
                d_peers := hm_insert pub_key r (d_peers d1),
                d_peers_by_idx := hm_insert next_index r (d_peers_by_idx d1),
                d_peers_by_ip := routes\<rparr>)
            })
     })"

definition clear_peers :: "('n, 't, 'u) libs \<Rightarrow> ('t, 'u) device \<Rightarrow> ('t, 'u) device" where
  "clear_peers L d =
    d\<lparr>d_peers := [], d_peers_by_idx := [], d_peers_by_ip := ips_clear (lib_routes L) (d_peers_by_ip d)\<rparr>"

section \<open>Keys and marks\<close>

text \<open>The loop of \<open>set_key\<close> over the peers: a new private key and the limiter at position \<open>l\<close>.\<close>

fun rekey_peers ::
    "('n, 't, 'u) libs \<Rightarrow> limiter_env \<Rightarrow> bytes \<Rightarrow> bytes \<Rightarrow> rate_limiter \<Rightarrow> nat \<Rightarrow> nat list \<Rightarrow> 'u peer list \<Rightarrow>
      'u peer list option" where
  "rekey_peers L le priv pub limiter l [] heap = Some heap"
| "rekey_peers L le priv pub limiter l (r # rs) heap =
    do {
      (t, _) \<leftarrow> tunn_set_static_private (lib_crypto L) le priv pub (Some limiter) (p_tunnel (heap ! r));
      rekey_peers L le priv pub limiter l rs (heap[r := (heap ! r)\<lparr>p_tunnel := t, p_limiter := l\<rparr>])
    }"

text \<open>\<open>le\<close> are the random bytes and readings of \<open>RateLimiter::new\<close>.\<close>

definition set_key ::
    "('n, 't, 'u) libs \<Rightarrow> limiter_env \<Rightarrow> bytes \<Rightarrow> ('t, 'u) device \<Rightarrow> ('t, 'u) device option" where
  "set_key L le private_key d =
    (let public_key = x25519_public (lib_crypto L) private_key
     in if map_option snd (d_key_pair d) = Some public_key then Some d
        else
          (let (r16, r32, now1, now2) = le;
               limiter = rate_limiter_new (lib_crypto L) r16 r32 now1 now2 public_key HANDSHAKE_RATE_LIMIT;
               l = length (d_limiters d)
           in do {
             heap \<leftarrow> rekey_peers L le private_key public_key limiter l (map snd (d_peers d)) (d_heap d);
             Some (d\<lparr>d_limiters := d_limiters d @ [limiter], d_heap := heap,
               d_key_pair := Some (private_key, public_key), d_rate_limiter := Some l\<rparr>)
           }))"

text \<open>
  \<open>set_mark\<close> may fail on any socket. The first failure ends the operation, after \<open>fwmark\<close> is stored.
\<close>

definition marked_sockets :: "('t, 'u) device \<Rightarrow> socket list" where
  "marked_sockets d =
    (case d_udp4 d of Some s \<Rightarrow> [s] | None \<Rightarrow> []) @ (case d_udp6 d of Some s \<Rightarrow> [s] | None \<Rightarrow> []) @
    concat (map (\<lambda>(_, r). case ep_conn (p_endpoint (d_heap d ! r)) of Some s \<Rightarrow> [s] | None \<Rightarrow> []) (d_peers d))"

definition set_fwmark ::
    "os \<Rightarrow> u32 \<Rightarrow> ('t, 'u) device \<Rightarrow> (device_error + unit) \<times> ('t, 'u) device" where
  "set_fwmark X mark d =
    (let d1 = d\<lparr>d_fwmark := Some mark\<rparr>
     in (if list_all (\<lambda>s. os_mark X s mark) (marked_sockets d1) then Inr () else Inl IoError, d1))"

section \<open>Sockets of the device\<close>

definition shutdown_peers :: "('t, 'u) device \<Rightarrow> ('t, 'u) device" where
  "shutdown_peers d =
    fold (\<lambda>(_, r) d. let (s, p) = shutdown_endpoint (d_heap d ! r) in close_conn s (put_peer r p d)) (d_peers d) d"

definition clear_fd :: "socket option \<Rightarrow> ('t, 'u) device \<Rightarrow> ('t, 'u) device option" where
  "clear_fd s d =
    (case s of None \<Rightarrow> Some d
     | Some fd \<Rightarrow> map_option (\<lambda>p. d\<lparr>d_poll := p\<rparr>) (clear_event_by_fd fd (d_poll d)))"

fun clear_connections :: "(sock_addr \<times> socket) list \<Rightarrow> ('t, 'u) device \<Rightarrow> ('t, 'u) device option" where
  "clear_connections [] d = Some d"
| "clear_connections ((_, fd) # cs) d = do { d \<leftarrow> clear_fd (Some fd) d; clear_connections cs d }"

text \<open>The first half of \<open>open_listen_socket\<close>: what is open is closed and its events are cleared.\<close>

definition close_listen_sockets :: "('t, 'u) device \<Rightarrow> ('t, 'u) device option" where
  "close_listen_sockets d =
    do {
      d \<leftarrow> clear_fd (d_udp4 d) (d\<lparr>d_udp4 := None\<rparr>);
      d \<leftarrow> clear_fd (d_udp6 d) (d\<lparr>d_udp6 := None\<rparr>);
      d \<leftarrow> clear_fd (d_tcp_listener d) (d\<lparr>d_tcp_listener := None\<rparr>);
      d \<leftarrow> clear_connections (d_tcp_connections d) (d\<lparr>d_tcp_connections := []\<rparr>);
      Some (shutdown_peers d)
    }"

text \<open>In TCP mode errors are logged only, and \<open>listen_port\<close> is not stored.\<close>

definition open_tcp_listener :: "os \<Rightarrow> u16 \<Rightarrow> ('t, 'u) device \<Rightarrow> ('t, 'u) device" where
  "open_tcp_listener X port d =
    (if port \<noteq> 0 then
       (case os_listen X port of
          None \<Rightarrow> d
        | Some (sock, dup) \<Rightarrow> (snd (add_event X dup HTcpListener d))\<lparr>d_tcp_listener := Some sock\<rparr>)
     else d)"

text \<open>Every \<open>?\<close> of the source leaves the device as it is at that point.\<close>

definition open_udp_sockets :: "os \<Rightarrow> u16 \<Rightarrow> ('t, 'u) device \<Rightarrow> (device_error + unit) \<times> ('t, 'u) device" where
  "open_udp_sockets X port d =
    (let raw = (cfg_ip_protocol (d_config d) \<noteq> None);
         protocol = (case cfg_ip_protocol (d_config d) of Some p \<Rightarrow> uint p | None \<Rightarrow> 17)
     in case os_udp X True raw protocol port of
          None \<Rightarrow> (Inl IoError, d)
        | Some (s4, dup4, local) \<Rightarrow>
            (let port = (if port = 0 then local else port)
             in case os_udp X False raw protocol port of
                  None \<Rightarrow> (Inl IoError, d)
                | Some (s6, dup6, _) \<Rightarrow>
                    (let (ok4, d1) = add_event X dup4 HUdp d
                     in if \<not> ok4 then (Inl EventQueue, d1)
                        else let (ok6, d2) = add_event X dup6 HUdp d1
                        in if \<not> ok6 then (Inl EventQueue, d2)
                        else (Inr (), shutdown_peers
                          (d2\<lparr>d_udp4 := Some s4, d_udp6 := Some s6, d_listen_port := port\<rparr>)))))"

definition open_listen_socket ::
    "os \<Rightarrow> u16 \<Rightarrow> ('t, 'u) device \<Rightarrow> ((device_error + unit) \<times> ('t, 'u) device) option" where
  "open_listen_socket X port d =
    do {
      d \<leftarrow> close_listen_sockets d;
      Some (if cfg_transport_mode (d_config d) = Tcp then (Inr (), open_tcp_listener X port d)
            else open_udp_sockets X port d)
    }"

section \<open>A new device\<close>

text \<open>
  \<open>mtu\<close> and \<open>iface_fd\<close> are those of the interface that was opened; \<open>rs\<close> are the random words of the index generator;
  \<open>fds\<close> the descriptors for the two notifiers and the two timers. The registration of the
  configuration interface is left to the caller.
\<close>

definition register_notifiers :: "os \<Rightarrow> nat option \<Rightarrow> nat option \<Rightarrow> ('t, 'u) device \<Rightarrow> (device_error + ('t, 'u) device)" where
  "register_notifiers X yield_fd exit_fd d =
    (case new_notifier (os_add X) yield_fd HYield (d_poll d) of
       (None, _) \<Rightarrow> Inl EventQueue
     | (Some y, p1) \<Rightarrow>
         (case new_notifier (os_add X) exit_fd HExit p1 of
            (None, _) \<Rightarrow> Inl EventQueue
          | (Some e, p2) \<Rightarrow> Inr (d\<lparr>d_poll := p2, d_yield_notice := Some y, d_exit_notice := Some e\<rparr>)))"

definition register_timers :: "os \<Rightarrow> nat option \<Rightarrow> nat option \<Rightarrow> ('t, 'u) device \<Rightarrow> (device_error + ('t, 'u) device)" where
  "register_timers X fd1 fd2 d =
    (case new_periodic_event (os_add X) fd1 HLimiterTimer (d_poll d) of
       (None, _) \<Rightarrow> Inl TimerError
     | (Some _, p1) \<Rightarrow>
         (case new_periodic_event (os_add X) fd2 HPeerTimer p1 of
            (None, _) \<Rightarrow> Inl TimerError
          | (Some _, p2) \<Rightarrow> Inr (d\<lparr>d_poll := p2\<rparr>)))"

definition device_init :: "('n, 't, 'u) libs \<Rightarrow> device_config \<Rightarrow> nat \<Rightarrow> index_lfsr \<Rightarrow> ('t, 'u) device" where
  "device_init L config mtu g =
    \<lparr>d_key_pair = None, d_poll = poll_new, d_listen_port = 0, d_fwmark = None, d_udp4 = None, d_udp6 = None,
     d_tcp_listener = None, d_tcp_connections = [], d_yield_notice = None, d_exit_notice = None, d_peers = [],
     d_peers_by_ip = ips_new (lib_routes L), d_peers_by_idx = [], d_next_index = g, d_config = config,
     d_mtu = mtu, d_rate_limiter = None, d_heap = [], d_limiters = []\<rparr>"

definition device_new ::
    "('n, 't, 'u) libs \<Rightarrow> os \<Rightarrow> nat option \<times> nat option \<times> nat option \<times> nat option \<Rightarrow> nat \<Rightarrow> nat \<Rightarrow>
      u32 list \<Rightarrow> device_config \<Rightarrow> (device_error + ('t, 'u) device) option" where
  "device_new L X fds iface_fd mtu rs config =
    do {
      (g, _) \<leftarrow> lfsr_default rs;
      let (yield_fd, exit_fd, fd1, fd2) = fds;
      let (ok, d) = add_event X iface_fd HIface (device_init L config mtu g);
      Some (if \<not> ok then Inl EventQueue
            else case register_notifiers X yield_fd exit_fd d of
              Inl e \<Rightarrow> Inl e
            | Inr d \<Rightarrow> register_timers X fd1 fd2 d)
    }"

end
