(* ===== verification/Device_Net.thy ===== *)
theory Device_Net
  imports Device
begin

text \<open>
  The packet handlers of the device (src/nekolink-core/src/device/mod.rs). A handler runs with the
  device and gives what it sends: \<open>dev_out\<close> values in the order they leave. \<open>E\<close> supplies what the
  tunnel operations read from outside, one value per call in the order of the calls; the state counts
  them in \<open>n_calls\<close>.
\<close>

datatype dev_out =
    OutUdp sock_addr bytes
  | OutConn socket bytes
  | OutTcp socket bytes
  | OutIface bytes

record ('t, 'u) net =
  n_dev :: "('t, 'u) device"
  n_calls :: nat
  n_batch :: "(sock_addr \<times> bytes) list"
  n_out :: "dev_out list"

definition net_start :: "('t, 'u) device \<Rightarrow> ('t, 'u) net" where
  "net_start d = \<lparr>n_dev = d, n_calls = 0, n_batch = [], n_out = []\<rparr>"

definition emit :: "dev_out list \<Rightarrow> ('t, 'u) net \<Rightarrow> ('t, 'u) net" where
  "emit os s = s\<lparr>n_out := n_out s @ os\<rparr>"

section \<open>From a datagram to its peer\<close>

text \<open>The peer that a verified packet belongs to: by key, or by the upper 24 bits of the index.\<close>

definition identify_peer ::
    "('n, 't, 'u) libs \<Rightarrow> bytes \<Rightarrow> bytes \<Rightarrow> packet \<Rightarrow> ('t, 'u) device \<Rightarrow> nat option option" where
  "identify_peer L priv pub parsed d =
    (case parsed of
       HandshakeInit p \<Rightarrow> do {
         r \<leftarrow> parse_handshake_anon (lib_crypto L) priv pub p;
         Some (case r of Inl _ \<Rightarrow> None | Inr hh \<Rightarrow> hm_get (d_peers d) (hh_peer_static_public hh))
       }
     | HandshakeResponse p \<Rightarrow> Some (hm_get (d_peers_by_idx d) (drop_bit 8 (hr_receiver_idx p)))
     | PacketCookieReply p \<Rightarrow> Some (hm_get (d_peers_by_idx d) (drop_bit 8 (cr_receiver_idx p)))
     | PacketData p \<Rightarrow> Some (hm_get (d_peers_by_idx d) (drop_bit 8 (pd_receiver_idx p))))"

text \<open>Verification by the device's limiter, at position \<open>l\<close>.\<close>

definition device_verify ::
    "('n, 't, 'u) libs \<Rightarrow> env \<Rightarrow> nat \<Rightarrow> ip_addr \<Rightarrow> bytes \<Rightarrow> ('t, 'u) device \<Rightarrow>
      (tunn_result + packet) \<times> ('t, 'u) device" where
  "device_verify L env l ip packet d =
    (let (res, rl) = verify_packet (lib_crypto L) (e_cookie env) (Some ip) packet MAX_UDP_SIZE (d_limiters d ! l)
     in (res, d\<lparr>d_limiters := (d_limiters d)[l := rl]\<rparr>))"

definition peer_handle_verified ::
    "('n, 't, 'u) libs \<Rightarrow> env \<Rightarrow> packet \<Rightarrow> nat \<Rightarrow> ('t, 'u) device \<Rightarrow> (tunn_result \<times> ('t, 'u) device) option" where
  "peer_handle_verified L env parsed r d =
    do {
      (res, t) \<leftarrow> handle_verified_packet (lib_crypto L) env parsed MAX_UDP_SIZE (p_tunnel (d_heap d ! r));
      Some (res, put_peer r ((d_heap d ! r)\<lparr>p_tunnel := t\<rparr>) d)
    }"

definition peer_decapsulate ::
    "('n, 't, 'u) libs \<Rightarrow> env \<Rightarrow> ip_addr option \<Rightarrow> bytes \<Rightarrow> nat \<Rightarrow> ('t, 'u) device \<Rightarrow>
      (tunn_result \<times> ('t, 'u) device) option" where
  "peer_decapsulate L env src data r d =
    (let p = d_heap d ! r; l = p_limiter p
     in do {
       (res, t, rl) \<leftarrow> decapsulate (lib_crypto L) env src data MAX_UDP_SIZE (p_tunnel p) (d_limiters d ! l);
       Some (res, (put_peer r (p\<lparr>p_tunnel := t\<rparr>) d)\<lparr>d_limiters := (d_limiters d)[l := rl]\<rparr>)
     })"

text \<open>
  The loop that sends what was queued: \<open>while let WriteToNetwork(packet) = decapsulate(None, [], ..)\<close>.
  \<open>fuel\<close> bounds the rounds; \<open>flush_fuel\<close> is enough, see the lemma on the end of the loop.
\<close>

fun flush_queue ::
    "('n, 't, 'u) libs \<Rightarrow> (nat \<Rightarrow> env) \<Rightarrow> nat \<Rightarrow> nat \<Rightarrow> nat \<Rightarrow> ('t, 'u) device \<Rightarrow>
      (bytes list \<times> nat \<times> ('t, 'u) device) option" where
  "flush_queue L E r 0 k d = Some ([], k, d)"
| "flush_queue L E r (Suc fuel) k d =
    do {
      (res, d1) \<leftarrow> peer_decapsulate L (E k) None [] r d;
      (case res of
         WriteToNetwork packet \<Rightarrow> do {
           (ps, k', d2) \<leftarrow> flush_queue L E r fuel (Suc k) d1;
           Some (packet # ps, k', d2)
         }
       | _ \<Rightarrow> Some ([], Suc k, d1))
    }"

definition flush_fuel :: "nat \<Rightarrow> ('t, 'u) device \<Rightarrow> nat" where
  "flush_fuel r d = length (packet_queue (p_tunnel (d_heap d ! r))) + 2"

text \<open>What reaches the interface: a decrypted packet whose source the peer may use.\<close>

definition to_iface :: "('n, 't, 'u) libs \<Rightarrow> tunn_result \<Rightarrow> 'u peer \<Rightarrow> dev_out list" where
  "to_iface L res p =
    (case res of
       WriteToTunnelV4 packet addr \<Rightarrow> if is_allowed_ip (lib_allowed L) (V4 addr) p then [OutIface packet] else []
     | WriteToTunnelV6 packet addr \<Rightarrow> if is_allowed_ip (lib_allowed L) (V6 addr) p then [OutIface packet] else []
     | _ \<Rightarrow> [])"

text \<open>Raw IPv4 sockets deliver the IP header too; \<open>None\<close> drops the packet.\<close>

definition strip_ip_header :: "u8 option \<Rightarrow> bool \<Rightarrow> bytes \<Rightarrow> bytes option" where
  "strip_ip_header ip_protocol is_ipv4 buf =
    (if ip_protocol \<noteq> None \<and> is_ipv4 then
       if length buf < 20 then None
       else let ihl = unat (buf ! 0 AND 0x0f) * 4
            in if length buf < ihl then None else Some (drop ihl buf)
     else Some buf)"

section \<open>The UDP handler\<close>

text \<open>The replies of a batch are collected and leave with one system call when 64 are there.\<close>

definition flush_batch :: "('t, 'u) net \<Rightarrow> ('t, 'u) net" where
  "flush_batch s = s\<lparr>n_batch := [], n_out := n_out s @ map (\<lambda>(a, b). OutUdp a b) (n_batch s)\<rparr>"

definition queue_send :: "sock_addr \<Rightarrow> bytes \<Rightarrow> ('t, 'u) net \<Rightarrow> ('t, 'u) net" where
  "queue_send addr packet s =
    (let s1 = (if length (n_batch s) < MAX_PACKET_COUNT then s\<lparr>n_batch := n_batch s @ [(addr, packet)]\<rparr> else s)
     in if length (n_batch s1) = MAX_PACKET_COUNT then flush_batch s1 else s1)"

text \<open>An authentic packet tells where its peer is: the endpoint follows it and is connected to.\<close>

definition roam_endpoint :: "os \<Rightarrow> sock_addr \<Rightarrow> nat \<Rightarrow> ('t, 'u) device \<Rightarrow> ('t, 'u) device option" where
  "roam_endpoint X addr r d =
    (let (s, p) = set_endpoint (sock_new (sock_ip addr) (sock_port addr)) (d_heap d ! r);
         d1 = close_conn s (put_peer r p d)
     in if cfg_use_connected_socket (d_config d1) then
          do {
            (res, p2) \<leftarrow> connect_endpoint (os_connect X) (d_listen_port d1) (d_fwmark d1)
              (cfg_ip_protocol (d_config d1)) (d_heap d1 ! r);
            let d2 = put_peer r p2 d1;
            (case res of
               Inl _ \<Rightarrow> Some d2
             | Inr sock \<Rightarrow>
                 (let (ok, d3) = add_event X sock (HConn r (sock_ip addr) (the (ep_conn (p_endpoint p2)))) d2
                  in if ok then Some d3 else None))
          }
        else Some d1)"

fun is_err :: "tunn_result \<Rightarrow> bool" where
  "is_err (TErr _) = True"
| "is_err _ = False"

text \<open>One segment, after its IP header was stripped.\<close>

definition udp_packet ::
    "('n, 't, 'u) libs \<Rightarrow> os \<Rightarrow> (nat \<Rightarrow> env) \<Rightarrow> bytes \<times> bytes \<Rightarrow> nat \<Rightarrow> sock_addr \<Rightarrow> bytes \<Rightarrow> ('t, 'u) net \<Rightarrow>
      ('t, 'u) net option" where
  "udp_packet L X E keys l addr packet s =
    (let env = E (n_calls s);
         (verified, d1) = device_verify L env l (sock_ip addr) packet (n_dev s);
         s1 = s\<lparr>n_dev := d1, n_calls := Suc (n_calls s)\<rparr>
     in case verified of
          Inl (WriteToNetwork cookie) \<Rightarrow> Some (queue_send addr cookie s1)
        | Inl _ \<Rightarrow> Some s1
        | Inr parsed \<Rightarrow> do {
            who \<leftarrow> identify_peer L (fst keys) (snd keys) parsed d1;
            (case who of
               None \<Rightarrow> Some s1
             | Some r \<Rightarrow> do {
                 (res, d2) \<leftarrow> peer_handle_verified L env parsed r d1;
                 if is_err res then Some (s1\<lparr>n_dev := d2\<rparr>)
                 else do {
                   d3 \<leftarrow> roam_endpoint X addr r d2;
                   let s3 = s1\<lparr>n_dev := d3\<rparr>;
                   (case res of
                      WriteToNetwork reply \<Rightarrow> do {
                        let s4 = queue_send addr reply s3;
                        (ps, k, d4) \<leftarrow> flush_queue L E r (flush_fuel r d3) (n_calls s4) d3;
                        Some (fold (queue_send addr) ps (s4\<lparr>n_dev := d4, n_calls := k\<rparr>))
                      }
                    | _ \<Rightarrow> Some (emit (to_iface L res (d_heap d3 ! r)) s3))
                 }
               })
          })"

text \<open>A datagram that the kernel merged (GRO) is cut into segments of the size it reported, 0 if none.\<close>

function gro_segments :: "nat \<Rightarrow> bytes \<Rightarrow> bytes list" where
  "gro_segments seg buf =
    (if buf = [] \<or> seg = 0 then [] else take seg buf # gro_segments seg (drop seg buf))"
  by pat_completeness auto
termination
  by (relation "measure (\<lambda>(seg, buf). length buf)") auto

declare gro_segments.simps [simp del]

definition datagram_segments :: "nat \<Rightarrow> bytes \<Rightarrow> bytes list" where
  "datagram_segments gro buf = gro_segments (if gro = 0 then length buf else gro) buf"

fun udp_segments ::
    "('n, 't, 'u) libs \<Rightarrow> os \<Rightarrow> (nat \<Rightarrow> env) \<Rightarrow> bytes \<times> bytes \<Rightarrow> nat \<Rightarrow> sock_addr \<Rightarrow> bytes list \<Rightarrow> ('t, 'u) net \<Rightarrow>
      ('t, 'u) net option" where
  "udp_segments L X E keys l addr [] s = Some s"
| "udp_segments L X E keys l addr (seg # segs) s =
    (case strip_ip_header (cfg_ip_protocol (d_config (n_dev s))) (sock_is_ipv4 addr) seg of
       None \<Rightarrow> udp_segments L X E keys l addr segs s
     | Some packet \<Rightarrow> do {
         s \<leftarrow> udp_packet L X E keys l addr packet s;
         udp_segments L X E keys l addr segs s
       })"

text \<open>A received datagram: where from (an address of another family is skipped), its GRO size, its bytes.\<close>

type_synonym datagram = "sock_addr option \<times> nat \<times> bytes"

fun udp_batch ::
    "('n, 't, 'u) libs \<Rightarrow> os \<Rightarrow> (nat \<Rightarrow> env) \<Rightarrow> bytes \<times> bytes \<Rightarrow> nat \<Rightarrow> datagram list \<Rightarrow> ('t, 'u) net \<Rightarrow>
      ('t, 'u) net option" where
  "udp_batch L X E keys l [] s = Some s"
| "udp_batch L X E keys l ((None, gro, buf) # ds) s = udp_batch L X E keys l ds s"
| "udp_batch L X E keys l ((Some addr, gro, buf) # ds) s =
    do {
      s \<leftarrow> udp_segments L X E keys l addr (datagram_segments gro buf) s;
      udp_batch L X E keys l ds s
    }"

text \<open>
  The receive loop: each round takes one batch (an empty one is the end), and \<open>iter\<close>, the budget of
  100, is a \<open>usize\<close> that is decreased by the size of the batch with wrap-around.
\<close>

fun udp_rounds ::
    "('n, 't, 'u) libs \<Rightarrow> os \<Rightarrow> (nat \<Rightarrow> env) \<Rightarrow> bytes \<times> bytes \<Rightarrow> nat \<Rightarrow> u64 \<Rightarrow> datagram list list \<Rightarrow> ('t, 'u) net \<Rightarrow>
      (('t, 'u) net \<times> datagram list list) option" where
  "udp_rounds L X E keys l iter [] s = Some (s, [])"
| "udp_rounds L X E keys l iter (b # bs) s =
    (if b = [] then Some (s, bs)
     else do {
       s \<leftarrow> udp_batch L X E keys l b s;
       let s = (if n_batch s \<noteq> [] then flush_batch s else s);
       let iter = iter - word_of_nat (length b);
       if iter \<le> 0 \<or> length b < MAX_PACKET_COUNT then Some (s, bs)
       else udp_rounds L X E keys l iter bs s
     })"

definition udp_handler ::
    "('n, 't, 'u) libs \<Rightarrow> os \<Rightarrow> (nat \<Rightarrow> env) \<Rightarrow> datagram list list \<Rightarrow> ('t, 'u) device \<Rightarrow>
      (action \<times> ('t, 'u) net) option" where
  "udp_handler L X E batches d =
    (case (d_key_pair d, d_rate_limiter d) of
       (Some keys, Some l) \<Rightarrow>
         map_option (\<lambda>(s, _). (Continue, s)) (udp_rounds L X E keys l (word_of_nat MAX_ITR) batches (net_start d))
     | _ \<Rightarrow> Some (Continue, net_start d))"

section \<open>The handler of a connected socket\<close>

text \<open>One datagram: the flag tells whether it counts against the budget of the loop.\<close>

definition conn_packet ::
    "('n, 't, 'u) libs \<Rightarrow> (nat \<Rightarrow> env) \<Rightarrow> nat \<Rightarrow> socket \<Rightarrow> ip_addr \<Rightarrow> bytes \<Rightarrow> ('t, 'u) net \<Rightarrow>
      (bool \<times> ('t, 'u) net) option" where
  "conn_packet L E r sock peer_addr buf s =
    (case strip_ip_header (cfg_ip_protocol (d_config (n_dev s))) (\<not> is_v6 peer_addr) buf of
       None \<Rightarrow> Some (False, s)
     | Some data \<Rightarrow>
         if data \<noteq> [] \<and> data ! 0 = 0x99 then Some (False, s)
         else do {
           (res, d1) \<leftarrow> peer_decapsulate L (E (n_calls s)) (Some peer_addr) data r (n_dev s);
           let s1 = s\<lparr>n_dev := d1, n_calls := Suc (n_calls s)\<rparr>;
           (case res of
              WriteToNetwork packet \<Rightarrow> do {
                (ps, k, d2) \<leftarrow> flush_queue L E r (flush_fuel r d1) (n_calls s1) d1;
                Some (True, emit (map (OutConn sock) (packet # ps)) (s1\<lparr>n_dev := d2, n_calls := k\<rparr>))
              }
            | _ \<Rightarrow> Some (True, emit (to_iface L res (d_heap d1 ! r)) s1))
         })"

text \<open>At most \<open>iter\<close> counted datagrams; the rest waits for the next event.\<close>

fun conn_loop ::
    "('n, 't, 'u) libs \<Rightarrow> (nat \<Rightarrow> env) \<Rightarrow> nat \<Rightarrow> socket \<Rightarrow> ip_addr \<Rightarrow> nat \<Rightarrow> bytes list \<Rightarrow> ('t, 'u) net \<Rightarrow>
      (('t, 'u) net \<times> bytes list) option" where
  "conn_loop L E r sock a iter [] s = Some (s, [])"
| "conn_loop L E r sock a iter (b # bs) s =
    do {
      (counted, s) \<leftarrow> conn_packet L E r sock a b s;
      if \<not> counted then conn_loop L E r sock a iter bs s
      else if iter - 1 = 0 then Some (s, bs)
      else conn_loop L E r sock a (iter - 1) bs s
    }"

definition conn_handler ::
    "('n, 't, 'u) libs \<Rightarrow> (nat \<Rightarrow> env) \<Rightarrow> nat \<Rightarrow> socket \<Rightarrow> ip_addr \<Rightarrow> bytes list \<Rightarrow> ('t, 'u) device \<Rightarrow>
      (action \<times> ('t, 'u) net) option" where
  "conn_handler L E r sock peer_addr received d =
    map_option (\<lambda>(s, _). (Continue, s)) (conn_loop L E r sock peer_addr MAX_ITR received (net_start d))"

section \<open>TCP connections\<close>

text \<open>\<open>maybe_connect_tcp\<close>: the connection to an endpoint, opened and registered when there is none.\<close>

definition maybe_connect_tcp :: "os \<Rightarrow> sock_addr \<Rightarrow> ('t, 'u) device \<Rightarrow> socket option \<times> ('t, 'u) device" where
  "maybe_connect_tcp X endpoint d =
    (case hm_get (d_tcp_connections d) endpoint of
       Some s \<Rightarrow> (Some s, d)
     | None \<Rightarrow>
         (case os_tcp X endpoint of
            None \<Rightarrow> (None, d)
          | Some (sock, write_sock) \<Rightarrow>
              (Some write_sock,
               snd (add_event X sock (HTcpStream endpoint tcp_new)
                 (d\<lparr>d_tcp_connections := hm_insert endpoint write_sock (d_tcp_connections d)\<rparr>)))))"

text \<open>Two writes to the stream: the length as a big-endian \<open>u16\<close> and the packet.\<close>

definition tcp_writes :: "socket \<Rightarrow> bytes \<Rightarrow> dev_out list" where
  "tcp_writes sock packet = [OutTcp sock (u16_be (word_of_nat (length packet))), OutTcp sock packet]"

definition tcp_send :: "os \<Rightarrow> sock_addr \<Rightarrow> bytes \<Rightarrow> ('t, 'u) net \<Rightarrow> ('t, 'u) net" where
  "tcp_send X endpoint packet s =
    (case maybe_connect_tcp X endpoint (n_dev s) of
       (None, d) \<Rightarrow> s\<lparr>n_dev := d\<rparr>
     | (Some sock, d) \<Rightarrow> emit (tcp_writes sock packet) (s\<lparr>n_dev := d\<rparr>))"

text \<open>A verified packet for the peer at \<open>r\<close>: handled, answered on the stream, and the queue flushed.\<close>

definition tcp_deliver ::
    "('n, 't, 'u) libs \<Rightarrow> os \<Rightarrow> (nat \<Rightarrow> env) \<Rightarrow> env \<Rightarrow> sock_addr \<Rightarrow> packet \<Rightarrow> nat \<Rightarrow> ('t, 'u) net \<Rightarrow>
      ('t, 'u) net option" where
  "tcp_deliver L X E env endpoint parsed r s =
    do {
      (res, d) \<leftarrow> peer_handle_verified L env parsed r (n_dev s);
      let s1 = (case res of WriteToNetwork resp \<Rightarrow> tcp_send X endpoint resp (s\<lparr>n_dev := d\<rparr>)
                | _ \<Rightarrow> emit (to_iface L res (d_heap d ! r)) (s\<lparr>n_dev := d\<rparr>));
      (ps, k, d) \<leftarrow> flush_queue L E r (flush_fuel r (n_dev s1)) (n_calls s1) (n_dev s1);
      Some (fold (tcp_send X endpoint) ps (s1\<lparr>n_dev := d, n_calls := k\<rparr>))
    }"

text \<open>A frame of a stream; the number counts the packets processed in this event.\<close>

definition tcp_packet ::
    "('n, 't, 'u) libs \<Rightarrow> os \<Rightarrow> (nat \<Rightarrow> env) \<Rightarrow> socket \<Rightarrow> sock_addr \<Rightarrow> nat \<times> ('t, 'u) net \<Rightarrow> bytes \<Rightarrow>
      (nat \<times> ('t, 'u) net) flow option" where
  "tcp_packet L X E sock endpoint st packet =
    (let (n, s) = st; d = n_dev s
     in if length packet > MAX_UDP_SIZE then Some (Break (n, s))
        else case (d_key_pair d, d_rate_limiter d) of
          (Some keys, Some l) \<Rightarrow>
            (let env = E (n_calls s);
                 (verified, d1) = device_verify L env l (sock_ip endpoint) packet d;
                 s1 = s\<lparr>n_dev := d1, n_calls := Suc (n_calls s)\<rparr>
             in case verified of
                  Inl (WriteToNetwork cookie) \<Rightarrow> Some (Go (n, emit (tcp_writes sock cookie) s1))
                | Inl _ \<Rightarrow> Some (Go (n, s1))
                | Inr parsed \<Rightarrow> do {
                    who \<leftarrow> identify_peer L (fst keys) (snd keys) parsed d1;
                    s4 \<leftarrow> (case who of None \<Rightarrow> Some s1 | Some r \<Rightarrow> tcp_deliver L X E env endpoint parsed r s1);
                    Some (if Suc n \<ge> MAX_ITR then Halt (Suc n, s4) else Go (Suc n, s4))
                  })
        | _ \<Rightarrow> Some (Break (n, s)))"

text \<open>
  The stream handler: \<open>arrived\<close> is what the stream holds, \<open>None\<close> an error other than \<open>WouldBlock\<close>,
  \<open>closed\<close> tells that the other end has closed it. The handler keeps its framing buffer; the rest
  of the stream is returned. Leaving drops the connection from the table.
\<close>

definition tcp_handler ::
    "('n, 't, 'u) libs \<Rightarrow> os \<Rightarrow> (nat \<Rightarrow> env) \<Rightarrow> socket \<Rightarrow> sock_addr \<Rightarrow> nat \<Rightarrow> bytes option \<Rightarrow> bool \<Rightarrow>
      tcp_framing \<Rightarrow> ('t, 'u) device \<Rightarrow> (action \<times> ('t, 'u) net \<times> tcp_framing \<times> bytes) option" where
  "tcp_handler L X E sock endpoint k arrived closed f d =
    (let gone = net_start (d\<lparr>d_tcp_connections := hm_remove endpoint (d_tcp_connections d)\<rparr>)
     in case arrived of
          None \<Rightarrow> Some (Exit, gone, f, [])
        | Some stream \<Rightarrow> do {
            free \<leftarrow> get_free_space f;
            if free = [] \<or> (stream = [] \<and> closed) then Some (Exit, gone, f, stream)
            else if k = 0 \<or> stream = [] then Some (Continue, net_start d, f, stream)
            else do {
              (f, stream) \<leftarrow> tcp_read k stream f;
              ((_, s), bytes_consumed) \<leftarrow> tcp_drain (tcp_packet L X E sock endpoint) f (0, net_start d) 0;
              f \<leftarrow> tcp_compact bytes_consumed f;
              Some (Continue, s, f, stream)
            }
          })"

text \<open>
  A new connection on the listener: the write side goes into the table, the read side to the poll.
  \<open>dup\<close> is the duplicate, if it could be made; an address that is no IP address is a panic.
\<close>

definition tcp_accept :: "os \<Rightarrow> socket \<Rightarrow> sock_addr option \<Rightarrow> bool \<Rightarrow> socket option \<Rightarrow> ('t, 'u) device \<Rightarrow> ('t, 'u) device option" where
  "tcp_accept X sock addr nonblocking dup d =
    (if \<not> nonblocking then Some d
     else case addr of
       None \<Rightarrow> None
     | Some a \<Rightarrow>
         (let d1 = (case dup of None \<Rightarrow> d
                    | Some w \<Rightarrow> d\<lparr>d_tcp_connections := hm_insert a w (d_tcp_connections d)\<rparr>)
          in Some (snd (add_event X sock (HTcpStream a tcp_new) d1))))"

section \<open>The interface handler\<close>

text \<open>An encrypted packet leaves by the stream, the connected socket or a socket of the device.\<close>

definition send_to_endpoint :: "os \<Rightarrow> nat \<Rightarrow> bytes \<Rightarrow> ('t, 'u) net \<Rightarrow> ('t, 'u) net" where
  "send_to_endpoint X r packet s =
    (let d = n_dev s; ep = p_endpoint (d_heap d ! r)
     in if cfg_transport_mode (d_config d) = Tcp then
          (case ep_addr ep of None \<Rightarrow> s | Some endpoint \<Rightarrow> tcp_send X endpoint packet s)
        else case ep_conn ep of
          Some conn \<Rightarrow> emit [OutConn conn packet] s
        | None \<Rightarrow>
            (case ep_addr ep of
               None \<Rightarrow> s
             | Some addr \<Rightarrow>
                 if (if sock_is_ipv4 addr then d_udp4 d else d_udp6 d) \<noteq> None then emit [OutUdp addr packet] s else s))"

text \<open>A packet read from the interface, at most \<open>mtu\<close> bytes of it.\<close>

definition iface_packet ::
    "('n, 't, 'u) libs \<Rightarrow> os \<Rightarrow> (nat \<Rightarrow> env) \<Rightarrow> bytes \<Rightarrow> ('t, 'u) net \<Rightarrow> ('t, 'u) net option" where
  "iface_packet L X E src s =
    (case dst_address src of
       None \<Rightarrow> Some s
     | Some dst_addr \<Rightarrow>
         (case ips_find (lib_routes L) dst_addr (d_peers_by_ip (n_dev s)) of
            None \<Rightarrow> Some s
          | Some r \<Rightarrow> do {
              let p = d_heap (n_dev s) ! r;
              (res, t) \<leftarrow> encapsulate (lib_crypto L) (E (n_calls s)) src MAX_UDP_SIZE (p_tunnel p);
              let s1 = s\<lparr>n_dev := put_peer r (p\<lparr>p_tunnel := t\<rparr>) (n_dev s), n_calls := Suc (n_calls s)\<rparr>;
              (case res of
                 TDone \<Rightarrow> Some s1
               | TErr _ \<Rightarrow> Some s1
               | WriteToNetwork packet \<Rightarrow> Some (send_to_endpoint X r packet s1)
               | _ \<Rightarrow> None)
            }))"

text \<open>What a read of the interface gives: a packet, nothing more for now, or an error.\<close>

datatype iface_read = IfPacket bytes | IfBlock | IfFail

fun iface_loop ::
    "('n, 't, 'u) libs \<Rightarrow> os \<Rightarrow> (nat \<Rightarrow> env) \<Rightarrow> nat \<Rightarrow> nat \<Rightarrow> iface_read list \<Rightarrow> ('t, 'u) net \<Rightarrow>
      (action \<times> ('t, 'u) net) option" where
  "iface_loop L X E mtu 0 reads s = Some (Continue, s)"
| "iface_loop L X E mtu (Suc n) [] s = Some (Continue, s)"
| "iface_loop L X E mtu (Suc n) (IfBlock # reads) s = Some (Continue, s)"
| "iface_loop L X E mtu (Suc n) (IfFail # reads) s = Some (Exit, s)"
| "iface_loop L X E mtu (Suc n) (IfPacket src # reads) s =
    do {
      s \<leftarrow> iface_packet L X E (take mtu src) s;
      iface_loop L X E mtu n reads s
    }"

text \<open>Slicing the buffer of 65535 bytes to a larger mtu panics.\<close>

definition iface_handler ::
    "('n, 't, 'u) libs \<Rightarrow> os \<Rightarrow> (nat \<Rightarrow> env) \<Rightarrow> iface_read list \<Rightarrow> ('t, 'u) device \<Rightarrow> (action \<times> ('t, 'u) net) option" where
  "iface_handler L X E reads d =
    (if d_mtu d > MAX_UDP_SIZE then None else iface_loop L X E (d_mtu d) MAX_ITR reads (net_start d))"

section \<open>The timers\<close>

definition limiter_timer :: "instant \<Rightarrow> ('t, 'u) device \<Rightarrow> ('t, 'u) device" where
  "limiter_timer now d =
    (case d_rate_limiter d of
       None \<Rightarrow> d
     | Some l \<Rightarrow> d\<lparr>d_limiters := (d_limiters d)[l := reset_count now (d_limiters d ! l)]\<rparr>)"

definition peer_timer ::
    "('n, 't, 'u) libs \<Rightarrow> (nat \<Rightarrow> env) \<Rightarrow> nat \<Rightarrow> ('t, 'u) net \<Rightarrow> ('t, 'u) net option" where
  "peer_timer L E r s =
    (let d = n_dev s; p = d_heap d ! r
     in case ep_addr (p_endpoint p) of
          None \<Rightarrow> Some s
        | Some addr \<Rightarrow> do {
            (res, t, rl) \<leftarrow> update_timers (lib_crypto L) (E (n_calls s)) MAX_UDP_SIZE (p_tunnel p)
              (d_limiters d ! p_limiter p);
            let d1 = (put_peer r (p\<lparr>p_tunnel := t\<rparr>) d)\<lparr>d_limiters := (d_limiters d)[p_limiter p := rl]\<rparr>;
            let s1 = s\<lparr>n_dev := d1, n_calls := Suc (n_calls s)\<rparr>;
            (case res of
               TDone \<Rightarrow> Some s1
             | TErr e \<Rightarrow>
                 (if e = ConnectionExpired then
                    (let (sock, p2) = shutdown_endpoint (d_heap d1 ! r)
                     in Some (s1\<lparr>n_dev := close_conn sock (put_peer r p2 d1)\<rparr>))
                  else Some s1)
             | WriteToNetwork packet \<Rightarrow>
                 Some (if (if sock_is_ipv4 addr then d_udp4 d1 else d_udp6 d1) \<noteq> None
                       then emit [OutUdp addr packet] s1 else s1)
             | _ \<Rightarrow> None)
          })"

fun peer_timers ::
    "('n, 't, 'u) libs \<Rightarrow> (nat \<Rightarrow> env) \<Rightarrow> nat list \<Rightarrow> ('t, 'u) net \<Rightarrow> ('t, 'u) net option" where
  "peer_timers L E [] s = Some s"
| "peer_timers L E (r # rs) s = do { s \<leftarrow> peer_timer L E r s; peer_timers L E rs s }"

definition timer_handler ::
    "('n, 't, 'u) libs \<Rightarrow> os \<Rightarrow> (nat \<Rightarrow> env) \<Rightarrow> ('t, 'u) device \<Rightarrow> (action \<times> ('t, 'u) net) option" where
  "timer_handler L X E d =
    (let d1 = (case os_mtu X of None \<Rightarrow> d | Some m \<Rightarrow> d\<lparr>d_mtu := m\<rparr>)
     in if d_udp4 d1 = None \<and> d_udp6 d1 = None then Some (Continue, net_start d1)
        else map_option (Pair Continue) (peer_timers L E (map snd (d_peers d1)) (net_start d1)))"

section \<open>The event loop\<close>

text \<open>What a thread does after a handler returned: go on, take the device lock anew, or stop all threads.\<close>

datatype loop_next = NextEvent | Relock | StopAll

fun after_action :: "action \<Rightarrow> loop_next" where
  "after_action Continue = NextEvent"
| "after_action Yield = Relock"
| "after_action Exit = StopAll"

text \<open>An end of file on the configuration descriptor stops the program, on another cancels its handler.\<close>

definition after_eof :: "int \<Rightarrow> handler event \<Rightarrow> ('t, 'u) device \<Rightarrow> (loop_next \<times> ('t, 'u) device) option" where
  "after_eof uapi_fd ev d =
    (if uapi_fd \<ge> 0 \<and> uapi_fd = int (ev_fd ev) then Some (StopAll, d)
     else map_option (\<lambda>p. (NextEvent, d\<lparr>d_poll := p\<rparr>)) (guard_cancel ev (d_poll d)))"

text \<open>\<open>trigger_exit\<close> writes to the notifier; without a registered one it panics.\<close>

definition trigger_exit :: "('t, 'u) device \<Rightarrow> nat option" where
  "trigger_exit d = (case d_exit_notice d of None \<Rightarrow> None | Some fd \<Rightarrow> notification fd (d_poll d))"

end
