(* ===== verification/Device_Portable.thy ===== *)
theory Device_Portable
  imports Device_Net
begin

text \<open>
  The handler of anonymous datagrams on systems without \<open>recvmmsg\<close> (\<open>register_udp_handler\<close> in
  src/nekolink-core/src/device/mod.rs, the part for other systems than Linux and Android): datagrams are
  received one by one and each answer leaves at once. It is shown to do what the handler in batches
  does.
\<close>

section \<open>The handler\<close>

text \<open>One datagram: the flag tells whether it counts against the budget of the loop.\<close>

definition plain_packet ::
    "('n, 't, 'u) libs \<Rightarrow> os \<Rightarrow> (nat \<Rightarrow> env) \<Rightarrow> bytes \<times> bytes \<Rightarrow> nat \<Rightarrow> sock_addr \<Rightarrow> bytes \<Rightarrow> ('t, 'u) net \<Rightarrow>
      (bool \<times> ('t, 'u) net) option" where
  "plain_packet L X E keys l addr buf s =
    (case strip_ip_header (cfg_ip_protocol (d_config (n_dev s))) (sock_is_ipv4 addr) buf of
       None \<Rightarrow> Some (False, s)
     | Some packet \<Rightarrow>
         (let env = E (n_calls s);
              (verified, d1) = device_verify L env l (sock_ip addr) packet (n_dev s);
              s1 = s\<lparr>n_dev := d1, n_calls := Suc (n_calls s)\<rparr>
          in case verified of
               Inl (WriteToNetwork cookie) \<Rightarrow> Some (False, emit [OutUdp addr cookie] s1)
             | Inl _ \<Rightarrow> Some (False, s1)
             | Inr parsed \<Rightarrow> do {
                 who \<leftarrow> identify_peer L (fst keys) (snd keys) parsed d1;
                 (case who of
                    None \<Rightarrow> Some (False, s1)
                  | Some r \<Rightarrow> do {
                      (res, d2) \<leftarrow> peer_handle_verified L env parsed r d1;
                      if is_err res then Some (False, s1\<lparr>n_dev := d2\<rparr>)
                      else do {
                        d3 \<leftarrow> roam_endpoint X addr r d2;
                        let s3 = s1\<lparr>n_dev := d3\<rparr>;
                        (case res of
                           WriteToNetwork reply \<Rightarrow> do {
                             let s4 = emit [OutUdp addr reply] s3;
                             (ps, k, d4) \<leftarrow> flush_queue L E r (flush_fuel r d3) (n_calls s4) d3;
                             Some (True, emit (map (OutUdp addr) ps) (s4\<lparr>n_dev := d4, n_calls := k\<rparr>))
                           }
                         | _ \<Rightarrow> Some (True, emit (to_iface L res (d_heap d3 ! r)) s3))
                      }
                    })
               }))"

text \<open>The loop over \<open>recv_from\<close>; a sender whose address is of another family makes it panic.\<close>

fun plain_loop ::
    "('n, 't, 'u) libs \<Rightarrow> os \<Rightarrow> (nat \<Rightarrow> env) \<Rightarrow> bytes \<times> bytes \<Rightarrow> nat \<Rightarrow> nat \<Rightarrow> (sock_addr option \<times> bytes) list \<Rightarrow>
      ('t, 'u) net \<Rightarrow> (('t, 'u) net \<times> (sock_addr option \<times> bytes) list) option" where
  "plain_loop L X E keys l iter [] s = Some (s, [])"
| "plain_loop L X E keys l iter ((None, buf) # ds) s = None"
| "plain_loop L X E keys l iter ((Some addr, buf) # ds) s =
    do {
      (counted, s) \<leftarrow> plain_packet L X E keys l addr buf s;
      if \<not> counted then plain_loop L X E keys l iter ds s
      else if iter - 1 = 0 then Some (s, ds)
      else plain_loop L X E keys l (iter - 1) ds s
    }"

definition plain_udp_handler ::
    "('n, 't, 'u) libs \<Rightarrow> os \<Rightarrow> (nat \<Rightarrow> env) \<Rightarrow> (sock_addr option \<times> bytes) list \<Rightarrow> ('t, 'u) device \<Rightarrow>
      (action \<times> ('t, 'u) net) option" where
  "plain_udp_handler L X E ds d =
    (case (d_key_pair d, d_rate_limiter d) of
       (Some keys, Some l) \<Rightarrow>
         map_option (\<lambda>(s, _). (Continue, s)) (plain_loop L X E keys l MAX_ITR ds (net_start d))
     | _ \<Rightarrow> Some (Continue, net_start d))"

section \<open>The two handlers agree\<close>

lemma net_update_commute: "(s :: ('t, 'u) net)\<lparr>n_calls := k, n_dev := d\<rparr> = s\<lparr>n_dev := d, n_calls := k\<rparr>"
  by simp

lemma one_segment: "m \<noteq> [] \<Longrightarrow> datagram_segments 0 m = [m]"
  by (simp add: datagram_segments_def gro_segments.simps [of "length m" m] gro_segments.simps [of "length m" "[]"])

lemma dev_queue_send [simp]: "n_dev (queue_send a b s) = n_dev s" "n_calls (queue_send a b s) = n_calls s"
  by (simp_all add: queue_send_def flush_batch_def Let_def)

fun out_is_udp :: "dev_out \<Rightarrow> bool" where
  "out_is_udp (OutUdp a b) = True"
| "out_is_udp _ = False"

definition same_effect :: "('t, 'u) net \<Rightarrow> ('t, 'u) net \<Rightarrow> bool" where
  "same_effect s s' \<longleftrightarrow>
    n_dev s' = n_dev s \<and> n_calls s' = n_calls s \<and> length (n_batch s) < MAX_PACKET_COUNT \<and>
    filter out_is_udp (n_out s') = filter out_is_udp (n_out s) @ map (\<lambda>(a, b). OutUdp a b) (n_batch s) \<and>
    filter (Not \<circ> out_is_udp) (n_out s') = filter (Not \<circ> out_is_udp) (n_out s)"

lemma out_is_udp_map [simp]: "filter out_is_udp (map (\<lambda>(a, b). OutUdp a b) xs) = map (\<lambda>(a, b). OutUdp a b) xs"
  "filter (Not \<circ> out_is_udp) (map (\<lambda>(a, b). OutUdp a b) xs) = []"
  by (induction xs) auto

lemma out_is_udp_iface [simp]: "filter out_is_udp (to_iface L res p) = []"
  "filter (Not \<circ> out_is_udp) (to_iface L res p) = to_iface L res p"
  by (auto simp: to_iface_def split: tunn_result.split)

lemma same_effect_dev:
  "same_effect s s' \<Longrightarrow> same_effect (s\<lparr>n_dev := d, n_calls := k\<rparr>) (s'\<lparr>n_dev := d, n_calls := k\<rparr>)"
  by (simp add: same_effect_def)

lemma same_effect_send: "same_effect s s' \<Longrightarrow> same_effect (queue_send addr p s) (emit [OutUdp addr p] s')"
  by (simp add: same_effect_def queue_send_def flush_batch_def emit_def Let_def)

lemma same_effect_sends: "same_effect s s' \<Longrightarrow> same_effect (fold (queue_send addr) ps s) (emit (map (OutUdp addr) ps) s')"
proof (induction ps arbitrary: s s')
  case Nil
  then show ?case by (simp add: emit_def)
next
  case (Cons p ps)
  from Cons.IH [OF same_effect_send [OF Cons.prems]] show ?case by (simp add: emit_def)
qed

lemma same_effect_iface: "same_effect s s' \<Longrightarrow> same_effect (emit (to_iface L res p) s) (emit (to_iface L res p) s')"
  by (simp add: same_effect_def emit_def)

lemma plain_packet_effect:
  assumes "same_effect s s'" and "strip_ip_header (cfg_ip_protocol (d_config (n_dev s))) (sock_is_ipv4 addr) buf = Some packet"
  shows "rel_option (\<lambda>u (c, u'). same_effect u u') (udp_packet L X E keys l addr packet s) (plain_packet L X E keys l addr buf s')"
proof -
  have same: "n_dev s' = n_dev s" "n_calls s' = n_calls s" using assms(1) by (simp_all add: same_effect_def)
  obtain v d1 where v: "device_verify L (E (n_calls s)) l (sock_ip addr) packet (n_dev s) = (v, d1)" by fastforce
  note step = same_effect_dev [OF assms(1), where k = "Suc (n_calls s)"]
  show ?thesis
  proof (cases v)
    case (Inl a)
    then show ?thesis using step same_effect_send [OF step]
      by (cases a) (simp_all add: udp_packet_def plain_packet_def assms(2) same v)
  next
    case (Inr parsed)
    show ?thesis
    proof (cases "identify_peer L (fst keys) (snd keys) parsed d1")
      case None
      then show ?thesis by (simp add: udp_packet_def plain_packet_def assms(2) same v Inr)
    next
      case who: (Some who)
      show ?thesis
      proof (cases who)
        case None
        then show ?thesis using step by (simp add: udp_packet_def plain_packet_def assms(2) same v Inr who)
      next
        case (Some r)
        note known = udp_packet_def plain_packet_def assms(2) same v Inr who Some Let_def net_update_commute
        show ?thesis
        proof (cases "peer_handle_verified L (E (n_calls s)) parsed r d1")
          case None
          then show ?thesis by (simp add: known)
        next
          case h: (Some h)
          obtain res d2 where h: "peer_handle_verified L (E (n_calls s)) parsed r d1 = Some (res, d2)" using h by (cases h) auto
          show ?thesis
          proof (cases "is_err res \<or> roam_endpoint X addr r d2 = None")
            case True
            then show ?thesis using step by (cases "is_err res") (simp_all add: known h)
          next
            case False
            then obtain d3 where d3: "roam_endpoint X addr r d2 = Some d3" "\<not> is_err res" by auto
            show ?thesis
            proof (cases res)
              case (WriteToNetwork reply)
              let ?f = "flush_queue L E r (flush_fuel r d3) (Suc (n_calls s)) d3"
              show ?thesis
              proof (cases ?f)
                case None
                then show ?thesis by (simp add: known h d3 WriteToNetwork same_effect_def emit_def)
              next
                case (Some f)
                obtain ps k d4 where f: "?f = Some (ps, k, d4)" using Some by (cases f) auto
                from same_effect_sends [OF same_effect_dev [OF same_effect_send [OF step, of addr reply d3], where d = d4 and k = k], of addr ps]
                show ?thesis using f by (simp add: known h d3 WriteToNetwork emit_def)
              qed
            qed (use step same_effect_iface [OF step] d3 in \<open>simp_all add: known h\<close>)
          qed
        qed
      qed
    qed
  qed
qed


text \<open>Each step of the one is a step of the other, so that it keeps what that keeps.\<close>

lemma plain_as_udp:
  assumes "plain_packet L X E keys l addr buf s = Some (c, s')"
  shows "s' = s \<or> (\<exists>packet u. udp_packet L X E keys l addr packet (s\<lparr>n_batch := []\<rparr>) = Some u \<and> same_effect u s')"
proof (cases "strip_ip_header (cfg_ip_protocol (d_config (n_dev s))) (sock_is_ipv4 addr) buf")
  case None
  then show ?thesis using assms by (simp add: plain_packet_def)
next
  case (Some packet)
  have "same_effect (s\<lparr>n_batch := []\<rparr>) s" by (simp add: same_effect_def)
  from plain_packet_effect [OF this, of addr buf packet L X E keys l] Some assms show ?thesis by (auto simp: option_rel_Some2)
qed

lemma plain_loop_effect:
  assumes "same_effect s s'" and "length ds < iter" and "list_all (\<lambda>(a, b). b \<noteq> []) ds"
  shows "rel_option (\<lambda>u (u', rest). same_effect u u' \<and> rest = [])
    (udp_batch L X E keys l (map (\<lambda>(a, b). (Some a, 0, b)) ds) s)
    (plain_loop L X E keys l iter (map (\<lambda>(a, b). (Some a, b)) ds) s')"
  using assms
proof (induction ds arbitrary: s s' iter)
  case (Cons d ds)
  obtain a b where d: "d = (a, b)" by fastforce
  have same: "n_dev s' = n_dev s" and b: "b \<noteq> []" using Cons.prems by (simp_all add: same_effect_def d)
  show ?case
  proof (cases "strip_ip_header (cfg_ip_protocol (d_config (n_dev s))) (sock_is_ipv4 a) b")
    case None
    then show ?thesis using Cons.IH [OF Cons.prems(1), of iter] Cons.prems(2,3)
      by (simp add: d one_segment [OF b] plain_packet_def same)
  next
    case (Some packet)
    from plain_packet_effect [OF Cons.prems(1) Some, of L X E keys l] show ?thesis
    proof cases
      case None
      then show ?thesis by (simp add: d one_segment [OF b] Some)
    next
      case (Some u cu)
      obtain c u' where cu: "cu = (c, u')" "same_effect u u'" using Some(3) by (cases cu) auto
      have "length ds < (if c then iter - 1 else iter)" "iter - 1 \<noteq> 0 \<or> ds = []" using Cons.prems(2) by auto
      then show ?thesis
        using Cons.IH [OF cu(2), of "if c then iter - 1 else iter"] Cons.prems(3) Some(1,2) \<open>strip_ip_header _ _ _ = _\<close> cu(2)
        by (auto simp: d one_segment [OF b] cu(1) split: if_splits)
    qed
  qed
qed simp

text \<open>C24 One after the other or in a batch: fed the datagrams of one batch, the handler of systems without \<open>recvmmsg\<close> panics exactly when that of Linux does, and otherwise leaves the same device, gives the interface the same packets in the same order, and answers with the same datagrams in the same order; in the batch no answer is lost for want of room.\<close>

theorem handlers_agree:
  assumes "length ds \<le> MAX_PACKET_COUNT" and "list_all (\<lambda>(a, b). b \<noteq> []) ds"
  shows "rel_option (\<lambda>(a, s) (a', s'). a' = a \<and> n_dev s' = n_dev s \<and> n_batch s = [] \<and>
      filter out_is_udp (n_out s') = filter out_is_udp (n_out s) \<and>
      filter (Not \<circ> out_is_udp) (n_out s') = filter (Not \<circ> out_is_udp) (n_out s))
    (udp_handler L X E [map (\<lambda>(a, b). (Some a, 0, b)) ds] d)
    (plain_udp_handler L X E (map (\<lambda>(a, b). (Some a, b)) ds) d)"
proof -
  have start: "same_effect (net_start d) (net_start d)" by (simp add: same_effect_def net_start_def)
  have budget: "length ds < MAX_ITR" using assms(1) by simp
  consider keys l where "d_key_pair d = Some keys" "d_rate_limiter d = Some l" | "d_key_pair d = None \<or> d_rate_limiter d = None"
    by (metis option.exhaust)
  then show ?thesis
  proof cases
    case (1 keys l)
    from plain_loop_effect [OF start budget assms(2), of L X E keys l] show ?thesis
    proof cases
      case None
      then show ?thesis by (cases ds) (auto simp: udp_handler_def plain_udp_handler_def 1)
    next
      case (Some u cu)
      then obtain u' where "plain_loop L X E keys l MAX_ITR (map (\<lambda>(a, b). (Some a, b)) ds) (net_start d) = Some (u', [])"
        "same_effect u u'" by (cases cu) auto
      then show ?thesis using Some(1)
        by (cases "ds = []")
          (auto simp: udp_handler_def plain_udp_handler_def 1 same_effect_def flush_batch_def net_start_def Let_def)
    qed
  next
    case 2
    then show ?thesis by (cases "d_key_pair d"; cases "d_rate_limiter d") (simp_all add: udp_handler_def plain_udp_handler_def net_start_def)
  qed
qed

end
