(* ===== verification/Device_Tables.thy ===== *)
theory Device_Tables
  imports Device_Portable
begin

text \<open>
  The tables of the device name the same peers: by public key, by index and by address. The packet
  handlers change peers only inside (\<open>frame\<close>), the configuration operations change the tables
  together, so every device that can be reached is consistent.
\<close>

section \<open>The invariant\<close>

definition tables_ok :: "('n, 't, 'u) libs \<Rightarrow> ('t, 'u) device \<Rightarrow> bool" where
  "tables_ok L d \<longleftrightarrow>
    distinct (map fst (d_peers d)) \<and> distinct (map fst (d_peers_by_idx d)) \<and> hm.one_key (d_peers d) \<and>
    (\<forall>k r. hm_get (d_peers d) k = Some r \<longrightarrow> r < length (d_heap d) \<and>
      hm_get (d_peers_by_idx d) (p_index (d_heap d ! r)) = Some r \<and>
      tunn_named k (p_index (d_heap d ! r)) (p_tunnel (d_heap d ! r))) \<and>
    (\<forall>i r. hm_get (d_peers_by_idx d) i = Some r \<longrightarrow> hm.holds (d_peers d) r \<and> p_index (d_heap d ! r) = i) \<and>
    (\<forall>n r. (n, r) \<in> set (tb_iter (lib_routes L) (d_peers_by_ip d)) \<longrightarrow> hm.holds (d_peers d) r) \<and>
    issued (d_next_index d) (dom (hm_get (d_peers_by_idx d)))"

lemma tables_okD:
  assumes "tables_ok L d"
  shows "hm.one_key (d_peers d)"
    and "hm_get (d_peers d) k = Some r \<Longrightarrow> r < length (d_heap d)"
    and "hm_get (d_peers d) k = Some r \<Longrightarrow> hm_get (d_peers_by_idx d) (p_index (d_heap d ! r)) = Some r"
    and "hm_get (d_peers d) k = Some r \<Longrightarrow> tunn_named k (p_index (d_heap d ! r)) (p_tunnel (d_heap d ! r))"
    and "hm_get (d_peers_by_idx d) i = Some r \<Longrightarrow> hm.holds (d_peers d) r"
    and "hm_get (d_peers_by_idx d) i = Some r \<Longrightarrow> p_index (d_heap d ! r) = i"
    and "(n, r) \<in> set (tb_iter (lib_routes L) (d_peers_by_ip d)) \<Longrightarrow> hm.holds (d_peers d) r"
    and "issued (d_next_index d) (dom (hm_get (d_peers_by_idx d)))"
    and "distinct (map fst (d_peers d))" and "distinct (map fst (d_peers_by_idx d))"
  using assms unfolding tables_ok_def by (elim conjE, iprover)+

section \<open>What packet handlers leave alone\<close>

definition peer_frame :: "'u peer \<Rightarrow> 'u peer \<Rightarrow> bool" where
  "peer_frame p p' \<longleftrightarrow> p_index p' = p_index p \<and> p_allowed_ips p' = p_allowed_ips p \<and>
    (\<forall>k i. tunn_named k i (p_tunnel p) \<longrightarrow> tunn_named k i (p_tunnel p'))"

definition frame :: "('t, 'u) device \<Rightarrow> ('t, 'u) device \<Rightarrow> bool" where
  "frame d d' \<longleftrightarrow> d_peers d' = d_peers d \<and> d_peers_by_idx d' = d_peers_by_idx d \<and>
    d_peers_by_ip d' = d_peers_by_ip d \<and> d_next_index d' = d_next_index d \<and> d_config d' = d_config d \<and>
    list_all2 peer_frame (d_heap d) (d_heap d')"

lemma peer_frame_refl [simp]: "peer_frame p p"
  by (simp add: peer_frame_def)

lemma peer_frame_trans: "peer_frame p q \<Longrightarrow> peer_frame q r \<Longrightarrow> peer_frame p r"
  by (simp add: peer_frame_def)

lemma frame_refl [simp]: "frame d d"
  by (simp add: frame_def list.rel_refl)

lemma frame_trans [trans]: "frame d d' \<Longrightarrow> frame d' d'' \<Longrightarrow> frame d d''"
  by (simp add: frame_def list_all2_conv_all_nth) (metis peer_frame_trans)

lemma frame_heap: "frame d d' \<Longrightarrow> length (d_heap d') = length (d_heap d)"
  by (auto simp: frame_def dest: list_all2_lengthD)

lemma frame_nth: "frame d d' \<Longrightarrow> r < length (d_heap d) \<Longrightarrow> peer_frame (d_heap d ! r) (d_heap d' ! r)"
  by (auto simp: frame_def dest: list_all2_nthD)

lemma frame_put_peer: "peer_frame (d_heap d ! r) p \<Longrightarrow> frame d (put_peer r p d)"
  by (cases "r < length (d_heap d)")
    (auto simp: frame_def list_all2_conv_all_nth nth_list_update)

lemma frame_fields [simp]:
  "frame d (d'\<lparr>d_limiters := ls\<rparr>) = frame d d'" "frame d (d'\<lparr>d_poll := p\<rparr>) = frame d d'"
  "frame d (d'\<lparr>d_tcp_connections := cs\<rparr>) = frame d d'" "frame d (d'\<lparr>d_mtu := m\<rparr>) = frame d d'"
  "frame d (d'\<lparr>d_udp4 := s\<rparr>) = frame d d'" "frame d (d'\<lparr>d_udp6 := s\<rparr>) = frame d d'"
  "frame d (d'\<lparr>d_tcp_listener := s\<rparr>) = frame d d'" "frame d (d'\<lparr>d_listen_port := q\<rparr>) = frame d d'"
  "frame d (d'\<lparr>d_fwmark := f\<rparr>) = frame d d'"
  by (simp_all add: frame_def)

lemma tables_ok_frame:
  assumes "tables_ok L d" and "frame d d'"
  shows "tables_ok L d'"
proof -
  have heap: "peer_frame (d_heap d ! r) (d_heap d' ! r)" if "hm_get (d_peers d) k = Some r" for k r
    using frame_nth [OF assms(2)] tables_okD(2) [OF assms(1) that] by blast
  show ?thesis
    unfolding tables_ok_def
  proof (intro conjI allI impI)
    fix k r
    assume "hm_get (d_peers d') k = Some r"
    then have g: "hm_get (d_peers d) k = Some r" using assms(2) by (simp add: frame_def)
    show "r < length (d_heap d')" using tables_okD(2) [OF assms(1) g] frame_heap [OF assms(2)] by simp
    show "hm_get (d_peers_by_idx d') (p_index (d_heap d' ! r)) = Some r"
      using tables_okD(3) [OF assms(1) g] heap [OF g] assms(2) by (simp add: frame_def peer_frame_def)
    show "tunn_named k (p_index (d_heap d' ! r)) (p_tunnel (d_heap d' ! r))"
      using tables_okD(4) [OF assms(1) g] heap [OF g] by (simp add: peer_frame_def)
  next
    fix i r
    assume "hm_get (d_peers_by_idx d') i = Some r"
    then have g: "hm_get (d_peers_by_idx d) i = Some r" using assms(2) by (simp add: frame_def)
    then show h: "hm.holds (d_peers d') r" using tables_okD(5) [OF assms(1) g] assms(2) by (simp add: frame_def)
    then obtain k where "hm_get (d_peers d) k = Some r" using assms(2) by (auto simp: hm.holds_def frame_def)
    then show "p_index (d_heap d' ! r) = i"
      using heap tables_okD(6) [OF assms(1) g] by (simp add: peer_frame_def)
  next
    fix n r
    assume "(n, r) \<in> set (tb_iter (lib_routes L) (d_peers_by_ip d'))"
    then show "hm.holds (d_peers d') r" using tables_okD(7) [OF assms(1)] assms(2) by (simp add: frame_def)
  qed (use tables_okD(1,8,9,10) [OF assms(1)] assms(2) in \<open>simp_all add: frame_def\<close>)
qed

section \<open>Every handler keeps the frame\<close>

lemma frame_close_conn [simp]: "frame d (close_conn s d') = frame d d'"
  by (simp add: close_conn_def split: option.split)

lemma frame_add_event: "add_event X fd h d = (b, d') \<Longrightarrow> frame d d'"
  by (auto simp: add_event_def split: prod.splits)

lemma frame_add_event_snd [simp]: "frame d (snd (add_event X fd h d')) = frame d d'"
  by (simp add: add_event_def split: prod.split)

lemma frame_device_verify: "device_verify L env l ip b d = (r, d') \<Longrightarrow> frame d d'"
  by (auto simp: device_verify_def split: prod.splits)

lemma peer_frame_tunnel:
  "(\<And>k i. tunn_named k i (p_tunnel p) \<Longrightarrow> tunn_named k i t) \<Longrightarrow> peer_frame p (p\<lparr>p_tunnel := t\<rparr>)"
  by (simp add: peer_frame_def)

lemma frame_handle_verified:
  assumes "peer_handle_verified L env parsed r d = Some (res, d')"
  shows "frame d d'"
proof -
  obtain t where t: "handle_verified_packet (lib_crypto L) env parsed MAX_UDP_SIZE (p_tunnel (d_heap d ! r)) = Some (res, t)"
    and d': "d' = put_peer r ((d_heap d ! r)\<lparr>p_tunnel := t\<rparr>) d"
    using assms by (auto simp: peer_handle_verified_def split: bind_splits)
  show ?thesis unfolding d' by (intro frame_put_peer peer_frame_tunnel named_handle_verified [OF t])
qed

lemma frame_decapsulate:
  assumes "peer_decapsulate L env a b r d = Some (res, d')"
  shows "frame d d'"
proof -
  obtain t rl where t: "decapsulate (lib_crypto L) env a b MAX_UDP_SIZE (p_tunnel (d_heap d ! r))
      (d_limiters d ! p_limiter (d_heap d ! r)) = Some (res, t, rl)"
    and d': "d' = (put_peer r ((d_heap d ! r)\<lparr>p_tunnel := t\<rparr>) d)\<lparr>d_limiters := (d_limiters d)[p_limiter (d_heap d ! r) := rl]\<rparr>"
    using assms by (auto simp: peer_decapsulate_def Let_def split: bind_splits)
  show ?thesis
    unfolding d' frame_fields by (intro frame_put_peer peer_frame_tunnel named_decapsulate [OF t])
qed

lemma frame_flush: "flush_queue L E r fuel k d = Some (ps, k', d') \<Longrightarrow> frame d d'"
proof (induction L E r fuel k d arbitrary: ps k' d' rule: flush_queue.induct)
  case (2 L E r fuel k d)
  from 2(2) obtain res d1 where d1: "peer_decapsulate L (E k) None [] r d = Some (res, d1)"
    by (auto split: bind_splits)
  note fr = frame_decapsulate [OF d1]
  show ?case
  proof (cases res)
    case (WriteToNetwork x)
    then obtain ps1 where "flush_queue L E r fuel (Suc k) d1 = Some (ps1, k', d')"
      using 2(2) d1 by (auto split: bind_splits)
    then show ?thesis using 2(1) [OF d1 _ WriteToNetwork] fr frame_trans by blast
  qed (use 2(2) d1 fr in auto)
qed simp

lemma peer_frame_endpoint: "p_tunnel p' = p_tunnel p \<Longrightarrow> p_index p' = p_index p \<Longrightarrow> p_allowed_ips p' = p_allowed_ips p \<Longrightarrow>
    peer_frame p p'"
  by (simp add: peer_frame_def)

lemma frame_roam:
  assumes "roam_endpoint X addr r d = Some d'"
  shows "frame d d'"
proof -
  obtain s p where sp: "set_endpoint (sock_new (sock_ip addr) (sock_port addr)) (d_heap d ! r) = (s, p)" by fastforce
  obtain d1 where d1: "d1 = close_conn s (put_peer r p d)" by blast
  have f1: "frame d d1"
    unfolding d1 using set_endpoint_frame [OF sp] by (simp add: frame_put_peer peer_frame_endpoint)
  show ?thesis
  proof (cases "cfg_use_connected_socket (d_config d1)")
    case False
    then show ?thesis using assms f1 sp d1 by (simp add: roam_endpoint_def)
  next
    case True
    obtain res p2 where c: "connect_endpoint (os_connect X) (d_listen_port d1) (d_fwmark d1)
        (cfg_ip_protocol (d_config d1)) (d_heap d1 ! r) = Some (res, p2)"
      using assms True sp by (auto simp: roam_endpoint_def Let_def d1 split: bind_splits)
    have f2: "frame d1 (put_peer r p2 d1)"
      using connect_endpoint_frame [OF c] by (simp add: frame_put_peer peer_frame_endpoint)
    have "frame (put_peer r p2 d1) d'"
      using assms True sp c by (auto simp: roam_endpoint_def Let_def d1 split: sum.splits prod.splits if_splits dest: frame_add_event)
    then show ?thesis using f1 f2 frame_trans by blast
  qed
qed

lemma dev_fold_queue_send [simp]: "n_dev (fold (queue_send a) ps s) = n_dev s"
  by (induction ps arbitrary: s) simp_all

lemma dev_emit [simp]: "n_dev (emit os s) = n_dev s" "n_calls (emit os s) = n_calls s"
  by (simp_all add: emit_def)

lemma dev_net_start [simp]: "n_dev (net_start d) = d"
  by (simp add: net_start_def)

text \<open>The branches of the handler for one packet.\<close>

lemma udp_packet_cases:
  assumes "udp_packet L X E keys l addr packet s = Some s'"
  obtains (cookie) c d1 where "device_verify L (E (n_calls s)) l (sock_ip addr) packet (n_dev s) = (Inl (WriteToNetwork c), d1)"
      "s' = queue_send addr c (s\<lparr>n_dev := d1, n_calls := Suc (n_calls s)\<rparr>)"
    | (dropped) v d1 where "device_verify L (E (n_calls s)) l (sock_ip addr) packet (n_dev s) = (v, d1)"
      "s' = s\<lparr>n_dev := d1, n_calls := Suc (n_calls s)\<rparr>"
    | (failed) parsed d1 r res d2 where
      "device_verify L (E (n_calls s)) l (sock_ip addr) packet (n_dev s) = (Inr parsed, d1)"
      "identify_peer L (fst keys) (snd keys) parsed d1 = Some (Some r)"
      "peer_handle_verified L (E (n_calls s)) parsed r d1 = Some (res, d2)"
      "s' = s\<lparr>n_dev := d2, n_calls := Suc (n_calls s)\<rparr>"
    | (handled) parsed d1 r res d2 d3 where
      "device_verify L (E (n_calls s)) l (sock_ip addr) packet (n_dev s) = (Inr parsed, d1)"
      "identify_peer L (fst keys) (snd keys) parsed d1 = Some (Some r)"
      "peer_handle_verified L (E (n_calls s)) parsed r d1 = Some (res, d2)" "\<not> is_err res"
      "roam_endpoint X addr r d2 = Some d3"
      "s' = emit (to_iface L res (d_heap d3 ! r)) (s\<lparr>n_dev := d3, n_calls := Suc (n_calls s)\<rparr>)"
    | (replied) parsed d1 r reply d2 d3 ps k d4 where
      "device_verify L (E (n_calls s)) l (sock_ip addr) packet (n_dev s) = (Inr parsed, d1)"
      "identify_peer L (fst keys) (snd keys) parsed d1 = Some (Some r)"
      "peer_handle_verified L (E (n_calls s)) parsed r d1 = Some (WriteToNetwork reply, d2)"
      "roam_endpoint X addr r d2 = Some d3"
      "flush_queue L E r (flush_fuel r d3) (Suc (n_calls s)) d3 = Some (ps, k, d4)"
      "s' = fold (queue_send addr) ps
        ((queue_send addr reply (s\<lparr>n_dev := d3, n_calls := Suc (n_calls s)\<rparr>))\<lparr>n_dev := d4, n_calls := k\<rparr>)"
proof -
  obtain v d1 where v: "device_verify L (E (n_calls s)) l (sock_ip addr) packet (n_dev s) = (v, d1)" by fastforce
  show ?thesis
  proof (cases v)
    case (Inl a)
    then show ?thesis using assms v cookie dropped by (cases a) (auto simp: udp_packet_def Let_def)
  next
    case (Inr parsed)
    then obtain who where who: "identify_peer L (fst keys) (snd keys) parsed d1 = Some who"
      using assms v by (auto simp: udp_packet_def Let_def split: bind_splits)
    show ?thesis
    proof (cases who)
      case None
      then show ?thesis using assms v Inr who dropped by (auto simp: udp_packet_def Let_def)
    next
      case (Some r)
      obtain res d2 where h: "peer_handle_verified L (E (n_calls s)) parsed r d1 = Some (res, d2)"
        using assms v Inr who Some by (auto simp: udp_packet_def Let_def split: bind_splits)
      show ?thesis
      proof (cases "is_err res")
        case True
        then have "s' = s\<lparr>n_dev := d2, n_calls := Suc (n_calls s)\<rparr>"
          using assms v Inr who Some h by (auto simp: udp_packet_def Let_def)
        then show ?thesis using failed v Inr who Some h by simp
      next
        case False
        obtain d3 where d3: "roam_endpoint X addr r d2 = Some d3"
          using assms v Inr who Some h False by (auto simp: udp_packet_def Let_def split: bind_splits)
        show ?thesis
        proof (cases res)
          case (WriteToNetwork reply)
          then obtain ps k d4 where fl: "flush_queue L E r (flush_fuel r d3) (Suc (n_calls s)) d3 = Some (ps, k, d4)"
            and "s' = fold (queue_send addr) ps
              ((queue_send addr reply (s\<lparr>n_dev := d3, n_calls := Suc (n_calls s)\<rparr>))\<lparr>n_dev := d4, n_calls := k\<rparr>)"
            using assms v Inr who Some h d3 by (auto simp: udp_packet_def Let_def net_update_commute split: bind_splits)
          then show ?thesis using replied v Inr who Some h d3 WriteToNetwork by simp
        qed (use handled assms v Inr who Some h d3 False in \<open>auto simp: udp_packet_def Let_def net_update_commute\<close>)
      qed
    qed
  qed
qed

lemma frame_udp_packet:
  assumes "udp_packet L X E keys l addr packet s = Some s'"
  shows "frame (n_dev s) (n_dev s')"
  using assms
proof (cases rule: udp_packet_cases)
  case (failed parsed d1 r res d2)
  then show ?thesis using frame_device_verify frame_handle_verified frame_trans by (metis net.select_convs(1) net.surjective net.update_convs(1,2))
next
  case (handled parsed d1 r res d2 d3)
  have "frame (n_dev s) d3"
    using frame_device_verify [OF handled(1)] frame_handle_verified [OF handled(3)] frame_roam [OF handled(5)] frame_trans
    by blast
  then show ?thesis by (simp add: handled(6))
next
  case (replied parsed d1 r reply d2 d3 ps k d4)
  have "frame (n_dev s) d4"
    using frame_device_verify [OF replied(1)] frame_handle_verified [OF replied(3)] frame_roam [OF replied(4)]
      frame_flush [OF replied(5)] frame_trans by blast
  then show ?thesis by (simp add: replied(6))
qed (auto dest: frame_device_verify)

lemma dev_flush_batch [simp]: "n_dev (flush_batch s) = n_dev s"
  by (simp add: flush_batch_def)

lemma frame_udp_segments: "udp_segments L X E keys l addr segs s = Some s' \<Longrightarrow> frame (n_dev s) (n_dev s')"
proof (induction segs arbitrary: s)
  case (Cons seg segs)
  show ?case
  proof (cases "strip_ip_header (cfg_ip_protocol (d_config (n_dev s))) (sock_is_ipv4 addr) seg")
    case None
    then show ?thesis using Cons by simp
  next
    case (Some packet)
    then obtain s1 where "udp_packet L X E keys l addr packet s = Some s1"
      "udp_segments L X E keys l addr segs s1 = Some s'"
      using Cons.prems by (auto split: bind_splits)
    then show ?thesis using Cons.IH frame_udp_packet frame_trans by blast
  qed
qed simp

lemma frame_udp_batch: "udp_batch L X E keys l ds s = Some s' \<Longrightarrow> frame (n_dev s) (n_dev s')"
proof (induction L X E keys l ds s rule: udp_batch.induct)
  case (3 L X E keys l addr gro buf ds s)
  from 3(2) obtain s1 where s1: "udp_segments L X E keys l addr (datagram_segments gro buf) s = Some s1"
    "udp_batch L X E keys l ds s1 = Some s'" by (auto split: bind_splits)
  show ?case using 3(1) [OF s1] frame_udp_segments [OF s1(1)] frame_trans by blast
qed auto

lemma frame_udp_rounds: "udp_rounds L X E keys l iter bs s = Some (s', rest) \<Longrightarrow> frame (n_dev s) (n_dev s')"
proof (induction bs arbitrary: iter s)
  case (Cons b bs)
  show ?case
  proof (cases "b = []")
    case True
    then show ?thesis using Cons.prems by simp
  next
    case False
    then obtain s1 where s1: "udp_batch L X E keys l b s = Some s1" using Cons.prems by (auto split: bind_splits)
    let ?s2 = "if n_batch s1 \<noteq> [] then flush_batch s1 else s1"
    have f: "frame (n_dev s) (n_dev ?s2)" using frame_udp_batch [OF s1] by simp
    from Cons.prems False s1 consider "s' = ?s2"
      | "udp_rounds L X E keys l (iter - word_of_nat (length b)) bs ?s2 = Some (s', rest)"
      by (auto simp: Let_def split: if_splits)
    then show ?thesis using f Cons.IH frame_trans by cases blast+
  qed
qed simp

lemma frame_plain_packet:
  assumes "plain_packet L X E keys l addr buf s = Some (c, s')"
  shows "frame (n_dev s) (n_dev s')"
  using plain_as_udp [OF assms] frame_udp_packet by (fastforce simp: same_effect_def)

lemma frame_plain_loop: "plain_loop L X E keys l iter ds s = Some (s', rest) \<Longrightarrow> frame (n_dev s) (n_dev s')"
proof (induction L X E keys l iter ds s rule: plain_loop.induct)
  case (3 L X E keys l iter addr buf ds s)
  from 3(3) obtain c s1 where s1: "plain_packet L X E keys l addr buf s = Some (c, s1)" by (auto split: bind_splits)
  show ?case
    using 3(1) [OF s1 refl] 3(2) [OF s1 refl] 3(3) s1 frame_plain_packet [OF s1] frame_trans by (fastforce split: if_splits)
qed simp_all

lemma frame_plain_handler: "plain_udp_handler L X E ds d = Some (a, s) \<Longrightarrow> frame d (n_dev s)"
  by (auto simp: plain_udp_handler_def split: option.splits dest!: frame_plain_loop)

lemma frame_udp_handler: "udp_handler L X E batches d = Some (a, s) \<Longrightarrow> frame d (n_dev s)"
  by (auto simp: udp_handler_def split: option.splits dest!: frame_udp_rounds)

lemma conn_packet_cases:
  assumes "conn_packet L E r sock a buf s = Some (c, s')"
  obtains (skipped) "s' = s" "\<not> c"
    | (handled) data res d1 where "peer_decapsulate L (E (n_calls s)) (Some a) data r (n_dev s) = Some (res, d1)" "c"
      "s' = emit (to_iface L res (d_heap d1 ! r)) (s\<lparr>n_dev := d1, n_calls := Suc (n_calls s)\<rparr>)"
    | (replied) data reply d1 ps k d2 where
      "peer_decapsulate L (E (n_calls s)) (Some a) data r (n_dev s) = Some (WriteToNetwork reply, d1)" "c"
      "flush_queue L E r (flush_fuel r d1) (Suc (n_calls s)) d1 = Some (ps, k, d2)"
      "s' = emit (map (OutConn sock) (reply # ps)) (s\<lparr>n_dev := d2, n_calls := k\<rparr>)"
proof (cases "strip_ip_header (cfg_ip_protocol (d_config (n_dev s))) (\<not> is_v6 a) buf")
  case None
  then show ?thesis using assms skipped by (simp add: conn_packet_def)
next
  case (Some data)
  show ?thesis
  proof (cases "data \<noteq> [] \<and> data ! 0 = 0x99")
    case True
    then show ?thesis using assms Some skipped by (simp add: conn_packet_def)
  next
    case False
    obtain res d1 where h: "peer_decapsulate L (E (n_calls s)) (Some a) data r (n_dev s) = Some (res, d1)"
      using assms Some False by (auto simp: conn_packet_def split: bind_splits if_splits)
    show ?thesis
    proof (cases res)
      case (WriteToNetwork packet)
      then obtain ps k d2 where "flush_queue L E r (flush_fuel r d1) (Suc (n_calls s)) d1 = Some (ps, k, d2)" "c"
        "s' = emit (map (OutConn sock) (packet # ps)) (s\<lparr>n_dev := d2, n_calls := k\<rparr>)"
        using assms Some False h by (auto simp: conn_packet_def Let_def split: bind_splits if_splits)
      then show ?thesis using h WriteToNetwork replied by blast
    qed (use assms Some False h handled in \<open>auto simp: conn_packet_def Let_def split: if_splits\<close>)
  qed
qed

lemma frame_conn_packet:
  assumes "conn_packet L E r sock a buf s = Some (c, s')"
  shows "frame (n_dev s) (n_dev s')"
  using assms
proof (cases rule: conn_packet_cases)
  case (replied data reply d1 ps k d2)
  have "frame (n_dev s) d2" using frame_decapsulate [OF replied(1)] frame_flush [OF replied(3)] by (rule frame_trans)
  then show ?thesis by (simp add: replied(4))
qed (auto dest: frame_decapsulate)

lemma frame_conn_loop: "conn_loop L E r sock a iter bs s = Some (s', rest) \<Longrightarrow> frame (n_dev s) (n_dev s')"
proof (induction bs arbitrary: iter s)
  case (Cons b bs)
  from Cons.prems obtain c s1 where c: "conn_packet L E r sock a b s = Some (c, s1)" by (auto split: bind_splits)
  note f = frame_conn_packet [OF c]
  from Cons.prems c consider "s' = s1" | n where "conn_loop L E r sock a n bs s1 = Some (s', rest)"
    by (auto split: if_splits)
  then show ?case using f Cons.IH frame_trans by cases blast+
qed simp

lemma frame_conn_handler: "conn_handler L E r sock a bs d = Some (act, s) \<Longrightarrow> frame d (n_dev s)"
  by (auto simp: conn_handler_def dest!: frame_conn_loop)

lemma frame_maybe_connect: "maybe_connect_tcp X a d = (r, d') \<Longrightarrow> frame d d'"
  by (auto simp: maybe_connect_tcp_def split: option.splits)

lemma frame_tcp_send: "frame d (n_dev s) \<Longrightarrow> frame d (n_dev (tcp_send X a p s))"
  by (auto simp: tcp_send_def split: prod.splits option.splits dest!: frame_maybe_connect intro: frame_trans)

lemma frame_fold_tcp_send: "frame d (n_dev s) \<Longrightarrow> frame d (n_dev (fold (tcp_send X a) ps s))"
  by (induction ps arbitrary: s) (simp_all add: frame_tcp_send)

fun flow_state :: "'s flow \<Rightarrow> 's" where
  "flow_state (Go s) = s"
| "flow_state (Break s) = s"
| "flow_state (Halt s) = s"

lemma frame_tcp_deliver:
  assumes "tcp_deliver L X E env a parsed r s = Some s'"
  shows "frame (n_dev s) (n_dev s')"
proof -
  obtain res d2 where h: "peer_handle_verified L env parsed r (n_dev s) = Some (res, d2)"
    using assms by (auto simp: tcp_deliver_def split: bind_splits)
  obtain s3 where s3: "s3 = (case res of WriteToNetwork resp \<Rightarrow> tcp_send X a resp (s\<lparr>n_dev := d2\<rparr>)
      | _ \<Rightarrow> emit (to_iface L res (d_heap d2 ! r)) (s\<lparr>n_dev := d2\<rparr>))" by blast
  have f3: "frame (n_dev s) (n_dev s3)"
    unfolding s3 using frame_handle_verified [OF h] by (auto intro!: frame_tcp_send split: tunn_result.split)
  obtain ps k d3 where fl: "flush_queue L E r (flush_fuel r (n_dev s3)) (n_calls s3) (n_dev s3) = Some (ps, k, d3)"
    and s': "s' = fold (tcp_send X a) ps (s3\<lparr>n_dev := d3, n_calls := k\<rparr>)"
    using assms h unfolding s3 by (auto simp: tcp_deliver_def Let_def split: bind_splits)
  have "frame (n_dev s) d3" using f3 frame_flush [OF fl] frame_trans by blast
  then show ?thesis unfolding s' by (simp add: frame_fold_tcp_send)
qed

lemma frame_tcp_packet:
  assumes "tcp_packet L X E sock a (n, s) packet = Some fl"
  shows "frame (n_dev s) (n_dev (snd (flow_state fl)))"
proof -
  let ?d = "n_dev s"
  consider "fl = Break (n, s)" | keys l where "d_key_pair ?d = Some keys" "d_rate_limiter ?d = Some l" "length packet \<le> MAX_UDP_SIZE"
    using assms by (auto simp: tcp_packet_def Let_def split: if_splits option.splits)
  then show ?thesis
  proof cases
    case 2
    obtain v d1 where v: "device_verify L (E (n_calls s)) l (sock_ip a) packet ?d = (v, d1)" by fastforce
    note f1 = frame_device_verify [OF v]
    show ?thesis
    proof (cases v)
      case (Inl e)
      then show ?thesis using assms 2 v f1 by (auto simp: tcp_packet_def Let_def split: tunn_result.splits)
    next
      case (Inr parsed)
      let ?s1 = "s\<lparr>n_dev := d1, n_calls := Suc (n_calls s)\<rparr>"
      obtain who s4 where "(case who of None \<Rightarrow> Some ?s1 | Some r \<Rightarrow> tcp_deliver L X E (E (n_calls s)) a parsed r ?s1) = Some s4"
        "fl = (if Suc n \<ge> MAX_ITR then Halt (Suc n, s4) else Go (Suc n, s4))"
        using assms 2 v Inr by (auto simp: tcp_packet_def Let_def split: bind_splits)
      then show ?thesis using f1 frame_trans by (auto split: option.splits dest!: frame_tcp_deliver)
    qed
  qed auto
qed

text \<open>What the body of the loop over frames keeps, the loop keeps.\<close>

lemma tcp_drain_invariant:
  assumes "tcp_drain step f st off = Some (st', n)" and "P st"
    and "\<And>st p fl. step st p = Some fl \<Longrightarrow> P st \<Longrightarrow> P (flow_state fl)"
  shows "P st'"
  using assms(1,2)
proof (induction "f_unprocessed_i f - off" arbitrary: off st rule: less_induct)
  case less
  show ?case
  proof (cases "peek_packet f off")
    case None
    then show ?thesis using less.prems by (simp add: tcp_drain.simps)
  next
    case (Some pk)
    show ?thesis
    proof (cases pk)
      case None
      then show ?thesis using less.prems Some by (simp add: tcp_drain.simps)
    next
      case (Some tp)
      obtain tot p where tp: "tp = (tot, p)" by (cases tp)
      have peek: "peek_packet f off = Some (Some (tot, p))" using \<open>peek_packet f off = Some pk\<close> Some tp by simp
      obtain fl where fl: "step st p = Some fl"
        using less.prems(1) peek by (cases "step st p") (simp_all add: tcp_drain.simps)
      note P = assms(3) [OF fl less.prems(2)]
      show ?thesis
      proof (cases fl)
        case (Go s)
        have "tcp_drain step f s (off + tot) = Some (st', n)"
          using less.prems(1) peek fl Go by (simp add: tcp_drain.simps [of _ f st])
        moreover have "f_unprocessed_i f - (off + tot) < f_unprocessed_i f - off"
          using peek_packet_grows [OF peek] by linarith
        ultimately show ?thesis using less.hyps P Go by simp
      qed (use less.prems(1) peek fl P in \<open>auto simp: tcp_drain.simps [of _ f st]\<close>)
    qed
  qed
qed

lemma frame_tcp_drain:
  assumes "tcp_drain (tcp_packet L X E sock a) f st off = Some (st', n)"
  shows "frame (n_dev (snd st)) (n_dev (snd st'))"
  by (rule tcp_drain_invariant [where P = "\<lambda>st'. frame (n_dev (snd st)) (n_dev (snd st'))", OF assms])
    (auto dest!: frame_tcp_packet intro: frame_trans)

lemma frame_tcp_handler: "tcp_handler L X E sock a k arrived closed f d = Some (act, s, f', rest) \<Longrightarrow> frame d (n_dev s)"
  by (auto simp: tcp_handler_def Let_def split: option.splits bind_splits if_splits prod.splits dest!: frame_tcp_drain)

lemma frame_tcp_accept: "tcp_accept X sock a nb dup d = Some d' \<Longrightarrow> frame d d'"
  by (auto simp: tcp_accept_def Let_def split: if_splits option.splits)

lemma frame_send_to_endpoint: "frame d (n_dev s) \<Longrightarrow> frame d (n_dev (send_to_endpoint X r p s))"
  by (auto simp: send_to_endpoint_def Let_def frame_tcp_send split: option.split)

lemma frame_iface_packet:
  assumes "iface_packet L X E src s = Some s'"
  shows "frame (n_dev s) (n_dev s')"
proof -
  consider "s' = s" | a r where "dst_address src = Some a" "ips_find (lib_routes L) a (d_peers_by_ip (n_dev s)) = Some r"
    using assms by (auto simp: iface_packet_def split: option.splits)
  then show ?thesis
  proof cases
    case 2
    let ?p = "d_heap (n_dev s) ! r"
    obtain res t where e: "encapsulate (lib_crypto L) (E (n_calls s)) src MAX_UDP_SIZE (p_tunnel ?p) = Some (res, t)"
      using assms 2 by (auto simp: iface_packet_def Let_def split: bind_splits)
    have "frame (n_dev s) (put_peer r (?p\<lparr>p_tunnel := t\<rparr>) (n_dev s))"
      by (intro frame_put_peer peer_frame_tunnel named_encapsulate [OF e])
    then show ?thesis
      using assms 2 e by (auto simp: iface_packet_def Let_def split: tunn_result.splits intro!: frame_send_to_endpoint)
  qed simp
qed

lemma frame_iface_loop: "iface_loop L X E mtu n reads s = Some (a, s') \<Longrightarrow> frame (n_dev s) (n_dev s')"
proof (induction L X E mtu n reads s rule: iface_loop.induct)
  case (5 L X E mtu n src reads s)
  from 5(2) obtain s1 where s1: "iface_packet L X E (take mtu src) s = Some s1"
    "iface_loop L X E mtu n reads s1 = Some (a, s')" by (auto split: bind_splits)
  show ?case using 5(1) [OF s1] frame_iface_packet [OF s1(1)] frame_trans by blast
qed auto

lemma frame_iface_handler: "iface_handler L X E reads d = Some (a, s) \<Longrightarrow> frame d (n_dev s)"
  by (auto simp: iface_handler_def split: if_splits dest!: frame_iface_loop)

lemma frame_limiter_timer: "frame d (limiter_timer now d)"
  by (simp add: limiter_timer_def split: option.split)

lemma frame_peer_timer:
  assumes "peer_timer L E r s = Some s'"
  shows "frame (n_dev s) (n_dev s')"
proof (cases "ep_addr (p_endpoint (d_heap (n_dev s) ! r))")
  case None
  then show ?thesis using assms by (simp add: peer_timer_def Let_def)
next
  case (Some addr)
  let ?p = "d_heap (n_dev s) ! r"
  obtain res t rl where u: "update_timers (lib_crypto L) (E (n_calls s)) MAX_UDP_SIZE (p_tunnel ?p)
      (d_limiters (n_dev s) ! p_limiter ?p) = Some (res, t, rl)"
    using assms Some by (auto simp: peer_timer_def Let_def split: bind_splits)
  let ?d1 = "(put_peer r (?p\<lparr>p_tunnel := t\<rparr>) (n_dev s))\<lparr>d_limiters := (d_limiters (n_dev s))[p_limiter ?p := rl]\<rparr>"
  have f1: "frame (n_dev s) ?d1"
    unfolding frame_fields by (intro frame_put_peer peer_frame_tunnel named_update_timers [OF u])
  obtain sock p2 where sh: "shutdown_endpoint (d_heap ?d1 ! r) = (sock, p2)" by fastforce
  have f2: "frame ?d1 (put_peer r p2 ?d1)"
    using shutdown_endpoint_frame [OF sh] by (intro frame_put_peer peer_frame_endpoint) simp_all
  from assms Some u sh have "n_dev s' = ?d1 \<or> n_dev s' = close_conn sock (put_peer r p2 ?d1)"
    by (auto simp: peer_timer_def Let_def split: tunn_result.splits if_splits)
  then show ?thesis using f1 frame_trans [OF f1 f2] by auto
qed

lemma frame_peer_timers: "peer_timers L E rs s = Some s' \<Longrightarrow> frame (n_dev s) (n_dev s')"
proof (induction rs arbitrary: s)
  case (Cons r rs)
  then obtain s1 where "peer_timer L E r s = Some s1" "peer_timers L E rs s1 = Some s'" by (auto split: bind_splits)
  then show ?case using Cons.IH frame_peer_timer frame_trans by blast
qed simp

lemma frame_mtu: "frame (d\<lparr>d_mtu := m\<rparr>) d' = frame d d'"
  by (simp add: frame_def)

lemma frame_timer_handler: "timer_handler L X E d = Some (a, s) \<Longrightarrow> frame d (n_dev s)"
  by (auto simp: timer_handler_def Let_def split: if_splits option.splits dest!: frame_peer_timers
      simp: frame_mtu)

lemma frame_after_eof: "after_eof fd ev d = Some (n, d') \<Longrightarrow> frame d d'"
  by (auto simp: after_eof_def split: if_splits)

lemma frame_shutdown_all: "frame d (fold (\<lambda>(_, r) d. let (s, p) = shutdown_endpoint (d_heap d ! r) in close_conn s (put_peer r p d)) kvs d)"
proof (induction kvs arbitrary: d)
  case (Cons kv kvs)
  obtain k r where kv: "kv = (k, r)" by (cases kv)
  obtain s p where sh: "shutdown_endpoint (d_heap d ! r) = (s, p)" by fastforce
  have "frame d (close_conn s (put_peer r p d))"
    using shutdown_endpoint_frame [OF sh] by (simp add: frame_put_peer peer_frame_endpoint)
  then show ?case using Cons.IH [of "close_conn s (put_peer r p d)"] frame_trans by (fastforce simp: kv sh)
qed simp

lemma frame_shutdown_peers: "frame d d' \<Longrightarrow> frame d (shutdown_peers d')"
  unfolding shutdown_peers_def using frame_shutdown_all frame_trans by blast

lemma frame_clear_fd: "clear_fd s d = Some d' \<Longrightarrow> frame d d'"
  by (auto simp: clear_fd_def split: option.splits)

lemma frame_clear_connections: "clear_connections cs d = Some d' \<Longrightarrow> frame d d'"
proof (induction cs d rule: clear_connections.induct)
  case (2 a fd cs d)
  then obtain d1 where "clear_fd (Some fd) d = Some d1" "clear_connections cs d1 = Some d'" by (auto split: bind_splits)
  then show ?case using 2 frame_clear_fd frame_trans by blast
qed simp

lemma frame_close_listen:
  assumes "close_listen_sockets d = Some d'"
  shows "frame d d'"
proof -
  obtain d1 d2 d3 d4 where s: "clear_fd (d_udp4 d) (d\<lparr>d_udp4 := None\<rparr>) = Some d1"
    "clear_fd (d_udp6 d1) (d1\<lparr>d_udp6 := None\<rparr>) = Some d2"
    "clear_fd (d_tcp_listener d2) (d2\<lparr>d_tcp_listener := None\<rparr>) = Some d3"
    "clear_connections (d_tcp_connections d3) (d3\<lparr>d_tcp_connections := []\<rparr>) = Some d4"
    "d' = shutdown_peers d4"
    using assms by (auto simp: close_listen_sockets_def split: bind_splits)
  have "frame d (d\<lparr>d_udp4 := None\<rparr>)" by simp
  also have "frame (d\<lparr>d_udp4 := None\<rparr>) d1" by (rule frame_clear_fd [OF s(1)])
  also have "frame d1 (d1\<lparr>d_udp6 := None\<rparr>)" by simp
  also have "frame (d1\<lparr>d_udp6 := None\<rparr>) d2" by (rule frame_clear_fd [OF s(2)])
  also have "frame d2 (d2\<lparr>d_tcp_listener := None\<rparr>)" by simp
  also have "frame (d2\<lparr>d_tcp_listener := None\<rparr>) d3" by (rule frame_clear_fd [OF s(3)])
  also have "frame d3 (d3\<lparr>d_tcp_connections := []\<rparr>)" by simp
  also have "frame (d3\<lparr>d_tcp_connections := []\<rparr>) d4" by (rule frame_clear_connections [OF s(4)])
  finally show ?thesis unfolding s(5) by (rule frame_shutdown_peers)
qed

lemma frame_open_udp:
  assumes "open_udp_sockets X port d = (r, d')"
  shows "frame d d'"
  using assms by (auto simp: open_udp_sockets_def Let_def split: option.splits prod.splits if_splits
      dest!: frame_add_event intro!: frame_shutdown_peers elim: frame_trans)

lemma frame_open_listen_socket:
  assumes "open_listen_socket X port d = Some (r, d')"
  shows "frame d d'"
proof -
  obtain d1 where d1: "close_listen_sockets d = Some d1" using assms by (auto simp: open_listen_socket_def split: bind_splits)
  have "frame d1 d'"
    using assms d1 frame_open_udp [of X port d1 r d']
    by (auto simp: open_listen_socket_def open_tcp_listener_def split: if_splits option.splits)
  then show ?thesis using frame_close_listen [OF d1] frame_trans by blast
qed

lemma frame_set_fwmark: "set_fwmark X m d = (r, d') \<Longrightarrow> frame d d'"
  by (auto simp: set_fwmark_def Let_def split: if_splits)

lemmas handler_frames = frame_udp_handler frame_plain_handler frame_conn_handler frame_tcp_handler frame_tcp_accept frame_iface_handler
  frame_timer_handler frame_after_eof frame_open_listen_socket frame_set_fwmark

end
