(* ===== verification/Device_Reach.thy ===== *)
theory Device_Reach
  imports Device_Tables
begin

text \<open>
  The configuration operations keep the tables consistent, the devices that can be reached, and the
  properties of the tables.
\<close>

section \<open>Configuration operations\<close>

definition libs_ok :: "('n, 't, 'u) libs \<Rightarrow> bool" where
  "libs_ok L \<longleftrightarrow> table_ok (lib_routes L) \<and> table_ok (lib_allowed L)"

lemma tables_ok_clear: "tables_ok L d \<Longrightarrow> libs_ok L \<Longrightarrow> tables_ok L (clear_peers L d)"
  using tables_okD(8) [of L d] issued_subset [of "d_next_index d" "dom (hm_get (d_peers_by_idx d))" "{}"]
  by (simp add: tables_ok_def clear_peers_def ips_clear_def hm.one_key_def libs_ok_def ok_new)

lemma remove_peer_tables:
  assumes r: "hm_get (d_peers d) k = Some r"
  shows "d_peers (remove_peer L k d) = hm_remove k (d_peers d)"
    and "d_peers_by_idx (remove_peer L k d) = hm_remove (p_index (d_heap d ! r)) (d_peers_by_idx d)"
    and "d_peers_by_ip (remove_peer L k d) = ips_remove (lib_routes L) (\<lambda>r'. r' = r) (d_peers_by_ip d)"
    and "d_next_index (remove_peer L k d) = d_next_index d"
    and "list_all2 peer_frame (d_heap d) (d_heap (remove_peer L k d))"
proof -
  let ?p = "(d_heap d ! r)\<lparr>p_endpoint := (p_endpoint (d_heap d ! r))\<lparr>ep_conn := None\<rparr>\<rparr>"
  have "frame d (put_peer r ?p d)" by (rule frame_put_peer) (simp add: peer_frame_def)
  then have "list_all2 peer_frame (d_heap d) ((d_heap d)[r := ?p])" by (simp add: frame_def)
  with r show "d_peers (remove_peer L k d) = hm_remove k (d_peers d)"
    "d_peers_by_idx (remove_peer L k d) = hm_remove (p_index (d_heap d ! r)) (d_peers_by_idx d)"
    "d_peers_by_ip (remove_peer L k d) = ips_remove (lib_routes L) (\<lambda>r'. r' = r) (d_peers_by_ip d)"
    "d_next_index (remove_peer L k d) = d_next_index d"
    "list_all2 peer_frame (d_heap d) (d_heap (remove_peer L k d))"
    by (simp_all add: remove_peer_def shutdown_endpoint_def close_conn_def Let_def split: option.split)
qed

lemma tables_ok_remove:
  assumes ok: "tables_ok L d" and L: "libs_ok L"
  shows "tables_ok L (remove_peer L k d)"
proof (cases "hm_get (d_peers d) k")
  case None
  then show ?thesis using ok by (simp add: remove_peer_def)
next
  case (Some r)
  note tabs = remove_peer_tables [OF Some, of L]
  let ?d = "remove_peer L k d" and ?i = "p_index (d_heap d ! r)"
  have one: "hm.one_key (d_peers d)" by (rule tables_okD(1) [OF ok])
  have frame: "peer_frame (d_heap d ! r') (d_heap ?d ! r')" if "r' < length (d_heap d)" for r'
    using list_all2_nthD [OF tabs(5) that] .
  have len: "length (d_heap ?d) = length (d_heap d)" using list_all2_lengthD [OF tabs(5)] by simp
  have holds: "hm.holds (d_peers ?d) r' \<longleftrightarrow> hm.holds (d_peers d) r' \<and> r' \<noteq> r" for r'
    unfolding tabs(1) by (rule hm.holds_del [OF one Some])
  have idx: "hm_get (d_peers_by_idx ?d) j = (if j = ?i then None else hm_get (d_peers_by_idx d) j)" for j
    unfolding tabs(2) by (rule hm.get_del)
  show ?thesis
    unfolding tables_ok_def
  proof (intro conjI allI impI)
    fix k' r'
    assume g': "hm_get (d_peers ?d) k' = Some r'"
    then have g: "hm_get (d_peers d) k' = Some r'" and kk: "k' \<noteq> k" by (auto simp: tabs(1) hm.get_del split: if_splits)
    have lt: "r' < length (d_heap d)" by (rule tables_okD(2) [OF ok g])
    show "r' < length (d_heap ?d)" using lt len by simp
    have rr: "r' \<noteq> r" using hm.one_keyD [OF one g, of k] Some kk by auto
    have "p_index (d_heap d ! r') \<noteq> ?i"
      using tables_okD(3) [OF ok g] tables_okD(3) [OF ok Some] rr by auto
    then show "hm_get (d_peers_by_idx ?d) (p_index (d_heap ?d ! r')) = Some r'"
      using tables_okD(3) [OF ok g] frame [OF lt] by (simp add: idx peer_frame_def)
    show "tunn_named k' (p_index (d_heap ?d ! r')) (p_tunnel (d_heap ?d ! r'))"
      using tables_okD(4) [OF ok g] frame [OF lt] by (simp add: peer_frame_def)
  next
    fix i r'
    assume "hm_get (d_peers_by_idx ?d) i = Some r'"
    then have g: "hm_get (d_peers_by_idx d) i = Some r'" and i: "i \<noteq> ?i" by (auto simp: idx split: if_splits)
    have rr: "r' \<noteq> r" using tables_okD(6) [OF ok g] i by auto
    show "hm.holds (d_peers ?d) r'" using tables_okD(5) [OF ok g] rr by (simp add: holds)
    obtain k' where "hm_get (d_peers d) k' = Some r'" using tables_okD(5) [OF ok g] by (auto simp: hm.holds_def)
    then show "p_index (d_heap ?d ! r') = i"
      using frame tables_okD(2) [OF ok] tables_okD(6) [OF ok g] by (simp add: peer_frame_def)
  next
    fix n r'
    assume "(n, r') \<in> set (tb_iter (lib_routes L) (d_peers_by_ip ?d))"
    then have "(n, r') \<in> set (tb_iter (lib_routes L) (d_peers_by_ip d))" "r' \<noteq> r"
      using L by (auto simp: tabs(3) ips_remove_def libs_ok_def ok_retain)
    then show "hm.holds (d_peers ?d) r'" using tables_okD(7) [OF ok] by (simp add: holds)
  next
    show "issued (d_next_index ?d) (dom (hm_get (d_peers_by_idx ?d)))"
      unfolding tabs(4) by (rule issued_subset [OF tables_okD(8) [OF ok]]) (auto simp: idx split: if_splits)
  qed (use tables_okD(9,10) [OF ok] one in \<open>simp_all add: tabs(1,2) hm_remove_distinct hm.one_key_del\<close>)
qed

lemma insert_all_entries:
  assumes T: "table_ok T"
  shows "ips_insert_all T xs t = Some t' \<Longrightarrow> (n, v) \<in> set (tb_iter T t') \<Longrightarrow>
    (n, v) \<in> set (tb_iter T t) \<or> v \<in> snd ` set xs"
proof (induction xs arbitrary: t)
  case (Cons x xs)
  obtain ip w where x: "x = (ip, w)" by (cases x)
  obtain m o1 t1 where t1: "tb_insert T m w t = (o1, t1)" and rest: "ips_insert_all T xs t1 = Some t'"
    using Cons.prems(1) by (auto simp: x ips_insert_def split: option.splits prod.splits)
  show ?case using Cons.IH [OF rest Cons.prems(2)] ok_insert [OF T, of m w t] by (auto simp: x t1)
qed simp

text \<open>The device after a peer was added, field by field.\<close>

lemma update_peer_added:
  assumes "update_peer L ts now le k remove rep ep as ka psk d = Some d'" and "\<not> remove"
    and "hm_get (d_peers d) k = None" and "d_key_pair d = Some (priv, pub)"
  obtains i g tn l p routes where "lfsr_next (d_next_index d) = Some (i, g)"
    "tunn_new (lib_crypto L) ts now le priv k psk ka i None = (tn, l)"
    "peer_new (lib_allowed L) tn (length (d_limiters d)) i ep as psk (cfg_transport_mode (d_config d)) = Some p"
    "ips_insert_all (lib_routes L) (map (\<lambda>ip. (ip, length (d_heap d))) as) (d_peers_by_ip d) = Some routes"
    "d' = d\<lparr>d_next_index := g, d_limiters := d_limiters d @ [l], d_heap := d_heap d @ [p],
      d_peers := hm_insert k (length (d_heap d)) (d_peers d),
      d_peers_by_idx := hm_insert i (length (d_heap d)) (d_peers_by_idx d), d_peers_by_ip := routes\<rparr>"
proof -
  obtain i g where n: "lfsr_next (d_next_index d) = Some (i, g)"
    using assms by (auto simp: update_peer_def device_next_index_def split: bind_splits)
  obtain tn l where t: "tunn_new (lib_crypto L) ts now le priv k psk ka i None = (tn, l)" by fastforce
  show ?thesis
    using assms n t that [OF n t] by (auto simp: update_peer_def device_next_index_def Let_def split: bind_splits)
qed

lemma issued_restep: "lfsr_next g = Some (i, g') \<Longrightarrow> issued g I \<Longrightarrow> issued g' I"
  using issued_next issued_subset by blast

lemma update_peer_cases:
  assumes up: "update_peer L ts now le k remove rep ep as ka psk d = Some d'"
  obtains (removed) "remove" "d' = remove_peer L k d"
    | (present) "\<not> remove" "d' = d"
    | (no_key) i g where "\<not> remove" "lfsr_next (d_next_index d) = Some (i, g)" "d' = d\<lparr>d_next_index := g\<rparr>"
    | (added) priv pub where "\<not> remove" "hm_get (d_peers d) k = None" "d_key_pair d = Some (priv, pub)"
proof (cases remove)
  case True
  then show ?thesis using up removed by (simp add: update_peer_def)
next
  case False
  show ?thesis
  proof (cases "hm_get (d_peers d) k")
    case (Some r)
    then show ?thesis using up False present by (simp add: update_peer_def)
  next
    case None
    show ?thesis
    proof (cases "d_key_pair d")
      case None
      with up False \<open>hm_get (d_peers d) k = None\<close> obtain i g where
        "lfsr_next (d_next_index d) = Some (i, g)" "d' = d\<lparr>d_next_index := g\<rparr>"
        by (auto simp: update_peer_def device_next_index_def split: bind_splits)
      then show ?thesis using False no_key by blast
    next
      case (Some kp)
      then show ?thesis using False None added by (cases kp) blast
    qed
  qed
qed

lemma tables_ok_add:
  assumes ok: "tables_ok L d" and L: "libs_ok L"
    and up: "update_peer L ts now le k remove rep ep as ka psk d = Some d'" "\<not> remove"
      "hm_get (d_peers d) k = None" "d_key_pair d = Some (priv, pub)"
  shows "tables_ok L d'"
proof -
  let ?r = "length (d_heap d)"
  obtain i g tn l p routes where n: "lfsr_next (d_next_index d) = Some (i, g)"
    and t: "tunn_new (lib_crypto L) ts now le priv k psk ka i None = (tn, l)"
    and p: "peer_new (lib_allowed L) tn (length (d_limiters d)) i ep as psk (cfg_transport_mode (d_config d)) = Some p"
    and rt: "ips_insert_all (lib_routes L) (map (\<lambda>ip. (ip, ?r)) as) (d_peers_by_ip d) = Some routes"
    and d': "d' = d\<lparr>d_next_index := g, d_limiters := d_limiters d @ [l], d_heap := d_heap d @ [p],
      d_peers := hm_insert k ?r (d_peers d), d_peers_by_idx := hm_insert i ?r (d_peers_by_idx d), d_peers_by_ip := routes\<rparr>"
    by (rule update_peer_added [OF up])
  note fresh = issued_next [OF n tables_okD(8) [OF ok]]
  then have i_new: "hm_get (d_peers_by_idx d) i = None" by (simp add: domIff)
  have pf: "p_index p = i" "p_tunnel p = tn" using peer_new_fields [OF p] by simp_all
  have r_new: "\<not> hm.holds (d_peers d) ?r" using tables_okD(2) [OF ok] by (fastforce simp: hm.holds_def)
  have peers: "hm_get (d_peers d') j = (if j = k then Some ?r else hm_get (d_peers d) j)" for j
    unfolding d' by (simp add: AList.update_conv')
  have idx: "hm_get (d_peers_by_idx d') j = (if j = i then Some ?r else hm_get (d_peers_by_idx d) j)" for j
    unfolding d' by (simp add: AList.update_conv')
  have holds: "hm.holds (d_peers d') r \<longleftrightarrow> r = ?r \<or> hm.holds (d_peers d) r" for r
    using hm.holds_put [OF up(3), of ?r r] by (simp add: d')
  have old: "d_heap d' ! r = d_heap d ! r" if "r < ?r" for r using that by (simp add: d' nth_append)
  have new: "d_heap d' ! ?r = p" by (simp add: d')
  show ?thesis
    unfolding tables_ok_def
  proof (intro conjI allI impI)
    fix k' r
    assume g: "hm_get (d_peers d') k' = Some r"
    have "r = ?r \<or> r < ?r" using g tables_okD(2) [OF ok, of k' r] by (auto simp: peers split: if_splits)
    then show "r < length (d_heap d')" by (auto simp: d')
    show "hm_get (d_peers_by_idx d') (p_index (d_heap d' ! r)) = Some r"
    proof (cases "k' = k")
      case False
      then have g: "hm_get (d_peers d) k' = Some r" using g by (simp add: peers)
      then show ?thesis using tables_okD(2,3) [OF ok g] old i_new by (auto simp: idx)
    qed (use g new pf in \<open>simp add: peers idx\<close>)
    show "tunn_named k' (p_index (d_heap d' ! r)) (p_tunnel (d_heap d' ! r))"
    proof (cases "k' = k")
      case False
      then have g: "hm_get (d_peers d) k' = Some r" using g by (simp add: peers)
      then show ?thesis using tables_okD(2,4) [OF ok g] old by simp
    qed (use g new pf fresh named_tunn_new [OF t] in \<open>simp add: peers\<close>)
  next
    fix j r
    assume g: "hm_get (d_peers_by_idx d') j = Some r"
    show "hm.holds (d_peers d') r" using g tables_okD(5) [OF ok] by (auto simp: idx holds split: if_splits)
    show "p_index (d_heap d' ! r) = j"
    proof (cases "j = i")
      case False
      then have g: "hm_get (d_peers_by_idx d) j = Some r" using g by (simp add: idx)
      then obtain k' where "hm_get (d_peers d) k' = Some r" using tables_okD(5) [OF ok g] by (auto simp: hm.holds_def)
      then show ?thesis using tables_okD(2,6) [OF ok] g old by simp
    qed (use g new pf in \<open>simp add: idx\<close>)
  next
    fix n r
    assume "(n, r) \<in> set (tb_iter (lib_routes L) (d_peers_by_ip d'))"
    then have "(n, r) \<in> set (tb_iter (lib_routes L) routes)" by (simp add: d')
    moreover have "table_ok (lib_routes L)" using L by (simp add: libs_ok_def)
    ultimately have "(n, r) \<in> set (tb_iter (lib_routes L) (d_peers_by_ip d)) \<or> r \<in> snd ` set (map (\<lambda>ip. (ip, ?r)) as)"
      using insert_all_entries [OF _ rt] by blast
    then have "(n, r) \<in> set (tb_iter (lib_routes L) (d_peers_by_ip d)) \<or> r = ?r" by auto
    then show "hm.holds (d_peers d') r" using tables_okD(7) [OF ok] by (auto simp: holds)
  next
    show "issued (d_next_index d') (dom (hm_get (d_peers_by_idx d')))"
      using fresh by (simp add: d' AList.update_conv')
    show "hm.one_key (d_peers d')" using hm.one_key_put [OF tables_okD(1) [OF ok] r_new] by (simp add: d')
  qed (use tables_okD(9,10) [OF ok] in \<open>simp_all add: d' hm_insert_distinct\<close>)
qed

lemma tables_ok_update:
  assumes ok: "tables_ok L d" and L: "libs_ok L"
    and up: "update_peer L ts now le k remove rep ep as ka psk d = Some d'"
  shows "tables_ok L d'"
  using up
proof (cases rule: update_peer_cases)
  case (no_key i g)
  have "issued g (dom (hm_get (d_peers_by_idx d)))" by (rule issued_restep [OF no_key(2) tables_okD(8) [OF ok]])
  then show ?thesis using ok by (simp add: no_key(3) tables_ok_def)
next
  case (added priv pub)
  then show ?thesis using tables_ok_add [OF ok L up] by blast
qed (use ok L in \<open>simp_all add: tables_ok_remove\<close>)

lemma rekey_frame:
  "rekey_peers L le priv pub rl l rs heap = Some heap' \<Longrightarrow> list_all2 peer_frame heap heap'"
proof (induction rs arbitrary: heap)
  case Nil
  then show ?case by (simp add: list.rel_refl)
next
  case (Cons r rs)
  let ?p = "heap ! r"
  obtain t x where t: "tunn_set_static_private (lib_crypto L) le priv pub (Some rl) (p_tunnel ?p) = Some (t, x)"
    and rest: "rekey_peers L le priv pub rl l rs (heap[r := ?p\<lparr>p_tunnel := t, p_limiter := l\<rparr>]) = Some heap'"
    using Cons.prems by (auto split: bind_splits)
  have "peer_frame ?p (?p\<lparr>p_tunnel := t, p_limiter := l\<rparr>)"
    by (simp add: peer_frame_def named_tunn_set_static_private [OF t])
  then have "list_all2 peer_frame heap (heap[r := ?p\<lparr>p_tunnel := t, p_limiter := l\<rparr>])"
    by (simp add: list_all2_conv_all_nth) (metis nth_list_update_eq nth_list_update_neq peer_frame_refl)
  then show ?case using Cons.IH [OF rest] by (auto simp: list_all2_conv_all_nth intro: peer_frame_trans)
qed

lemma frame_set_key: "set_key L le k d = Some d' \<Longrightarrow> frame d d'"
  by (auto simp: set_key_def Let_def frame_def list.rel_refl split: if_splits prod.splits bind_splits dest: rekey_frame)

section \<open>Reachable devices\<close>

text \<open>
  Everything a running device does: configuration requests and events of its handlers, in any order.
  What the surroundings give (clock, random numbers, operating system) is new in every step.
\<close>

inductive dev_reach :: "('n, 't, 'u) libs \<Rightarrow> ('t, 'u) device \<Rightarrow> bool" for L where
  reach_new: "device_new L X fds ifd mtu rs config = Some (Inr d) \<Longrightarrow> dev_reach L d"
| reach_update: "dev_reach L d \<Longrightarrow> update_peer L ts now le k remove rep ep as ka psk d = Some d' \<Longrightarrow> dev_reach L d'"
| reach_set_key: "dev_reach L d \<Longrightarrow> set_key L le priv d = Some d' \<Longrightarrow> dev_reach L d'"
| reach_clear: "dev_reach L d \<Longrightarrow> dev_reach L (clear_peers L d)"
| reach_fwmark: "dev_reach L d \<Longrightarrow> set_fwmark X mark d = (res, d') \<Longrightarrow> dev_reach L d'"
| reach_listen: "dev_reach L d \<Longrightarrow> open_listen_socket X port d = Some (res, d') \<Longrightarrow> dev_reach L d'"
| reach_udp: "dev_reach L d \<Longrightarrow> udp_handler L X E batches d = Some (a, s) \<Longrightarrow> dev_reach L (n_dev s)"
| reach_plain: "dev_reach L d \<Longrightarrow> plain_udp_handler L X E ds d = Some (a, s) \<Longrightarrow> dev_reach L (n_dev s)"
| reach_conn: "dev_reach L d \<Longrightarrow> conn_handler L E r sock ip received d = Some (a, s) \<Longrightarrow> dev_reach L (n_dev s)"
| reach_tcp: "dev_reach L d \<Longrightarrow> tcp_handler L X E sock ep k arrived closed f d = Some (a, s, f', rest) \<Longrightarrow>
    dev_reach L (n_dev s)"
| reach_accept: "dev_reach L d \<Longrightarrow> tcp_accept X sock addr nb dup d = Some d' \<Longrightarrow> dev_reach L d'"
| reach_iface: "dev_reach L d \<Longrightarrow> iface_handler L X E reads d = Some (a, s) \<Longrightarrow> dev_reach L (n_dev s)"
| reach_limiter: "dev_reach L d \<Longrightarrow> dev_reach L (limiter_timer now d)"
| reach_timers: "dev_reach L d \<Longrightarrow> timer_handler L X E d = Some (a, s) \<Longrightarrow> dev_reach L (n_dev s)"
| reach_eof: "dev_reach L d \<Longrightarrow> after_eof fd ev d = Some (n, d') \<Longrightarrow> dev_reach L d'"

lemma device_new_fields:
  assumes "device_new L X fds ifd mtu rs config = Some (Inr d)"
  shows "d_peers d = [] \<and> d_peers_by_idx d = [] \<and> d_peers_by_ip d = ips_new (lib_routes L) \<and>
    issued (d_next_index d) {}"
proof -
  obtain g rs' where g: "lfsr_default rs = Some (g, rs')"
    using assms by (auto simp: device_new_def split: bind_splits)
  obtain yf ef f1 f2 where fds: "fds = (yf, ef, f1, f2)" by (cases fds)
  obtain ok d0 where d0: "add_event X ifd HIface (device_init L config mtu g) = (ok, d0)" by fastforce
  have tabs: "d_peers d0 = [] \<and> d_peers_by_idx d0 = [] \<and> d_peers_by_ip d0 = ips_new (lib_routes L) \<and> d_next_index d0 = g"
    using d0 by (auto simp: add_event_def device_init_def split: prod.splits)
  obtain d1 where d1: "register_notifiers X yf ef d0 = Inr d1" "register_timers X f1 f2 d1 = Inr d"
    using assms g d0 by (auto simp: device_new_def fds split: if_splits sum.splits)
  have "d_peers d = d_peers d0 \<and> d_peers_by_idx d = d_peers_by_idx d0 \<and> d_peers_by_ip d = d_peers_by_ip d0 \<and>
      d_next_index d = d_next_index d0"
    using d1 by (auto simp: register_notifiers_def register_timers_def split: prod.splits option.splits)
  then show ?thesis using tabs issued_default [OF g] by simp
qed

lemma tables_ok_new:
  "device_new L X fds ifd mtu rs config = Some (Inr d) \<Longrightarrow> libs_ok L \<Longrightarrow> tables_ok L d"
  by (drule device_new_fields) (simp add: tables_ok_def hm.one_key_def libs_ok_def ips_new_def ok_new)

lemma reach_tables_ok: "dev_reach L d \<Longrightarrow> libs_ok L \<Longrightarrow> tables_ok L d"
proof (induction rule: dev_reach.induct)
  case (reach_limiter d now)
  then show ?case using tables_ok_frame frame_limiter_timer by blast
qed (auto intro: tables_ok_new tables_ok_update tables_ok_clear
    tables_ok_frame [OF _ frame_set_key] tables_ok_frame [OF _ frame_set_fwmark]
    tables_ok_frame [OF _ frame_open_listen_socket] tables_ok_frame [OF _ frame_udp_handler]
    tables_ok_frame [OF _ frame_plain_handler] tables_ok_frame [OF _ frame_conn_handler] tables_ok_frame [OF _ frame_tcp_handler]
    tables_ok_frame [OF _ frame_tcp_accept] tables_ok_frame [OF _ frame_iface_handler]
    tables_ok_frame [OF _ frame_timer_handler] tables_ok_frame [OF _ frame_after_eof])

end
