(* ===== verification/Tunn_Safety.thy ===== *)
theory Tunn_Safety
  imports Tunn_Invariant
begin

text \<open>
  A tunnel as a state machine: the events its driver delivers, the states they reach under a clock
  that does not run backwards, the invariant of those states, and that no event panics in them.
\<close>

section \<open>What ends up in the queue\<close>

abbreviation queued :: "tunn \<Rightarrow> bytes set" where
  "queued t \<equiv> set (packet_queue t)"

lemma queued_frames [simp]:
  "packet_queue (timer_tick n t) = packet_queue t"
  "packet_queue (timer_tick_session_established b i t) = packet_queue t"
  "packet_queue (set_current_session i t) = packet_queue t"
  by (simp_all add: timer_tick_def timer_tick_session_established_def set_current_session_def Let_def)

lemma queued_format: "tunn_format_handshake_initiation C env n f t = (r, t') \<Longrightarrow> packet_queue t' = packet_queue t"
  by (auto simp: tunn_format_handshake_initiation_def Let_def split_beta split: if_splits sum.splits)

lemma queued_queue: "queued (queue_packet p t) \<subseteq> insert p (queued t)"
  by (auto simp: queue_packet_def)

lemma queued_encapsulate:
  assumes "encapsulate C env src n t = Some (r, t')"
  shows "queued t' \<subseteq> insert src (queued t)"
proof (cases "sessions t ! (current t mod N_SESSIONS)")
  case None
  then show ?thesis using assms queued_queue [of src t] queued_format [of C env n False "queue_packet src t" r t']
    by (simp add: encapsulate_def)
next
  case (Some s)
  with assms have "packet_queue t' = packet_queue t" by (auto simp: encapsulate_def Let_def split: bind_splits)
  then show ?thesis by auto
qed

lemma queued_send: "send_queued_packet C env n t = Some (r, t') \<Longrightarrow> queued t' \<subseteq> queued t"
proof -
  assume a: "send_queued_packet C env n t = Some (r, t')"
  show ?thesis
  proof (cases "packet_queue t")
    case Nil
    with a show ?thesis by (simp add: send_queued_packet_def dequeue_packet_def)
  next
    case (Cons p ps)
    with a obtain r2 t2 where e: "encapsulate C env p n (t\<lparr>packet_queue := ps\<rparr>) = Some (r2, t2)"
        "t' = (case r2 of TErr _ \<Rightarrow> requeue_packet p t2 | _ \<Rightarrow> t2)"
      by (auto simp: send_queued_packet_def dequeue_packet_def split: bind_splits tunn_result.splits)
    from queued_encapsulate [OF e(1)] have "queued t2 \<subseteq> queued t" by (auto simp: Cons)
    moreover have "queued (requeue_packet p t2) \<subseteq> insert p (queued t2)" by (auto simp: requeue_packet_def)
    ultimately show ?thesis using e(2) by (auto simp: Cons split: tunn_result.splits)
  qed
qed

lemma queued_validate: "validate_decapsulated_packet p t = (r, t') \<Longrightarrow> packet_queue t' = packet_queue t"
  by (auto simp: validate_decapsulated_packet_def Let_def split: if_splits option.splits ip_addr.splits)

lemma queued_verified: "handle_verified_packet C env p n t = Some (r, t') \<Longrightarrow> packet_queue t' = packet_queue t"
  by (auto simp: handle_verified_packet_def handle_handshake_init_def handle_handshake_response_def
      handle_cookie_reply_def handle_data_def Let_def queued_validate
      split: packet.splits bind_splits sum.splits prod.splits option.splits)

lemma queued_decapsulate: "decapsulate C env a d n t rl = Some (r, t', rl') \<Longrightarrow> queued t' \<subseteq> queued t"
  by (auto simp: decapsulate_def split: if_splits bind_splits prod.splits sum.splits tunn_result.splits
      dest: queued_send queued_verified)

lemma queued_demands: "timer_demands now t = Some (i, k, t') \<Longrightarrow> packet_queue t' = packet_queue t"
  using timer_demands_effect by (simp add: only_ticked_def)

lemma queued_expire: "packet_queue (expire_tunn now t) = []"
  by (simp add: expire_tunn_def clear_all_def)

lemma queued_action:
  assumes "timer_action C env n now t = Some (r, t')"
  shows "queued t' \<subseteq> insert [] (queued t)"
proof -
  consider "t' = expire_tunn (e_clear env) t" | "t' = t"
    | "tunn_format_handshake_initiation C env n True t = (r, t')"
    | i k t1 where "timer_demands now t = Some (i, k, t1)"
        "t' = t1 \<or> tunn_format_handshake_initiation C env n True t1 = (r, t') \<or> encapsulate C env [] n t1 = Some (r, t')"
    using assms by (auto simp: timer_action_def split: bind_splits if_splits option.splits)
  then show ?thesis
  proof cases
    case 4
    then show ?thesis
      using queued_demands [OF 4(1)] queued_format [of C env n True t1 r t'] queued_encapsulate [of C env "[]" n t1 r t']
      by auto
  qed (auto simp: queued_expire dest: queued_format)
qed

lemma queued_session_timers: "update_session_timers now t = Some t' \<Longrightarrow> packet_queue t' = packet_queue t"
  by (auto simp: update_session_timers_def split: bind_splits)

lemma queued_update: "update_timers C env n t rl = Some (r, t', rl') \<Longrightarrow> queued t' \<subseteq> insert [] (queued t)"
  by (auto simp: update_timers_def Let_def split: bind_splits if_splits
      dest!: queued_session_timers queued_action)

section \<open>The state machine\<close>

text \<open>What the driver of a tunnel does with it: a packet of the interface, a datagram (or the empty
  one that drains the queue), the periodic timer update, a forced handshake, a new private key.\<close>

datatype tunn_event =
    Encapsulate bytes
  | Decapsulate "ip_addr option" bytes
  | UpdateTimers
  | InitiateHandshake bool
  | SetKey bytes limiter_env "rate_limiter option"

fun tunn_step :: "crypto \<Rightarrow> nat \<Rightarrow> env \<Rightarrow> tunn_event \<Rightarrow> tunn \<Rightarrow> rate_limiter \<Rightarrow> (tunn_result \<times> tunn \<times> rate_limiter) option" where
  "tunn_step C n env (Encapsulate src) t rl = map_option (\<lambda>(r, t'). (r, t', rl)) (encapsulate C env src n t)"
| "tunn_step C n env (Decapsulate a d) t rl = decapsulate C env a d n t rl"
| "tunn_step C n env UpdateTimers t rl = update_timers C env n t rl"
| "tunn_step C n env (InitiateHandshake f) t rl =
     (case tunn_format_handshake_initiation C env n f t of (r, t') \<Rightarrow> Some (r, t', rl))"
| "tunn_step C n env (SetKey priv le new_rl) t rl =
     map_option (\<lambda>(t', rl'). (TDone, t', rl')) (tunn_set_static_private C le priv (x25519_public C priv) new_rl t)"

text \<open>The buffer of \<open>n\<close> bytes is large enough for the event, as the documentation of the operations asks.\<close>

fun event_ok :: "nat \<Rightarrow> tunn_event \<Rightarrow> bool" where
  "event_ok n (Encapsulate src) \<longleftrightarrow> length src + 32 \<le> n"
| "event_ok n (Decapsulate a d) \<longleftrightarrow> length d \<le> n"
| "event_ok n _ \<longleftrightarrow> True"

inductive tunn_reach :: "crypto \<Rightarrow> nat \<Rightarrow> tunn \<Rightarrow> rate_limiter \<Rightarrow> duration \<Rightarrow> bool" for C n where
  reach_new: "wf_instant now \<Longrightarrow> tunn_new C ts now le priv peer psk k i orl = (t, rl) \<Longrightarrow> tunn_reach C n t rl 0"
| reach_step: "tunn_reach C n t rl lo \<Longrightarrow> event_ok n ev \<Longrightarrow>
    lo \<le> duration_since (e_time env) (time_started (tn_timers t)) \<Longrightarrow>
    duration_since (e_time env) (time_started (tn_timers t)) \<le> duration_since (e_clear env) (time_started (tn_timers t)) \<Longrightarrow>
    tunn_step C n env ev t rl = Some (r, t', rl') \<Longrightarrow>
    tunn_reach C n t' rl' (duration_since (e_clear env) (time_started (tn_timers t)))"

inductive_cases tunn_reachE: "tunn_reach C n t rl lo"

definition tunn_safe :: "nat \<Rightarrow> tunn \<Rightarrow> duration \<Rightarrow> bool" where
  "tunn_safe n t lo \<longleftrightarrow> tunn_inv t \<and> tm (tn_timers t) TimeCurrent \<le> lo \<and> (\<forall>p \<in> queued t. length p + 32 \<le> n)"

lemma safe_step_returns:
  assumes ok: "crypto_ok C" and n: "64 \<le> n" and safe: "tunn_safe n t lo" and ev: "event_ok n ev"
    and lo: "lo \<le> duration_since (e_time env) (time_started (tn_timers t))"
    and rd: "duration_since (e_time env) (time_started (tn_timers t)) \<le> duration_since (e_clear env) (time_started (tn_timers t))"
  shows "\<exists>r t' rl'. tunn_step C n env ev t rl = Some (r, t', rl')"
proof (cases ev)
  case (Encapsulate src)
  then show ?thesis using encapsulate_returns [of src n C env t] ev by auto
next
  case (Decapsulate a d)
  have inv: "tunn_inv t" using safe by (simp add: tunn_safe_def)
  show ?thesis
  proof (cases "d = []")
    case True
    obtain p t1 where dq: "dequeue_packet t = (p, t1)" by fastforce
    then have p: "\<And>pk. p = Some pk \<Longrightarrow> length pk + 32 \<le> n"
      using safe by (auto simp: tunn_safe_def dequeue_packet_def split: list.splits)
    show ?thesis
    proof (cases p)
      case None
      with True dq Decapsulate show ?thesis by (simp add: decapsulate_def send_queued_packet_def)
    next
      case (Some pk)
      from encapsulate_returns [OF p [OF Some]] obtain r t2 where "encapsulate C env pk n t1 = Some (r, t2)" by blast
      with True dq Decapsulate Some show ?thesis
        by (simp add: decapsulate_def send_queued_packet_def split_beta)
    qed
  next
    case False
    obtain v rl1 where v: "verify_packet C (e_cookie env) a d COOKIE_REPLY_SZ rl = (v, rl1)" by fastforce
    show ?thesis
    proof (cases v)
      case (Inl x)
      with verify_refuses [OF ok, of "e_cookie env" a d COOKIE_REPLY_SZ rl x rl1] v False Decapsulate n
      show ?thesis by (auto simp: decapsulate_def)
    next
      case (Inr p)
      have parse: "parse_incoming_packet d = Inr p" using verify_parse v Inr by blast
      have "\<exists>r t'. handle_verified_packet C env p n t = Some (r, t')"
      proof (rule handle_verified_returns [OF ok parse_wf [OF parse] inv])
        fix q assume "p = PacketData q"
        with parse_data_bytes [of d q] parse have "length (pd_payload q) \<le> length d" by (metis length_append le_add2 add.assoc)
        with ev Decapsulate show "length (pd_payload q) \<le> n" by simp
      qed (use n in simp)
      with v Inr False Decapsulate show ?thesis by (auto simp: decapsulate_def)
    qed
  qed
next
  case UpdateTimers
  have "readings_ok env t" using safe lo rd by (simp add: readings_ok_def not_before_def tunn_safe_def)
  then show ?thesis using update_timers_returns [of t env n C rl] safe n UpdateTimers
    by (fastforce simp: tunn_safe_def)
next
  case (InitiateHandshake f)
  then show ?thesis by (simp add: split_beta)
next
  case (SetKey priv le new_rl)
  then show ?thesis
    by (simp add: tunn_set_static_private_def handshake_set_static_private_def params_set_static_private_def)
qed

lemma clock_frame_le:
  assumes "clock_frame env t t'" and "tm (tn_timers t) TimeCurrent \<le> lo"
    and "lo \<le> duration_since (e_time env) (time_started (tn_timers t))"
    and "duration_since (e_time env) (time_started (tn_timers t)) \<le> duration_since (e_clear env) (time_started (tn_timers t))"
  shows "tm (tn_timers t') TimeCurrent \<le> duration_since (e_clear env) (time_started (tn_timers t))"
  using assms by (auto simp: clock_frame_def)

lemma safe_step_preserves:
  assumes safe: "tunn_safe n t lo" and n: "32 \<le> n" and ev: "event_ok n ev"
    and lo: "lo \<le> duration_since (e_time env) (time_started (tn_timers t))"
    and rd: "duration_since (e_time env) (time_started (tn_timers t)) \<le> duration_since (e_clear env) (time_started (tn_timers t))"
    and step: "tunn_step C n env ev t rl = Some (r, t', rl')"
  shows "tunn_safe n t' (duration_since (e_clear env) (time_started (tn_timers t)))"
proof -
  have inv: "tunn_inv t" and cur: "tm (tn_timers t) TimeCurrent \<le> lo" and q: "\<forall>p \<in> queued t. length p + 32 \<le> n"
    using safe by (simp_all add: tunn_safe_def)
  have nb: "not_before t (e_clear env)" using cur lo rd by (simp add: not_before_def)
  note le = clock_frame_le [OF _ cur lo rd]
  show ?thesis
  proof (cases ev)
    case (Encapsulate src)
    then have e: "encapsulate C env src n t = Some (r, t')" using step by auto
    show ?thesis using inv_encapsulate [OF e inv nb] le [OF clock_encapsulate [OF e]] queued_encapsulate [OF e] q ev Encapsulate
      by (auto simp: tunn_safe_def)
  next
    case (Decapsulate a d)
    then have e: "decapsulate C env a d n t rl = Some (r, t', rl')" using step by auto
    show ?thesis using inv_decapsulate [OF e inv nb] le [OF clock_decapsulate [OF e]] queued_decapsulate [OF e] q
      by (auto simp: tunn_safe_def)
  next
    case UpdateTimers
    then have e: "update_timers C env n t rl = Some (r, t', rl')" using step by simp
    have "readings_ok env t" using lo rd cur by (simp add: readings_ok_def not_before_def)
    from update_timers_returns [OF inv this n, of C rl] e have "tunn_inv t'"
        "tm (tn_timers t') TimeCurrent \<le> duration_since (e_clear env) (time_started (tn_timers t))" by auto
    then show ?thesis using queued_update [OF e] q n by (auto simp: tunn_safe_def)
  next
    case (InitiateHandshake f)
    then have e: "tunn_format_handshake_initiation C env n f t = (r, t')" using step by (auto split: prod.splits)
    show ?thesis using inv_format_initiation [OF e inv nb] le [OF clock_format_initiation [OF e]] queued_format [OF e] q
      by (simp add: tunn_safe_def)
  next
    case (SetKey priv le new_rl)
    then have e: "tunn_set_static_private C le priv (x25519_public C priv) new_rl t = Some (t', rl')" using step by auto
    then have "packet_queue t' = packet_queue t" "tm (tn_timers t') = tm (tn_timers t)"
      by (auto simp: tunn_set_static_private_def split: bind_splits)
    then show ?thesis using inv_set_static_private [OF e inv] cur lo rd q by (simp add: tunn_safe_def)
  qed
qed

lemma reach_safe: "tunn_reach C n t rl lo \<Longrightarrow> 32 \<le> n \<Longrightarrow> tunn_safe n t lo"
proof (induction rule: tunn_reach.induct)
  case (reach_new now ts le priv peer psk k i orl t rl)
  then have "t = fst (tunn_new C ts now le priv peer psk k i orl)" by simp
  with reach_new(1) inv_new [OF reach_new(1), of C ts le priv peer psk k i orl] show ?case
    by (simp add: tunn_safe_def tunn_new_def timers_new_def Let_def)
next
  case (reach_step t rl lo ev env r t' rl')
  then show ?case using safe_step_preserves by blast
qed

text \<open>C4 A tunnel never panics and never breaks its invariant: in every state that any sequence of
  packets, datagrams, timer updates, forced handshakes and key changes reaches under a clock that
  does not run backwards, the session ring, the queue and the timers are well formed, no timer is
  ahead of the clock, and the next event, whatever it is, returns a result.\<close>

theorem tunnel_never_panics:
  assumes "crypto_ok C" and "tunn_reach C n t rl lo" and "64 \<le> n" and "event_ok n ev"
    and "lo \<le> duration_since (e_time env) (time_started (tn_timers t))"
    and "duration_since (e_time env) (time_started (tn_timers t)) \<le> duration_since (e_clear env) (time_started (tn_timers t))"
  shows "tunn_inv t \<and> tm (tn_timers t) TimeCurrent \<le> lo \<and> (\<exists>r t' rl'. tunn_step C n env ev t rl = Some (r, t', rl'))"
proof -
  have "tunn_safe n t lo" using reach_safe [OF assms(2)] assms(3) by simp
  with safe_step_returns [OF assms(1,3) this assms(4-6)] show ?thesis by (simp add: tunn_safe_def)
qed

definition toy_env :: "instant \<Rightarrow> env" where
  "toy_env r = \<lparr>e_eph = [7], e_stamp = r, e_sent = r, e_rtt = r, e_cookie = r, e_clear = r, e_time = r,
     e_reset = r, e_elapsed = r\<rparr>"

definition toy_tunn :: "tunn \<times> rate_limiter" where
  "toy_tunn = tunn_new toy_crypto (stamper_new 5 epoch) epoch ([1], [8], epoch, epoch) [1]
     (x25519_public toy_crypto [2]) None (Some 25) 3 None"

lemma toy_reach: "tunn_reach toy_crypto n (fst toy_tunn) (snd toy_tunn) 0"
  by (rule reach_new [of epoch toy_crypto "stamper_new 5 epoch" "([1], [8], epoch, epoch)" "[1]"
        "x25519_public toy_crypto [2]" None "Some 25" 3 None]) (simp_all add: toy_tunn_def epoch_def wf_instant_def NANOSECOND_def)

theorem tunnel_never_panics_witness:
  "tunn_inv (fst toy_tunn) \<and> tm (tn_timers (fst toy_tunn)) TimeCurrent \<le> 0 \<and>
    (\<exists>r t' rl'. tunn_step toy_crypto 200 (toy_env epoch) (Encapsulate [69, 0]) (fst toy_tunn) (snd toy_tunn) = Some (r, t', rl'))"
  by (rule tunnel_never_panics [OF toy_crypto_ok toy_reach]) (simp_all add: toy_env_def)

end
