(* ===== verification/Tunn_Behaviour.thy ===== *)
theory Tunn_Behaviour
  imports Tunn_Safety
begin

text \<open>
  What a tunnel does on its main branches: which data reaches the interface, when sessions and
  connections expire, when an initiation is retransmitted or given up, and how the queue moves.
\<close>

section \<open>Only authentic data reaches the interface\<close>

lemma validate_cases:
  assumes "validate_decapsulated_packet p t = (r, t')"
  shows "r = TDone \<or> r = TErr InvalidPacket \<or>
    (\<exists>k. k \<le> length p \<and> (r = WriteToTunnelV4 (take k p) (slice 12 16 p) \<or> r = WriteToTunnelV6 (take k p) (slice 8 24 p)))"
  using assms
  by (auto simp: validate_decapsulated_packet_def Let_def not_less split: if_splits)

lemma handle_data_authentic:
  assumes "handle_data C d n t = Some (Inr r, t')"
  shows "\<exists>s pt. sessions t ! (unat (pd_receiver_idx d) mod N_SESSIONS) = Some s \<and>
    pd_receiver_idx d = receiving_index s \<and> will_accept (receiving_key_counter s) (pd_counter d) = Inr () \<and>
    chacha_open C (receiver_key s) (counter_nonce (pd_counter d)) [] (pd_payload d) = Some pt \<and>
    (r = TDone \<or> r = TErr InvalidPacket \<or>
     (\<exists>k. k \<le> length pt \<and> (r = WriteToTunnelV4 (take k pt) (slice 12 16 pt) \<or> r = WriteToTunnelV6 (take k pt) (slice 8 24 pt))))"
proof -
  obtain s where s: "sessions t ! (unat (pd_receiver_idx d) mod N_SESSIONS) = Some s"
    using assms by (auto simp: handle_data_def Let_def split: option.splits)
  obtain pt s' where p: "receive_packet_data C d n s = Some (Inr pt, s')"
    using assms s by (auto simp: handle_data_def Let_def split: bind_splits sum.splits)
  obtain t2 t3 where v: "validate_decapsulated_packet pt t2 = (r, t3)"
    using assms s p by (auto simp: handle_data_def Let_def split: prod.splits)
  have "pd_receiver_idx d = receiving_index s" "will_accept (receiving_key_counter s) (pd_counter d) = Inr ()"
      "chacha_open C (receiver_key s) (counter_nonce (pd_counter d)) [] (pd_payload d) = Some pt"
    using p by (auto simp: receive_packet_data_def receiving_counter_quick_check_def
        split: if_splits sum.splits option.splits bind_splits)
  with s validate_cases [OF v] show ?thesis by blast
qed

text \<open>Sending never produces a packet for the interface.\<close>

fun for_interface :: "tunn_result \<Rightarrow> bool" where
  "for_interface (WriteToTunnelV4 _ _) \<longleftrightarrow> True"
| "for_interface (WriteToTunnelV6 _ _) \<longleftrightarrow> True"
| "for_interface _ \<longleftrightarrow> False"

lemma format_not_for_interface:
  "tunn_format_handshake_initiation C env n f t = (r, t') \<Longrightarrow> \<not> for_interface r"
  by (auto simp: tunn_format_handshake_initiation_def Let_def split_beta split: if_splits sum.splits)

lemma encapsulate_not_for_interface: "encapsulate C env src n t = Some (r, t') \<Longrightarrow> \<not> for_interface r"
  using format_not_for_interface [of C env n False "queue_packet src t" r t']
  by (cases "sessions t ! (current t mod N_SESSIONS)") (auto simp: encapsulate_def Let_def split: bind_splits)

lemma send_queued_not_for_interface:
  assumes "send_queued_packet C env n t = Some (r, t')"
  shows "\<not> for_interface r"
proof -
  obtain p t1 where d: "dequeue_packet t = (p, t1)" by fastforce
  show ?thesis
  proof (cases p)
    case None
    with assms d show ?thesis by (auto simp: send_queued_packet_def)
  next
    case (Some pk)
    with assms d obtain r2 t2 where "encapsulate C env pk n t1 = Some (r2, t2)"
        "r = (case r2 of TErr _ \<Rightarrow> TDone | _ \<Rightarrow> r2)"
      by (auto simp: send_queued_packet_def split: bind_splits tunn_result.splits)
    with encapsulate_not_for_interface [of C env pk n t1 r2 t2] show ?thesis by (auto split: tunn_result.splits)
  qed
qed

text \<open>C30 Only authentic, fresh data reaches the interface: when a tunnel hands an IP packet to its
  caller, the datagram was a data message for a live session of this tunnel whose window accepts
  its counter, it decrypts under that session's key, and the packet is a prefix of the plaintext.\<close>

theorem tunnel_output_authentic:
  assumes "decapsulate C env a datagram n t rl = Some (r, t', rl')"
    and "r = WriteToTunnelV4 p addr \<or> r = WriteToTunnelV6 p addr"
  shows "\<exists>d s pt k. parse_incoming_packet datagram = Inr (PacketData d) \<and>
    sessions t ! (unat (pd_receiver_idx d) mod N_SESSIONS) = Some s \<and> pd_receiver_idx d = receiving_index s \<and>
    will_accept (receiving_key_counter s) (pd_counter d) = Inr () \<and>
    chacha_open C (receiver_key s) (counter_nonce (pd_counter d)) [] (pd_payload d) = Some pt \<and>
    k \<le> length pt \<and> p = take k pt"
proof -
  have "datagram \<noteq> []"
  proof
    assume "datagram = []"
    with assms(1) have "send_queued_packet C env n t = Some (r, t')" by (auto simp: decapsulate_def split: bind_splits)
    from send_queued_not_for_interface [OF this] assms(2) show False by auto
  qed
  then obtain pk rl1 where v: "verify_packet C (e_cookie env) a datagram COOKIE_REPLY_SZ rl = (Inr pk, rl1)"
      "handle_verified_packet C env pk n t = Some (r, t')"
    using assms by (auto simp: decapsulate_def split: if_splits prod.splits sum.splits tunn_result.splits bind_splits)
  have parse: "parse_incoming_packet datagram = Inr pk" by (rule verify_parse [OF v(1)])
  show ?thesis
  proof (cases pk)
    case (PacketData d)
    then have "handle_data C d n t = Some (Inr r, t')"
      using v(2) assms(2) by (auto simp: handle_verified_packet_def tunn_result_from_def split: bind_splits sum.splits)
    from handle_data_authentic [OF this] parse PacketData assms(2) show ?thesis by fastforce
  qed (use v(2) assms(2) in \<open>auto simp: handle_verified_packet_def tunn_result_from_def handle_handshake_init_def
        handle_handshake_response_def handle_cookie_reply_def Let_def split: bind_splits sum.splits prod.splits\<close>)
qed

section \<open>Expiry\<close>

lemma expire_sessions_spec:
  assumes "expire_sessions now i ds ss = Some (ds', ss')" and "i + length ds \<le> length ss"
  shows "length ss' = length ss \<and> (\<forall>j < length ss. ss' ! j =
    (if i \<le> j \<and> j < i + length ds \<and> now - ds ! (j - i) > REJECT_AFTER_TIME then None else ss ! j))"
  using assms
proof (induction ds arbitrary: i ss ds')
  case Nil
  then show ?case by auto
next
  case (Cons d ds)
  let ?ss = "if now - d > REJECT_AFTER_TIME then ss[i := None] else ss"
  obtain ds1 where "d \<le> now" and r: "expire_sessions now (Suc i) ds ?ss = Some (ds1, ss')"
    using Cons.prems(1) by (auto simp: Let_def dur_sub_def split: bind_splits if_splits)
  have len: "Suc i + length ds \<le> length ?ss" using Cons.prems(2) by simp
  note IH = Cons.IH [OF r len]
  show ?case
  proof (intro conjI allI impI)
    show "length ss' = length ss" using IH by simp
    fix j assume j: "j < length ss"
    show "ss' ! j = (if i \<le> j \<and> j < i + length (d # ds) \<and> now - (d # ds) ! (j - i) > REJECT_AFTER_TIME
        then None else ss ! j)"
    proof (cases "j = i")
      case True
      with IH j show ?thesis by simp
    next
      case False
      then have "i \<le> j \<longleftrightarrow> Suc i \<le> j" "Suc i \<le> j \<Longrightarrow> (d # ds) ! (j - i) = ds ! (j - Suc i)"
        by (auto simp: Suc_diff_Suc [symmetric])
      with False IH j show ?thesis by auto
    qed
  qed
qed

text \<open>A timer update as its two halves: the session timers, then the decisions, on a handshake that
  differs at most in an expired cookie.\<close>

lemma update_timers_split:
  assumes inv: "tunn_inv t" and rd: "readings_ok env t"
    and now: "now = duration_since (e_time env) (time_started (tn_timers t))"
  shows "\<exists>t1 h rl1. update_session_timers now
      (t\<lparr>tn_timers := (tn_timers t)\<lparr>tm := (tm (tn_timers t))(TimeCurrent := now)\<rparr>\<rparr>) = Some t1 \<and>
    tunn_inv t1 \<and> tm (tn_timers t1) = (tm (tn_timers t))(TimeCurrent := now) \<and>
    hs_state h = hs_state (tn_handshake t) \<and>
    update_timers C env n t rl =
      (if Handshake.is_expired (tn_handshake t) then Some (TErr ConnectionExpired, t1, rl1)
       else map_option (\<lambda>(r, t3). (r, t3, rl1)) (timer_action C env n now (t1\<lparr>tn_handshake := h\<rparr>)))"
proof -
  let ?t0 = "t\<lparr>tn_timers := (tn_timers t)\<lparr>tm := (tm (tn_timers t))(TimeCurrent := now)\<rparr>\<rparr>"
  obtain rl1 where rl1: "rl1 = (if should_reset_rr (tn_timers t) then reset_count (e_reset env) rl else rl)" by blast
  have "tunn_inv ?t0" using rd by (intro inv_set_now inv) (simp add: readings_ok_def not_before_def now)
  from update_session_timers_returns [OF this] obtain t1 where
    t1: "update_session_timers now ?t0 = Some t1" "tunn_inv t1" "tm (tn_timers t1) = tm (tn_timers ?t0)"
      "tn_handshake t1 = tn_handshake t" by auto
  have le: "tm (tn_timers t1) m \<le> now" for m using t1(2,3) by (simp add: tunn_inv_def timers_inv_def)
  have bind: "Option.bind x (\<lambda>(r, t3). Some (r, t3, rl1)) = map_option (\<lambda>(r, t3). (r, t3, rl1)) x" for x :: "(tunn_result \<times> tunn) option"
    by (cases x) auto
  have upd: "update_timers C env n t rl = (if Handshake.is_expired (tn_handshake t) then Some (TErr ConnectionExpired, t1, rl1)
       else map_option (\<lambda>(r, t3). (r, t3, rl1)) (timer_action C env n now
         (if has_cookie (tn_handshake t) \<and> now - tm (tn_timers t1) TimeCookieReceived \<ge> COOKIE_EXPIRATION_TIME
          then t1\<lparr>tn_handshake := clear_cookie (tn_handshake t1)\<rparr> else t1)))"
    using t1(1) by (simp add: update_timers_def now [symmetric] rl1 [symmetric] Let_def le t1(4) bind)
  show ?thesis
  proof (cases "has_cookie (tn_handshake t) \<and> now - tm (tn_timers t1) TimeCookieReceived \<ge> COOKIE_EXPIRATION_TIME")
    case True
    with upd t1 show ?thesis
      by (intro exI [of _ t1] exI [of _ "clear_cookie (tn_handshake t)"] exI [of _ rl1]) (simp add: clear_cookie_def)
  next
    case False
    have same: "t1 = t1\<lparr>tn_handshake := tn_handshake t\<rparr>" by (simp flip: t1(4))
    show ?thesis
      by (rule exI [of _ t1], rule exI [of _ "tn_handshake t"], rule exI [of _ rl1])
        (use t1 upd [unfolded if_not_P [OF False]] in \<open>simp flip: same\<close>)
  qed
qed

lemma sessions_format: "tunn_format_handshake_initiation C env n f t = (r, t') \<Longrightarrow> sessions t' = sessions t"
  by (auto simp: tunn_format_handshake_initiation_def timer_tick_def Let_def split_beta split: if_splits sum.splits)

lemma sessions_encapsulate:
  assumes "encapsulate C env src n t = Some (r, t')" and "sessions t ! i = None"
  shows "sessions t' ! i = None"
proof (cases "sessions t ! (current t mod N_SESSIONS)")
  case None
  then show ?thesis using assms sessions_format [of C env n False "queue_packet src t" r t']
    by (simp add: encapsulate_def queue_packet_def split: if_splits)
next
  case (Some s)
  with assms have "\<exists>s'. sessions t' = (sessions t)[current t mod N_SESSIONS := Some s']"
    by (auto simp: encapsulate_def timer_tick_def Let_def split: bind_splits)
  moreover have "i \<noteq> current t mod N_SESSIONS" using Some assms(2) by auto
  ultimately show ?thesis using assms(2) by auto
qed

lemma sessions_action:
  assumes "timer_action C env n now t = Some (r, t')" and "sessions t ! i = None" and "i < length (sessions t)"
  shows "sessions t' ! i = None"
proof -
  consider "t' = expire_tunn (e_clear env) t" | "t' = t"
    | "tunn_format_handshake_initiation C env n True t = (r, t')"
    | j k t1 where "timer_demands now t = Some (j, k, t1)"
        "t' = t1 \<or> tunn_format_handshake_initiation C env n True t1 = (r, t') \<or> encapsulate C env [] n t1 = Some (r, t')"
    using assms by (auto simp: timer_action_def split: bind_splits if_splits option.splits)
  then show ?thesis
  proof cases
    case 4
    have "sessions t1 = sessions t" using timer_demands_effect [OF 4(1)] by (simp add: only_ticked_def)
    then show ?thesis using 4(2) assms(2) sessions_format [of C env n True t1 r t'] sessions_encapsulate [of C env "[]" n t1 r t' i]
      by auto
  qed (use assms in \<open>auto simp: expire_tunn_def clear_all_def dest: sessions_format\<close>)
qed

text \<open>C36 Session keys do not outlive their time: after a timer update no slot holds a session that
  was established more than REJECT_AFTER_TIME (180 s) before it.\<close>

theorem old_sessions_removed:
  assumes "tunn_inv t" and "readings_ok env t" and "update_timers C env n t rl = Some (r, t', rl')" and "i < N_SESSIONS"
    and "duration_since (e_time env) (time_started (tn_timers t)) - session_timers (tn_timers t) ! i > REJECT_AFTER_TIME"
  shows "sessions t' ! i = None"
proof -
  obtain now where now: "now = duration_since (e_time env) (time_started (tn_timers t))" by blast
  from update_timers_split [OF assms(1,2) now, of C n rl] obtain t1 h rl1 where
    t1: "update_session_timers now (t\<lparr>tn_timers := (tn_timers t)\<lparr>tm := (tm (tn_timers t))(TimeCurrent := now)\<rparr>\<rparr>) = Some t1"
      "tunn_inv t1" and
    upd: "update_timers C env n t rl = (if Handshake.is_expired (tn_handshake t) then Some (TErr ConnectionExpired, t1, rl1)
       else map_option (\<lambda>(r, t3). (r, t3, rl1)) (timer_action C env n now (t1\<lparr>tn_handshake := h\<rparr>)))" by blast
  have len: "length (session_timers (tn_timers t)) = N_SESSIONS" "length (sessions t) = N_SESSIONS"
    "length (sessions t1) = N_SESSIONS" using assms(1) t1(2) by (simp_all add: tunn_inv_def ring_ok_def timers_inv_def)
  obtain ds where "expire_sessions now 0 (session_timers (tn_timers t)) (sessions t) = Some (ds, sessions t1)"
    using t1(1) by (auto simp: update_session_timers_def split: bind_splits)
  from expire_sessions_spec [OF this] len assms(4,5) now have none: "sessions t1 ! i = None" by simp
  show ?thesis
  proof (cases "Handshake.is_expired (tn_handshake t)")
    case True
    with upd assms(3) none show ?thesis by simp
  next
    case False
    with upd assms(3) have "map_option (\<lambda>(r, t3). (r, t3, rl1)) (timer_action C env n now (t1\<lparr>tn_handshake := h\<rparr>)) =
        Some (r, t', rl')" by simp
    then show ?thesis using none len assms(4) sessions_action [of C env n now "t1\<lparr>tn_handshake := h\<rparr>" r t' i] by auto
  qed
qed

lemma toy_inv: "tunn_inv (fst toy_tunn)"
  by (simp add: toy_tunn_def epoch_def wf_instant_def NANOSECOND_def inv_new)

lemma toy_readings:
  "0 \<le> k \<Longrightarrow> readings_ok (toy_env \<lparr>tv_sec = k, tv_nsec = 0\<rparr>) (t\<lparr>tn_timers := tn_timers (fst toy_tunn)\<rparr>)"
  by (simp add: readings_ok_def not_before_def toy_env_def toy_tunn_def tunn_new_def timers_new_def Let_def)

lemma toy_clock: "0 \<le> k \<Longrightarrow>
    duration_since (e_time (toy_env \<lparr>tv_sec = k, tv_nsec = 0\<rparr>)) (time_started (tn_timers (fst toy_tunn))) = secs (nat k)"
  by (simp add: toy_env_def toy_tunn_def tunn_new_def timers_new_def epoch_def duration_since_def
      checked_duration_since_def Let_def)

lemma toy_tunn_fields:
  "tm (tn_timers (fst toy_tunn)) n = 0" "session_timers (tn_timers (fst toy_tunn)) = replicate 8 0"
  "sessions (fst toy_tunn) = replicate 8 None" "packet_queue (fst toy_tunn) = []"
  "hs_state (tn_handshake (fst toy_tunn)) = HsNone"
  by (simp_all add: toy_tunn_def tunn_new_def timers_new_def handshake_new_def Let_def)

theorem old_sessions_removed_witness:
  "\<exists>t r t' rl'. t = (fst toy_tunn)\<lparr>sessions := (replicate 8 None)[1 := Some (session_new 1 2 [] [])]\<rparr> \<and>
    update_timers toy_crypto (toy_env \<lparr>tv_sec = 200, tv_nsec = 0\<rparr>) 200 t (snd toy_tunn) = Some (r, t', rl') \<and>
    sessions t ! 1 \<noteq> None \<and> sessions t' ! 1 = None"
proof -
  let ?e = "toy_env \<lparr>tv_sec = 200, tv_nsec = 0\<rparr>"
  obtain t where t: "t = (fst toy_tunn)\<lparr>sessions := (replicate 8 None)[1 := Some (session_new 1 2 [] [])]\<rparr>" by blast
  have inv: "tunn_inv t" using toy_inv
    by (simp add: t tunn_inv_def ring_ok_def nth_list_update session_local_index_def session_new_def
        session_ok_def validator_default_def)
  have rd: "readings_ok ?e t" using toy_readings [of 200 t] by (simp add: t)
  from update_timers_returns [OF inv rd, of 200 toy_crypto "snd toy_tunn"] obtain r t' rl' where
    u: "update_timers toy_crypto ?e 200 t (snd toy_tunn) = Some (r, t', rl')" by auto
  have "sessions t' ! 1 = None"
    by (rule old_sessions_removed [OF inv rd u]) (use toy_clock [of 200] in \<open>simp_all add: t toy_tunn_fields\<close>)
  moreover have "sessions t ! 1 \<noteq> None" by (simp add: t)
  ultimately show ?thesis using t u by blast
qed

text \<open>An idle connection dies: an update REJECT_AFTER_TIME * 3 (540 s) or more after the last
  session was established reports \<open>ConnectionExpired\<close>, forgets every session and queued packet and
  leaves the handshake expired.\<close>

theorem idle_connection_expires:
  assumes "tunn_inv t" and "readings_ok env t" and "\<not> tunn_is_expired t"
    and "duration_since (e_time env) (time_started (tn_timers t)) - tm (tn_timers t) TimeSessionEstablished \<ge> REJECT_AFTER_TIME * 3"
  shows "\<exists>t' rl'. update_timers C env n t rl = Some (TErr ConnectionExpired, t', rl') \<and> tunn_is_expired t' \<and>
    packet_queue t' = [] \<and> (\<forall>i < N_SESSIONS. sessions t' ! i = None)"
proof -
  obtain now where now: "now = duration_since (e_time env) (time_started (tn_timers t))" by blast
  from update_timers_split [OF assms(1,2) now, of C n rl] obtain t1 h rl1 where
    t1: "tunn_inv t1" "tm (tn_timers t1) = (tm (tn_timers t))(TimeCurrent := now)" and
    upd: "update_timers C env n t rl = (if Handshake.is_expired (tn_handshake t) then Some (TErr ConnectionExpired, t1, rl1)
       else map_option (\<lambda>(r, t3). (r, t3, rl1)) (timer_action C env n now (t1\<lparr>tn_handshake := h\<rparr>)))" by blast
  have "length (sessions t1) = N_SESSIONS" using t1(1) by (simp add: tunn_inv_def ring_ok_def)
  moreover have "timer_action C env n now (t1\<lparr>tn_handshake := h\<rparr>) =
      Some (TErr ConnectionExpired, expire_tunn (e_clear env) (t1\<lparr>tn_handshake := h\<rparr>))"
    using assms(4) now by (simp add: timer_action_def t1(2) dur_sub_def)
  ultimately show ?thesis using upd assms(3)
    by (simp add: tunn_is_expired_def expire_tunn_def clear_all_def set_expired_def Handshake.is_expired_def)
qed

theorem idle_connection_expires_witness:
  "\<exists>t' rl'. update_timers toy_crypto (toy_env \<lparr>tv_sec = 600, tv_nsec = 0\<rparr>) 200 (fst toy_tunn) (snd toy_tunn) =
      Some (TErr ConnectionExpired, t', rl') \<and> tunn_is_expired t' \<and> packet_queue t' = [] \<and>
    (\<forall>i < N_SESSIONS. sessions t' ! i = None)"
  by (rule idle_connection_expires [OF toy_inv])
    (use toy_readings [of 600 "fst toy_tunn"] toy_clock [of 600] in
      \<open>simp_all add: toy_tunn_fields tunn_is_expired_def Handshake.is_expired_def\<close>)



section \<open>The queue\<close>

text \<open>Draining the queue before a session exists rotates it: with a handshake in flight, the
  packet taken from the front of a queue with room is put back at its end, behind the packets
  queued after it, and nothing is sent.\<close>

theorem draining_without_session_rotates:
  assumes "sessions t ! (current t mod N_SESSIONS) = None" and "is_in_progress (tn_handshake t)"
    and "packet_queue t = p # ps" and "length ps < MAX_QUEUE_DEPTH"
  shows "decapsulate C env a [] n t rl = Some (TDone, t\<lparr>packet_queue := ps @ [p]\<rparr>, rl)"
  using assms
  by (simp add: decapsulate_def send_queued_packet_def dequeue_packet_def encapsulate_def
      tunn_format_handshake_initiation_def queue_packet_def)

theorem draining_without_session_rotates_witness:
  "\<exists>t. is_in_progress (tn_handshake t) \<and> packet_queue t = [[1], [2]] \<and>
    decapsulate toy_crypto (toy_env epoch) None [] 200 t (snd toy_tunn) =
      Some (TDone, t\<lparr>packet_queue := [[2]] @ [[1]]\<rparr>, snd toy_tunn)"
proof -
  let ?h = "(tn_handshake (fst toy_tunn))\<lparr>hs_state := InitReceived [] [] [] 0\<rparr>"
  let ?t = "(fst toy_tunn)\<lparr>tn_handshake := ?h, packet_queue := [[1], [2]]\<rparr>"
  have p: "is_in_progress (tn_handshake ?t)" by (simp add: is_in_progress_def)
  have "sessions ?t ! (current ?t mod N_SESSIONS) = None" by (simp add: toy_tunn_fields)
  from draining_without_session_rotates [OF this p, of "[1]" "[[2]]" toy_crypto "toy_env epoch" None 200 "snd toy_tunn"] p
  show ?thesis by (intro exI [of _ ?t]) simp
qed

end
