(* ===== verification/Tunn_Exchange.thy ===== *)
theory Tunn_Exchange
  imports Tunn_Behaviour Tunn_Names
begin

text \<open>
  Two fresh tunnels configured for each other: the packet that made one of them start a handshake
  comes out of the other. Each step of the exchange is a lemma on one tunnel; the property puts
  the five datagrams together.
\<close>

section \<open>The limiter lets authentic messages through\<close>

text \<open>A handshake message whose first MAC was computed with \<open>key\<close>.\<close>

definition authentic_for :: "crypto \<Rightarrow> bytes \<Rightarrow> bytes \<Rightarrow> bool" where
  "authentic_for C key msg \<longleftrightarrow> (\<exists>body mac1 mac2. msg = body @ mac1 @ mac2 \<and> length mac1 = 16 \<and> length mac2 = 16 \<and>
    mac1 = b2s_keyed_mac_16 C key body)"

lemma verify_passes:
  assumes "parse_incoming_packet msg = Inr p" and "handshake_sender p = Some i"
    and "authentic_for C (mac1_key rl) msg" and "rl_count rl < limit rl"
  shows "verify_packet C now a msg n rl = (Inr p, rl\<lparr>rl_count := rl_count rl + 1\<rparr>)"
proof -
  obtain body mac1 mac2 where m: "msg = body @ mac1 @ mac2" "length mac1 = 16" "length mac2 = 16"
    "mac1 = b2s_keyed_mac_16 C (mac1_key rl) body" using assms(3) by (auto simp: authentic_for_def)
  then have "take (length msg - 32) msg = body" "take 16 (drop (length msg - 32) msg) = mac1" by simp_all
  with assms m(4) show ?thesis by (simp add: verify_packet_def is_under_load_def Let_def not_le)
qed

lemma verify_data: "parse_incoming_packet msg = Inr (PacketData d) \<Longrightarrow> verify_packet C now a msg n rl = (Inr (PacketData d), rl)"
  by (simp add: verify_packet_def)

lemma initiation_authentic:
  assumes "crypto_ok C" and "format_handshake_initiation C e t1 t2 n h = (Inr msg, h')"
    and "length (static_public (params h)) = 32"
  shows "authentic_for C (sending_mac1_key (params h)) msg"
  using initiation_macs [OF assms] unfolding authentic_for_def by metis

lemma response_authentic:
  assumes ok: "crypto_ok C" and fmt: "format_handshake_response C e n h = Some (Inr (msg, s), h')"
  shows "authentic_for C (sending_mac1_key (params h)) msg"
proof -
  obtain li body h1 where "msg = fst (append_mac1_and_mac2 C li body h1)" "params h1 = params h"
    using fmt by (fastforce simp: format_handshake_response_def Let_def split_beta
        split: if_splits handshake_state.splits)
  then show ?thesis
    unfolding authentic_for_def
    by - (rule exI [of _ body], auto simp: append_mac1_and_mac2_def b2s_keyed_mac_16_def crypto_lengths [OF ok] Let_def
      split: option.split)
qed

lemma receive_init_message:
  assumes "receive_handshake_initialization C e p n h = Some (Inr (msg, s), h')"
  shows "\<exists>h1. params h1 = params h \<and> format_handshake_response C e n h1 = Some (Inr (msg, s), h')"
proof -
  have "\<exists>h1. format_handshake_response C e n h1 = Some (Inr (msg, s), h')"
    using assms by (auto simp: receive_handshake_initialization_def Let_def split_beta
        split: if_splits sum.splits option.splits bind_splits)
  with receive_init_cases [OF assms] show ?thesis using format_response_frames(1) by fastforce
qed

definition fresh_session :: "session \<Rightarrow> bool" where
  "fresh_session s \<longleftrightarrow> sending_key_counter s = 0 \<and> receiving_key_counter s = validator_default"

lemma receive_init_fresh:
  assumes "receive_handshake_initialization C e p n h = Some (Inr (m, s), h')"
  shows "fresh_session s"
  using assms by (auto simp: receive_handshake_initialization_def format_handshake_response_def Let_def split_beta
      fresh_session_def session_new_def split: if_splits sum.splits option.splits bind_splits handshake_state.splits)

lemma receive_response_fresh:
  assumes "receive_handshake_response C now q h = Some (Inr s, h')"
  shows "fresh_session s"
  using assms by (auto simp: receive_handshake_response_def Let_def split_beta fresh_session_def session_new_def
      split: if_splits sum.splits option.splits bind_splits)

section \<open>One step each\<close>

lemma step_start:
  assumes "hs_state (tn_handshake t) = HsNone" and "sessions t ! (current t mod N_SESSIONS) = None"
    and "packet_queue t = []"
    and "format_handshake_initiation C (e_eph env) (e_stamp env) (e_sent env) n (tn_handshake t) = (Inr m, h)"
  shows "\<exists>t'. encapsulate C env src n t = Some (WriteToNetwork m, t') \<and> tn_handshake t' = h \<and>
    packet_queue t' = [src] \<and> sessions t' = sessions t \<and> current t' = current t"
  using assms by (simp add: encapsulate_def tunn_format_handshake_initiation_def is_in_progress_def
      Handshake.is_expired_def queue_packet_def timer_tick_def Let_def)

lemma step_initiation:
  assumes "receive_handshake_initialization C (e_eph env) p n (tn_handshake t) = Some (Inr (m, s), h)"
  shows "\<exists>t'. handle_verified_packet C env (HandshakeInit p) n t = Some (WriteToNetwork m, t') \<and>
    sessions t' = (sessions t)[session_local_index s mod N_SESSIONS := Some s] \<and> packet_queue t' = packet_queue t"
  using assms by (simp add: handle_verified_packet_def handle_handshake_init_def timer_tick_def
      timer_tick_session_established_def Let_def)

lemma set_current_takes:
  assumes "sessions t ! (current t mod N_SESSIONS) = None \<or> current t mod N_SESSIONS = i mod N_SESSIONS"
  shows "current (set_current_session i t) = i" "sessions (set_current_session i t) = sessions t"
    "packet_queue (set_current_session i t) = packet_queue t"
  using assms by (auto simp: set_current_session_def Let_def)

lemma step_response:
  assumes "receive_handshake_response C (e_rtt env) q (tn_handshake t) = Some (Inr s, h)"
    and "format_packet_data C [] n s = Some (m, s')" and "sessions t ! (current t mod N_SESSIONS) = None"
  shows "\<exists>t'. handle_verified_packet C env (HandshakeResponse q) n t = Some (WriteToNetwork m, t') \<and>
    sessions t' = (sessions t)[session_local_index s' mod N_SESSIONS := Some s'] \<and>
    current t' = session_local_index s' \<and> packet_queue t' = packet_queue t"
proof -
  let ?i = "session_local_index s'"
  let ?t = "timer_tick_session_established True (?i mod N_SESSIONS) (timer_tick TimeLastPacketReceived
      (t\<lparr>tn_handshake := h, sessions := (sessions t)[?i mod N_SESSIONS := Some s']\<rparr>))"
  have f: "sessions ?t = (sessions t)[?i mod N_SESSIONS := Some s']" "current ?t = current t"
    "packet_queue ?t = packet_queue t"
    by (simp_all add: timer_tick_def timer_tick_session_established_def Let_def)
  have "sessions ?t ! (current ?t mod N_SESSIONS) = None \<or> current ?t mod N_SESSIONS = ?i mod N_SESSIONS"
    using assms(3) by (simp add: f) (metis nth_list_update_neq)
  from set_current_takes [OF this] f assms(1,2) show ?thesis
    by (simp add: handle_verified_packet_def handle_handshake_response_def Let_def)
qed

lemma step_data:
  assumes "sessions t ! (unat (pd_receiver_idx d) mod N_SESSIONS) = Some s"
    and "receive_packet_data C d n s = Some (Inr src, s')"
  shows "\<exists>t1. sessions t1 = (sessions t)[unat (pd_receiver_idx d) mod N_SESSIONS := Some s'] \<and>
    handle_verified_packet C env (PacketData d) n t =
      Some (fst (validate_decapsulated_packet src t1), snd (validate_decapsulated_packet src t1))"
proof -
  let ?t = "timer_tick TimeLastPacketReceived (set_current_session (unat (pd_receiver_idx d))
      (t\<lparr>sessions := (sessions t)[unat (pd_receiver_idx d) mod N_SESSIONS := Some s']\<rparr>))"
  have "sessions ?t = (sessions t)[unat (pd_receiver_idx d) mod N_SESSIONS := Some s']"
    by (simp add: timer_tick_def set_current_session_def Let_def)
  then show ?thesis using assms
    by - (rule exI [of _ ?t], simp add: handle_verified_packet_def handle_data_def Let_def split_beta)
qed

text \<open>From a verified packet back to the datagram.\<close>

lemma decapsulate_verified:
  assumes "msg \<noteq> []" and "verify_packet C (e_cookie env) a msg COOKIE_REPLY_SZ rl = (Inr p, rl')"
    and "handle_verified_packet C env p n t = Some (r, t')"
  shows "decapsulate C env a msg n t rl = Some (r, t', rl')"
  using assms by (simp add: decapsulate_def)

lemma validate_keepalive: "validate_decapsulated_packet [] t = (TDone, t)"
  by (simp add: validate_decapsulated_packet_def)

definition ipv4_packet :: "bytes \<Rightarrow> bool" where
  "ipv4_packet p \<longleftrightarrow> IPV4_MIN_HEADER_SIZE \<le> length p \<and> drop_bit 4 (p ! 0) = 4 \<and>
     unat (u16_of_be (slice 2 4 p)) = length p"

lemma validate_ipv4:
  "ipv4_packet p \<Longrightarrow> fst (validate_decapsulated_packet p t) = WriteToTunnelV4 p (slice 12 16 p)"
  by (auto simp: ipv4_packet_def validate_decapsulated_packet_def Let_def)

lemma step_drain:
  assumes "packet_queue t = [src]" and "sessions t ! (current t mod N_SESSIONS) = Some s"
    and "format_packet_data C src n s = Some (m, s')"
  shows "\<exists>t'. send_queued_packet C env n t = Some (WriteToNetwork m, t') \<and> packet_queue t' = []"
  using assms by (simp add: send_queued_packet_def dequeue_packet_def encapsulate_def timer_tick_def Let_def)

lemma receive_response_index:
  "receive_handshake_response C now q h = Some (Inr s, h') \<Longrightarrow> receiving_index s = hr_receiver_idx q"
  by (auto simp: receive_handshake_response_def awaiting_def Let_def split_beta session_new_def
      split: if_splits sum.splits option.splits bind_splits handshake_state.splits)

section \<open>The exchange\<close>

lemma new_fields:
  assumes "tunn_new C ts now le priv peer psk k i None = (t, rl)"
  shows "params (tn_handshake t) = noise_params_new C priv (x25519_public C priv) peer psk"
    "hs_state (tn_handshake t) = HsNone" "stamper (tn_handshake t) = ts"
    "last_handshake_timestamp (tn_handshake t) = tai64n_zero" "sessions t = replicate N_SESSIONS None"
    "current t = 0" "packet_queue t = []"
    "mac1_key rl = b2s_hash C LABEL_MAC1 (x25519_public C priv)" "rl_count rl = 0" "limit rl = 10"
  using assms
  by (auto simp: tunn_new_def handshake_new_def limiter_or_new_def rate_limiter_new_def Let_def split: prod.splits)

lemma new_paired:
  assumes "tunn_new C tsA nowA leA a (x25519_public C b) psk kA iA None = (A, rlA)"
    and "tunn_new C tsB nowB leB b (x25519_public C a) psk kB iB None = (B, rlB)"
  shows "paired C (params (tn_handshake A)) (params (tn_handshake B))"
  by (simp add: new_fields(1) [OF assms(1)] new_fields(1) [OF assms(2)] paired_def noise_params_new_wf)
    (simp add: noise_params_new_def)

text \<open>A session just formed by a handshake and its match carry a keepalive and then a packet.\<close>

lemma two_packets:
  assumes ok: "crypto_ok C" and m: "matched sI sR" and fresh: "fresh_session sI" "fresh_session sR"
    and n: "length src + 32 \<le> n"
  shows "\<exists>m3 sI1 m4 sI2 d3 d4 sR1 sR2.
    format_packet_data C [] n sI = Some (m3, sI1) \<and> format_packet_data C src n sI1 = Some (m4, sI2) \<and>
    session_local_index sI1 = session_local_index sI \<and>
    parse_incoming_packet m3 = Inr (PacketData d3) \<and> parse_incoming_packet m4 = Inr (PacketData d4) \<and>
    pd_receiver_idx d3 = receiving_index sR \<and> pd_receiver_idx d4 = receiving_index sR \<and>
    receive_packet_data C d3 n sR = Some (Inr [], sR1) \<and> receive_packet_data C d4 n sR1 = Some (Inr src, sR2)"
proof -
  obtain m3 sI1 where f3: "format_packet_data C [] n sI = Some (m3, sI1)"
    using format_packet_returns [of "[]" n C sI] n by auto
  obtain m4 sI2 where f4: "format_packet_data C src n sI1 = Some (m4, sI2)"
    using format_packet_returns [OF n] by blast
  from format_carries [OF ok f3] fresh(1) obtain d3 where
    sI1: "sI1 = sI\<lparr>sending_key_counter := 1\<rparr>" and
    d3: "parse_incoming_packet m3 = Inr (PacketData d3)" "carries C (sender_key sI) (sending_index sI) 0 [] d3"
    by (auto simp: fresh_session_def)
  from format_carries [OF ok f4] sI1 obtain d4 where
    d4: "parse_incoming_packet m4 = Inr (PacketData d4)" "carries C (sender_key sI) (sending_index sI) 1 src d4" by auto
  have c3: "carries C (receiver_key sR) (receiving_index sR) 0 [] d3" using d3(2) m by (simp add: matched_def)
  from fresh(2) have w: "window_rel (receiving_key_counter sR) (0, {})"
    using window_rel_default by (simp add: fresh_session_def del: window_rel.simps)
  from receive_good [OF c3 _ w, of n] n obtain sR1 where
    r3: "receive_packet_data C d3 n sR = Some (Inr [], sR1)"
      "window_rel (receiving_key_counter sR1) (1, {0})"
      "receiver_key sR1 = receiver_key sR" "receiving_index sR1 = receiving_index sR"
    by (auto simp: counter_ok_def simp del: window_rel.simps)
  have c4: "carries C (receiver_key sR1) (receiving_index sR1) 1 src d4"
    using d4(2) m r3(3,4) by (simp add: matched_def)
  from receive_good [OF c4 _ r3(2), of n] n obtain sR2 where
    r4: "receive_packet_data C d4 n sR1 = Some (Inr src, sR2)" by (auto simp: counter_ok_def)
  have "session_local_index sI1 = session_local_index sI" by (simp add: sI1 session_local_index_def)
  moreover have "pd_receiver_idx d3 = receiving_index sR" "pd_receiver_idx d4 = receiving_index sR"
    using c3 c4 r3(4) by (simp_all add: carries_def)
  ultimately show ?thesis using f3 f4 d3(1) d4(1) r3(1) r4 by blast
qed

lemma nonempty_parse: "parse_incoming_packet msg = Inr p \<Longrightarrow> msg \<noteq> []"
  by (auto simp: parse_incoming_packet_def)

text \<open>
  The exchange after verification: what the two tunnels send and how the receivers, given the
  parsed messages, answer. The limiters on the way and the tables that lead to the tunnels are left
  to the users of the lemma.
\<close>

lemma verified_exchange:
  assumes ok: "crypto_ok C" and src: "ipv4_packet src" "length src + 32 \<le> n" "148 \<le> n"
    and A: "tunn_new C tsA nowA leA a (x25519_public C b) psk kA iA None = (A, rlA)"
    and B: "tunn_new C tsB nowB leB b (x25519_public C a) psk kB iB None = (B, rlB)"
    and after: "tai_after (stamp_time (e_stamp e1) tsA) tai64n_zero"
  shows "\<exists>m1 A1 p m2 B1 q m3 A2 d3 B2 m4 A3 d4 B3 hh sA sB.
    encapsulate C e1 src n A = Some (WriteToNetwork m1, A1) \<and>
    parse_incoming_packet m1 = Inr (HandshakeInit p) \<and> authentic_for C (b2s_hash C LABEL_MAC1 (x25519_public C b)) m1 \<and>
    parse_handshake_anon C b (x25519_public C b) p = Some (Inr hh) \<and> hh_peer_static_public hh = x25519_public C a \<and>
    handle_verified_packet C e2 (HandshakeInit p) n B = Some (WriteToNetwork m2, B1) \<and> packet_queue B1 = [] \<and>
    Some sB \<in> set (sessions B1) \<and>
    parse_incoming_packet m2 = Inr (HandshakeResponse q) \<and> authentic_for C (b2s_hash C LABEL_MAC1 (x25519_public C a)) m2 \<and>
    handle_verified_packet C e3 (HandshakeResponse q) n A1 = Some (WriteToNetwork m3, A2) \<and>
    Some sA \<in> set (sessions A2) \<and> receiving_index sA = hr_receiver_idx q \<and>
    parse_incoming_packet m3 = Inr (PacketData d3) \<and> pd_receiver_idx d3 = receiving_index sB \<and>
    handle_verified_packet C e4 (PacketData d3) n B1 = Some (TDone, B2) \<and>
    send_queued_packet C e5 n A2 = Some (WriteToNetwork m4, A3) \<and> packet_queue A3 = [] \<and>
    parse_incoming_packet m4 = Inr (PacketData d4) \<and> pd_receiver_idx d4 = receiving_index sB \<and>
    handle_verified_packet C e6 (PacketData d4) n B2 = Some (WriteToTunnelV4 src (slice 12 16 src), B3)"
proof -
  let ?I = "tn_handshake A" and ?R = "tn_handshake B"
  note fA = new_fields [OF A] and fB = new_fields [OF B]
  have pair: "paired C (params ?I) (params ?R)" by (rule new_paired [OF A B])
  obtain m1 I1 where f1: "format_handshake_initiation C (e_eph e1) (e_stamp e1) (e_sent e1) n ?I = (Inr m1, I1)"
    using src(3) by (simp add: format_handshake_initiation_def Let_def split_beta)
  from step_start [OF _ _ _ f1] fA obtain A1 where
    A1: "encapsulate C e1 src n A = Some (WriteToNetwork m1, A1)" "tn_handshake A1 = I1" "packet_queue A1 = [src]"
      "sessions A1 = replicate 8 None" "current A1 = 0" by auto
  have n: "HANDSHAKE_INIT_SZ \<le> n" "HANDSHAKE_RESP_SZ \<le> n" using src(3) by simp_all
  have "tai_after (stamp_time (e_stamp e1) (stamper ?I)) (last_handshake_timestamp ?R)" using after fA fB by simp
  from handshake_parts [OF ok pair n this f1, where eR = "e_eph e2" and ?t3.0 = "e_rtt e3"] obtain p m2 sR R1 q sI I2 where
    p: "parse_incoming_packet m1 = Inr (HandshakeInit p)"
      "receive_handshake_initialization C (e_eph e2) p n ?R = Some (Inr (m2, sR), R1)"
      "parse_incoming_packet m2 = Inr (HandshakeResponse q)"
      "receive_handshake_response C (e_rtt e3) q I1 = Some (Inr sI, I2)" "matched sI sR"
      "parse_handshake_anon C (static_private (params ?R)) (static_public (params ?R)) p =
        Some (Inr \<lparr>hh_peer_index = hi_sender_idx p, hh_peer_static_public = static_public (params ?I)\<rparr>)" by blast
  have lp: "length (static_public (params ?I)) = 32" using pair ok by (simp add: paired_def params_wf_def crypto_lengths)
  have mac: "sending_mac1_key (params ?I) = b2s_hash C LABEL_MAC1 (x25519_public C b)"
    "sending_mac1_key (params ?R) = b2s_hash C LABEL_MAC1 (x25519_public C a)"
    "static_private (params ?R) = b" "static_public (params ?R) = x25519_public C b" "static_public (params ?I) = x25519_public C a"
    using fA fB by (simp_all add: noise_params_new_def)
  obtain h1 where h1: "params h1 = params ?R" "format_handshake_response C (e_eph e2) n h1 = Some (Inr (m2, sR), R1)"
    using receive_init_message [OF p(2)] by blast
  have auth: "authentic_for C (b2s_hash C LABEL_MAC1 (x25519_public C b)) m1"
    "authentic_for C (b2s_hash C LABEL_MAC1 (x25519_public C a)) m2"
    using initiation_authentic [OF ok f1 lp] response_authentic [OF ok h1(2)] h1(1) mac(1,2) by simp_all
  from step_initiation [OF p(2)] fB(5,7) obtain B1 where
    B1: "handle_verified_packet C e2 (HandshakeInit p) n B = Some (WriteToNetwork m2, B1)"
      "sessions B1 = (replicate 8 None)[session_local_index sR mod 8 := Some sR]" "packet_queue B1 = []" by auto
  from two_packets [OF ok p(5) receive_response_fresh [OF p(4)] receive_init_fresh [OF p(2)] src(2)]
  obtain m3 sI1 m4 sI2 d3 d4 sR1 sR2 where
    k: "format_packet_data C [] n sI = Some (m3, sI1)" "format_packet_data C src n sI1 = Some (m4, sI2)"
      "session_local_index sI1 = session_local_index sI"
      "parse_incoming_packet m3 = Inr (PacketData d3)" "parse_incoming_packet m4 = Inr (PacketData d4)"
      "pd_receiver_idx d3 = receiving_index sR" "pd_receiver_idx d4 = receiving_index sR"
      "receive_packet_data C d3 n sR = Some (Inr [], sR1)" "receive_packet_data C d4 n sR1 = Some (Inr src, sR2)" by blast
  have none: "sessions A1 ! (current A1 mod N_SESSIONS) = None" using A1(4,5) by simp
  from step_response [OF p(4) [folded A1(2)] k(1) none] obtain A2 where
    A2: "handle_verified_packet C e3 (HandshakeResponse q) n A1 = Some (WriteToNetwork m3, A2)"
      "sessions A2 = (sessions A1)[session_local_index sI1 mod N_SESSIONS := Some sI1]"
      "current A2 = session_local_index sI1" "packet_queue A2 = packet_queue A1" by auto
  have idx: "unat (receiving_index sR) mod N_SESSIONS = session_local_index sR mod N_SESSIONS"
    by (simp add: session_local_index_def)
  have slot: "sessions B1 ! (unat (pd_receiver_idx d3) mod N_SESSIONS) = Some sR" by (simp add: B1(2) k(6) idx)
  from step_data [OF slot k(8), where env = e4] obtain B2 where
    B2: "handle_verified_packet C e4 (PacketData d3) n B1 = Some (TDone, B2)"
      "sessions B2 = (sessions B1)[unat (pd_receiver_idx d3) mod N_SESSIONS := Some sR1]"
    by (auto simp: validate_keepalive)
  have slot2: "sessions A2 ! (current A2 mod N_SESSIONS) = Some sI1" using A2(2,3) A1(4) by simp
  from step_drain [OF _ slot2 k(2), where env = e5] A2(4) A1(3) obtain A3 where
    A3: "send_queued_packet C e5 n A2 = Some (WriteToNetwork m4, A3)" "packet_queue A3 = []" by auto
  have slot3: "sessions B2 ! (unat (pd_receiver_idx d4) mod N_SESSIONS) = Some sR1"
    by (simp add: B2(2) B1(2) k(6,7))
  from step_data [OF slot3 k(9), where env = e6] validate_ipv4 [OF src(1)]
  obtain B3 where B3: "handle_verified_packet C e6 (PacketData d4) n B2 = Some (WriteToTunnelV4 src (slice 12 16 src), B3)" by auto
  have sA: "Some sI1 \<in> set (sessions A2)" "receiving_index sI1 = hr_receiver_idx q"
    using A2(2) A1(4) format_packet_index [OF k(1)] receive_response_index [OF p(4)] by (simp_all add: set_update_memI)
  have sB: "Some sR \<in> set (sessions B1)" using B1(2) by (simp add: set_update_memI)
  show ?thesis
    using A1(1) p(1,3) auth p(6) mac(3-5) B1(1,3) sB A2(1) sA k(4-7) B2(1) A3 B3
    by (intro exI conjI) (assumption | simp)+
qed

lemma fresh_exchange:
  assumes ok: "crypto_ok C" and src: "ipv4_packet src" "length src + 32 \<le> n" "148 \<le> n"
    and A: "tunn_new C tsA nowA leA a (x25519_public C b) psk kA iA None = (A, rlA)"
    and B: "tunn_new C tsB nowB leB b (x25519_public C a) psk kB iB None = (B, rlB)"
    and after: "tai_after (stamp_time (e_stamp e1) tsA) tai64n_zero"
  shows "\<exists>m1 A1 m2 B1 rlB1 m3 A2 rlA1 B2 m4 A3 B3.
    encapsulate C e1 src n A = Some (WriteToNetwork m1, A1) \<and>
    decapsulate C e2 adA m1 n B rlB = Some (WriteToNetwork m2, B1, rlB1) \<and>
    decapsulate C e3 adB m2 n A1 rlA = Some (WriteToNetwork m3, A2, rlA1) \<and>
    decapsulate C e4 adA m3 n B1 rlB1 = Some (TDone, B2, rlB1) \<and>
    decapsulate C e5 adB [] n A2 rlA1 = Some (WriteToNetwork m4, A3, rlA1) \<and>
    decapsulate C e6 adA m4 n B2 rlB1 = Some (WriteToTunnelV4 src (slice 12 16 src), B3, rlB1)"
proof -
  from verified_exchange [OF assms, of e2 e3 e4 e5 e6] obtain m1 A1 p m2 B1 q m3 A2 d3 B2 m4 A3 d4 B3 where
    x: "encapsulate C e1 src n A = Some (WriteToNetwork m1, A1)"
      "parse_incoming_packet m1 = Inr (HandshakeInit p)" "authentic_for C (b2s_hash C LABEL_MAC1 (x25519_public C b)) m1"
      "handle_verified_packet C e2 (HandshakeInit p) n B = Some (WriteToNetwork m2, B1)"
      "parse_incoming_packet m2 = Inr (HandshakeResponse q)" "authentic_for C (b2s_hash C LABEL_MAC1 (x25519_public C a)) m2"
      "handle_verified_packet C e3 (HandshakeResponse q) n A1 = Some (WriteToNetwork m3, A2)"
      "parse_incoming_packet m3 = Inr (PacketData d3)" "handle_verified_packet C e4 (PacketData d3) n B1 = Some (TDone, B2)"
      "send_queued_packet C e5 n A2 = Some (WriteToNetwork m4, A3)"
      "parse_incoming_packet m4 = Inr (PacketData d4)"
      "handle_verified_packet C e6 (PacketData d4) n B2 = Some (WriteToTunnelV4 src (slice 12 16 src), B3)"
    by (elim exE conjE)
  have "verify_packet C (e_cookie e2) adA m1 COOKIE_REPLY_SZ rlB = (Inr (HandshakeInit p), rlB\<lparr>rl_count := rl_count rlB + 1\<rparr>)"
    using verify_passes [OF x(2)] x(3) new_fields(8-10) [OF B] by simp
  then obtain rlB1 where d1: "decapsulate C e2 adA m1 n B rlB = Some (WriteToNetwork m2, B1, rlB1)"
    using decapsulate_verified [OF nonempty_parse [OF x(2)] _ x(4)] by blast
  have "verify_packet C (e_cookie e3) adB m2 COOKIE_REPLY_SZ rlA = (Inr (HandshakeResponse q), rlA\<lparr>rl_count := rl_count rlA + 1\<rparr>)"
    using verify_passes [OF x(5)] x(6) new_fields(8-10) [OF A] by simp
  then obtain rlA1 where d2: "decapsulate C e3 adB m2 n A1 rlA = Some (WriteToNetwork m3, A2, rlA1)"
    using decapsulate_verified [OF nonempty_parse [OF x(5)] _ x(7)] by blast
  have "decapsulate C e5 adB [] n A2 rlA1 = Some (WriteToNetwork m4, A3, rlA1)" using x(10) by (simp add: decapsulate_def)
  with x(1) d1 d2 decapsulate_verified [OF nonempty_parse [OF x(8)] verify_data [OF x(8)] x(9)]
    decapsulate_verified [OF nonempty_parse [OF x(11)] verify_data [OF x(11)] x(12)] show ?thesis by blast
qed

text \<open>C2 A packet pushed into a fresh tunnel comes out of the other one: two tunnels configured for
  each other exchange initiation, response, keepalive and the queued packet, in these five
  datagrams and whatever the ephemeral secrets and clock readings are, and the IPv4 packet the
  first one was given leaves the second one unaltered with its source address.\<close>

theorem packet_crosses_fresh_tunnels:
  assumes "crypto_ok C" and "ipv4_packet src" "length src + 32 \<le> n" "148 \<le> n"
    and "tunn_new C tsA nowA leA a (x25519_public C b) psk kA iA None = (A, rlA)"
    and "tunn_new C tsB nowB leB b (x25519_public C a) psk kB iB None = (B, rlB)"
    and "tai_after (stamp_time (e_stamp e1) tsA) tai64n_zero"
  shows "\<exists>m1 A1 m2 B1 rlB1 m3 A2 rlA1 B2 m4 A3 B3.
    encapsulate C e1 src n A = Some (WriteToNetwork m1, A1) \<and>
    decapsulate C e2 adA m1 n B rlB = Some (WriteToNetwork m2, B1, rlB1) \<and>
    decapsulate C e3 adB m2 n A1 rlA = Some (WriteToNetwork m3, A2, rlA1) \<and>
    decapsulate C e4 adA m3 n B1 rlB1 = Some (TDone, B2, rlB1) \<and>
    decapsulate C e5 adB [] n A2 rlA1 = Some (WriteToNetwork m4, A3, rlA1) \<and>
    decapsulate C e6 adA m4 n B2 rlB1 = Some (WriteToTunnelV4 src (slice 12 16 src), B3, rlB1)"
  by (rule fresh_exchange [OF assms])

definition toy_packet :: bytes where
  "toy_packet = [69, 0, 0, 20] @ replicate 8 0 @ [10, 0, 0, 1] @ [10, 0, 0, 2]"

lemma toy_packet_ipv4: "ipv4_packet toy_packet" "slice 12 16 toy_packet = [10, 0, 0, 1]" "length toy_packet = 20"
  by (simp_all add: ipv4_packet_def toy_packet_def slice_def u16_of_be_def be_val_def drop_bit_eq_div)

definition toy_pair :: "(tunn \<times> rate_limiter) \<times> (tunn \<times> rate_limiter)" where
  "toy_pair =
     (tunn_new toy_crypto (stamper_new 5 epoch) epoch ([1], [8], epoch, epoch) [1] (x25519_public toy_crypto [2]) None None 3 None,
      tunn_new toy_crypto (stamper_new 5 epoch) epoch ([1], [8], epoch, epoch) [2] (x25519_public toy_crypto [1]) None None 4 None)"

lemma toy_after: "tai_after (stamp_time (e_stamp (toy_env epoch)) (stamper_new 5 epoch)) tai64n_zero"
  by (simp add: toy_env_def stamper_new_def stamp_time_def tai_after_def tai64n_zero_def TAI64_BASE_def as_secs_def Let_def)

theorem packet_crosses_fresh_tunnels_witness:
  "\<exists>A rlA B rlB m1 A1 m2 B1 rlB1 m3 A2 rlA1 B2 m4 A3 B3. toy_pair = ((A, rlA), (B, rlB)) \<and>
    encapsulate toy_crypto (toy_env epoch) toy_packet 148 A = Some (WriteToNetwork m1, A1) \<and>
    decapsulate toy_crypto (toy_env epoch) None m1 148 B rlB = Some (WriteToNetwork m2, B1, rlB1) \<and>
    decapsulate toy_crypto (toy_env epoch) None m2 148 A1 rlA = Some (WriteToNetwork m3, A2, rlA1) \<and>
    decapsulate toy_crypto (toy_env epoch) None m3 148 B1 rlB1 = Some (TDone, B2, rlB1) \<and>
    decapsulate toy_crypto (toy_env epoch) None [] 148 A2 rlA1 = Some (WriteToNetwork m4, A3, rlA1) \<and>
    decapsulate toy_crypto (toy_env epoch) None m4 148 B2 rlB1 =
      Some (WriteToTunnelV4 toy_packet (slice 12 16 toy_packet), B3, rlB1)"
proof -
  obtain A rlA B rlB where p: "toy_pair = ((A, rlA), (B, rlB))" by (metis prod.collapse)
  then have n: "tunn_new toy_crypto (stamper_new 5 epoch) epoch ([1], [8], epoch, epoch) [1] (x25519_public toy_crypto [2]) None None 3 None = (A, rlA)"
    "tunn_new toy_crypto (stamper_new 5 epoch) epoch ([1], [8], epoch, epoch) [2] (x25519_public toy_crypto [1]) None None 4 None = (B, rlB)"
    by (simp_all add: toy_pair_def)
  have len: "length toy_packet + 32 \<le> 148" by (simp add: toy_packet_ipv4)
  from packet_crosses_fresh_tunnels [OF toy_crypto_ok toy_packet_ipv4(1) len order_refl n toy_after,
      where adA = None and adB = None and ?e2.0 = "toy_env epoch" and ?e3.0 = "toy_env epoch" and ?e4.0 = "toy_env epoch"
        and ?e5.0 = "toy_env epoch" and ?e6.0 = "toy_env epoch"] p
  show ?thesis by (elim exE conjE) (intro exI conjI, assumption+)
qed

theorem tunnel_output_authentic_witness:
  "\<exists>m t t' rl rl' d s pt k. decapsulate toy_crypto (toy_env epoch) None m 148 t rl =
      Some (WriteToTunnelV4 toy_packet (slice 12 16 toy_packet), t', rl') \<and>
    parse_incoming_packet m = Inr (PacketData d) \<and>
    sessions t ! (unat (pd_receiver_idx d) mod N_SESSIONS) = Some s \<and> pd_receiver_idx d = receiving_index s \<and>
    will_accept (receiving_key_counter s) (pd_counter d) = Inr () \<and>
    chacha_open toy_crypto (receiver_key s) (counter_nonce (pd_counter d)) [] (pd_payload d) = Some pt \<and>
    k \<le> length pt \<and> toy_packet = take k pt"
proof -
  obtain A rlA B rlB where p: "toy_pair = ((A, rlA), (B, rlB))" by (metis prod.collapse)
  then have n: "tunn_new toy_crypto (stamper_new 5 epoch) epoch ([1], [8], epoch, epoch) [1] (x25519_public toy_crypto [2]) None None 3 None = (A, rlA)"
    "tunn_new toy_crypto (stamper_new 5 epoch) epoch ([1], [8], epoch, epoch) [2] (x25519_public toy_crypto [1]) None None 4 None = (B, rlB)"
    by (simp_all add: toy_pair_def)
  have len: "length toy_packet + 32 \<le> 148" by (simp add: toy_packet_ipv4)
  from fresh_exchange [OF toy_crypto_ok toy_packet_ipv4(1) len order_refl n toy_after,
      where adA = None and adB = None and ?e2.0 = "toy_env epoch" and ?e3.0 = "toy_env epoch" and ?e4.0 = "toy_env epoch"
        and ?e5.0 = "toy_env epoch" and ?e6.0 = "toy_env epoch"]
  obtain m t t' rl rl' where d: "decapsulate toy_crypto (toy_env epoch) None m 148 t rl =
      Some (WriteToTunnelV4 toy_packet (slice 12 16 toy_packet), t', rl')" by blast
  from tunnel_output_authentic [OF d disjI1 [OF refl]] d show ?thesis
    by (elim exE conjE) (intro exI conjI, assumption+)
qed

end
