(* ===== verification/Device_Examples.thy ===== *)
theory Device_Examples
  imports Device_Reach Tunn_Exchange
begin

text \<open>
  Concrete devices, on which the properties run: built with the operations of the model from the toy
  primitives and the toy prefix table, and two lemmas on single packets that their runs need.
\<close>

section \<open>Single packets\<close>

text \<open>The messages that the parser knows start with 1 to 4, so none is taken for a signal.\<close>

lemma parsed_first_byte:
  assumes "parse_incoming_packet src = Inr p"
  shows "src \<noteq> [] \<and> src ! 0 \<in> {1, 2, 3, 4}"
proof -
  have len: "4 \<le> length src" and ty: "u32_of_le (slice 0 4 src) \<in> {1, 2, 3, 4}"
    using assms by (auto simp: parse_incoming_packet_def Let_def split: if_splits)
  obtain a r where s: "src = a # r" using len by (cases src) auto
  have "le_val (slice 0 4 src) < 2 ^ 32" using le_val_less [of "slice 0 4 src"] len by (simp add: slice_def)
  then have "unat (u32_of_le (slice 0 4 src)) = le_val (slice 0 4 src)"
    by (simp add: u32_of_le_def unat_word_of_nat_small)
  moreover have "le_val (slice 0 4 src) = unat a + 256 * le_val (take 3 r)" by (simp add: s slice_def)
  moreover have "unat (u32_of_le (slice 0 4 src)) \<in> {1, 2, 3, 4}" using ty by auto
  ultimately have "unat a + 256 * le_val (take 3 r) \<in> {1, 2, 3, 4}" by simp
  then have "unat a = 1 \<or> unat a = 2 \<or> unat a = 3 \<or> unat a = 4" by simp presburger
  then show ?thesis by (auto simp: s word_unat_eq_iff)
qed

lemma flush_empty:
  assumes "packet_queue (p_tunnel (d_heap d ! r)) = []"
  shows "flush_queue L E r (flush_fuel r d) k d = Some ([], Suc k, d)"
  using assms by (simp add: flush_fuel_def peer_decapsulate_def decapsulate_def send_queued_packet_def
      dequeue_packet_def Let_def)

section \<open>Concrete devices\<close>

definition toy_libs :: "(toy_net, (toy_net \<times> nat) list, (toy_net \<times> unit) list) libs" where
  "toy_libs = \<lparr>lib_crypto = toy_crypto, lib_routes = toy_table, lib_allowed = toy_table\<rparr>"

lemma toy_libs_ok: "libs_ok toy_libs"
  by (simp add: libs_ok_def toy_libs_def toy_table_ok)

definition toy_os :: os where
  "toy_os = \<lparr>os_add = (\<lambda>_. True), os_connect = (\<lambda>_. Some (20, 21)),
    os_udp = (\<lambda>v4 _ _ p. Some (if v4 then (10, 12, 5000) else (11, 13, 5000))),
    os_listen = (\<lambda>_. Some (14, 15)), os_tcp = (\<lambda>_. Some (16, 17)), os_mark = (\<lambda>_ _. True), os_mtu = Some 1420\<rparr>"

definition toy_le :: limiter_env where
  "toy_le = ([1], [8], epoch, epoch)"

type_synonym toy_device = "((toy_net \<times> nat) list, (toy_net \<times> unit) list) device"

text \<open>
  A device without peers, one with the private key \<open>a\<close>, and one that knows the owner of the secret
  \<open>b\<close> at \<open>addr\<close>, who may use 10.0.0.0/8.
\<close>

definition toy_new :: "device_config \<Rightarrow> toy_device" where
  "toy_new cfg = projr (the (device_new toy_libs toy_os (Some 1, Some 2, Some 3, Some 4) 5 1420 [0, 5, 7] cfg))"

definition toy_keyed :: "device_config \<Rightarrow> bytes \<Rightarrow> toy_device" where
  "toy_keyed cfg a = the (set_key toy_libs toy_le a (toy_new cfg))"

abbreviation toy_prefix :: allowed_ip where
  "toy_prefix \<equiv> \<lparr>ai_addr = V4 [10, 0, 0, 0], ai_cidr = 8\<rparr>"

definition toy_peered :: "device_config \<Rightarrow> bytes \<Rightarrow> bytes \<Rightarrow> sock_addr option \<Rightarrow> toy_device" where
  "toy_peered cfg a b addr = the (update_peer toy_libs (stamper_new 5 epoch) epoch toy_le (x25519_public toy_crypto b)
    False False addr [toy_prefix] None None (toy_keyed cfg a))"

lemma toy_new_eq:
  "\<exists>poll. device_new toy_libs toy_os (Some 1, Some 2, Some 3, Some 4) 5 1420 [0, 5, 7] cfg = Some (Inr (toy_new cfg)) \<and>
    toy_new cfg = (device_init toy_libs cfg 1420 \<lparr>l_initial = 5, l_lfsr = 5, l_mask = 7\<rparr>)
      \<lparr>d_poll := poll, d_yield_notice := Some 1, d_exit_notice := Some 2\<rparr>"
  by (simp add: toy_new_def device_new_def toy_lfsr(1) add_event_def new_event_def register_event_def Let_def toy_os_def
      register_notifiers_def register_timers_def new_notifier_def new_periodic_event_def device_init_def)

lemma toy_new_fields:
  "d_key_pair (toy_new cfg) = None" "d_peers (toy_new cfg) = []" "d_heap (toy_new cfg) = []" "d_limiters (toy_new cfg) = []"
  "d_next_index (toy_new cfg) = \<lparr>l_initial = 5, l_lfsr = 5, l_mask = 7\<rparr>" "d_config (toy_new cfg) = cfg"
  "d_peers_by_ip (toy_new cfg) = []" "d_peers_by_idx (toy_new cfg) = []" "d_mtu (toy_new cfg) = 1420"
  "d_udp4 (toy_new cfg) = None" "d_udp6 (toy_new cfg) = None" "d_tcp_listener (toy_new cfg) = None"
  "d_tcp_connections (toy_new cfg) = []"
proof -
  obtain poll where eq: "toy_new cfg = (device_init toy_libs cfg 1420 \<lparr>l_initial = 5, l_lfsr = 5, l_mask = 7\<rparr>)
      \<lparr>d_poll := poll, d_yield_notice := Some 1, d_exit_notice := Some 2\<rparr>"
    using toy_new_eq by blast
  have "ips_new toy_table = []" by (simp add: ips_new_def toy_table_def)
  then show "d_key_pair (toy_new cfg) = None" "d_peers (toy_new cfg) = []" "d_heap (toy_new cfg) = []" "d_limiters (toy_new cfg) = []"
    "d_next_index (toy_new cfg) = \<lparr>l_initial = 5, l_lfsr = 5, l_mask = 7\<rparr>" "d_config (toy_new cfg) = cfg"
    "d_peers_by_ip (toy_new cfg) = []" "d_peers_by_idx (toy_new cfg) = []" "d_mtu (toy_new cfg) = 1420"
    "d_udp4 (toy_new cfg) = None" "d_udp6 (toy_new cfg) = None" "d_tcp_listener (toy_new cfg) = None"
    "d_tcp_connections (toy_new cfg) = []"
    unfolding eq by (simp_all add: device_init_def toy_libs_def)
qed

abbreviation toy_key_limiter :: "bytes \<Rightarrow> rate_limiter" where
  "toy_key_limiter a \<equiv> rate_limiter_new toy_crypto [1] [8] epoch epoch (x25519_public toy_crypto a) HANDSHAKE_RATE_LIMIT"

lemma toy_keyed_eq:
  "set_key toy_libs toy_le a (toy_new cfg) = Some (toy_keyed cfg a)"
  "toy_keyed cfg a = (toy_new cfg)\<lparr>d_limiters := [toy_key_limiter a], d_heap := [],
      d_key_pair := Some (a, x25519_public toy_crypto a), d_rate_limiter := Some 0\<rparr>"
proof -
  have "set_key toy_libs toy_le a (toy_new cfg) = Some ((toy_new cfg)\<lparr>d_limiters := [toy_key_limiter a], d_heap := [],
      d_key_pair := Some (a, x25519_public toy_crypto a), d_rate_limiter := Some 0\<rparr>)"
    by (simp add: set_key_def toy_libs_def toy_le_def Let_def toy_new_fields)
  then show "set_key toy_libs toy_le a (toy_new cfg) = Some (toy_keyed cfg a)"
    "toy_keyed cfg a = (toy_new cfg)\<lparr>d_limiters := [toy_key_limiter a], d_heap := [],
      d_key_pair := Some (a, x25519_public toy_crypto a), d_rate_limiter := Some 0\<rparr>"
    by (simp_all add: toy_keyed_def)
qed

lemma toy_routes:
  "\<exists>o1 routes. ips_insert toy_table (V4 [10, 0, 0, 0]) 8 (0 :: nat) [] = Some (o1, routes) \<and>
    ips_find toy_table (V4 [10, 0, 0, 2]) routes = Some 0"
proof -
  have "ips_insert toy_table (V4 [10, 0, 0, 0]) 8 (0 :: nat) [] =
      Some (None, [(the (toy_truncate (V4 [10, 0, 0, 0]) 8), 0)])"
    by (simp add: ips_insert_def toy_table_def toy_truncate_def)
  moreover have "ips_find toy_table (V4 [10, 0, 0, 2]) [(the (toy_truncate (V4 [10, 0, 0, 0]) 8), 0 :: nat)] = Some 0"
    by code_simp
  ultimately show ?thesis by blast
qed

text \<open>The tunnel of the peer, with its limiter.\<close>

abbreviation toy_new_tunn :: "bytes \<Rightarrow> bytes \<Rightarrow> tunn \<times> rate_limiter" where
  "toy_new_tunn a b \<equiv> tunn_new toy_crypto (stamper_new 5 epoch) epoch toy_le a (x25519_public toy_crypto b) None None 3 None"

lemma toy_peered_eq:
  "\<exists>p routes. update_peer toy_libs (stamper_new 5 epoch) epoch toy_le (x25519_public toy_crypto b) False False addr [toy_prefix]
      None None (toy_keyed cfg a) = Some (toy_peered cfg a b addr) \<and>
    toy_peered cfg a b addr = (toy_keyed cfg a)\<lparr>d_next_index := \<lparr>l_initial = 5, l_lfsr = 0xd80002, l_mask = 7\<rparr>,
      d_limiters := [toy_key_limiter a, snd (toy_new_tunn a b)], d_heap := [p],
      d_peers := [(x25519_public toy_crypto b, 0)], d_peers_by_idx := [(3, 0)], d_peers_by_ip := routes\<rparr> \<and>
    peer_new toy_table (fst (toy_new_tunn a b)) 1 3 addr [toy_prefix] None (cfg_transport_mode cfg) = Some p \<and>
    ips_find toy_table (V4 [10, 0, 0, 2]) routes = Some 0"
proof -
  have idx: "lfsr_next \<lparr>l_initial = 5, l_lfsr = 5, l_mask = 7\<rparr> =
      Some (3, \<lparr>l_initial = 5, l_lfsr = 0xd80002, l_mask = 7\<rparr>)" by code_simp
  obtain t l where tl: "toy_new_tunn a b = (t, l)" by fastforce
  obtain p where p: "peer_new toy_table t 1 3 addr [toy_prefix] None (cfg_transport_mode cfg) = Some p"
    using toy_peer_new by blast
  obtain o1 routes where rt: "ips_insert toy_table (V4 [10, 0, 0, 0]) 8 (0 :: nat) [] = Some (o1, routes)"
    "ips_find toy_table (V4 [10, 0, 0, 2]) routes = Some 0" using toy_routes by blast
  have "update_peer toy_libs (stamper_new 5 epoch) epoch toy_le (x25519_public toy_crypto b) False False addr [toy_prefix]
      None None (toy_keyed cfg a) =
    Some ((toy_keyed cfg a)\<lparr>d_next_index := \<lparr>l_initial = 5, l_lfsr = 0xd80002, l_mask = 7\<rparr>, d_limiters := [toy_key_limiter a, l],
      d_heap := [p], d_peers := [(x25519_public toy_crypto b, 0)], d_peers_by_idx := [(3, 0)], d_peers_by_ip := routes\<rparr>)"
    by (simp add: update_peer_def device_next_index_def toy_keyed_eq(2) toy_new_fields idx toy_libs_def tl p [simplified] rt)
  then show ?thesis using p tl rt(2) by (intro exI [of _ p] exI [of _ routes]) (simp add: toy_peered_def)
qed

lemma toy_peered_fields:
  "d_peers (toy_peered cfg a b addr) = [(x25519_public toy_crypto b, 0)]" "length (d_heap (toy_peered cfg a b addr)) = 1"
  "p_tunnel (d_heap (toy_peered cfg a b addr) ! 0) = fst (toy_new_tunn a b)" "p_limiter (d_heap (toy_peered cfg a b addr) ! 0) = 1"
  "p_endpoint (d_heap (toy_peered cfg a b addr) ! 0) = \<lparr>ep_addr = addr, ep_conn = None\<rparr>"
  "d_limiters (toy_peered cfg a b addr) = [toy_key_limiter a, snd (toy_new_tunn a b)]"
  "d_config (toy_peered cfg a b addr) = cfg" "d_mtu (toy_peered cfg a b addr) = 1420"
  "d_key_pair (toy_peered cfg a b addr) = Some (a, x25519_public toy_crypto a)" "d_rate_limiter (toy_peered cfg a b addr) = Some 0"
  "ips_find toy_table (V4 [10, 0, 0, 2]) (d_peers_by_ip (toy_peered cfg a b addr)) = Some 0"
  "is_allowed_ip toy_table (V4 [10, 0, 0, 1]) (d_heap (toy_peered cfg a b addr) ! 0)"
  "d_udp4 (toy_peered cfg a b addr) = None" "d_udp6 (toy_peered cfg a b addr) = None"
  "d_tcp_listener (toy_peered cfg a b addr) = None" "d_tcp_connections (toy_peered cfg a b addr) = []"
proof -
  obtain p routes where eq: "toy_peered cfg a b addr = (toy_keyed cfg a)\<lparr>d_next_index := \<lparr>l_initial = 5, l_lfsr = 0xd80002, l_mask = 7\<rparr>,
      d_limiters := [toy_key_limiter a, snd (toy_new_tunn a b)], d_heap := [p],
      d_peers := [(x25519_public toy_crypto b, 0)], d_peers_by_idx := [(3, 0)], d_peers_by_ip := routes\<rparr>"
    and p: "peer_new toy_table (fst (toy_new_tunn a b)) 1 3 addr [toy_prefix] None (cfg_transport_mode cfg) = Some p"
    and rt: "ips_find toy_table (V4 [10, 0, 0, 2]) routes = Some 0"
    using toy_peered_eq by blast
  have "in_prefix (V4 [10, 0, 0, 0]) 8 (V4 [10, 0, 0, 1])" by code_simp
  then have "is_allowed_ip toy_table (V4 [10, 0, 0, 1]) p" using new_peer_allows [OF toy_table_ok p] by simp
  with rt peer_new_fields [OF p] show
    "d_peers (toy_peered cfg a b addr) = [(x25519_public toy_crypto b, 0)]" "length (d_heap (toy_peered cfg a b addr)) = 1"
    "p_tunnel (d_heap (toy_peered cfg a b addr) ! 0) = fst (toy_new_tunn a b)" "p_limiter (d_heap (toy_peered cfg a b addr) ! 0) = 1"
    "p_endpoint (d_heap (toy_peered cfg a b addr) ! 0) = \<lparr>ep_addr = addr, ep_conn = None\<rparr>"
    "d_limiters (toy_peered cfg a b addr) = [toy_key_limiter a, snd (toy_new_tunn a b)]"
    "d_config (toy_peered cfg a b addr) = cfg" "d_mtu (toy_peered cfg a b addr) = 1420"
    "d_key_pair (toy_peered cfg a b addr) = Some (a, x25519_public toy_crypto a)" "d_rate_limiter (toy_peered cfg a b addr) = Some 0"
    "ips_find toy_table (V4 [10, 0, 0, 2]) (d_peers_by_ip (toy_peered cfg a b addr)) = Some 0"
    "is_allowed_ip toy_table (V4 [10, 0, 0, 1]) (d_heap (toy_peered cfg a b addr) ! 0)"
    "d_udp4 (toy_peered cfg a b addr) = None" "d_udp6 (toy_peered cfg a b addr) = None"
    "d_tcp_listener (toy_peered cfg a b addr) = None" "d_tcp_connections (toy_peered cfg a b addr) = []"
    by (simp_all add: eq toy_keyed_eq(2) toy_new_fields)
qed

lemma toy_peered_reach: "dev_reach toy_libs (toy_peered cfg a b addr)"
proof -
  have "dev_reach toy_libs (toy_new cfg)" using toy_new_eq dev_reach.reach_new by blast
  then have "dev_reach toy_libs (toy_keyed cfg a)" using toy_keyed_eq(1) dev_reach.reach_set_key by blast
  then show ?thesis using toy_peered_eq dev_reach.reach_update by blast
qed

text \<open>The same device with its UDP sockets open.\<close>

lemma toy_listening:
  assumes "cfg_transport_mode cfg = Udp"
  shows "\<exists>d. dev_reach toy_libs d \<and> d_udp4 d = Some 10 \<and> d_peers d = d_peers (toy_peered cfg a b addr) \<and>
    d_heap d = d_heap (toy_peered cfg a b addr) \<and> d_limiters d = d_limiters (toy_peered cfg a b addr) \<and>
    d_config d = cfg \<and> d_mtu d = 1420 \<and> d_key_pair d = d_key_pair (toy_peered cfg a b addr) \<and>
    d_rate_limiter d = Some 0 \<and> d_peers_by_ip d = d_peers_by_ip (toy_peered cfg a b addr)"
proof -
  let ?d = "toy_peered cfg a b addr"
  obtain p where heap: "d_heap ?d = [p]" using toy_peered_fields(2) [of cfg a b addr]
    by (cases "d_heap ?d") auto
  have p: "p\<lparr>p_endpoint := (p_endpoint p)\<lparr>ep_conn := None\<rparr>\<rparr> = p" "ep_conn (p_endpoint p) = None"
    using toy_peered_fields(5) [of cfg a b addr] by (cases p, simp add: heap)+
  have sh: "shutdown_peers d = d" if "d_peers d = d_peers ?d" "d_heap d = [p]" for d :: toy_device
    using that p by (simp add: shutdown_peers_def toy_peered_fields shutdown_endpoint_def close_conn_def)
  have add: "\<exists>poll. add_event toy_os fd h d = (True, d\<lparr>d_poll := poll\<rparr>)" for fd h and d :: toy_device
    by (simp add: add_event_def new_event_def register_event_def toy_os_def Let_def) (rule exI, rule refl)
  let ?d1 = "?d\<lparr>d_udp4 := None, d_udp6 := None, d_tcp_listener := None, d_tcp_connections := []\<rparr>"
  have close: "close_listen_sockets ?d = Some ?d1"
    by (simp add: close_listen_sockets_def clear_fd_def toy_peered_fields sh heap)
  obtain poll1 where p1: "add_event toy_os 12 HUdp ?d1 = (True, ?d1\<lparr>d_poll := poll1\<rparr>)" using add by blast
  obtain poll2 where p2: "add_event toy_os 13 HUdp (?d1\<lparr>d_poll := poll1\<rparr>) = (True, ?d1\<lparr>d_poll := poll2\<rparr>)"
    using add [of 13 HUdp "?d1\<lparr>d_poll := poll1\<rparr>"] by auto
  let ?d2 = "?d1\<lparr>d_poll := poll2, d_udp4 := Some 10, d_udp6 := Some 11, d_listen_port := 5000\<rparr>"
  have "os_udp toy_os v4 raw pr port = Some (if v4 then (10, 12, 5000) else (11, 13, 5000))" for v4 raw pr port
    by (simp add: toy_os_def)
  then have "open_udp_sockets toy_os 5000 ?d1 = (Inr (), shutdown_peers ?d2)"
    by (simp add: open_udp_sockets_def p1 p2 Let_def)
  moreover have "shutdown_peers ?d2 = ?d2" by (rule sh) (simp_all add: heap)
  ultimately have d: "open_listen_socket toy_os 5000 ?d = Some (Inr (), ?d2)"
    using assms by (simp add: open_listen_socket_def close toy_peered_fields)
  show ?thesis using dev_reach.reach_listen [OF toy_peered_reach d]
    by (intro exI [of _ ?d2]) (simp add: toy_peered_fields)
qed

text \<open>
  The device that knows one peer receives the initiation of this peer on a connected socket, and
  its tunnel has a session.
\<close>

lemma toy_session:
  "\<exists>d s. dev_reach toy_libs d \<and> hm_get (d_peers d) (x25519_public toy_crypto [2]) = Some 0 \<and>
    Some s \<in> set (sessions (p_tunnel (d_heap d ! 0)))"
proof -
  let ?E = "\<lambda>_ :: nat. toy_env epoch" and ?r = 0 and ?sock = 7 and ?ip = "V4 [192, 0, 2, 1]"
  obtain A rlA B rlB where A: "tunn_new toy_crypto (stamper_new 5 epoch) epoch toy_le [2] (x25519_public toy_crypto [1]) None None 4 None = (A, rlA)"
    and B: "tunn_new toy_crypto (stamper_new 5 epoch) epoch toy_le [1] (x25519_public toy_crypto [2]) None None 3 None = (B, rlB)"
    by (metis prod.collapse)
  have len: "length toy_packet + 32 \<le> MAX_UDP_SIZE" and size: "148 \<le> MAX_UDP_SIZE" by (simp_all add: toy_packet_ipv4)
  from verified_exchange [OF toy_crypto_ok toy_packet_ipv4(1) len size A B toy_after, of "toy_env epoch" "toy_env epoch" "toy_env epoch" "toy_env epoch" "toy_env epoch"]
  obtain m p m2 B1 s where m: "parse_incoming_packet m = Inr (HandshakeInit p)"
      "authentic_for toy_crypto (b2s_hash toy_crypto LABEL_MAC1 (x25519_public toy_crypto [1])) m"
      "handle_verified_packet toy_crypto (toy_env epoch) (HandshakeInit p) MAX_UDP_SIZE B = Some (WriteToNetwork m2, B1)"
      "packet_queue B1 = []" "Some s \<in> set (sessions B1)" by (elim exE conjE)
  have "verify_packet toy_crypto (e_cookie (toy_env epoch)) (Some ?ip) m COOKIE_REPLY_SZ rlB =
      (Inr (HandshakeInit p), rlB\<lparr>rl_count := rl_count rlB + 1\<rparr>)"
    using verify_passes [OF m(1)] m(2) new_fields(8-10) [OF B] by simp
  note deca = decapsulate_verified [OF nonempty_parse [OF m(1)] this m(3)]
  let ?d = "toy_peered config_default [1] [2] None"
  have d: "p_tunnel (d_heap ?d ! 0) = B" "p_limiter (d_heap ?d ! 0) = 1" "d_limiters ?d ! 1 = rlB"
    "cfg_ip_protocol (d_config ?d) = None" "length (d_heap ?d) = 1" "d_peers ?d = [(x25519_public toy_crypto [2], 0)]"
    using B by (simp_all add: toy_peered_fields config_default_def)
  have first: "m \<noteq> []" "m ! 0 \<noteq> 0x99" using parsed_first_byte [OF m(1)] by auto
  obtain d1 where d1: "peer_decapsulate toy_libs (toy_env epoch) (Some ?ip) m 0 ?d = Some (WriteToNetwork m2, d1)"
      "p_tunnel (d_heap d1 ! 0) = B1" "d_peers d1 = d_peers ?d"
    using deca d by (simp add: peer_decapsulate_def toy_libs_def)
  have flush: "flush_queue toy_libs ?E 0 (flush_fuel 0 d1) 1 d1 = Some ([], 2, d1)"
    using flush_empty [of d1 0 toy_libs ?E 1] d1(2) m(4) by simp
  obtain net where "conn_packet toy_libs ?E 0 ?sock ?ip m (net_start ?d) = Some (True, net)" "n_dev net = d1"
    using d1 first d(4) flush by (simp add: conn_packet_def net_start_def strip_ip_header_def emit_def)
  then have "conn_handler toy_libs ?E 0 ?sock ?ip [m] ?d = Some (Continue, net)" "n_dev net = d1"
    by (simp_all add: conn_handler_def)
  then have "dev_reach toy_libs d1" using dev_reach.reach_conn [OF toy_peered_reach] by metis
  moreover have "Some s \<in> set (sessions B1)" by (rule m(5))
  moreover have "hm_get (d_peers d1) (x25519_public toy_crypto [2]) = Some 0" by (simp add: d1(3) d(6))
  ultimately show ?thesis using d1(2) by auto
qed

end
