(* ===== verification/Device_Properties.thy ===== *)
theory Device_Properties
  imports Device_Examples
begin

text \<open>
  What the tables of a reachable device promise: a peer is found by every name it has, its packets
  find it, and nothing finds a peer that was removed.
\<close>

lemma route_held:
  assumes ok: "tables_ok L d" and L: "libs_ok L" and "ips_find (lib_routes L) a (d_peers_by_ip d) = Some r"
  shows "hm.holds (d_peers d) r"
proof -
  have T: "table_ok (lib_routes L)" using L by (simp add: libs_ok_def)
  obtain n where "tb_longest_match (lib_routes L) a (d_peers_by_ip d) = Some (n, r)"
    using assms(3) by (auto simp: ips_find_def)
  then have "(n, r) \<in> set (tb_iter (lib_routes L) (d_peers_by_ip d))" using ok_some [OF T] by blast
  then show ?thesis by (rule tables_okD(7) [OF ok])
qed

text \<open>C3 The three tables of a device name the same peers, in every state it can reach by configuration requests and events: a peer found by its public key is the peer of its index and its tunnel talks to that key, and a peer found by an index or by an address is in the table of keys.\<close>

theorem device_tables_agree:
  assumes "dev_reach L d" and "libs_ok L"
  shows "(\<forall>k r. hm_get (d_peers d) k = Some r \<longrightarrow>
      hm_get (d_peers_by_idx d) (p_index (d_heap d ! r)) = Some r \<and>
      peer_static_public (params (tn_handshake (p_tunnel (d_heap d ! r)))) = k) \<and>
    (\<forall>i r. hm_get (d_peers_by_idx d) i = Some r \<longrightarrow> (\<exists>k. hm_get (d_peers d) k = Some r) \<and> p_index (d_heap d ! r) = i) \<and>
    (\<forall>a r. ips_find (lib_routes L) a (d_peers_by_ip d) = Some r \<longrightarrow> (\<exists>k. hm_get (d_peers d) k = Some r))"
proof -
  note ok = reach_tables_ok [OF assms]
  show ?thesis
    using tables_okD(3,4,5,6) [OF ok] route_held [OF ok assms(2)]
    by (auto simp: hm.holds_def tunn_named_def hs_named_def)
qed

text \<open>C9 A packet of a session finds the peer the session belongs to: for every peer of a reachable device and every session in its tunnel, the upper 24 bits of the session's index, by which the handlers look a peer up, lead to that peer.\<close>

theorem session_index_finds_peer:
  assumes "dev_reach L d" and "libs_ok L" and "hm_get (d_peers d) k = Some r"
    and "Some s \<in> set (sessions (p_tunnel (d_heap d ! r)))"
  shows "hm_get (d_peers_by_idx d) (drop_bit 8 (receiving_index s)) = Some r"
proof -
  note ok = reach_tables_ok [OF assms(1,2)]
  have "drop_bit 8 (receiving_index s) = p_index (d_heap d ! r)"
    using tables_okD(4) [OF ok assms(3)] assms(4) by (simp add: tunn_named_def ring_named_def)
  then show ?thesis using tables_okD(3) [OF ok assms(3)] by simp
qed

lemma cancel_conn_gone:
  "poll_get (cancel_conn s p) fd = Some ev \<Longrightarrow> ev_handler ev \<noteq> HConn r a s"
  by (auto simp: poll_get_def cancel_conn_def split: if_splits)


section \<open>Witnesses\<close>

abbreviation (input) toy_known :: toy_device where
  "toy_known \<equiv> toy_peered config_default [1] [2] None"

theorem device_tables_agree_witness:
  "hm_get (d_peers toy_known) (x25519_public toy_crypto [2]) = Some 0 \<and>
    hm_get (d_peers_by_idx toy_known) (p_index (d_heap toy_known ! 0)) = Some 0 \<and>
    peer_static_public (params (tn_handshake (p_tunnel (d_heap toy_known ! 0)))) = x25519_public toy_crypto [2]"
proof -
  have "hm_get (d_peers toy_known) (x25519_public toy_crypto [2]) = Some 0" by (simp add: toy_peered_fields)
  with device_tables_agree [OF toy_peered_reach toy_libs_ok] show ?thesis by blast
qed

theorem session_index_finds_peer_witness:
  "\<exists>d s. dev_reach toy_libs d \<and> Some s \<in> set (sessions (p_tunnel (d_heap d ! 0))) \<and>
    hm_get (d_peers_by_idx d) (drop_bit 8 (receiving_index s)) = Some 0"
  using toy_session session_index_finds_peer [OF _ toy_libs_ok] by blast


end
