(* ===== verification/Device_Routing.thy ===== *)
theory Device_Routing
  imports Device_Properties
begin

text \<open>
  What the packet handlers write to the interface: only packets that a session of a peer decrypted
  and whose source address that peer may use (the cryptokey routing of the protocol).
\<close>

section \<open>The source of a decrypted packet\<close>

definition ip_source :: "bytes \<Rightarrow> ip_addr option" where
  "ip_source p =
    (if p \<noteq> [] \<and> drop_bit 4 (p ! 0) = 4 \<and> IPV4_MIN_HEADER_SIZE \<le> length p then Some (V4 (slice 12 16 p))
     else if p \<noteq> [] \<and> drop_bit 4 (p ! 0) = 6 \<and> IPV6_MIN_HEADER_SIZE \<le> length p then Some (V6 (slice 8 24 p))
     else None)"

text \<open>The result of a tunnel that goes to the interface, with its bytes and its source.\<close>

fun iface_result :: "tunn_result \<Rightarrow> (bytes \<times> ip_addr) option" where
  "iface_result (WriteToTunnelV4 x a) = Some (x, V4 a)"
| "iface_result (WriteToTunnelV6 x a) = Some (x, V6 a)"
| "iface_result _ = None"

lemma iface_result_iff: "iface_result r \<noteq> None \<longleftrightarrow> for_interface r"
  by (cases r) auto

lemma validate_source:
  assumes "validate_decapsulated_packet p t = (r, t')" and "iface_result r = Some (x, a)"
  shows "ip_source p = Some a \<and> (\<exists>k. x = take k p)"
  using assms by (auto simp: validate_decapsulated_packet_def Let_def ip_source_def split: if_splits)

text \<open>A packet that a session of the tunnel decrypts: the plaintext, for a fresh counter.\<close>

definition decrypts :: "crypto \<Rightarrow> tunn \<Rightarrow> bytes \<Rightarrow> bool" where
  "decrypts C t pt \<longleftrightarrow> (\<exists>s c ct. sessions t ! (session_local_index s mod N_SESSIONS) = Some s \<and>
    will_accept (receiving_key_counter s) c = Inr () \<and>
    chacha_open C (receiver_key s) (counter_nonce c) [] ct = Some pt)"

lemma handle_data_source:
  assumes "handle_data C d n t = Some (Inr r, t')" and "iface_result r = Some (x, a)"
  shows "\<exists>pt k. decrypts C t pt \<and> x = take k pt \<and> ip_source pt = Some a"
proof -
  obtain s where s: "sessions t ! (unat (pd_receiver_idx d) mod N_SESSIONS) = Some s"
    using assms(1) by (auto simp: handle_data_def Let_def split: option.splits)
  obtain pt s' where p: "receive_packet_data C d n s = Some (Inr pt, s')"
    using assms(1) s by (auto simp: handle_data_def Let_def split: bind_splits sum.splits)
  obtain t2 t3 where v: "validate_decapsulated_packet pt t2 = (r, t3)"
    using assms(1) s p by (auto simp: handle_data_def Let_def split: prod.splits)
  have "pd_receiver_idx d = receiving_index s" "will_accept (receiving_key_counter s) (pd_counter d) = Inr ()"
      "chacha_open C (receiver_key s) (counter_nonce (pd_counter d)) [] (pd_payload d) = Some pt"
    using p by (auto simp: receive_packet_data_def receiving_counter_quick_check_def
        split: if_splits sum.splits option.splits bind_splits)
  with s have "decrypts C t pt" unfolding decrypts_def session_local_index_def by metis
  with validate_source [OF v assms(2)] show ?thesis by blast
qed

lemma verified_source:
  assumes "handle_verified_packet C env pk n t = Some (r, t')" and "iface_result r = Some (x, a)"
  shows "\<exists>pt k. decrypts C t pt \<and> x = take k pt \<and> ip_source pt = Some a"
proof (cases pk)
  case (PacketData d)
  then have "handle_data C d n t = Some (Inr r, t')"
    using assms by (auto simp: handle_verified_packet_def tunn_result_from_def split: bind_splits sum.splits)
  then show ?thesis using handle_data_source assms(2) by blast
qed (use assms in \<open>auto simp: handle_verified_packet_def tunn_result_from_def handle_handshake_init_def
      handle_handshake_response_def handle_cookie_reply_def Let_def split: bind_splits sum.splits prod.splits\<close>)

lemma decapsulate_source:
  assumes "decapsulate C env a datagram n t rl = Some (r, t', rl')" and "iface_result r = Some (x, src)"
  shows "\<exists>pt k. decrypts C t pt \<and> x = take k pt \<and> ip_source pt = Some src"
proof -
  have "datagram \<noteq> []"
  proof
    assume "datagram = []"
    with assms(1) have "send_queued_packet C env n t = Some (r, t')" by (auto simp: decapsulate_def split: bind_splits)
    from send_queued_not_for_interface [OF this] iface_result_iff assms(2) show False by force
  qed
  then obtain pk where "handle_verified_packet C env pk n t = Some (r, t')"
    using assms by (auto simp: decapsulate_def split: if_splits prod.splits sum.splits tunn_result.splits bind_splits)
  then show ?thesis using verified_source assms(2) by blast
qed

section \<open>What the handlers write\<close>

definition routed :: "('n, 't, 'u) libs \<Rightarrow> ('t, 'u) device \<Rightarrow> bytes \<Rightarrow> bool" where
  "routed L d b \<longleftrightarrow> (\<exists>d' r pt k a. frame d d' \<and> r < length (d_heap d) \<and>
    decrypts (lib_crypto L) (p_tunnel (d_heap d' ! r)) pt \<and> b = take k pt \<and> ip_source pt = Some a \<and>
    is_allowed_ip (lib_allowed L) a (d_heap d ! r))"

definition net_routed :: "('n, 't, 'u) libs \<Rightarrow> ('t, 'u) device \<Rightarrow> ('t, 'u) net \<Rightarrow> bool" where
  "net_routed L d s \<longleftrightarrow> frame d (n_dev s) \<and> (\<forall>b. OutIface b \<in> set (n_out s) \<longrightarrow> routed L d b)"

lemma net_routed_start [simp]: "net_routed L d (net_start d)"
  by (simp add: net_routed_def net_start_def)

lemma net_routed_out: "net_routed L d s \<Longrightarrow> OutIface b \<in> set (n_out s) \<Longrightarrow> routed L d b"
  by (simp add: net_routed_def)

lemma out_start [simp]: "n_out (net_start d) = []"
  by (simp add: net_start_def)

lemma net_routed_dev: "net_routed L d s \<Longrightarrow> frame (n_dev s) d' \<Longrightarrow> net_routed L d (s\<lparr>n_dev := d', n_calls := k\<rparr>)"
  by (auto simp: net_routed_def intro: frame_trans)

lemma net_routed_dev_only: "net_routed L d s \<Longrightarrow> frame (n_dev s) d' \<Longrightarrow> net_routed L d (s\<lparr>n_dev := d'\<rparr>)"
  by (auto simp: net_routed_def intro: frame_trans)

lemma net_routed_flush [simp]: "net_routed L d (flush_batch s) = net_routed L d s"
  by (auto simp: net_routed_def flush_batch_def)

lemma net_routed_queue [simp]: "net_routed L d (queue_send a p s) = net_routed L d s"
  by (simp add: queue_send_def Let_def) (auto simp: net_routed_def flush_batch_def)

lemma net_routed_fold_queue [simp]: "net_routed L d (fold (queue_send a) ps s) = net_routed L d s"
  by (induction ps arbitrary: s) simp_all

lemma net_routed_emit:
  "net_routed L d s \<Longrightarrow> (\<And>b. OutIface b \<in> set os \<Longrightarrow> routed L d b) \<Longrightarrow> net_routed L d (emit os s)"
  by (auto simp: net_routed_def emit_def)

lemma net_routed_tcp_send: "net_routed L d s \<Longrightarrow> net_routed L d (tcp_send X a p s)"
  by (auto simp: tcp_send_def tcp_writes_def split: prod.splits option.splits
      intro!: net_routed_emit net_routed_dev_only dest!: frame_maybe_connect)

lemma net_routed_fold_tcp: "net_routed L d s \<Longrightarrow> net_routed L d (fold (tcp_send X a) ps s)"
  by (induction ps arbitrary: s) (simp_all add: net_routed_tcp_send)

lemma allowed_frame:
  "frame d d' \<Longrightarrow> r < length (d_heap d) \<Longrightarrow> is_allowed_ip U a (d_heap d' ! r) = is_allowed_ip U a (d_heap d ! r)"
  by (drule (1) frame_nth) (simp add: is_allowed_ip_def peer_frame_def)

lemma to_iface_cases:
  "OutIface b \<in> set (to_iface L res p) \<Longrightarrow> \<exists>a. iface_result res = Some (b, a) \<and> is_allowed_ip (lib_allowed L) a p"
  by (auto simp: to_iface_def split: tunn_result.splits if_splits)

lemma verified_routed:
  assumes "peer_handle_verified L env parsed r d1 = Some (res, d2)" and "frame d d1" and "frame d d3"
    and "r < length (d_heap d)" and "OutIface b \<in> set (to_iface L res (d_heap d3 ! r))"
  shows "routed L d b"
proof -
  obtain a where a: "iface_result res = Some (b, a)" "is_allowed_ip (lib_allowed L) a (d_heap d3 ! r)"
    using to_iface_cases [OF assms(5)] by blast
  obtain t where "handle_verified_packet (lib_crypto L) env parsed MAX_UDP_SIZE (p_tunnel (d_heap d1 ! r)) = Some (res, t)"
    using assms(1) by (auto simp: peer_handle_verified_def split: bind_splits)
  from verified_source [OF this a(1)] a(2) assms(2,4) allowed_frame [OF assms(3,4)] show ?thesis
    unfolding routed_def by blast
qed

lemma decapsulate_routed:
  assumes "peer_decapsulate L env src data r d1 = Some (res, d2)" and "frame d d1"
    and "r < length (d_heap d)" and "OutIface b \<in> set (to_iface L res (d_heap d2 ! r))"
  shows "routed L d b"
proof -
  obtain a where a: "iface_result res = Some (b, a)" "is_allowed_ip (lib_allowed L) a (d_heap d2 ! r)"
    using to_iface_cases [OF assms(4)] by blast
  have f: "frame d d2" using assms(2) frame_decapsulate [OF assms(1)] by (rule frame_trans)
  obtain t rl where "decapsulate (lib_crypto L) env src data MAX_UDP_SIZE (p_tunnel (d_heap d1 ! r))
      (d_limiters d1 ! p_limiter (d_heap d1 ! r)) = Some (res, t, rl)"
    using assms(1) by (auto simp: peer_decapsulate_def Let_def split: bind_splits)
  from decapsulate_source [OF this a(1)] a(2) assms(2,3) allowed_frame [OF f assms(3)] show ?thesis
    unfolding routed_def by blast
qed

lemma identified_range:
  assumes "identify_peer L priv pub parsed d1 = Some (Some r)" and "tables_ok L d" and "frame d d1"
  shows "r < length (d_heap d)"
proof -
  have "hm.holds (d_peers d) r"
    using assms(1,3) tables_okD(5) [OF assms(2)]
    by (auto simp: identify_peer_def frame_def hm.holds_def split: packet.splits bind_splits sum.splits)
  then show ?thesis using tables_okD(2) [OF assms(2)] by (auto simp: hm.holds_def)
qed

lemma routed_udp_packet:
  assumes "udp_packet L X E keys l addr packet s = Some s'" and "net_routed L d s" and ok: "tables_ok L d"
  shows "net_routed L d s'"
  using assms(1)
proof (cases rule: udp_packet_cases)
  case (handled parsed d1 r res d2 d3)
  have f1: "frame d d1" using assms(2) frame_device_verify [OF handled(1)] frame_trans by (auto simp: net_routed_def)
  have f3: "frame d d3"
    using f1 frame_handle_verified [OF handled(3)] frame_roam [OF handled(5)] frame_trans by blast
  have r: "r < length (d_heap d)" by (rule identified_range [OF handled(2) ok f1])
  show ?thesis
    unfolding handled(6)
  proof (rule net_routed_emit)
    show "net_routed L d (s\<lparr>n_dev := d3, n_calls := Suc (n_calls s)\<rparr>)"
      using assms(2) f3 by (simp add: net_routed_def)
  qed (use verified_routed [OF handled(3) f1 f3 r] in blast)
next
  case (replied parsed d1 r reply d2 d3 ps k d4)
  have "frame (n_dev s) d3"
    using frame_device_verify [OF replied(1)] frame_handle_verified [OF replied(3)] frame_roam [OF replied(4)] frame_trans
    by blast
  then show ?thesis
    unfolding replied(6) net_routed_fold_queue
    using assms(2) frame_flush [OF replied(5)] by (intro net_routed_dev) (simp_all add: net_routed_dev)
qed (use assms(2) frame_device_verify frame_handle_verified frame_trans in
    \<open>(simp; blast intro: net_routed_dev)+\<close>)

lemma routed_udp_segments:
  "udp_segments L X E keys l addr segs s = Some s' \<Longrightarrow> net_routed L d s \<Longrightarrow> tables_ok L d \<Longrightarrow> net_routed L d s'"
proof (induction segs arbitrary: s)
  case (Cons seg segs)
  show ?case
  proof (cases "strip_ip_header (cfg_ip_protocol (d_config (n_dev s))) (sock_is_ipv4 addr) seg")
    case None
    then show ?thesis using Cons by simp
  next
    case (Some packet)
    then obtain s1 where "udp_packet L X E keys l addr packet s = Some s1"
      "udp_segments L X E keys l addr segs s1 = Some s'"
      using Cons.prems by (auto split: bind_splits)
    then show ?thesis using Cons routed_udp_packet by blast
  qed
qed simp

lemma routed_udp_batch:
  "udp_batch L X E keys l ds s = Some s' \<Longrightarrow> net_routed L d s \<Longrightarrow> tables_ok L d \<Longrightarrow> net_routed L d s'"
proof (induction L X E keys l ds s rule: udp_batch.induct)
  case (3 L X E keys l addr gro buf ds s)
  from 3(2) obtain s1 where s1: "udp_segments L X E keys l addr (datagram_segments gro buf) s = Some s1"
    "udp_batch L X E keys l ds s1 = Some s'" by (auto split: bind_splits)
  show ?case using 3(1) [OF s1] routed_udp_segments [OF s1(1)] 3(3,4) by blast
qed auto

lemma routed_udp_rounds:
  "udp_rounds L X E keys l iter bs s = Some (s', rest) \<Longrightarrow> net_routed L d s \<Longrightarrow> tables_ok L d \<Longrightarrow> net_routed L d s'"
proof (induction bs arbitrary: iter s)
  case (Cons b bs)
  show ?case
  proof (cases "b = []")
    case True
    then show ?thesis using Cons.prems by simp
  next
    case False
    then obtain s1 where s1: "udp_batch L X E keys l b s = Some s1" using Cons.prems by (auto split: bind_splits)
    let ?s2 = "if n_batch s1 \<noteq> [] then flush_batch s1 else s1"
    have f: "net_routed L d ?s2" using routed_udp_batch [OF s1 Cons.prems(2,3)] by simp
    from Cons.prems False s1 consider "s' = ?s2"
      | "udp_rounds L X E keys l (iter - word_of_nat (length b)) bs ?s2 = Some (s', rest)"
      by (auto simp: Let_def split: if_splits)
    then show ?thesis using f Cons by cases blast+
  qed
qed simp

lemma routed_udp_handler:
  "udp_handler L X E batches d = Some (a, s) \<Longrightarrow> tables_ok L d \<Longrightarrow> net_routed L d s"
  by (auto simp: udp_handler_def split: option.splits dest!: routed_udp_rounds)

lemma net_routed_same:
  assumes "same_effect s s'"
  shows "net_routed L d s \<longleftrightarrow> net_routed L d s'"
proof -
  have "OutIface b \<in> set (n_out s) \<longleftrightarrow> OutIface b \<in> set (filter (Not \<circ> out_is_udp) (n_out s))" for s :: "('t, 'u) net" and b
    by simp
  then show ?thesis using assms unfolding net_routed_def same_effect_def by metis
qed

lemma routed_plain_packet:
  assumes "plain_packet L X E keys l addr buf s = Some (c, s')" and "net_routed L d s" and ok: "tables_ok L d"
  shows "net_routed L d s'"
proof -
  have "net_routed L d (s\<lparr>n_batch := []\<rparr>)" using assms(2) by (simp add: net_routed_def)
  then show ?thesis using plain_as_udp [OF assms(1)] routed_udp_packet [OF _ _ ok] net_routed_same assms(2) by blast
qed

lemma routed_plain_loop:
  "plain_loop L X E keys l iter ds s = Some (s', rest) \<Longrightarrow> net_routed L d s \<Longrightarrow> tables_ok L d \<Longrightarrow> net_routed L d s'"
proof (induction L X E keys l iter ds s rule: plain_loop.induct)
  case (3 L X E keys l iter addr buf ds s)
  from 3(3) obtain c s1 where s1: "plain_packet L X E keys l addr buf s = Some (c, s1)" by (auto split: bind_splits)
  show ?case
    using 3(1) [OF s1 refl] 3(2) [OF s1 refl] 3(3-5) s1 routed_plain_packet [OF s1] by (fastforce split: if_splits)
qed simp_all

lemma routed_plain_handler:
  "plain_udp_handler L X E ds d = Some (a, s) \<Longrightarrow> tables_ok L d \<Longrightarrow> net_routed L d s"
  by (auto simp: plain_udp_handler_def split: option.splits dest!: routed_plain_loop)

lemma routed_conn_packet:
  assumes "conn_packet L E r sock a buf s = Some (c, s')" and "net_routed L d s" and r: "r < length (d_heap d)"
  shows "net_routed L d s'"
  using assms(1)
proof (cases rule: conn_packet_cases)
  case (handled data res d1)
  have f: "frame d (n_dev s)" using assms(2) by (simp add: net_routed_def)
  show ?thesis
    unfolding handled(3)
  proof (rule net_routed_emit)
    show "net_routed L d (s\<lparr>n_dev := d1, n_calls := Suc (n_calls s)\<rparr>)"
      by (rule net_routed_dev [OF assms(2) frame_decapsulate [OF handled(1)]])
  qed (use decapsulate_routed [OF handled(1) f r] in blast)
next
  case (replied data reply d1 ps k d2)
  have "frame (n_dev s) d2" using frame_decapsulate [OF replied(1)] frame_flush [OF replied(3)] by (rule frame_trans)
  then show ?thesis unfolding replied(4) by (intro net_routed_emit net_routed_dev [OF assms(2)]) auto
qed (use assms(2) in simp)

lemma routed_conn_loop:
  "conn_loop L E r sock a iter bs s = Some (s', rest) \<Longrightarrow> net_routed L d s \<Longrightarrow> r < length (d_heap d) \<Longrightarrow> net_routed L d s'"
proof (induction bs arbitrary: iter s)
  case (Cons b bs)
  from Cons.prems obtain c s1 where c: "conn_packet L E r sock a b s = Some (c, s1)" by (auto split: bind_splits)
  note f = routed_conn_packet [OF c Cons.prems(2,3)]
  from Cons.prems c consider "s' = s1" | n where "conn_loop L E r sock a n bs s1 = Some (s', rest)"
    by (auto split: if_splits)
  then show ?case using f Cons.IH Cons.prems(3) by cases blast+
qed simp

lemma routed_conn_handler:
  "conn_handler L E r sock a bs d = Some (act, s) \<Longrightarrow> r < length (d_heap d) \<Longrightarrow> net_routed L d s"
  by (auto simp: conn_handler_def dest!: routed_conn_loop)

lemma routed_tcp_deliver:
  assumes "tcp_deliver L X E env a parsed r s = Some s'" and s: "net_routed L d s" and r: "r < length (d_heap d)"
  shows "net_routed L d s'"
proof -
  have f: "frame d (n_dev s)" using s by (simp add: net_routed_def)
  obtain res d2 where h: "peer_handle_verified L env parsed r (n_dev s) = Some (res, d2)"
    using assms by (auto simp: tcp_deliver_def split: bind_splits)
  have f2: "frame d d2" using f frame_handle_verified [OF h] by (rule frame_trans)
  have s2: "net_routed L d (s\<lparr>n_dev := d2\<rparr>)" by (rule net_routed_dev_only [OF s frame_handle_verified [OF h]])
  obtain s3 where s3: "s3 = (case res of WriteToNetwork resp \<Rightarrow> tcp_send X a resp (s\<lparr>n_dev := d2\<rparr>)
      | _ \<Rightarrow> emit (to_iface L res (d_heap d2 ! r)) (s\<lparr>n_dev := d2\<rparr>))" by blast
  have n3: "net_routed L d s3"
  proof (cases "\<exists>resp. res = WriteToNetwork resp")
    case True
    then show ?thesis unfolding s3 by (auto intro: net_routed_tcp_send [OF s2])
  next
    case False
    then have "s3 = emit (to_iface L res (d_heap d2 ! r)) (s\<lparr>n_dev := d2\<rparr>)"
      unfolding s3 by (cases res) auto
    then show ?thesis
      using net_routed_emit [OF s2] verified_routed [OF h f f2 r] by blast
  qed
  obtain ps k d3 where fl: "flush_queue L E r (flush_fuel r (n_dev s3)) (n_calls s3) (n_dev s3) = Some (ps, k, d3)"
    and s': "s' = fold (tcp_send X a) ps (s3\<lparr>n_dev := d3, n_calls := k\<rparr>)"
    using assms h unfolding s3 by (auto simp: tcp_deliver_def Let_def split: bind_splits)
  show ?thesis unfolding s' by (rule net_routed_fold_tcp [OF net_routed_dev [OF n3 frame_flush [OF fl]]])
qed

lemma routed_tcp_packet:
  assumes "tcp_packet L X E sock a (n, s) packet = Some fl" and s: "net_routed L d s" and ok: "tables_ok L d"
  shows "net_routed L d (snd (flow_state fl))"
proof -
  let ?d = "n_dev s"
  consider "fl = Break (n, s)" | keys l where "d_key_pair ?d = Some keys" "d_rate_limiter ?d = Some l" "length packet \<le> MAX_UDP_SIZE"
    using assms by (auto simp: tcp_packet_def Let_def split: if_splits option.splits)
  then show ?thesis
  proof cases
    case 2
    obtain v d1 where v: "device_verify L (E (n_calls s)) l (sock_ip a) packet ?d = (v, d1)" by fastforce
    let ?s1 = "s\<lparr>n_dev := d1, n_calls := Suc (n_calls s)\<rparr>"
    have s1: "net_routed L d ?s1" by (rule net_routed_dev [OF s frame_device_verify [OF v]])
    show ?thesis
    proof (cases v)
      case (Inl e)
      then have "snd (flow_state fl) = ?s1 \<or> (\<exists>c. snd (flow_state fl) = emit (tcp_writes sock c) ?s1)"
        using assms(1) 2 v by (auto simp: tcp_packet_def Let_def split: tunn_result.splits)
      then show ?thesis using s1 by (auto intro!: net_routed_emit simp: tcp_writes_def)
    next
      case (Inr parsed)
      obtain who s4 where w: "identify_peer L (fst keys) (snd keys) parsed d1 = Some who"
        "(case who of None \<Rightarrow> Some ?s1 | Some r \<Rightarrow> tcp_deliver L X E (E (n_calls s)) a parsed r ?s1) = Some s4"
        "fl = (if Suc n \<ge> MAX_ITR then Halt (Suc n, s4) else Go (Suc n, s4))"
        using assms(1) 2 v Inr by (auto simp: tcp_packet_def Let_def split: bind_splits)
      have "frame d d1" using s1 by (simp add: net_routed_def)
      then have "net_routed L d s4"
        using w(1,2) s1 identified_range [OF _ ok] by (auto split: option.splits dest!: routed_tcp_deliver)
      then show ?thesis by (simp add: w(3))
    qed
  qed (use s in simp)
qed

lemma routed_tcp_drain:
  "tcp_drain (tcp_packet L X E sock a) f st off = Some (st', n) \<Longrightarrow> net_routed L d (snd st) \<Longrightarrow> tables_ok L d \<Longrightarrow>
    net_routed L d (snd st')"
  by (rule tcp_drain_invariant [where P = "\<lambda>st. net_routed L d (snd st)"])
    (auto dest: routed_tcp_packet)

lemma routed_tcp_handler:
  "tcp_handler L X E sock a k arrived closed f d = Some (act, s, f', rest) \<Longrightarrow> tables_ok L d \<Longrightarrow>
    \<forall>b. OutIface b \<in> set (n_out s) \<longrightarrow> routed L d b"
  by (auto simp: tcp_handler_def Let_def split: option.splits bind_splits if_splits prod.splits
      dest!: routed_tcp_drain dest: net_routed_out)

text \<open>The handlers of the interface and of the timers write nothing to it.\<close>

definition sends_only :: "('t, 'u) net \<Rightarrow> bool" where
  "sends_only s \<longleftrightarrow> (\<forall>b. OutIface b \<notin> set (n_out s))"

lemma sends_only_emit: "sends_only s \<Longrightarrow> (\<And>b. OutIface b \<notin> set os) \<Longrightarrow> sends_only (emit os s)"
  by (auto simp: sends_only_def emit_def)

lemma sends_only_fields [simp]: "sends_only (s\<lparr>n_dev := d\<rparr>) = sends_only s" "sends_only (s\<lparr>n_calls := k\<rparr>) = sends_only s"
  "sends_only (net_start d)"
  by (simp_all add: sends_only_def net_start_def)

lemma sends_only_tcp: "sends_only s \<Longrightarrow> sends_only (tcp_send X a p s)"
  by (auto simp: tcp_send_def tcp_writes_def split: prod.split option.split intro!: sends_only_emit)

lemma sends_only_endpoint: "sends_only s \<Longrightarrow> sends_only (send_to_endpoint X r p s)"
  by (auto simp: send_to_endpoint_def Let_def split: option.split intro!: sends_only_emit sends_only_tcp)

lemma sends_only_iface_packet: "iface_packet L X E src s = Some s' \<Longrightarrow> sends_only s \<Longrightarrow> sends_only s'"
  by (auto simp: iface_packet_def Let_def split: option.splits bind_splits tunn_result.splits
      intro!: sends_only_endpoint)

lemma sends_only_iface_loop: "iface_loop L X E mtu n reads s = Some (a, s') \<Longrightarrow> sends_only s \<Longrightarrow> sends_only s'"
proof (induction L X E mtu n reads s rule: iface_loop.induct)
  case (5 L X E mtu n src reads s)
  from 5(2) obtain s1 where s1: "iface_packet L X E (take mtu src) s = Some s1"
    "iface_loop L X E mtu n reads s1 = Some (a, s')" by (auto split: bind_splits)
  show ?case by (rule 5(1) [OF s1 sends_only_iface_packet [OF s1(1) 5(3)]])
qed auto

lemma sends_only_peer_timers: "peer_timers L E rs s = Some s' \<Longrightarrow> sends_only s \<Longrightarrow> sends_only s'"
proof (induction rs arbitrary: s)
  case (Cons r rs)
  then obtain s1 where s1: "peer_timer L E r s = Some s1" "peer_timers L E rs s1 = Some s'" by (auto split: bind_splits)
  have "sends_only s1"
    using s1(1) Cons.prems(2)
    by (auto simp: peer_timer_def Let_def split: option.splits bind_splits tunn_result.splits if_splits prod.splits
        intro!: sends_only_emit)
  then show ?case using Cons.IH [OF s1(2)] by simp
qed simp

end
