(* ===== verification/Device_Exchange.thy ===== *)
theory Device_Exchange
  imports Device_Routing
begin

text \<open>
  Two devices with fresh tunnels for each other: a packet read from the interface of one leaves the
  interface of the other, through the handlers, the tables and the limiters of both.
\<close>

section \<open>One datagram\<close>

text \<open>
  The device \<open>d\<close> with the private key \<open>priv\<close> has the peer \<open>r\<close> with the public key \<open>k\<close>, and talks UDP
  without connected sockets.
\<close>

definition faces :: "('n, 't, 'u) libs \<Rightarrow> ('t, 'u) device \<Rightarrow> nat \<Rightarrow> bytes \<Rightarrow> bytes \<Rightarrow> bool" where
  "faces L d r priv k \<longleftrightarrow>
    r < length (d_heap d) \<and> hm_get (d_peers d) k = Some r \<and> ep_conn (p_endpoint (d_heap d ! r)) = None \<and>
    d_key_pair d = Some (priv, x25519_public (lib_crypto L) priv) \<and>
    (\<exists>l. d_rate_limiter d = Some l \<and> l < length (d_limiters d) \<and>
      mac1_key (d_limiters d ! l) = b2s_hash (lib_crypto L) LABEL_MAC1 (x25519_public (lib_crypto L) priv)) \<and>
    \<not> cfg_use_connected_socket (d_config d) \<and> cfg_ip_protocol (d_config d) = None \<and> cfg_transport_mode (d_config d) \<noteq> Tcp"

abbreviation device_limiter :: "('t, 'u) device \<Rightarrow> rate_limiter" where
  "device_limiter d \<equiv> d_limiters d ! the (d_rate_limiter d)"

text \<open>A device after its peer \<open>r\<close> at \<open>addr\<close> got the tunnel \<open>t\<close>, with other limiter counts.\<close>

definition heard :: "nat \<Rightarrow> sock_addr \<Rightarrow> tunn \<Rightarrow> rate_limiter list \<Rightarrow> ('t, 'u) device \<Rightarrow> ('t, 'u) device" where
  "heard r addr t ls d =
    (put_peer r ((d_heap d ! r)\<lparr>p_tunnel := t, p_endpoint := \<lparr>ep_addr = Some (sock_new (sock_ip addr) (sock_port addr)), ep_conn = None\<rparr>\<rparr>) d)
      \<lparr>d_limiters := ls\<rparr>"

definition same_keys :: "('t, 'u) device \<Rightarrow> rate_limiter list \<Rightarrow> bool" where
  "same_keys d ls \<longleftrightarrow> map mac1_key ls = map mac1_key (d_limiters d)"

lemma same_keysD: "same_keys d ls \<Longrightarrow> length ls = length (d_limiters d)"
  "same_keys d ls \<Longrightarrow> l < length (d_limiters d) \<Longrightarrow> mac1_key (ls ! l) = mac1_key (d_limiters d ! l)"
  by (auto simp: same_keys_def dest: map_eq_imp_length_eq arg_cong [where f = length] nth_map)
    (metis nth_map length_map)

lemma faces_heard: "faces L d r priv k \<Longrightarrow> same_keys d ls \<Longrightarrow> faces L (heard r addr t ls d) r priv k"
  using same_keysD [of d ls] by (auto simp: faces_def heard_def)

lemma tunnel_heard: "r < length (d_heap d) \<Longrightarrow> p_tunnel (d_heap (heard r addr t ls d) ! r) = t"
  by (simp add: heard_def)

lemma verify_step:
  assumes f: "faces L d r priv k" and p: "parse_incoming_packet m = Inr pk"
    and auth: "handshake_sender pk \<noteq> None \<Longrightarrow>
      authentic_for (lib_crypto L) (b2s_hash (lib_crypto L) LABEL_MAC1 (x25519_public (lib_crypto L) priv)) m \<and>
      rl_count (device_limiter d) < limit (device_limiter d)"
  shows "\<exists>ls. device_verify L env (the (d_rate_limiter d)) ip m d = (Inr pk, d\<lparr>d_limiters := ls\<rparr>) \<and> same_keys d ls"
proof -
  obtain l where l: "d_rate_limiter d = Some l" "l < length (d_limiters d)"
    "mac1_key (d_limiters d ! l) = b2s_hash (lib_crypto L) LABEL_MAC1 (x25519_public (lib_crypto L) priv)"
    using f by (auto simp: faces_def)
  have "\<exists>rl. verify_packet (lib_crypto L) (e_cookie env) (Some ip) m MAX_UDP_SIZE (d_limiters d ! l) = (Inr pk, rl) \<and>
      mac1_key rl = mac1_key (d_limiters d ! l)"
  proof (cases "handshake_sender pk")
    case None
    then show ?thesis using p by (simp add: verify_packet_def)
  next
    case (Some i)
    then show ?thesis using verify_passes [OF p Some] auth l by simp
  qed
  then obtain rl where "verify_packet (lib_crypto L) (e_cookie env) (Some ip) m MAX_UDP_SIZE (d_limiters d ! l) = (Inr pk, rl)"
    "mac1_key rl = mac1_key (d_limiters d ! l)" by blast
  then show ?thesis
    using l by (auto simp: device_verify_def same_keys_def map_update list_update_same_conv
        intro!: exI [of _ "(d_limiters d)[l := rl]"])
qed

lemma endpoint_known: "ep_addr (p_endpoint p) = Some a \<Longrightarrow> ep_conn (p_endpoint p) = None \<Longrightarrow>
    p\<lparr>p_tunnel := t, p_endpoint := \<lparr>ep_addr = Some a, ep_conn = None\<rparr>\<rparr> = p\<lparr>p_tunnel := t\<rparr>"
  by (cases p, cases "p_endpoint p") simp

lemma device_update_commute: "(d :: ('t, 'u) device)\<lparr>d_limiters := ls, d_heap := h\<rparr> = d\<lparr>d_heap := h, d_limiters := ls\<rparr>"
  by simp

lemma peer_update_commute: "(p :: 'u peer)\<lparr>p_endpoint := e, p_tunnel := t\<rparr> = p\<lparr>p_tunnel := t, p_endpoint := e\<rparr>"
  by simp

text \<open>What the handler does with a datagram that is verified and belongs to the peer.\<close>

lemma packet_step:
  assumes f: "faces L d r priv k" and p: "parse_incoming_packet m = Inr pk"
    and auth: "handshake_sender pk \<noteq> None \<Longrightarrow>
      authentic_for (lib_crypto L) (b2s_hash (lib_crypto L) LABEL_MAC1 (x25519_public (lib_crypto L) priv)) m \<and>
      rl_count (device_limiter d) < limit (device_limiter d)"
    and who: "\<And>ls. identify_peer L priv (x25519_public (lib_crypto L) priv) pk (d\<lparr>d_limiters := ls\<rparr>) = Some (Some r)"
    and h: "handle_verified_packet (lib_crypto L) (E (n_calls s)) pk MAX_UDP_SIZE (p_tunnel (d_heap d ! r)) = Some (res, t)"
    and res: "\<not> is_err res" and s: "n_dev s = d"
  shows "\<exists>ls. same_keys d ls \<and>
    udp_packet L X E (priv, x25519_public (lib_crypto L) priv) (the (d_rate_limiter d)) addr m s =
    (let d' = heard r addr t ls d; s' = s\<lparr>n_dev := d', n_calls := Suc (n_calls s)\<rparr>
     in case res of
          WriteToNetwork reply \<Rightarrow> do {
            (ps, k, d4) \<leftarrow> flush_queue L E r (flush_fuel r d') (Suc (n_calls s)) d';
            Some (fold (queue_send addr) ps ((queue_send addr reply s')\<lparr>n_dev := d4, n_calls := k\<rparr>))
          }
        | _ \<Rightarrow> Some (emit (to_iface L res (d_heap d' ! r)) s'))"
proof -
  obtain ls where v: "device_verify L (E (n_calls s)) (the (d_rate_limiter d)) (sock_ip addr) m d = (Inr pk, d\<lparr>d_limiters := ls\<rparr>)"
    and ls: "same_keys d ls" using verify_step [OF f p auth] by blast
  let ?d1 = "d\<lparr>d_limiters := ls\<rparr>"
  have hv: "peer_handle_verified L (E (n_calls s)) pk r ?d1 = Some (res, put_peer r ((d_heap d ! r)\<lparr>p_tunnel := t\<rparr>) ?d1)"
    using h by (simp add: peer_handle_verified_def)
  have r: "r < length (d_heap d)" "ep_conn (p_endpoint (d_heap d ! r)) = None" "\<not> cfg_use_connected_socket (d_config d)"
    using f by (simp_all add: faces_def)
  have roam: "roam_endpoint X addr r (put_peer r ((d_heap d ! r)\<lparr>p_tunnel := t\<rparr>) ?d1) = Some (heard r addr t ls d)"
    using r by (auto simp: roam_endpoint_def set_endpoint_def heard_def close_conn_def Let_def endpoint_known device_update_commute)
  show ?thesis
    using v who [of ls] hv res roam s ls
    by (intro exI [of _ ls]) (auto simp: udp_packet_def Let_def net_update_commute split: tunn_result.splits)
qed

lemma segments_step:
  assumes "faces L (n_dev s) r priv k" and "m \<noteq> []"
    and "udp_packet L X E keys l addr m s = Some s'"
  shows "udp_segments L X E keys l addr (datagram_segments 0 m) s = Some s'"
  using assms by (simp add: one_segment strip_ip_header_def faces_def)

lemma handler_step:
  assumes f: "faces L d r priv k"
    and b: "udp_batch L X E (priv, x25519_public (lib_crypto L) priv) (the (d_rate_limiter d)) ds (net_start d) = Some s"
    and n: "ds \<noteq> []" "length ds < MAX_PACKET_COUNT"
  shows "\<exists>s'. udp_handler L X E [ds] d = Some (Continue, s') \<and> n_dev s' = n_dev s \<and>
    n_out s' = n_out s @ map (\<lambda>(a, b). OutUdp a b) (n_batch s)"
  using assms by (auto simp: udp_handler_def faces_def Let_def flush_batch_def)

lemma queue_first: "n_batch s = [] \<Longrightarrow> queue_send a p s = s\<lparr>n_batch := [(a, p)]\<rparr>"
  by (simp add: queue_send_def)

lemma queue_second: "n_batch s = [x] \<Longrightarrow> queue_send a p s = s\<lparr>n_batch := [x, (a, p)]\<rparr>"
  by (simp add: queue_send_def)

text \<open>A handshake message that is answered; \<open>ps\<close> is what was waiting in the queue.\<close>

lemma answered:
  assumes f: "faces L d r priv k" and p: "parse_incoming_packet m = Inr pk"
    and auth: "authentic_for (lib_crypto L) (b2s_hash (lib_crypto L) LABEL_MAC1 (x25519_public (lib_crypto L) priv)) m"
      "rl_count (device_limiter d) < limit (device_limiter d)"
    and who: "\<And>ls. identify_peer L priv (x25519_public (lib_crypto L) priv) pk (d\<lparr>d_limiters := ls\<rparr>) = Some (Some r)"
    and h: "handle_verified_packet (lib_crypto L) (E 0) pk MAX_UDP_SIZE (p_tunnel (d_heap d ! r)) = Some (WriteToNetwork reply, t)"
    and fl: "\<And>ls. same_keys d ls \<Longrightarrow> \<exists>k. flush_queue L E r (flush_fuel r (heard r addr t ls d)) 1 (heard r addr t ls d) =
      Some (ps, k, heard r addr t' ls d)" and ps: "length ps \<le> 1"
  shows "\<exists>s' ls. udp_handler L X E [[(Some addr, 0, m)]] d = Some (Continue, s') \<and> n_dev s' = heard r addr t' ls d \<and>
    same_keys d ls \<and> n_out s' = map (OutUdp addr) (reply # ps)"
proof -
  let ?keys = "(priv, x25519_public (lib_crypto L) priv)" and ?l = "the (d_rate_limiter d)"
  obtain ls where ls: "same_keys d ls" and
    u: "udp_packet L X E ?keys ?l addr m (net_start d) =
      (let d' = heard r addr t ls d; s' = (net_start d)\<lparr>n_dev := d', n_calls := Suc 0\<rparr>
       in do {
            (ps, k, d4) \<leftarrow> flush_queue L E r (flush_fuel r d') (Suc 0) d';
            Some (fold (queue_send addr) ps ((queue_send addr reply s')\<lparr>n_dev := d4, n_calls := k\<rparr>))
          })"
    using packet_step [OF f p _ who, of E "net_start d" "WriteToNetwork reply" t X addr] auth h
    by (auto simp: net_start_def Let_def)
  obtain j where fl: "flush_queue L E r (flush_fuel r (heard r addr t ls d)) 1 (heard r addr t ls d) =
      Some (ps, j, heard r addr t' ls d)" using fl [OF ls] by blast
  obtain s where s: "udp_packet L X E ?keys ?l addr m (net_start d) = Some s" "n_dev s = heard r addr t' ls d"
    "n_out s = []" "n_batch s = map (Pair addr) (reply # ps)"
    using u fl ps by (cases ps) (auto simp: Let_def net_start_def queue_first queue_second)
  have b: "udp_batch L X E ?keys ?l [(Some addr, 0, m)] (net_start d) = Some s"
    using segments_step [OF _ nonempty_parse [OF p] s(1)] f by simp
  from handler_step [OF f b] s(2-4) ls show ?thesis by (auto simp: comp_def)
qed

text \<open>A data message in a batch.\<close>

lemma data_step:
  assumes f: "faces L (n_dev s) r priv k" and p: "parse_incoming_packet m = Inr (PacketData d)"
    and who: "hm_get (d_peers_by_idx (n_dev s)) (drop_bit 8 (pd_receiver_idx d)) = Some r"
    and h: "handle_verified_packet (lib_crypto L) (E (n_calls s)) (PacketData d) MAX_UDP_SIZE (p_tunnel (d_heap (n_dev s) ! r)) = Some (res, t)"
    and res: "\<not> is_err res" "\<And>x. res \<noteq> WriteToNetwork x"
  shows "\<exists>ls. same_keys (n_dev s) ls \<and> udp_segments L X E (priv, x25519_public (lib_crypto L) priv) (the (d_rate_limiter (n_dev s))) addr
      (datagram_segments 0 m) s =
    Some (emit (to_iface L res (d_heap (heard r addr t ls (n_dev s)) ! r))
      (s\<lparr>n_dev := heard r addr t ls (n_dev s), n_calls := Suc (n_calls s)\<rparr>))"
proof -
  have id: "identify_peer L priv (x25519_public (lib_crypto L) priv) (PacketData d) ((n_dev s)\<lparr>d_limiters := ls\<rparr>) = Some (Some r)" for ls
    using who by (simp add: identify_peer_def)
  have "handshake_sender (PacketData d) \<noteq> None \<Longrightarrow> authentic_for (lib_crypto L) (b2s_hash (lib_crypto L) LABEL_MAC1 (x25519_public (lib_crypto L) priv)) m \<and>
      rl_count (device_limiter (n_dev s)) < limit (device_limiter (n_dev s))" by simp
  from packet_step [where E = E and s = s and d = "n_dev s" and X = X and addr = addr, OF f p this id h res(1) refl]
  obtain ls where ls: "same_keys (n_dev s) ls" and
    u: "udp_packet L X E (priv, x25519_public (lib_crypto L) priv) (the (d_rate_limiter (n_dev s))) addr m s =
      Some (emit (to_iface L res (d_heap (heard r addr t ls (n_dev s)) ! r))
        (s\<lparr>n_dev := heard r addr t ls (n_dev s), n_calls := Suc (n_calls s)\<rparr>))"
    using res by (cases res) (auto simp: Let_def)
  show ?thesis using segments_step [OF f nonempty_parse [OF p] u] ls by blast
qed

section \<open>The exchange\<close>

lemma drain_step:
  assumes "r < length (d_heap d)" and "send_queued_packet (lib_crypto L) (E k) MAX_UDP_SIZE (p_tunnel (d_heap d ! r)) = Some (WriteToNetwork m, t)"
    and "packet_queue t = []"
  shows "flush_queue L E r (Suc (Suc n)) k d =
    Some ([m], Suc (Suc k), put_peer r ((d_heap d ! r)\<lparr>p_tunnel := t\<rparr>) d)"
  using assms by (simp add: peer_decapsulate_def decapsulate_def send_queued_packet_def [of _ _ _ t] dequeue_packet_def Let_def)

lemma drained_heard:
  "r < length (d_heap d) \<Longrightarrow>
    put_peer r ((d_heap (heard r addr t ls d) ! r)\<lparr>p_tunnel := t'\<rparr>) (heard r addr t ls d) = heard r addr t' ls d"
  by (simp add: heard_def device_update_commute peer_update_commute)

lemma first_packet:
  assumes f: "faces L d r priv k" and "dst_address src = Some dst" and "ips_find (lib_routes L) dst (d_peers_by_ip d) = Some r"
    and "ep_addr (p_endpoint (d_heap d ! r)) = Some addr" and "(if sock_is_ipv4 addr then d_udp4 d else d_udp6 d) \<noteq> None"
    and "length src \<le> d_mtu d" and "d_mtu d \<le> MAX_UDP_SIZE"
    and e: "encapsulate (lib_crypto L) (E 0) src MAX_UDP_SIZE (p_tunnel (d_heap d ! r)) = Some (WriteToNetwork m, t)"
  shows "\<exists>s. iface_handler L X E [IfPacket src, IfBlock] d = Some (Continue, s) \<and>
    n_dev s = put_peer r ((d_heap d ! r)\<lparr>p_tunnel := t\<rparr>) d \<and> n_out s = [OutUdp addr m]"
proof -
  have r: "r < length (d_heap d)" "ep_conn (p_endpoint (d_heap d ! r)) = None" "cfg_transport_mode (d_config d) \<noteq> Tcp"
    using f by (simp_all add: faces_def)
  let ?s = "(net_start d)\<lparr>n_dev := put_peer r ((d_heap d ! r)\<lparr>p_tunnel := t\<rparr>) d, n_calls := 1\<rparr>"
  have "iface_packet L X E src (net_start d) = Some (send_to_endpoint X r m ?s)"
    using assms(2,3) e by (simp add: iface_packet_def net_start_def)
  moreover have "send_to_endpoint X r m ?s = emit [OutUdp addr m] ?s"
    using r assms(4,5) by (auto simp: send_to_endpoint_def Let_def)
  ultimately have "iface_loop L X E (d_mtu d) (Suc (Suc n)) [IfPacket src, IfBlock] (net_start d) =
      Some (Continue, emit [OutUdp addr m] ?s)" for n
    using assms(6) by simp
  from this [of 98] show ?thesis using assms(7) by (simp add: iface_handler_def emit_def)
qed

lemma session_names_peer:
  assumes "tables_ok L d" and "hm_get (d_peers d) k = Some r" and "tunn_named k (p_index (d_heap d ! r)) t"
    and "Some s \<in> set (sessions t)"
  shows "hm_get (d_peers_by_idx d) (drop_bit 8 (receiving_index s)) = Some r"
  using assms tables_okD(3) [OF assms(1,2)] by (simp add: tunn_named_def ring_named_def)

lemma allowed_heard [simp]:
  "r < length (d_heap d) \<Longrightarrow> is_allowed_ip U a (d_heap (heard r addr t ls d) ! r) = is_allowed_ip U a (d_heap d ! r)"
  by (simp add: heard_def is_allowed_ip_def)

lemma heard_fields [simp]:
  "d_peers_by_idx (heard r addr t ls d) = d_peers_by_idx d" "d_rate_limiter (heard r addr t ls d) = d_rate_limiter d"
  "length (d_heap (heard r addr t ls d)) = length (d_heap d)"
  by (simp_all add: heard_def)

text \<open>The keepalive and the packet, in one batch.\<close>

lemma two_data:
  assumes f: "faces L d r priv k" and p3: "parse_incoming_packet m3 = Inr (PacketData d3)"
    and p4: "parse_incoming_packet m4 = Inr (PacketData d4)"
    and who: "hm_get (d_peers_by_idx d) (drop_bit 8 (pd_receiver_idx d3)) = Some r" "pd_receiver_idx d4 = pd_receiver_idx d3"
    and h3: "handle_verified_packet (lib_crypto L) (E 0) (PacketData d3) MAX_UDP_SIZE (p_tunnel (d_heap d ! r)) = Some (TDone, t2)"
    and h4: "handle_verified_packet (lib_crypto L) (E 1) (PacketData d4) MAX_UDP_SIZE t2 = Some (WriteToTunnelV4 src a, t3)"
    and al: "is_allowed_ip (lib_allowed L) (V4 a) (d_heap d ! r)"
  shows "\<exists>s. udp_handler L X E [[(Some addr, 0, m3), (Some addr, 0, m4)]] d = Some (Continue, s) \<and> n_out s = [OutIface src]"
proof -
  let ?keys = "(priv, x25519_public (lib_crypto L) priv)" and ?l = "the (d_rate_limiter d)"
  have r: "r < length (d_heap d)" using f by (simp add: faces_def)
  have f0: "faces L (n_dev (net_start d)) r priv k" using f by simp
  from data_step [OF f0 p3, where E = E and X = X and addr = addr and res = TDone and t = t2] who(1) h3 obtain ls where
    ls: "same_keys d ls" and u3: "udp_segments L X E ?keys ?l addr (datagram_segments 0 m3) (net_start d) =
      Some (emit [] ((net_start d)\<lparr>n_dev := heard r addr t2 ls d, n_calls := 1\<rparr>))"
    by (auto simp: net_start_def to_iface_def)
  let ?s = "emit [] ((net_start d)\<lparr>n_dev := heard r addr t2 ls d, n_calls := 1\<rparr>)"
  have f1: "faces L (n_dev ?s) r priv k" using faces_heard [OF f ls] by simp
  from data_step [OF f1 p4, where E = E and X = X and addr = addr and res = "WriteToTunnelV4 src a" and t = t3] who h4 al r
    tunnel_heard [OF r]
  obtain ls' where "udp_segments L X E ?keys ?l addr (datagram_segments 0 m4) ?s =
      Some (emit [OutIface src] (?s\<lparr>n_dev := heard r addr t3 ls' (n_dev ?s), n_calls := 2\<rparr>))"
    by (auto simp: to_iface_def emit_def net_start_def)
  then have "udp_batch L X E ?keys ?l [(Some addr, 0, m3), (Some addr, 0, m4)] (net_start d) =
      Some (emit [OutIface src] (?s\<lparr>n_dev := heard r addr t3 ls' (n_dev ?s), n_calls := 2\<rparr>))"
    using u3 by simp
  from handler_step [OF f this] show ?thesis by (auto simp: emit_def net_start_def)
qed

lemma device_exchange:
  assumes ok: "crypto_ok (lib_crypto L)" and L: "libs_ok L" and reach: "dev_reach L dA" "dev_reach L dB"
    and fA: "faces L dA rA a (x25519_public (lib_crypto L) b)" and fB: "faces L dB rB b (x25519_public (lib_crypto L) a)"
    and A: "tunn_new (lib_crypto L) tsA nowA leA a (x25519_public (lib_crypto L) b) psk kA iA None = (p_tunnel (d_heap dA ! rA), rlA)"
    and B: "tunn_new (lib_crypto L) tsB nowB leB b (x25519_public (lib_crypto L) a) psk kB iB None = (p_tunnel (d_heap dB ! rB), rlB)"
    and after: "tai_after (stamp_time (e_stamp (E1 0)) tsA) tai64n_zero"
    and lim: "rl_count (device_limiter dA) < limit (device_limiter dA)" "rl_count (device_limiter dB) < limit (device_limiter dB)"
    and src: "ipv4_packet src" "length src + 32 \<le> MAX_UDP_SIZE" "length src \<le> d_mtu dA" "d_mtu dA \<le> MAX_UDP_SIZE"
    and route: "dst_address src = Some dst" "ips_find (lib_routes L) dst (d_peers_by_ip dA) = Some rA"
      "ep_addr (p_endpoint (d_heap dA ! rA)) = Some addrB"
      "(if sock_is_ipv4 addrB then d_udp4 dA else d_udp6 dA) \<noteq> None"
    and al: "is_allowed_ip (lib_allowed L) (V4 (slice 12 16 src)) (d_heap dB ! rB)"
  shows "\<exists>m1 m2 m3 m4 sA1 sB1 sA2 sB2.
    iface_handler L XA E1 [IfPacket src, IfBlock] dA = Some (Continue, sA1) \<and> n_out sA1 = [OutUdp addrB m1] \<and>
    udp_handler L XB E2 [[(Some addrA, 0, m1)]] dB = Some (Continue, sB1) \<and> n_out sB1 = [OutUdp addrA m2] \<and>
    udp_handler L XA E3 [[(Some addrB, 0, m2)]] (n_dev sA1) = Some (Continue, sA2) \<and>
      n_out sA2 = [OutUdp addrB m3, OutUdp addrB m4] \<and>
    udp_handler L XB E4 [[(Some addrA, 0, m3), (Some addrA, 0, m4)]] (n_dev sB1) = Some (Continue, sB2) \<and>
      n_out sB2 = [OutIface src]"
proof -
  let ?C = "lib_crypto L"
  note okA = reach_tables_ok [OF reach(1) L] and okB = reach_tables_ok [OF reach(2) L]
  have size: "148 \<le> MAX_UDP_SIZE" by simp
  from verified_exchange [OF ok src(1,2) size A B after, of "E2 0" "E3 0" "E4 0" "E3 1" "E4 1"]
  obtain m1 A1 p m2 B1 q m3 A2 d3 B2 m4 A3 d4 B3 hh sA sB where
    x1: "encapsulate ?C (E1 0) src MAX_UDP_SIZE (p_tunnel (d_heap dA ! rA)) = Some (WriteToNetwork m1, A1)"
      "parse_incoming_packet m1 = Inr (HandshakeInit p)" "authentic_for ?C (b2s_hash ?C LABEL_MAC1 (x25519_public ?C b)) m1"
      "parse_handshake_anon ?C b (x25519_public ?C b) p = Some (Inr hh)" "hh_peer_static_public hh = x25519_public ?C a"
    and x2: "handle_verified_packet ?C (E2 0) (HandshakeInit p) MAX_UDP_SIZE (p_tunnel (d_heap dB ! rB)) = Some (WriteToNetwork m2, B1)"
      "packet_queue B1 = []" "Some sB \<in> set (sessions B1)" "parse_incoming_packet m2 = Inr (HandshakeResponse q)"
      "authentic_for ?C (b2s_hash ?C LABEL_MAC1 (x25519_public ?C a)) m2"
    and x3: "handle_verified_packet ?C (E3 0) (HandshakeResponse q) MAX_UDP_SIZE A1 = Some (WriteToNetwork m3, A2)"
      "Some sA \<in> set (sessions A2)" "receiving_index sA = hr_receiver_idx q"
      "send_queued_packet ?C (E3 1) MAX_UDP_SIZE A2 = Some (WriteToNetwork m4, A3)" "packet_queue A3 = []"
    and x4: "parse_incoming_packet m3 = Inr (PacketData d3)" "pd_receiver_idx d3 = receiving_index sB"
      "handle_verified_packet ?C (E4 0) (PacketData d3) MAX_UDP_SIZE B1 = Some (TDone, B2)"
      "parse_incoming_packet m4 = Inr (PacketData d4)" "pd_receiver_idx d4 = receiving_index sB"
      "handle_verified_packet ?C (E4 1) (PacketData d4) MAX_UDP_SIZE B2 = Some (WriteToTunnelV4 src (slice 12 16 src), B3)"
    by (elim exE conjE)
  have rA: "rA < length (d_heap dA)" "hm_get (d_peers dA) (x25519_public ?C b) = Some rA"
    and rB: "rB < length (d_heap dB)" "hm_get (d_peers dB) (x25519_public ?C a) = Some rB"
    using fA fB by (simp_all add: faces_def)
  have idxA: "hm_get (d_peers_by_idx dA) (drop_bit 8 (hr_receiver_idx q)) = Some rA"
    using session_names_peer [OF okA rA(2) named_handle_verified [OF x3(1) named_encapsulate [OF x1(1) tables_okD(4) [OF okA rA(2)]]] x3(2)]
      x3(3) by simp
  have idxB: "hm_get (d_peers_by_idx dB) (drop_bit 8 (receiving_index sB)) = Some rB"
    by (rule session_names_peer [OF okB rB(2) named_handle_verified [OF x2(1) tables_okD(4) [OF okB rB(2)]] x2(3)])
  let ?dA1 = "put_peer rA ((d_heap dA ! rA)\<lparr>p_tunnel := A1\<rparr>) dA"
  obtain sA1 where s1: "iface_handler L XA E1 [IfPacket src, IfBlock] dA = Some (Continue, sA1)" "n_dev sA1 = ?dA1"
      "n_out sA1 = [OutUdp addrB m1]"
    using first_packet [where E = E1 and X = XA, OF fA route src(3,4) x1(1)] by blast
  have "identify_peer L b (x25519_public ?C b) (HandshakeInit p) (dB\<lparr>d_limiters := ls\<rparr>) = Some (Some rB)" for ls
    using x1(4,5) rB(2) by (simp add: identify_peer_def)
  moreover have "\<exists>k. flush_queue L E2 rB (flush_fuel rB (heard rB addrA B1 ls dB)) 1 (heard rB addrA B1 ls dB) =
      Some ([], k, heard rB addrA B1 ls dB)" for ls
    using flush_empty [of "heard rB addrA B1 ls dB" rB L E2 1] tunnel_heard [OF rB(1)] x2(2) by simp
  ultimately obtain sB1 lsB where s2: "udp_handler L XB E2 [[(Some addrA, 0, m1)]] dB = Some (Continue, sB1)"
      "n_dev sB1 = heard rB addrA B1 lsB dB" "same_keys dB lsB" "n_out sB1 = [OutUdp addrA m2]"
    using answered [where E = E2 and X = XB and addr = addrA and t' = B1 and ps = "[]", OF fB x1(2,3) lim(2) _ x2(1)] by auto
  have fA1: "faces L ?dA1 rA a (x25519_public ?C b)" using fA rA by (simp add: faces_def)
  have "identify_peer L a (x25519_public ?C a) (HandshakeResponse q) (?dA1\<lparr>d_limiters := ls\<rparr>) = Some (Some rA)" for ls
    using idxA by (simp add: identify_peer_def)
  moreover have "flush_queue L E3 rA (flush_fuel rA (heard rA addrB A2 ls ?dA1)) 1 (heard rA addrB A2 ls ?dA1) =
      Some ([m4], Suc (Suc 1), heard rA addrB A3 ls ?dA1)" for ls
    using drain_step [where d = "heard rA addrB A2 ls ?dA1" and r = rA and k = 1 and E = E3 and L = L] x3(4,5) rA(1)
    by (simp add: flush_fuel_def drained_heard tunnel_heard)
  ultimately obtain sA2 where s3: "udp_handler L XA E3 [[(Some addrB, 0, m2)]] ?dA1 = Some (Continue, sA2)"
      "n_out sA2 = [OutUdp addrB m3, OutUdp addrB m4]"
    using answered [where X = XA and E = E3 and addr = addrB and t = A2 and t' = A3 and ps = "[m4]" and reply = m3, OF fA1 x2(4,5)] lim(1) rA(1) x3(1)
    by auto
  have fB1: "faces L (heard rB addrA B1 lsB dB) rB b (x25519_public ?C a)" by (rule faces_heard [OF fB s2(3)])
  let ?dB1 = "heard rB addrA B1 lsB dB"
  have "hm_get (d_peers_by_idx ?dB1) (drop_bit 8 (pd_receiver_idx d3)) = Some rB" "pd_receiver_idx d4 = pd_receiver_idx d3"
    "handle_verified_packet ?C (E4 0) (PacketData d3) MAX_UDP_SIZE (p_tunnel (d_heap ?dB1 ! rB)) = Some (TDone, B2)"
    "is_allowed_ip (lib_allowed L) (V4 (slice 12 16 src)) (d_heap ?dB1 ! rB)"
    using x4(2,3,5) idxB al rB(1) by (simp_all add: tunnel_heard)
  from two_data [where E = E4 and X = XB and addr = addrA, OF fB1 x4(1,4) this(1-3) x4(6) this(4)]
  obtain sB2 where "udp_handler L XB E4 [[(Some addrA, 0, m3), (Some addrA, 0, m4)]] (n_dev sB1) = Some (Continue, sB2)"
      "n_out sB2 = [OutIface src]"
    by (auto simp: s2(2))
  with s1 s2 s3 show ?thesis by auto
qed


abbreviation (input) toy_config :: device_config where
  "toy_config \<equiv> config_default\<lparr>cfg_use_connected_socket := False\<rparr>"

text \<open>One side of the concrete exchange: the secret \<open>a\<close>, facing the owner of \<open>b\<close> at \<open>addr\<close>.\<close>

lemma toy_side:
  "\<exists>d. dev_reach toy_libs d \<and> faces toy_libs d 0 a (x25519_public toy_crypto b) \<and>
    toy_new_tunn a b = (p_tunnel (d_heap d ! 0), snd (toy_new_tunn a b)) \<and>
    rl_count (device_limiter d) < limit (device_limiter d) \<and> d_mtu d = 1420 \<and>
    ips_find toy_table (V4 [10, 0, 0, 2]) (d_peers_by_ip d) = Some 0 \<and>
    is_allowed_ip toy_table (V4 [10, 0, 0, 1]) (d_heap d ! 0) \<and>
    ep_addr (p_endpoint (d_heap d ! 0)) = addr \<and> d_udp4 d \<noteq> None"
proof -
  have "cfg_transport_mode toy_config = Udp" by (simp add: config_default_def)
  from toy_listening [OF this, of a b addr] obtain d where
    d: "dev_reach toy_libs d" "d_udp4 d = Some 10" "d_peers d = d_peers (toy_peered toy_config a b addr)"
      "d_heap d = d_heap (toy_peered toy_config a b addr)" "d_limiters d = d_limiters (toy_peered toy_config a b addr)"
      "d_config d = toy_config" "d_mtu d = 1420" "d_key_pair d = d_key_pair (toy_peered toy_config a b addr)"
      "d_rate_limiter d = Some 0" "d_peers_by_ip d = d_peers_by_ip (toy_peered toy_config a b addr)" by blast
  have "faces toy_libs d 0 a (x25519_public toy_crypto b)"
    by (simp add: faces_def d toy_peered_fields toy_libs_def config_default_def rate_limiter_new_def)
  then show ?thesis
    using d(1) by (intro exI [of _ d]) (simp add: d(2-) toy_peered_fields rate_limiter_new_def)
qed

abbreviation (input) toy_addr :: "u8 \<Rightarrow> sock_addr" where
  "toy_addr n \<equiv> SockV4 [192, 0, 2, n] 5000"

lemma toy_setup:
  "\<exists>dA dB. dev_reach toy_libs dA \<and> dev_reach toy_libs dB \<and>
    faces toy_libs dA 0 [1] (x25519_public toy_crypto [2]) \<and> faces toy_libs dB 0 [2] (x25519_public toy_crypto [1]) \<and>
    toy_new_tunn [1] [2] = (p_tunnel (d_heap dA ! 0), snd (toy_new_tunn [1] [2])) \<and>
    toy_new_tunn [2] [1] = (p_tunnel (d_heap dB ! 0), snd (toy_new_tunn [2] [1])) \<and>
    rl_count (device_limiter dA) < limit (device_limiter dA) \<and> rl_count (device_limiter dB) < limit (device_limiter dB) \<and>
    length toy_packet \<le> d_mtu dA \<and> d_mtu dA \<le> MAX_UDP_SIZE \<and>
    ips_find (lib_routes toy_libs) (V4 [10, 0, 0, 2]) (d_peers_by_ip dA) = Some 0 \<and>
    ep_addr (p_endpoint (d_heap dA ! 0)) = Some (toy_addr 2) \<and>
    (if sock_is_ipv4 (toy_addr 2) then d_udp4 dA else d_udp6 dA) \<noteq> None \<and>
    is_allowed_ip (lib_allowed toy_libs) (V4 (slice 12 16 toy_packet)) (d_heap dB ! 0)"
  using toy_side [of "[1]" "[2]" "Some (toy_addr 2)"] toy_side [of "[2]" "[1]" None]
  by (elim exE conjE) (intro exI conjI, assumption+, simp_all add: toy_packet_ipv4 toy_libs_def)

lemma toy_packet_dst: "dst_address toy_packet = Some (V4 [10, 0, 0, 2])"
  by code_simp

lemma toy_packet_size: "length toy_packet + 32 \<le> MAX_UDP_SIZE"
  by (simp add: toy_packet_ipv4)


section \<open>Cryptokey routing\<close>

text \<open>What the handlers of a device send, in one event.\<close>

inductive dev_emits :: "('n, 't, 'u) libs \<Rightarrow> ('t, 'u) device \<Rightarrow> dev_out list \<Rightarrow> bool" for L d where
  emits_udp: "udp_handler L X E batches d = Some (a, s) \<Longrightarrow> dev_emits L d (n_out s)"
| emits_plain: "plain_udp_handler L X E ds d = Some (a, s) \<Longrightarrow> dev_emits L d (n_out s)"
| emits_conn: "conn_handler L E r sock ip received d = Some (a, s) \<Longrightarrow> r < length (d_heap d) \<Longrightarrow> dev_emits L d (n_out s)"
| emits_tcp: "tcp_handler L X E sock ep k arrived closed f d = Some (a, s, f', rest) \<Longrightarrow> dev_emits L d (n_out s)"
| emits_iface: "iface_handler L X E reads d = Some (a, s) \<Longrightarrow> dev_emits L d (n_out s)"
| emits_timers: "timer_handler L X E d = Some (a, s) \<Longrightarrow> dev_emits L d (n_out s)"

lemma emits_routed:
  assumes "dev_emits L d os" and ok: "tables_ok L d" and "OutIface b \<in> set os"
  shows "routed L d b"
  using assms(1,3)
proof cases
  case (emits_udp X E batches a s)
  then show ?thesis using routed_udp_handler [OF _ ok] net_routed_out assms(3) by blast
next
  case (emits_plain X E ds a s)
  then show ?thesis using routed_plain_handler [OF _ ok] net_routed_out assms(3) by blast
next
  case (emits_conn E r sock ip received a s)
  then show ?thesis using routed_conn_handler net_routed_out assms(3) by blast
next
  case (emits_tcp X E sock ep k arrived closed f a s f' rest)
  then show ?thesis using routed_tcp_handler [OF _ ok] assms(3) by blast
next
  case (emits_iface X E reads a s)
  then show ?thesis using sends_only_iface_loop assms(3)
    by (fastforce simp: iface_handler_def sends_only_def split: if_splits)
next
  case (emits_timers X E a s)
  then show ?thesis using sends_only_peer_timers assms(3)
    by (fastforce simp: timer_handler_def sends_only_def Let_def split: if_splits)
qed

lemma toy_exchange:
  "\<exists>dA dB m1 m2 m3 m4 sA1 sB1 sA2 sB2. dev_reach toy_libs dB \<and>
    iface_handler toy_libs toy_os (\<lambda>_. toy_env epoch) [IfPacket toy_packet, IfBlock] dA = Some (Continue, sA1) \<and>
      n_out sA1 = [OutUdp (toy_addr 2) m1] \<and>
    udp_handler toy_libs toy_os (\<lambda>_. toy_env epoch) [[(Some (toy_addr 1), 0, m1)]] dB = Some (Continue, sB1) \<and>
      n_out sB1 = [OutUdp (toy_addr 1) m2] \<and>
    udp_handler toy_libs toy_os (\<lambda>_. toy_env epoch) [[(Some (toy_addr 2), 0, m2)]] (n_dev sA1) = Some (Continue, sA2) \<and>
      n_out sA2 = [OutUdp (toy_addr 2) m3, OutUdp (toy_addr 2) m4] \<and>
    udp_handler toy_libs toy_os (\<lambda>_. toy_env epoch) [[(Some (toy_addr 1), 0, m3), (Some (toy_addr 1), 0, m4)]] (n_dev sB1) =
      Some (Continue, sB2) \<and> n_out sB2 = [OutIface toy_packet]"
proof -
  from toy_setup obtain dA dB where d: "dev_reach toy_libs dA" "dev_reach toy_libs dB"
    "faces toy_libs dA 0 [1] (x25519_public toy_crypto [2])" "faces toy_libs dB 0 [2] (x25519_public toy_crypto [1])"
    "toy_new_tunn [1] [2] = (p_tunnel (d_heap dA ! 0), snd (toy_new_tunn [1] [2]))"
    "toy_new_tunn [2] [1] = (p_tunnel (d_heap dB ! 0), snd (toy_new_tunn [2] [1]))"
    "rl_count (device_limiter dA) < limit (device_limiter dA)" "rl_count (device_limiter dB) < limit (device_limiter dB)"
    "length toy_packet \<le> d_mtu dA" "d_mtu dA \<le> MAX_UDP_SIZE"
    "ips_find (lib_routes toy_libs) (V4 [10, 0, 0, 2]) (d_peers_by_ip dA) = Some 0"
    "ep_addr (p_endpoint (d_heap dA ! 0)) = Some (toy_addr 2)"
    "(if sock_is_ipv4 (toy_addr 2) then d_udp4 dA else d_udp6 dA) \<noteq> None"
    "is_allowed_ip (lib_allowed toy_libs) (V4 (slice 12 16 toy_packet)) (d_heap dB ! 0)" by (elim exE conjE)
  have C: "lib_crypto toy_libs = toy_crypto" by (simp add: toy_libs_def)
  from device_exchange [where ?E1.0 = "\<lambda>_. toy_env epoch" and ?E2.0 = "\<lambda>_. toy_env epoch"
      and ?E3.0 = "\<lambda>_. toy_env epoch" and ?E4.0 = "\<lambda>_. toy_env epoch" and XA = toy_os and XB = toy_os
      and addrA = "toy_addr 1", OF toy_crypto_ok [folded C] toy_libs_ok d(1,2) d(3-6) [folded C] toy_after d(7,8)
        toy_packet_ipv4(1) toy_packet_size d(9,10) toy_packet_dst d(11-14)]
  show ?thesis using d(2) by (elim exE conjE) (intro exI conjI, assumption+)
qed



end
