(* ===== verification/Device_Behaviour.thy ===== *)
theory Device_Behaviour
  imports Device_Exchange
begin

text \<open>
  How the handlers behave: the loops of the UDP handler, the flush of a queue, the endpoint that
  follows its peer, a new private key, and what stays behind when the sockets are opened again.
\<close>

section \<open>Segments and batches\<close>

lemma concat_gro_segments: "0 < seg \<Longrightarrow> concat (gro_segments seg buf) = buf"
proof (induction seg buf rule: gro_segments.induct)
  case (1 seg buf)
  then show ?case by (cases "buf = []") (simp_all add: gro_segments.simps [of seg buf] gro_segments.simps [of seg "[]"])
qed

lemma gro_segments_size: "x \<in> set (gro_segments seg buf) \<Longrightarrow> x \<noteq> [] \<and> length x \<le> seg"
proof (induction seg buf rule: gro_segments.induct)
  case (1 seg buf)
  then show ?case by (auto simp: gro_segments.simps [of seg buf] split: if_splits)
qed

lemma gro_segments_full: "seg * (i + 1) \<le> length buf \<Longrightarrow> 0 < seg \<Longrightarrow>
    i < length (gro_segments seg buf) \<and> length (gro_segments seg buf ! i) = seg"
proof (induction i arbitrary: buf)
  case 0
  then have "buf \<noteq> []" by auto
  then show ?case using 0 by (simp add: gro_segments.simps [of seg buf])
next
  case (Suc i)
  then have "buf \<noteq> []" "seg * (i + 1) \<le> length (drop seg buf)" by auto
  then show ?case using Suc.IH [of "drop seg buf"] Suc.prems(2) by (simp add: gro_segments.simps [of seg buf])
qed

text \<open>A datagram that the kernel merged is cut without loss: the segments the handler processes are not empty, they are the bytes of the datagram in order, none is longer than the reported size, and every one that fits whole has exactly this size.\<close>

theorem datagram_cut_without_loss:
  shows "concat (datagram_segments gro buf) = buf \<and>
    (\<forall>x\<in>set (datagram_segments gro buf). x \<noteq> [] \<and> (0 < gro \<longrightarrow> length x \<le> gro)) \<and>
    (\<forall>i. 0 < gro \<longrightarrow> gro * (i + 1) \<le> length buf \<longrightarrow> length (datagram_segments gro buf ! i) = gro)"
proof -
  have "concat (datagram_segments gro buf) = buf"
    by (cases "buf = []") (simp_all add: datagram_segments_def concat_gro_segments gro_segments.simps [of _ "[]"])
  then show ?thesis using gro_segments_size gro_segments_full by (auto simp: datagram_segments_def)
qed

theorem datagram_cut_without_loss_witness:
  "datagram_segments 2 [1, 2, 3, 4, 5] = [[1, 2], [3, 4], [5]] \<and> length (datagram_segments 2 [1, 2, 3, 4, 5] ! 1) = 2"
  using datagram_cut_without_loss [of 2 "[1, 2, 3, 4, 5]"]
  by (simp add: datagram_segments_def gro_segments.simps)

text \<open>The budget of the receive loop, 100 less a multiple of 64, never is 0.\<close>

lemma budget_step: "unat (iter :: u64) mod 64 = 36 \<Longrightarrow> unat (iter - 64) mod 64 = 36"
proof -
  assume a: "unat iter mod 64 = 36"
  have "uint (iter - 64) mod 64 = (uint iter - 64) mod 64"
    by (simp add: uint_word_ariths mod_mod_cancel)
  also have "\<dots> = uint iter mod 64" by (rule minus_mod_self2)
  finally have "int (unat (iter - 64) mod 64) = int (unat iter mod 64)" by (simp only: zmod_int uint_nat of_nat_numeral)
  then show ?thesis using a by simp
qed

lemma udp_rounds_all:
  "udp_rounds L X E keys l iter bs s = Some (s', rest) \<Longrightarrow> unat iter mod 64 = 36 \<Longrightarrow>
    \<forall>b\<in>set bs. length b \<le> MAX_PACKET_COUNT \<Longrightarrow>
    rest = drop (Suc (length (takeWhile (\<lambda>b. length b = MAX_PACKET_COUNT) bs))) bs"
proof (induction bs arbitrary: iter s)
  case (Cons b bs)
  show ?case
  proof (cases "length b = MAX_PACKET_COUNT")
    case False
    then show ?thesis using Cons.prems by (auto simp: Let_def split: if_splits bind_splits)
  next
    case True
    have i: "unat (iter - 64) mod 64 = 36" by (rule budget_step [OF Cons.prems(2)])
    then have "iter - 64 \<noteq> 0" by auto
    then obtain s1 where "udp_rounds L X E keys l (iter - 64) bs s1 = Some (s', rest)"
      using Cons.prems(1) True by (cases b) (auto simp: Let_def split: if_splits bind_splits)
    then show ?thesis using Cons.IH i Cons.prems(3) True by auto
  qed
qed simp

text \<open>The budget of the receive loop never ends it: the counter is an unsigned word that starts at 100 and is decreased by 64 in every full round, so it wraps around and is never 0. Whatever the number of batches, the handler goes on until the first batch that is not full, and nothing but what follows this batch is left.\<close>

theorem udp_budget_never_ends:
  assumes "udp_rounds L X E keys l (word_of_nat MAX_ITR) bs s = Some (s', rest)"
    and "\<forall>b\<in>set bs. length b \<le> MAX_PACKET_COUNT"
  shows "rest = drop (Suc (length (takeWhile (\<lambda>b. length b = MAX_PACKET_COUNT) bs))) bs"
  by (rule udp_rounds_all [OF assms(1) _ assms(2)]) simp

lemma unknown_batch: "udp_batch L X E keys l (replicate n (None, g, [])) s = Some s"
  by (induction n) simp_all

theorem udp_budget_never_ends_witness:
  "\<exists>s'. udp_rounds toy_libs toy_os (\<lambda>_. toy_env epoch) ([1], [2]) 0 (word_of_nat MAX_ITR)
      [replicate 64 (None, 0, []), replicate 64 (None, 0, []), replicate 64 (None, 0, []), [(None, 0, [])], []]
      (net_start (toy_peered config_default [1] [2] None)) = Some (s', [[]])"
proof -
  let ?bs = "[replicate 64 (None, 0, []), replicate 64 (None, 0, []), replicate 64 (None, 0, []), [(None, 0, [])], []] :: datagram list list"
  let ?u = "udp_rounds toy_libs toy_os (\<lambda>_. toy_env epoch) ([1], [2]) 0 (word_of_nat MAX_ITR) ?bs
      (net_start (toy_peered config_default [1] [2] None))"
  obtain s' rest where u: "?u = Some (s', rest)" by (simp add: unknown_batch Let_def)
  have "rest = drop (Suc (length (takeWhile (\<lambda>b. length b = MAX_PACKET_COUNT) ?bs))) ?bs"
    by (rule udp_budget_never_ends [OF u]) simp
  with u show ?thesis by simp
qed

section \<open>Flushing a queue\<close>

text \<open>How many packets a tunnel can still be asked for: those in the queue, or one initiation.\<close>

definition flush_rank :: "tunn \<Rightarrow> nat" where
  "flush_rank t =
    (if sessions t ! (current t mod N_SESSIONS) \<noteq> None then length (packet_queue t)
     else if is_in_progress (tn_handshake t) \<or> packet_queue t = [] then 0 else 1)"

lemma initiation_in_progress:
  "tunn_format_handshake_initiation C env n False t = (WriteToNetwork m, t') \<Longrightarrow>
    \<not> is_in_progress (tn_handshake t) \<and> is_in_progress (tn_handshake t') \<and> sessions t' = sessions t \<and> current t' = current t"
  by (auto simp: tunn_format_handshake_initiation_def format_handshake_initiation_def Let_def is_in_progress_def timer_tick_def
      append_mac1_and_mac2_def split_beta split: if_splits sum.splits)

lemma send_queued_rank:
  assumes "send_queued_packet C env n t = Some (WriteToNetwork m, t')"
  shows "flush_rank t' < flush_rank t"
proof (cases "packet_queue t")
  case Nil
  then show ?thesis using assms by (simp add: send_queued_packet_def dequeue_packet_def)
next
  case (Cons p ps)
  let ?t = "t\<lparr>packet_queue := ps\<rparr>"
  have e: "encapsulate C env p n ?t = Some (WriteToNetwork m, t')"
    using assms Cons by (auto simp: send_queued_packet_def dequeue_packet_def split: bind_splits tunn_result.splits)
  show ?thesis
  proof (cases "sessions t ! (current t mod N_SESSIONS)")
    case (Some s)
    then have "packet_queue t' = ps \<and> sessions t' ! (current t' mod N_SESSIONS) \<noteq> None"
      using e by (cases "current t mod N_SESSIONS < length (sessions t)")
        (auto simp: encapsulate_def timer_tick_def Let_def list_update_beyond split: bind_splits if_splits)
    then show ?thesis using Some Cons by (simp add: flush_rank_def)
  next
    case None
    then have f: "tunn_format_handshake_initiation C env n False (queue_packet p ?t) = (WriteToNetwork m, t')"
      using e by (simp add: encapsulate_def)
    from initiation_in_progress [OF f] show ?thesis
      using None Cons by (simp add: flush_rank_def queue_packet_def split: if_splits)
  qed
qed

lemma flush_rank_le: "flush_rank t \<le> length (packet_queue t)"
  by (cases "packet_queue t") (auto simp: flush_rank_def)

lemma flush_ends:
  assumes "r < length (d_heap d)" and "flush_rank (p_tunnel (d_heap d ! r)) < fuel"
  shows "flush_queue L E r (fuel + n) k d = flush_queue L E r fuel k d \<and>
    (\<forall>ps k' d'. flush_queue L E r fuel k d = Some (ps, k', d') \<longrightarrow>
      k' = k + length ps + 1 \<and> length ps \<le> flush_rank (p_tunnel (d_heap d ! r)))"
  using assms
proof (induction fuel arbitrary: k d)
  case (Suc fuel)
  show ?case
  proof (cases "peer_decapsulate L (E k) None [] r d")
    case (Some x)
    obtain res d1 where x: "x = (res, d1)" by (cases x)
    show ?thesis
    proof (cases "\<exists>m. res = WriteToNetwork m")
      case True
      then obtain m where res: "res = WriteToNetwork m" by blast
      obtain t where t: "send_queued_packet (lib_crypto L) (E k) MAX_UDP_SIZE (p_tunnel (d_heap d ! r)) = Some (WriteToNetwork m, t)"
        "p_tunnel (d_heap d1 ! r) = t" "length (d_heap d1) = length (d_heap d)"
        using Some x res Suc.prems(1) by (auto simp: peer_decapsulate_def decapsulate_def Let_def split: bind_splits)
      have rank: "flush_rank (p_tunnel (d_heap d1 ! r)) < flush_rank (p_tunnel (d_heap d ! r))"
        using send_queued_rank [OF t(1)] t(2) by simp
      then have "flush_rank (p_tunnel (d_heap d1 ! r)) < fuel" using Suc.prems(2) by simp
      from Suc.IH [OF _ this, of "Suc k"] Suc.prems(1) t(3) Some x res rank show ?thesis
        by (fastforce split: bind_splits)
    next
      case False
      then show ?thesis using Some x by (cases res) auto
    qed
  qed simp
qed simp

text \<open>The loop that flushes a queue ends: of a tunnel's queue it sends at most as many packets as there are, then the tunnel answers something else and the loop stops by itself, so the bound of the model is never what ends it and a larger one changes nothing.\<close>

theorem queue_flush_ends:
  assumes "r < length (d_heap d)"
  shows "flush_queue L E r (flush_fuel r d + n) k d = flush_queue L E r (flush_fuel r d) k d \<and>
    (\<forall>ps k' d'. flush_queue L E r (flush_fuel r d) k d = Some (ps, k', d') \<longrightarrow>
      k' = k + length ps + 1 \<and> length ps \<le> length (packet_queue (p_tunnel (d_heap d ! r))))"
proof -
  have "flush_rank (p_tunnel (d_heap d ! r)) < flush_fuel r d"
    using flush_rank_le [of "p_tunnel (d_heap d ! r)"] by (simp add: flush_fuel_def)
  from flush_ends [OF assms this] flush_rank_le [of "p_tunnel (d_heap d ! r)"] show ?thesis by fastforce
qed

theorem queue_flush_ends_witness:
  "flush_queue toy_libs (\<lambda>_. toy_env epoch) 0 (flush_fuel 0 (toy_peered config_default [1] [2] None) + 9) 0 (toy_peered config_default [1] [2] None) =
    flush_queue toy_libs (\<lambda>_. toy_env epoch) 0 (flush_fuel 0 (toy_peered config_default [1] [2] None)) 0 (toy_peered config_default [1] [2] None)"
  by (rule queue_flush_ends [THEN conjunct1]) (simp add: toy_peered_fields)

section \<open>The endpoint follows the peer\<close>

lemma decapsulate_endpoint: "peer_decapsulate L env a b r d = Some (res, d') \<Longrightarrow>
    p_endpoint (d_heap d' ! r') = p_endpoint (d_heap d ! r')"
  by (cases "r' = r"; cases "r < length (d_heap d)")
    (auto simp: peer_decapsulate_def Let_def list_update_beyond split: bind_splits)

lemma flush_endpoint: "flush_queue L E r fuel k d = Some (ps, k', d') \<Longrightarrow>
    p_endpoint (d_heap d' ! r') = p_endpoint (d_heap d ! r')"
proof (induction L E r fuel k d arbitrary: ps k' d' rule: flush_queue.induct)
  case (2 L E r fuel k d)
  from 2(2) obtain res d1 where d1: "peer_decapsulate L (E k) None [] r d = Some (res, d1)"
    by (auto split: bind_splits)
  note e = decapsulate_endpoint [OF d1]
  show ?case
  proof (cases res)
    case (WriteToNetwork x)
    then obtain ps1 where "flush_queue L E r fuel (Suc k) d1 = Some (ps1, k', d')"
      using 2(2) d1 by (auto split: bind_splits)
    then show ?thesis using 2(1) [OF d1 _ WriteToNetwork] e by simp
  qed (use 2(2) d1 e in auto)
qed simp

lemma verified_endpoint: "peer_handle_verified L env parsed r d = Some (res, d') \<Longrightarrow>
    p_endpoint (d_heap d' ! r') = p_endpoint (d_heap d ! r')"
  by (cases "r' = r"; cases "r < length (d_heap d)")
    (auto simp: peer_handle_verified_def list_update_beyond split: bind_splits)

lemma verify_heap: "device_verify L env l ip b d = (v, d') \<Longrightarrow> d_heap d' = d_heap d"
  by (auto simp: device_verify_def split: prod.splits)

lemma connect_heap: "connect_endpoint os port mark pr p = Some (res, p') \<Longrightarrow> ep_addr (p_endpoint p') = ep_addr (p_endpoint p)"
  by (auto simp: connect_endpoint_def split: if_splits option.splits prod.splits)

lemma add_event_heap: "add_event X fd h d = (b, d') \<Longrightarrow> d_heap d' = d_heap d"
  by (auto simp: add_event_def split: prod.splits)

lemma close_conn_heap [simp]: "d_heap (close_conn s d) = d_heap d" "d_config (close_conn s d) = d_config d"
  by (simp_all add: close_conn_def split: option.split)

lemma roam_addr:
  assumes "roam_endpoint X addr r d = Some d'"
  shows "ep_addr (p_endpoint (d_heap d' ! r')) = ep_addr (p_endpoint (d_heap d ! r')) \<or>
    r' = r \<and> ep_addr (p_endpoint (d_heap d' ! r)) = Some (sock_new (sock_ip addr) (sock_port addr))"
proof -
  let ?a = "sock_new (sock_ip addr) (sock_port addr)"
  obtain s p where sp: "set_endpoint ?a (d_heap d ! r) = (s, p)" by fastforce
  have p: "ep_addr (p_endpoint p) = Some ?a" using sp by (auto simp: set_endpoint_def Let_def split: if_splits)
  obtain d1 where d1: "d1 = close_conn s (put_peer r p d)" by blast
  have "d_heap d' = (d_heap d)[r := p] \<or>
    (\<exists>q. d_heap d' = (d_heap d)[r := q] \<and> (r < length (d_heap d) \<longrightarrow> ep_addr (p_endpoint q) = Some ?a))"
  proof (cases "cfg_use_connected_socket (d_config d1)")
    case False
    then show ?thesis using assms sp by (auto simp: roam_endpoint_def Let_def d1)
  next
    case True
    obtain res p2 where c: "connect_endpoint (os_connect X) (d_listen_port d1) (d_fwmark d1)
        (cfg_ip_protocol (d_config d1)) (d_heap d1 ! r) = Some (res, p2)"
      using assms True sp by (auto simp: roam_endpoint_def Let_def d1 split: bind_splits)
    have "d_heap d' = (d_heap d)[r := p2]"
      using assms True sp c by (auto simp: roam_endpoint_def Let_def d1 split: sum.splits prod.splits if_splits dest: add_event_heap)
    then show ?thesis using connect_heap [OF c] p by (auto simp: d1)
  qed
  then show ?thesis
    using p by (cases "r < length (d_heap d)"; cases "r' = r") (auto simp: list_update_beyond)
qed


lemma toy_roam:
  "\<exists>d m s. dev_reach toy_libs d \<and> ep_addr (p_endpoint (d_heap d ! 0)) = None \<and>
    udp_packet toy_libs toy_os (\<lambda>_. toy_env epoch) ([1], x25519_public toy_crypto [1])
      (the (d_rate_limiter d)) (toy_addr 1) m (net_start d) = Some s \<and>
    ep_addr (p_endpoint (d_heap (n_dev s) ! 0)) = Some (toy_addr 1)"
proof -
  have C: "lib_crypto toy_libs = toy_crypto" by (simp add: toy_libs_def)
  obtain A rlA where A: "toy_new_tunn [2] [1] = (A, rlA)" by fastforce
  from toy_side [of "[1]" "[2]" None] obtain d where d: "dev_reach toy_libs d" "faces toy_libs d 0 [1] (x25519_public toy_crypto [2])"
      "toy_new_tunn [1] [2] = (p_tunnel (d_heap d ! 0), snd (toy_new_tunn [1] [2]))"
      "rl_count (device_limiter d) < limit (device_limiter d)" "ep_addr (p_endpoint (d_heap d ! 0)) = None" by blast
  have size: "148 \<le> MAX_UDP_SIZE" by simp
  from verified_exchange [OF toy_crypto_ok toy_packet_ipv4(1) toy_packet_size size A d(3) toy_after, of "toy_env epoch" "toy_env epoch" "toy_env epoch" "toy_env epoch" "toy_env epoch"]
  obtain m p hh m2 B1 where m: "parse_incoming_packet m = Inr (HandshakeInit p)"
      "authentic_for toy_crypto (b2s_hash toy_crypto LABEL_MAC1 (x25519_public toy_crypto [1])) m"
      "parse_handshake_anon toy_crypto [1] (x25519_public toy_crypto [1]) p = Some (Inr hh)"
      "hh_peer_static_public hh = x25519_public toy_crypto [2]"
      "handle_verified_packet toy_crypto (toy_env epoch) (HandshakeInit p) MAX_UDP_SIZE (p_tunnel (d_heap d ! 0)) =
        Some (WriteToNetwork m2, B1)" "packet_queue B1 = []" by (elim exE conjE)
  have who: "identify_peer toy_libs [1] (x25519_public (lib_crypto toy_libs) [1]) (HandshakeInit p) (d\<lparr>d_limiters := ls\<rparr>) =
      Some (Some 0)" for ls
    using m(3,4) d(2) by (simp add: identify_peer_def C faces_def)
  have r: "0 < length (d_heap d)" using d(2) by (simp add: faces_def)
  have auth: "handshake_sender (HandshakeInit p) \<noteq> None \<Longrightarrow>
      authentic_for (lib_crypto toy_libs) (b2s_hash (lib_crypto toy_libs) LABEL_MAC1 (x25519_public (lib_crypto toy_libs) [1])) m \<and>
      rl_count (device_limiter d) < limit (device_limiter d)" using m(2) d(4) by (simp add: C)
  have res: "\<not> is_err (WriteToNetwork m2)" by simp
  obtain ls where "udp_packet toy_libs toy_os (\<lambda>_. toy_env epoch) ([1], x25519_public toy_crypto [1]) (the (d_rate_limiter d)) (toy_addr 1) m (net_start d) =
      (let d' = heard 0 (toy_addr 1) B1 ls d; s' = (net_start d)\<lparr>n_dev := d', n_calls := Suc 0\<rparr>
       in do {
            (ps, k, d4) \<leftarrow> flush_queue toy_libs (\<lambda>_. toy_env epoch) 0 (flush_fuel 0 d') (Suc 0) d';
            Some (fold (queue_send (toy_addr 1)) ps ((queue_send (toy_addr 1) m2 s')\<lparr>n_dev := d4, n_calls := k\<rparr>))
          })"
    using packet_step [where s = "net_start d" and E = "\<lambda>_. toy_env epoch" and X = toy_os and addr = "toy_addr 1",
        OF d(2) m(1) auth who m(5) [folded C] res] by (auto simp: C net_start_def Let_def)
  moreover have "flush_queue toy_libs (\<lambda>_. toy_env epoch) 0 (flush_fuel 0 (heard 0 (toy_addr 1) B1 ls d)) (Suc 0) (heard 0 (toy_addr 1) B1 ls d) =
      Some ([], Suc (Suc 0), heard 0 (toy_addr 1) B1 ls d)" by (rule flush_empty) (simp add: tunnel_heard [OF r] m(6))
  ultimately show ?thesis
    using d(1,5) r by (intro exI [of _ d] exI [of _ m]) (simp add: Let_def heard_def)
qed


section \<open>A new private key\<close>

lemma rekey_frames:
  "rekey_peers L le priv pub rl l rs heap = Some heap' \<Longrightarrow> length heap' = length heap \<and>
    (\<forall>r. r \<notin> set rs \<longrightarrow> heap' ! r = heap ! r)"
proof (induction rs arbitrary: heap)
  case (Cons r rs)
  then show ?case by (fastforce split: bind_splits)
qed simp

lemma rekey_peer:
  assumes "rekey_peers L le priv pub rl l rs heap = Some heap'" and "r \<in> set rs" and "distinct rs" and "r < length heap"
  shows "p_limiter (heap' ! r) = l \<and> p_index (heap' ! r) = p_index (heap ! r) \<and>
    sessions (p_tunnel (heap' ! r)) = map (\<lambda>_. None) (sessions (p_tunnel (heap ! r))) \<and>
    static_private (params (tn_handshake (p_tunnel (heap' ! r)))) = priv \<and>
    static_public (params (tn_handshake (p_tunnel (heap' ! r)))) = pub \<and>
    static_shared (params (tn_handshake (p_tunnel (heap' ! r)))) =
      x25519_dh (lib_crypto L) priv (peer_static_public (params (tn_handshake (p_tunnel (heap ! r)))))"
  using assms
proof (induction rs arbitrary: heap)
  case (Cons q rs)
  obtain t x where t: "tunn_set_static_private (lib_crypto L) le priv pub (Some rl) (p_tunnel (heap ! q)) = Some (t, x)"
    and rest: "rekey_peers L le priv pub rl l rs (heap[q := (heap ! q)\<lparr>p_tunnel := t, p_limiter := l\<rparr>]) = Some heap'"
    using Cons.prems(1) by (auto split: bind_splits)
  show ?case
  proof (cases "r = q")
    case True
    then have "heap' ! r = (heap ! r)\<lparr>p_tunnel := t, p_limiter := l\<rparr>"
      using rekey_frames [OF rest] Cons.prems(3,4) by auto
    then show ?thesis
      using t True by (auto simp: tunn_set_static_private_def handshake_set_static_private_def params_set_static_private_def
          split: bind_splits if_splits)
  next
    case False
    then show ?thesis using Cons.IH [OF rest] Cons.prems by auto
  qed
qed simp

lemma one_key_distinct:
  assumes "hm.one_key m" and "distinct (map fst m)"
  shows "distinct (map snd m)"
  unfolding distinct_map
proof
  show "distinct m" using assms(2) by (simp add: distinct_map)
  show "inj_on snd (set m)"
  proof (rule inj_onI)
    fix p q assume pq: "p \<in> set m" "q \<in> set m" "snd p = snd q"
    have "hm_get m (fst x) = Some (snd x)" if "x \<in> set m" for x using that assms(2) by simp
    from this [OF pq(1)] this [OF pq(2)] have "hm_get m (fst p) = Some (snd p)" "hm_get m (fst q) = Some (snd p)"
      by (simp_all only: pq(3))
    then have "fst p = fst q" by (rule hm.one_keyD [OF assms(1)])
    then show "p = q" using pq(3) by (simp add: prod_eq_iff)
  qed
qed

text \<open>A new private key reaches every peer: it forgets its sessions, keeps its index, uses the new key pair with the shared secret that belongs to it, and shares the one limiter that the device made for the new key; the key the device already has changes nothing.\<close>

theorem new_key_reaches_every_peer:
  assumes "dev_reach L d" and "libs_ok L" and "set_key L le priv d = Some d'" and "hm_get (d_peers d) k = Some r"
  shows "if map_option snd (d_key_pair d) = Some (x25519_public (lib_crypto L) priv) then d' = d
    else d_key_pair d' = Some (priv, x25519_public (lib_crypto L) priv) \<and> d_rate_limiter d' = Some (p_limiter (d_heap d' ! r)) \<and>
      p_index (d_heap d' ! r) = p_index (d_heap d ! r) \<and>
      set (sessions (p_tunnel (d_heap d' ! r))) \<subseteq> {None} \<and>
      static_private (params (tn_handshake (p_tunnel (d_heap d' ! r)))) = priv \<and>
      static_shared (params (tn_handshake (p_tunnel (d_heap d' ! r)))) = x25519_dh (lib_crypto L) priv k"
proof (cases "map_option snd (d_key_pair d) = Some (x25519_public (lib_crypto L) priv)")
  case True
  then show ?thesis using assms(3) by (simp add: set_key_def Let_def)
next
  case False
  note ok = reach_tables_ok [OF assms(1,2)]
  obtain r16 r32 now1 now2 where le: "le = (r16, r32, now1, now2)" by (cases le)
  obtain rl heap where h: "rekey_peers L le priv (x25519_public (lib_crypto L) priv) rl (length (d_limiters d)) (map snd (d_peers d)) (d_heap d) = Some heap"
    and d': "d' = d\<lparr>d_limiters := d_limiters d @ [rl], d_heap := heap,
      d_key_pair := Some (priv, x25519_public (lib_crypto L) priv), d_rate_limiter := Some (length (d_limiters d))\<rparr>"
    using assms(3) False by (auto simp: set_key_def le Let_def split: bind_splits)
  have "r \<in> set (map snd (d_peers d))" using assms(4) by (force dest: map_of_SomeD)
  moreover have "distinct (map snd (d_peers d))" by (rule one_key_distinct [OF tables_okD(1,9) [OF ok]])
  ultimately have "p_limiter (heap ! r) = length (d_limiters d) \<and> p_index (heap ! r) = p_index (d_heap d ! r) \<and>
    sessions (p_tunnel (heap ! r)) = map (\<lambda>_. None) (sessions (p_tunnel (d_heap d ! r))) \<and>
    static_private (params (tn_handshake (p_tunnel (heap ! r)))) = priv \<and>
    static_public (params (tn_handshake (p_tunnel (heap ! r)))) = x25519_public (lib_crypto L) priv \<and>
    static_shared (params (tn_handshake (p_tunnel (heap ! r)))) =
      x25519_dh (lib_crypto L) priv (peer_static_public (params (tn_handshake (p_tunnel (d_heap d ! r)))))"
    using rekey_peer [OF h] tables_okD(2) [OF ok assms(4)] by blast
  moreover have "peer_static_public (params (tn_handshake (p_tunnel (d_heap d ! r)))) = k"
    using tables_okD(4) [OF ok assms(4)] by (simp add: tunn_named_def hs_named_def)
  ultimately show ?thesis using False by (auto simp: d')
qed

theorem new_key_reaches_every_peer_witness:
  "\<exists>d'. set_key toy_libs toy_le [3] (toy_peered config_default [1] [2] None) = Some d' \<and>
    static_private (params (tn_handshake (p_tunnel (d_heap d' ! 0)))) = [3]"
proof -
  let ?d = "toy_peered config_default [1] [2] None"
  have g: "hm_get (d_peers ?d) (x25519_public toy_crypto [2]) = Some 0" by (simp add: toy_peered_fields)
  have other: "x25519_public toy_crypto [3] \<noteq> x25519_public toy_crypto [1]" by code_simp
  obtain d' where d': "set_key toy_libs toy_le [3] ?d = Some d'"
    by (simp add: set_key_def toy_le_def toy_peered_fields toy_libs_def tunn_set_static_private_def
        handshake_set_static_private_def params_set_static_private_def Let_def other [symmetric] del: length_greater_0_conv)
  from new_key_reaches_every_peer [OF toy_peered_reach toy_libs_ok d' g] other d' show ?thesis
    by (simp add: toy_peered_fields toy_libs_def split: if_splits)
qed

section \<open>The end of a stream\<close>


text \<open>A stream whose buffer is full is taken for one that was closed.\<close>

lemma full_stream_ends_device:
  assumes "f_unprocessed_i f = length (f_buffer f)"
  shows "\<exists>s. tcp_handler L X E sock addr k (Some stream) closed f d = Some (Exit, s, f, stream)"
  using assms by (simp add: tcp_handler_def get_free_space_def Let_def)

section \<open>A datagram of its own\<close>

lemma toy_heard:
  "\<exists>d m m2 s. dev_reach toy_libs d \<and> m \<noteq> [] \<and>
    udp_handler toy_libs toy_os (\<lambda>_. toy_env epoch) [[(Some (toy_addr 1), 0, m)]] d = Some (Continue, s) \<and>
    n_out s = [OutUdp (toy_addr 1) m2]"
proof -
  have C: "lib_crypto toy_libs = toy_crypto" by (simp add: toy_libs_def)
  obtain A rlA where A: "toy_new_tunn [2] [1] = (A, rlA)" by fastforce
  from toy_side [of "[1]" "[2]" None] obtain d where d: "dev_reach toy_libs d" "faces toy_libs d 0 [1] (x25519_public toy_crypto [2])"
      "toy_new_tunn [1] [2] = (p_tunnel (d_heap d ! 0), snd (toy_new_tunn [1] [2]))"
      "rl_count (device_limiter d) < limit (device_limiter d)" by blast
  have size: "148 \<le> MAX_UDP_SIZE" by simp
  from verified_exchange [OF toy_crypto_ok toy_packet_ipv4(1) toy_packet_size size A d(3) toy_after, of "toy_env epoch" "toy_env epoch" "toy_env epoch" "toy_env epoch" "toy_env epoch"]
  obtain m p hh m2 B1 where m: "parse_incoming_packet m = Inr (HandshakeInit p)"
      "authentic_for toy_crypto (b2s_hash toy_crypto LABEL_MAC1 (x25519_public toy_crypto [1])) m"
      "parse_handshake_anon toy_crypto [1] (x25519_public toy_crypto [1]) p = Some (Inr hh)"
      "hh_peer_static_public hh = x25519_public toy_crypto [2]"
      "handle_verified_packet toy_crypto (toy_env epoch) (HandshakeInit p) MAX_UDP_SIZE (p_tunnel (d_heap d ! 0)) =
        Some (WriteToNetwork m2, B1)" "packet_queue B1 = []" by (elim exE conjE)
  have who: "identify_peer toy_libs [1] (x25519_public (lib_crypto toy_libs) [1]) (HandshakeInit p) (d\<lparr>d_limiters := ls\<rparr>) =
      Some (Some 0)" for ls
    using m(3,4) d(2) by (simp add: identify_peer_def C faces_def)
  have r: "0 < length (d_heap d)" using d(2) by (simp add: faces_def)
  have fl: "\<exists>k. flush_queue toy_libs (\<lambda>_. toy_env epoch) 0 (flush_fuel 0 (heard 0 (toy_addr 1) B1 ls d)) 1 (heard 0 (toy_addr 1) B1 ls d) =
      Some ([], k, heard 0 (toy_addr 1) B1 ls d)" for ls
    by (rule exI, rule flush_empty) (simp add: tunnel_heard [OF r] m(6))
  from answered [where E = "\<lambda>_. toy_env epoch" and X = toy_os and addr = "toy_addr 1" and ps = "[]",
      OF d(2) m(1) m(2) [folded C] d(4) who m(5) [folded C] fl] nonempty_parse [OF m(1)] d(1)
  show ?thesis by auto
qed

theorem handlers_agree_witness:
  "\<exists>d m m2 s s'. dev_reach toy_libs d \<and>
    udp_handler toy_libs toy_os (\<lambda>_. toy_env epoch) [[(Some (toy_addr 1), 0, m)]] d = Some (Continue, s) \<and>
    n_out s = [OutUdp (toy_addr 1) m2] \<and>
    plain_udp_handler toy_libs toy_os (\<lambda>_. toy_env epoch) [(Some (toy_addr 1), m)] d = Some (Continue, s') \<and>
    n_dev s' = n_dev s \<and> n_out s' = [OutUdp (toy_addr 1) m2]"
proof -
  obtain d m m2 s where d: "dev_reach toy_libs d" "m \<noteq> []"
    "udp_handler toy_libs toy_os (\<lambda>_. toy_env epoch) [[(Some (toy_addr 1), 0, m)]] d = Some (Continue, s)"
    "n_out s = [OutUdp (toy_addr 1) m2]" using toy_heard by blast
  from handlers_agree [of "[(toy_addr 1, m)]" toy_libs toy_os "\<lambda>_. toy_env epoch" d] d(2,3)
  obtain s' where s': "plain_udp_handler toy_libs toy_os (\<lambda>_. toy_env epoch) [(Some (toy_addr 1), m)] d = Some (Continue, s')"
    "n_dev s' = n_dev s" "filter out_is_udp (n_out s') = filter out_is_udp (n_out s)"
    "filter (Not \<circ> out_is_udp) (n_out s') = filter (Not \<circ> out_is_udp) (n_out s)"
    by (auto simp: option_rel_Some1)
  have "\<forall>x\<in>set (n_out s'). out_is_udp x" using s'(4) d(4) by (simp add: filter_empty_conv)
  then have "n_out s' = [OutUdp (toy_addr 1) m2]" using s'(3) d(4) by simp
  with d s' show ?thesis by blast
qed

end
