(* ===== verification/Dev_Lock.thy ===== *)
theory Dev_Lock
  imports Prelude
begin

text \<open>
  The lock around the device (src/nekolink-core/src/device/dev_lock.rs). Any number of threads run
  the two operations; a thread is at one of the \<open>stage\<close>s, which are the points between two
  blocking or visible steps of the source. The mutex, the condition variable and the inner
  reader-writer lock have the semantics of parking_lot: a step that has to wait is not enabled,
  waiting on the condition variable gives the mutex up, \<open>notify_all\<close> wakes every waiting thread,
  which then has to take the mutex again, and there are no other wake-ups.
\<close>

section \<open>State\<close>

text \<open>
  \<open>ReadLock\<close> to \<open>ReadWait\<close> are in \<open>read\<close>; \<open>Holding\<close> has a guard; \<open>WriteLock\<close> to \<open>FinishSet\<close> are in
  \<open>try_writeable\<close>: up to \<open>WriteWake\<close> the announcement, \<open>Reacquire\<close> the end of the first \<open>unlocked\<close>,
  \<open>Prepare\<close> the call of \<open>prep_func\<close>, \<open>AwaitWrite\<close> and \<open>Writing\<close> the second \<open>unlocked\<close> before and in
  \<open>mut_func\<close>, \<open>Restore\<close> its end, \<open>FinishLock\<close> and \<open>FinishSet\<close> the signal to the others.
\<close>

datatype stage =
    Outside
  | ReadLock | ReadCheck | ReadWait
  | Holding
  | WriteLock | WriteUnlock | WriteCheck | WriteWait | WriteWake
  | Reacquire | Prepare | AwaitWrite | Writing | Restore | FinishLock | FinishSet

datatype lock_call = CallRead | CallTryWriteable | CallDrop

record 'a dev_lock =
  lk_wants_write :: bool
  lk_mutex :: "nat option"
  lk_readers :: "nat list"
  lk_writer :: "nat option"
  lk_value :: 'a
  lk_stage :: "nat \<Rightarrow> stage"

definition lock_new :: "'a \<Rightarrow> 'a dev_lock" where
  "lock_new user_data =
    \<lparr>lk_wants_write = False, lk_mutex = None, lk_readers = [], lk_writer = None, lk_value = user_data,
     lk_stage = (\<lambda>_. Outside)\<rparr>"

section \<open>Steps of one thread\<close>

definition goto :: "nat \<Rightarrow> stage \<Rightarrow> 'a dev_lock \<Rightarrow> 'a dev_lock" where
  "goto t g s = s\<lparr>lk_stage := (lk_stage s)(t := g)\<rparr>"

text \<open>The three primitives: \<open>None\<close> when the thread has to wait.\<close>

definition take_mutex :: "nat \<Rightarrow> stage \<Rightarrow> 'a dev_lock \<Rightarrow> 'a dev_lock option" where
  "take_mutex t g s = (if lk_mutex s = None then Some (goto t g (s\<lparr>lk_mutex := Some t\<rparr>)) else None)"

definition take_read :: "nat \<Rightarrow> stage \<Rightarrow> 'a dev_lock \<Rightarrow> 'a dev_lock option" where
  "take_read t g s = (if lk_writer s = None then Some (goto t g (s\<lparr>lk_readers := t # lk_readers s\<rparr>)) else None)"

definition take_write :: "nat \<Rightarrow> stage \<Rightarrow> 'a dev_lock \<Rightarrow> 'a dev_lock option" where
  "take_write t g s =
    (if lk_writer s = None \<and> lk_readers s = [] then Some (goto t g (s\<lparr>lk_writer := Some t\<rparr>)) else None)"

definition drop_read :: "nat \<Rightarrow> stage \<Rightarrow> 'a dev_lock \<Rightarrow> 'a dev_lock" where
  "drop_read t g s = goto t g (s\<lparr>lk_readers := removeAll t (lk_readers s)\<rparr>)"

text \<open>\<open>cvar.notify_all()\<close>.\<close>

fun awake :: "stage \<Rightarrow> stage" where
  "awake ReadWait = ReadLock"
| "awake WriteWait = WriteWake"
| "awake g = g"


text \<open>\<open>read\<close>: the mutex is held until the read access is taken.\<close>

definition read_step :: "nat \<Rightarrow> 'a dev_lock \<Rightarrow> 'a dev_lock option" where
  "read_step t s =
    (case lk_stage s t of
       ReadLock \<Rightarrow> take_mutex t ReadCheck s
     | ReadCheck \<Rightarrow>
         if lk_wants_write s then Some (goto t ReadWait (s\<lparr>lk_mutex := None\<rparr>))
         else map_option (\<lambda>s. s\<lparr>lk_mutex := None\<rparr>) (take_read t Holding s)
     | _ \<Rightarrow> None)"

text \<open>\<open>try_writeable\<close>, with \<open>mut_func\<close> as the argument; \<open>prep_func\<close> gets no mutable access.\<close>

definition try_writeable_step :: "('a \<Rightarrow> 'a) \<Rightarrow> nat \<Rightarrow> 'a dev_lock \<Rightarrow> 'a dev_lock option" where
  "try_writeable_step mut_func t s =
    (case lk_stage s t of
       WriteLock \<Rightarrow> take_mutex t WriteUnlock s
     | WriteUnlock \<Rightarrow> Some (drop_read t WriteCheck s)
     | WriteCheck \<Rightarrow>
         if lk_wants_write s then Some (goto t WriteWait (s\<lparr>lk_mutex := None\<rparr>))
         else Some (goto t Reacquire (s\<lparr>lk_wants_write := True, lk_mutex := None\<rparr>))
     | WriteWake \<Rightarrow> take_mutex t WriteCheck s
     | Reacquire \<Rightarrow> take_read t Prepare s
     | Prepare \<Rightarrow> Some (drop_read t AwaitWrite s)
     | AwaitWrite \<Rightarrow> take_write t Writing s
     | Writing \<Rightarrow> Some (goto t Restore (s\<lparr>lk_value := mut_func (lk_value s), lk_writer := None\<rparr>))
     | Restore \<Rightarrow> take_read t FinishLock s
     | FinishLock \<Rightarrow> take_mutex t FinishSet s
     | FinishSet \<Rightarrow>
         Some (goto t Holding (s\<lparr>lk_wants_write := False, lk_mutex := None, lk_stage := awake \<circ> lk_stage s\<rparr>))
     | _ \<Rightarrow> None)"

text \<open>A thread without a guard may ask for one; one that has a guard may drop it or ask to write.\<close>

definition lock_step :: "('a \<Rightarrow> 'a) \<Rightarrow> lock_call \<Rightarrow> nat \<Rightarrow> 'a dev_lock \<Rightarrow> 'a dev_lock option" where
  "lock_step mut_func c t s =
    (case lk_stage s t of
       Outside \<Rightarrow> if c = CallRead then Some (goto t ReadLock s) else None
     | Holding \<Rightarrow>
         (case c of CallTryWriteable \<Rightarrow> Some (goto t WriteLock s) | CallDrop \<Rightarrow> Some (drop_read t Outside s)
          | CallRead \<Rightarrow> None)
     | g \<Rightarrow> if g \<in> {ReadLock, ReadCheck, ReadWait} then read_step t s else try_writeable_step mut_func t s)"

inductive lock_reach :: "'a \<Rightarrow> 'a dev_lock \<Rightarrow> bool" for user_data where
  lock_start: "lock_reach user_data (lock_new user_data)"
| lock_next: "lock_reach user_data s \<Longrightarrow> lock_step mut_func c t s = Some s' \<Longrightarrow> lock_reach user_data s'"

section \<open>Who has what\<close>

fun has_mutex :: "stage \<Rightarrow> bool" where
  "has_mutex ReadCheck = True"
| "has_mutex WriteUnlock = True"
| "has_mutex WriteCheck = True"
| "has_mutex FinishSet = True"
| "has_mutex _ = False"

fun has_read :: "stage \<Rightarrow> bool" where
  "has_read Holding = True"
| "has_read WriteLock = True"
| "has_read WriteUnlock = True"
| "has_read Prepare = True"
| "has_read FinishLock = True"
| "has_read FinishSet = True"
| "has_read _ = False"

fun announced :: "stage \<Rightarrow> bool" where
  "announced Reacquire = True"
| "announced Prepare = True"
| "announced AwaitWrite = True"
| "announced Writing = True"
| "announced Restore = True"
| "announced FinishLock = True"
| "announced FinishSet = True"
| "announced _ = False"

definition lock_inv :: "'a dev_lock \<Rightarrow> bool" where
  "lock_inv s \<longleftrightarrow>
    (\<forall>t. lk_mutex s = Some t \<longleftrightarrow> has_mutex (lk_stage s t)) \<and>
    (\<forall>t. t \<in> set (lk_readers s) \<longleftrightarrow> has_read (lk_stage s t)) \<and>
    (\<forall>t. lk_writer s = Some t \<longleftrightarrow> lk_stage s t = Writing) \<and>
    (lk_writer s \<noteq> None \<longrightarrow> lk_readers s = []) \<and>
    (\<forall>t u. announced (lk_stage s t) \<longrightarrow> announced (lk_stage s u) \<longrightarrow> t = u) \<and>
    (lk_wants_write s \<longleftrightarrow> (\<exists>t. announced (lk_stage s t))) \<and>
    (\<forall>t. lk_stage s t \<in> {ReadWait, WriteWait} \<longrightarrow> lk_wants_write s)"

lemmas lock_step_unfold = lock_step_def read_step_def try_writeable_step_def take_mutex_def take_read_def take_write_def

lemma awake_stage [simp]:
  "has_mutex (awake g) = has_mutex g" "has_read (awake g) = has_read g" "announced (awake g) = announced g"
  "awake g = Writing \<longleftrightarrow> g = Writing" "awake g \<noteq> ReadWait" "awake g \<noteq> WriteWait"
  by (cases g; simp)+

lemma lock_invD:
  assumes "lock_inv s"
  shows "lk_mutex s = Some t \<longleftrightarrow> has_mutex (lk_stage s t)"
    and "t \<in> set (lk_readers s) \<longleftrightarrow> has_read (lk_stage s t)"
    and "lk_writer s = Some t \<longleftrightarrow> lk_stage s t = Writing"
    and "lk_writer s \<noteq> None \<Longrightarrow> lk_readers s = []"
    and "announced (lk_stage s t) \<Longrightarrow> announced (lk_stage s u) \<Longrightarrow> t = u"
    and "lk_wants_write s \<longleftrightarrow> (\<exists>t. announced (lk_stage s t))"
    and "lk_stage s t \<in> {ReadWait, WriteWait} \<Longrightarrow> lk_wants_write s"
  using assms unfolding lock_inv_def by blast+

text \<open>Every step is one of these changes of the state.\<close>

lemma lock_step_cases:
  assumes "lock_step mut_func c t s = Some s'"
  obtains
    (move) g where "s' = goto t g s" "(lk_stage s t, g) \<in> {(Outside, ReadLock), (Holding, WriteLock)}"
  | (lock) g where "s' = goto t g (s\<lparr>lk_mutex := Some t\<rparr>)" "lk_mutex s = None"
      "(lk_stage s t, g) \<in> {(ReadLock, ReadCheck), (WriteLock, WriteUnlock), (WriteWake, WriteCheck), (FinishLock, FinishSet)}"
  | (sleep) g where "s' = goto t g (s\<lparr>lk_mutex := None\<rparr>)" "lk_wants_write s"
      "(lk_stage s t, g) \<in> {(ReadCheck, ReadWait), (WriteCheck, WriteWait)}"
  | (enter) "s' = goto t Holding (s\<lparr>lk_readers := t # lk_readers s, lk_mutex := None\<rparr>)" "lk_writer s = None"
      "\<not> lk_wants_write s" "lk_stage s t = ReadCheck"
  | (announce) "s' = goto t Reacquire (s\<lparr>lk_wants_write := True, lk_mutex := None\<rparr>)" "\<not> lk_wants_write s"
      "lk_stage s t = WriteCheck"
  | (read) g where "s' = goto t g (s\<lparr>lk_readers := t # lk_readers s\<rparr>)" "lk_writer s = None"
      "(lk_stage s t, g) \<in> {(Reacquire, Prepare), (Restore, FinishLock)}"
  | (unread) g where "s' = drop_read t g s"
      "(lk_stage s t, g) \<in> {(Holding, Outside), (WriteUnlock, WriteCheck), (Prepare, AwaitWrite)}"
  | (enter_write) "s' = goto t Writing (s\<lparr>lk_writer := Some t\<rparr>)" "lk_writer s = None" "lk_readers s = []"
      "lk_stage s t = AwaitWrite"
  | (store) "s' = goto t Restore (s\<lparr>lk_value := mut_func (lk_value s), lk_writer := None\<rparr>)" "lk_stage s t = Writing"
  | (signal) "s' = goto t Holding (s\<lparr>lk_wants_write := False, lk_mutex := None, lk_stage := awake \<circ> lk_stage s\<rparr>)"
      "lk_stage s t = FinishSet"
proof (cases "lk_stage s t")
  case Outside
  with assms show ?thesis by (intro move [of ReadLock]) (auto simp: lock_step_unfold split: if_splits)
next
  case ReadLock
  with assms show ?thesis by (intro lock [of ReadCheck]) (auto simp: lock_step_unfold split: if_splits)
next
  case WriteLock
  with assms show ?thesis by (intro lock [of WriteUnlock]) (auto simp: lock_step_unfold split: if_splits)
next
  case WriteUnlock
  with assms show ?thesis by (intro unread [of WriteCheck]) (auto simp: lock_step_unfold split: if_splits)
next
  case WriteWake
  with assms show ?thesis by (intro lock [of WriteCheck]) (auto simp: lock_step_unfold split: if_splits)
next
  case Reacquire
  with assms show ?thesis by (intro read [of Prepare]) (auto simp: lock_step_unfold split: if_splits)
next
  case Prepare
  with assms show ?thesis by (intro unread [of AwaitWrite]) (auto simp: lock_step_unfold split: if_splits)
next
  case AwaitWrite
  with assms show ?thesis by (intro enter_write) (auto simp: lock_step_unfold split: if_splits)
next
  case Writing
  with assms show ?thesis by (intro store) (auto simp: lock_step_unfold split: if_splits)
next
  case Restore
  with assms show ?thesis by (intro read [of FinishLock]) (auto simp: lock_step_unfold split: if_splits)
next
  case FinishLock
  with assms show ?thesis by (intro lock [of FinishSet]) (auto simp: lock_step_unfold split: if_splits)
next
  case FinishSet
  with assms show ?thesis by (intro signal) (auto simp: lock_step_unfold split: if_splits)
next
  case ReadWait
  with assms show ?thesis by (simp add: lock_step_unfold)
next
  case WriteWait
  with assms show ?thesis by (simp add: lock_step_unfold)
next
  case Holding
  show ?thesis
  proof (cases c)
    case CallTryWriteable
    with Holding assms show ?thesis by (intro move [of WriteLock]) (simp_all add: lock_step_unfold)
  next
    case CallDrop
    with Holding assms show ?thesis by (intro unread [of Outside]) (simp_all add: lock_step_unfold)
  qed (use Holding assms in \<open>simp add: lock_step_unfold\<close>)
next
  case ReadCheck
  show ?thesis
  proof (cases "lk_wants_write s")
    case True
    with ReadCheck assms show ?thesis by (intro sleep [of ReadWait]) (simp_all add: lock_step_unfold)
  next
    case False
    with ReadCheck assms show ?thesis by (intro enter) (auto simp: lock_step_unfold goto_def split: if_splits)
  qed
next
  case WriteCheck
  show ?thesis
  proof (cases "lk_wants_write s")
    case True
    with WriteCheck assms show ?thesis by (intro sleep [of WriteWait]) (simp_all add: lock_step_unfold)
  next
    case False
    with WriteCheck assms show ?thesis by (intro announce) (simp_all add: lock_step_unfold)
  qed
qed

lemma lock_inv_wants: "lock_inv s \<Longrightarrow> announced (lk_stage s t) \<Longrightarrow> lk_wants_write s"
  using lock_invD(6) by blast

text \<open>A change of one thread's stage \<open>g\<close>, of what the lock says of it, and of nothing else.\<close>

lemma lock_inv_change:
  assumes inv: "lock_inv s"
    and stage: "lk_stage s' = (lk_stage s)(t := g)"
    and mutex: "lk_mutex s' = (if has_mutex g then Some t else if has_mutex (lk_stage s t) then None else lk_mutex s)"
      "has_mutex g \<Longrightarrow> lk_mutex s = None \<or> has_mutex (lk_stage s t)"
    and readers: "\<And>u. u \<in> set (lk_readers s') \<longleftrightarrow> (if u = t then has_read g else u \<in> set (lk_readers s))"
      "has_read g \<Longrightarrow> has_read (lk_stage s t) \<or> lk_writer s = None"
    and writer: "lk_writer s' = (if g = Writing then Some t else if lk_stage s t = Writing then None else lk_writer s)"
      "g = Writing \<Longrightarrow> lk_readers s = []"
    and wants: "lk_wants_write s' \<longleftrightarrow> announced g \<or> lk_wants_write s"
      "announced (lk_stage s t) \<Longrightarrow> announced g" "announced g \<Longrightarrow> announced (lk_stage s t) \<or> \<not> lk_wants_write s"
      "g \<in> {ReadWait, WriteWait} \<Longrightarrow> lk_wants_write s"
  shows "lock_inv s'"
proof -
  note old = lock_invD [OF inv]
  have "lk_mutex s' = Some u \<longleftrightarrow> has_mutex (lk_stage s' u)" for u
    using old(1) [of u] old(1) [of t] mutex by (auto simp: stage)
  moreover have "u \<in> set (lk_readers s') \<longleftrightarrow> has_read (lk_stage s' u)" for u
    using old(2) [of u] readers(1) [of u] by (simp add: stage)
  moreover have "lk_writer s' = Some u \<longleftrightarrow> lk_stage s' u = Writing" for u
  proof (cases "u = t")
    case False
    have "lk_stage s u \<noteq> Writing" if "g = Writing"
    proof
      assume u: "lk_stage s u = Writing"
      then have "announced (lk_stage s u)" by simp
      then have "announced (lk_stage s t)" using wants(3) old(6) that by auto
      with \<open>announced (lk_stage s u)\<close> False show False using old(5) [of t u] by blast
    qed
    with False show ?thesis using old(3) [of u] old(3) [of t] writer old(4) old(5) [of t u] wants(2,3) old(6)
      by (auto simp: stage)
  qed (use old(3) [of t] writer in \<open>auto simp: stage\<close>)
  moreover have "lk_readers s' = []" if "lk_writer s' \<noteq> None"
  proof -
    have "u \<notin> set (lk_readers s')" for u
      using that readers(1) [of u] readers(2) writer old(4) old(2) [of t] by (auto split: if_splits)
    then show ?thesis by (cases "lk_readers s'") auto
  qed
  moreover have "u = v" if "announced (lk_stage s' u)" "announced (lk_stage s' v)" for u v
    using that old(5) [of u v] old(5) [of t u] old(5) [of t v] old(6) wants(3)
    by (auto simp: stage split: if_splits)
  moreover have "lk_wants_write s' \<longleftrightarrow> (\<exists>u. announced (lk_stage s' u))"
  proof
    assume "lk_wants_write s'"
    then have "announced g \<or> (\<exists>v. announced (lk_stage s v))" using wants(1) old(6) by blast
    then obtain v where "announced g \<or> v \<noteq> t \<and> announced (lk_stage s v)" using wants(2) by metis
    then show "\<exists>u. announced (lk_stage s' u)" by (intro exI [of _ "if announced g then t else v"]) (auto simp: stage)
  next
    assume "\<exists>u. announced (lk_stage s' u)"
    then obtain u where "announced (lk_stage s' u)" by blast
    then show "lk_wants_write s'" using wants(1) lock_inv_wants [OF inv, of u] by (cases "u = t") (auto simp: stage)
  qed
  moreover have "lk_wants_write s'" if "lk_stage s' u \<in> {ReadWait, WriteWait}" for u
    using that wants(1,4) old(7) [of u] by (auto simp: stage split: if_splits)
  ultimately show ?thesis unfolding lock_inv_def by blast
qed

lemma lock_inv_signal:
  assumes inv: "lock_inv s" and stage: "lk_stage s t = FinishSet"
  shows "lock_inv (goto t Holding (s\<lparr>lk_wants_write := False, lk_mutex := None, lk_stage := awake \<circ> lk_stage s\<rparr>))"
proof -
  note old = lock_invD [OF inv]
  have "\<not> announced (lk_stage s u)" if "u \<noteq> t" for u using old(5) [of u t] that stage by auto
  moreover have "lk_mutex s = Some t" "t \<in> set (lk_readers s)" using old(1,2) [of t] stage by simp_all
  moreover have "\<not> has_mutex (lk_stage s u)" if "u \<noteq> t" for u using that old(1) [of u] old(1) [of t] stage by auto
  ultimately show ?thesis using old(1-4) stage
    by (auto simp: lock_inv_def goto_def)
qed

lemma lock_inv_step:
  assumes inv: "lock_inv s" and step: "lock_step mut_func c t s = Some s'"
  shows "lock_inv s'"
proof -
  note local = lock_invD(1) [OF inv, of t] lock_invD(2) [OF inv, of t] lock_invD(3) [OF inv, of t] lock_inv_wants [OF inv, of t]
  from step show ?thesis
  proof (cases rule: lock_step_cases)
    case signal
    then show ?thesis using lock_inv_signal [OF inv] by simp
  next
    case (move g)
    show ?thesis
      by (rule lock_inv_change [OF inv, of _ t g]) (use move local in \<open>auto simp: goto_def drop_read_def\<close>)
  next
    case (lock g)
    show ?thesis
      by (rule lock_inv_change [OF inv, of _ t g]) (use lock local in \<open>auto simp: goto_def drop_read_def\<close>)
  next
    case (sleep g)
    show ?thesis
      by (rule lock_inv_change [OF inv, of _ t g]) (use sleep local in \<open>auto simp: goto_def drop_read_def\<close>)
  next
    case enter
    show ?thesis
      by (rule lock_inv_change [OF inv, of _ t Holding]) (use enter local in \<open>auto simp: goto_def drop_read_def\<close>)
  next
    case announce
    show ?thesis
      by (rule lock_inv_change [OF inv, of _ t Reacquire]) (use announce local in \<open>auto simp: goto_def drop_read_def\<close>)
  next
    case (read g)
    show ?thesis
      by (rule lock_inv_change [OF inv, of _ t g]) (use read local in \<open>auto simp: goto_def drop_read_def\<close>)
  next
    case (unread g)
    show ?thesis
      by (rule lock_inv_change [OF inv, of _ t g]) (use unread local in \<open>auto simp: goto_def drop_read_def\<close>)
  next
    case enter_write
    show ?thesis
      by (rule lock_inv_change [OF inv, of _ t Writing]) (use enter_write local in \<open>auto simp: goto_def drop_read_def\<close>)
  next
    case store
    show ?thesis
      by (rule lock_inv_change [OF inv, of _ t Restore]) (use store local in \<open>auto simp: goto_def drop_read_def\<close>)
  qed
qed

lemma lock_reach_inv: "lock_reach user_data s \<Longrightarrow> lock_inv s"
  by (induction rule: lock_reach.induct) (simp add: lock_inv_def lock_new_def, rule lock_inv_step)

section \<open>What the lock promises\<close>

lemma value_written_by_writer:
  assumes "lock_step mut_func c t s = Some s'" and "lk_value s' \<noteq> lk_value s"
  shows "lk_stage s t = Writing"
  using assms(1)
proof (cases rule: lock_step_cases)
  case store
  then show ?thesis by simp
qed (use assms(2) in \<open>simp_all add: goto_def drop_read_def\<close>)

text \<open>C21 The lock of the device excludes: in every reachable state of any number of threads a step changes the device only where its thread is in its closure under write access; then no other thread has a guard or a write access, nobody holds read access, and no second thread has announced a write.\<close>

theorem device_lock_excludes:
  assumes "lock_reach user_data s" and "lock_step mut_func c t s = Some s'" and "lk_value s' \<noteq> lk_value s"
  shows "lk_writer s = Some t \<and> lk_readers s = [] \<and> lk_value s' = mut_func (lk_value s) \<and>
    (u \<noteq> t \<longrightarrow> \<not> has_read (lk_stage s u) \<and> \<not> announced (lk_stage s u))"
proof -
  note inv = lock_invD [OF lock_reach_inv [OF assms(1)]]
  have t: "lk_stage s t = Writing" by (rule value_written_by_writer [OF assms(2,3)])
  then have "lk_writer s = Some t" "lk_readers s = []" using inv(3) [of t] inv(4) by auto
  moreover have "announced (lk_stage s u) \<Longrightarrow> u = t" using inv(5) [of u t] t by simp
  moreover have "lk_value s' = mut_func (lk_value s)"
    using assms(2) t by (auto simp: lock_step_unfold goto_def)
  ultimately show ?thesis using inv(2) [of u] by auto
qed

text \<open>A step of a thread that is awake is possible, or it waits for something that another one has.\<close>

lemma awake_thread_steps:
  assumes "lk_mutex s = None" and "lk_writer s = None"
    and "lk_stage s t \<in> {ReadLock, Holding, WriteLock, WriteWake, Reacquire, Prepare, Restore, FinishLock}"
  shows "\<exists>c s'. lock_step mut_func c t s = Some s'"
proof (cases "lk_stage s t = Holding")
  case True
  then have "lock_step mut_func CallDrop t s = Some (drop_read t Outside s)" by (simp add: lock_step_unfold)
  then show ?thesis by blast
qed (use assms in \<open>auto simp: lock_step_unfold\<close>)

lemma mutex_owner_steps:
  assumes "has_mutex (lk_stage s t)" and "lk_wants_write s \<or> lk_writer s = None"
  shows "\<exists>c s'. lock_step mut_func c t s = Some s'"
  using assms by (cases "lk_stage s t") (auto simp: lock_step_unfold)

text \<open>C22 The lock of the device never blocks for good: in every reachable state in which some thread is inside the lock, waiting or with a guard, one of those threads has a step it can take; so no order of calls ends with all of them waiting for each other, and no wake-up is lost.\<close>

theorem device_lock_never_stuck:
  assumes "lock_reach user_data s" and "lk_stage s u \<noteq> Outside"
  shows "\<exists>t c s'. lk_stage s t \<noteq> Outside \<and> lock_step mut_func c t s = Some s'"
proof -
  note reach_inv = lock_reach_inv [OF assms(1)]
  note inv = lock_invD [OF reach_inv]
  have writer: "lk_writer s = None \<or> (\<exists>w. lk_stage s w = Writing)" using inv(3) by (cases "lk_writer s") auto
  have inside: "\<exists>t c s'. lk_stage s t \<noteq> Outside \<and> lock_step mut_func c t s = Some s'"
    if "lk_stage s t \<noteq> Outside" "\<exists>c s'. lock_step mut_func c t s = Some s'" for t using that by blast
  show ?thesis
  proof (cases "\<exists>w. lk_stage s w = Writing")
    case True
    then obtain w where "lk_stage s w = Writing" by blast
    then show ?thesis by (intro inside [of w]) (auto simp: lock_step_unfold)
  next
    case False
    with writer have no_writer: "lk_writer s = None" by blast
    show ?thesis
    proof (cases "lk_mutex s")
      case (Some t)
      then have "has_mutex (lk_stage s t)" using inv(1) by simp
      then show ?thesis using mutex_owner_steps [of s t] no_writer by (intro inside [of t]) auto
    next
      case None
      note free = awake_thread_steps [OF None no_writer]
      have no_mutex: "\<not> has_mutex (lk_stage s v)" for v using inv(1) [of v] None by simp
      show ?thesis
      proof (cases "\<exists>v. lk_stage s v = AwaitWrite")
        case True
        then obtain v where v: "lk_stage s v = AwaitWrite" by blast
        show ?thesis
        proof (cases "lk_readers s")
          case Nil
          then show ?thesis using v no_writer by (intro inside [of v]) (auto simp: lock_step_unfold)
        next
          case (Cons r rs)
          then have "has_read (lk_stage s r)" using inv(2) [of r] by simp
          then show ?thesis using no_mutex [of r] free [of r] by (intro inside [of r]; cases "lk_stage s r") auto
        qed
      next
        case no_await: False
        obtain v where v: "lk_stage s v \<noteq> Outside" "lk_stage s v \<notin> {ReadWait, WriteWait}"
        proof (cases "lk_stage s u \<in> {ReadWait, WriteWait}")
          case True
          then obtain v where "announced (lk_stage s v)" using inv(6,7) by blast
          then show thesis by (intro that [of v]) auto
        qed (use assms(2) that in blast)
        then show ?thesis using no_await no_mutex [of v] False free [of v]
          by (intro inside [of v]; cases "lk_stage s v") auto
      qed
    qed
  qed
qed

section \<open>Examples\<close>

fun lock_run :: "('a \<Rightarrow> 'a) \<Rightarrow> (nat \<times> lock_call) list \<Rightarrow> 'a dev_lock \<Rightarrow> 'a dev_lock option" where
  "lock_run f [] s = Some s"
| "lock_run f ((t, c) # cs) s = do { s' \<leftarrow> lock_step f c t s; lock_run f cs s' }"

lemma lock_run_reach: "lock_reach x s \<Longrightarrow> lock_run f cs s = Some s' \<Longrightarrow> lock_reach x s'"
  by (induction f cs s rule: lock_run.induct) (auto split: bind_splits intro: lock_next)

text \<open>Thread 0 announces a write while thread 1 has a guard; 1 drops it, and 0 writes.\<close>

definition toy_lock_calls :: "(nat \<times> lock_call) list" where
  "toy_lock_calls = map (\<lambda>t. (t, CallRead)) [0, 0, 0, 1, 1, 1] @ (0, CallTryWriteable) #
    map (\<lambda>t. (t, CallDrop)) [0, 0, 0, 0, 0, 1, 0]"

theorem device_lock_excludes_witness:
  "\<exists>s s'. lock_run (\<lambda>x. x + 1) toy_lock_calls (lock_new 4) = Some s \<and> lock_step (\<lambda>x. x + 1) CallRead 0 s = Some s' \<and>
    lk_value s' = (5 :: int) \<and> lk_readers s = [] \<and> \<not> has_read (lk_stage s 1)"
proof -
  obtain s where run: "lock_run (\<lambda>x. x + 1) toy_lock_calls (lock_new (4 :: int)) = Some s" and stage: "lk_stage s 0 = Writing"
    and val: "lk_value s = 4"
    by (simp add: toy_lock_calls_def lock_new_def lock_step_unfold goto_def drop_read_def)
  have reach: "lock_reach 4 s" by (rule lock_run_reach [OF lock_start run])
  obtain s' where s': "lock_step (\<lambda>x. x + 1) CallRead 0 s = Some s'" and "lk_value s' = 5"
    using stage val by (simp add: lock_step_unfold goto_def)
  with val have "lk_value s' \<noteq> lk_value s" by simp
  from device_lock_excludes [OF reach s' this, of 1] val run s' show ?thesis by auto
qed

theorem device_lock_never_stuck_witness:
  "\<exists>s. lock_run (\<lambda>x. x + 1) (take 8 toy_lock_calls) (lock_new (4 :: int)) = Some s \<and>
    (\<exists>t c s'. lk_stage s t \<noteq> Outside \<and> lock_step (\<lambda>x. x + 1) c t s = Some s')"
proof -
  obtain s where run: "lock_run (\<lambda>x. x + 1) (take 8 toy_lock_calls) (lock_new (4 :: int)) = Some s"
    and stage: "lk_stage s 0 \<noteq> Outside"
    by (simp add: toy_lock_calls_def lock_new_def lock_step_unfold goto_def drop_read_def)
  show ?thesis using device_lock_never_stuck [OF lock_run_reach [OF lock_start run] stage] run by blast
qed

end
