(* ===== verification/Std_Text.thy ===== *)
theory Std_Text
  imports Peer
begin

text \<open>
  What the program uses of the texts of Rust's standard library: reading lines, splitting, and the
  \<open>FromStr\<close> and \<open>Display\<close> of integers, booleans and addresses. A \<open>str\<close> is the list of its UTF-8 bytes,
  one \<open>char\<close> for each. Texts are read by functions that return what is left; the locale \<open>text_codec\<close>
  is the law that reading undoes printing.
\<close>

section \<open>Digits and numbers\<close>

text \<open>\<open>char::to_digit\<close> and \<open>core::char::from_digit\<close>.\<close>

definition to_digit :: "nat \<Rightarrow> char \<Rightarrow> nat option" where
  "to_digit radix c =
    (let n = (of_char c :: nat);
         v = (if 48 \<le> n \<and> n \<le> 57 then n - 48 else if 97 \<le> n \<and> n \<le> 122 then n - 87
              else if 65 \<le> n \<and> n \<le> 90 then n - 55 else 36)
     in if v < radix then Some v else None)"

definition from_digit :: "nat \<Rightarrow> char" where
  "from_digit v = (if v < 10 then char_of (48 + v) else char_of (87 + v))"

definition is_digit :: "nat \<Rightarrow> char \<Rightarrow> bool" where
  "is_digit radix c \<longleftrightarrow> to_digit radix c \<noteq> None"

definition digits_value :: "nat \<Rightarrow> string \<Rightarrow> nat" where
  "digits_value radix cs = foldl (\<lambda>a c. a * radix + the (to_digit radix c)) 0 cs"

fun show_radix :: "nat \<Rightarrow> nat \<Rightarrow> string" where
  "show_radix radix n =
    (if n < radix \<or> radix < 2 then [from_digit n] else show_radix radix (n div radix) @ [from_digit (n mod radix)])"

declare show_radix.simps [simp del]

abbreviation show_nat :: "nat \<Rightarrow> string" where
  "show_nat \<equiv> show_radix 10"

text \<open>
  \<open>from_str_radix\<close> of an unsigned integer below \<open>bound\<close>: one leading \<open>+\<close> is skipped, every error is
  the same \<open>None\<close>.
\<close>

definition from_str_radix :: "nat \<Rightarrow> nat \<Rightarrow> string \<Rightarrow> nat option" where
  "from_str_radix radix bound s =
    (let ds = (case s of c # cs \<Rightarrow> if c = CHR ''+'' then cs else s | [] \<Rightarrow> s)
     in if ds \<noteq> [] \<and> list_all (is_digit radix) ds \<and> digits_value radix ds < bound
        then Some (digits_value radix ds) else None)"

definition parse_unsigned :: "string \<Rightarrow> 'a::len word option" where
  "parse_unsigned s = map_option word_of_nat (from_str_radix 10 (2 ^ LENGTH('a)) s)"

definition parse_bool :: "string \<Rightarrow> bool option" where
  "parse_bool s = (if s = ''true'' then Some True else if s = ''false'' then Some False else None)"

section \<open>Lines and parts\<close>

text \<open>A byte that continues a character, and the bytes that \<open>String::pop\<close> leaves.\<close>

definition continues :: "char \<Rightarrow> bool" where
  "continues c \<longleftrightarrow> 128 \<le> (of_char c :: nat) \<and> (of_char c :: nat) < 192"

definition str_pop :: "string \<Rightarrow> string" where
  "str_pop s = rev (tl (dropWhile continues (rev s)))"

text \<open>\<open>str::is_char_boundary\<close>, on which slicing panics.\<close>

definition char_boundary :: "string \<Rightarrow> nat \<Rightarrow> bool" where
  "char_boundary s i \<longleftrightarrow> i = 0 \<or> i = length s \<or> (i < length s \<and> \<not> continues (s ! i))"

text \<open>Well-formed UTF-8: \<open>utf8_follow n lo hi\<close> wants \<open>n\<close> more bytes, the next one between \<open>lo\<close> and \<open>hi\<close>.\<close>

fun utf8_follow :: "nat \<Rightarrow> nat \<Rightarrow> nat \<Rightarrow> string \<Rightarrow> bool" where
  "utf8_follow 0 lo hi [] = True"
| "utf8_follow (Suc n) lo hi [] = False"
| "utf8_follow (Suc n) lo hi (c # cs) = (lo \<le> of_char c \<and> of_char c \<le> hi \<and> utf8_follow n 128 191 cs)"
| "utf8_follow 0 lo hi (c # cs) =
    (let b = (of_char c :: nat) in
     if b < 128 then utf8_follow 0 lo hi cs
     else if 194 \<le> b \<and> b \<le> 223 then utf8_follow 1 128 191 cs
     else if b = 224 then utf8_follow 2 160 191 cs
     else if b = 237 then utf8_follow 2 128 159 cs
     else if 225 \<le> b \<and> b \<le> 239 then utf8_follow 2 128 191 cs
     else if b = 240 then utf8_follow 3 144 191 cs
     else if 241 \<le> b \<and> b \<le> 243 then utf8_follow 3 128 191 cs
     else if b = 244 then utf8_follow 3 128 143 cs
     else False)"

abbreviation utf8_valid :: "string \<Rightarrow> bool" where
  "utf8_valid \<equiv> utf8_follow 0 0 0"

text \<open>A text of these bytes.\<close>

abbreviation bytes_text :: "bytes \<Rightarrow> string" where
  "bytes_text bs \<equiv> map (\<lambda>b. char_of (unat b)) bs"

text \<open>How many bytes must follow the first byte of a character, and between which the next one is.\<close>

definition char_start :: "nat \<Rightarrow> (nat \<times> nat \<times> nat) option" where
  "char_start b =
    (if b < 128 then Some (0, 0, 0)
     else if 194 \<le> b \<and> b \<le> 223 then Some (1, 128, 191)
     else if b = 224 then Some (2, 160, 191)
     else if b = 237 then Some (2, 128, 159)
     else if 225 \<le> b \<and> b \<le> 239 then Some (2, 128, 191)
     else if b = 240 then Some (3, 144, 191)
     else if 241 \<le> b \<and> b \<le> 243 then Some (3, 128, 191)
     else if b = 244 then Some (3, 128, 143)
     else None)"

fun char_rest :: "nat \<Rightarrow> nat \<Rightarrow> nat \<Rightarrow> string \<Rightarrow> bool \<times> nat" where
  "char_rest 0 lo hi cs = (True, 0)"
| "char_rest (Suc n) lo hi [] = (False, 0)"
| "char_rest (Suc n) lo hi (c # cs) =
    (if lo \<le> of_char c \<and> of_char c \<le> hi then apsnd Suc (char_rest n 128 191 cs) else (False, 0))"

text \<open>\<open>String::from_utf8_lossy\<close>: what is cut off or wrong becomes one replacement character.\<close>

definition replacement :: string where
  "replacement = map char_of [0xEF, 0xBF, 0xBD :: nat]"

function from_utf8_lossy :: "string \<Rightarrow> string" where
  "from_utf8_lossy [] = []"
| "from_utf8_lossy (c # cs) =
    (let (ok, n) = (case char_start (of_char c) of Some (k, lo, hi) \<Rightarrow> char_rest k lo hi cs | None \<Rightarrow> (False, 0))
     in (if ok then c # take n cs else replacement) @ from_utf8_lossy (drop n cs))"
  by pat_completeness auto
termination by (relation "measure length") auto

lemma char_rest_valid:
  "utf8_follow n lo hi cs \<Longrightarrow> fst (char_rest n lo hi cs) \<and> utf8_valid (drop (snd (char_rest n lo hi cs)) cs)"
proof (induction n lo hi cs rule: char_rest.induct)
  case (1 lo hi cs)
  have "utf8_follow 0 lo hi cs = utf8_follow 0 lo' hi' cs" for lo' hi'
    by (induction cs arbitrary: lo hi lo' hi') (simp_all add: Let_def)
  with 1 show ?case by simp
qed (auto split: if_splits)

lemma from_utf8_lossy_valid: "utf8_valid s \<Longrightarrow> from_utf8_lossy s = s"
proof (induction s rule: from_utf8_lossy.induct)
  case (2 c cs)
  then obtain k lo hi where k: "char_start (of_char c) = Some (k, lo, hi)" "utf8_follow k lo hi cs"
    by (auto simp: char_start_def Let_def split: if_splits)
  obtain ok n where n: "char_rest k lo hi cs = (ok, n)" by fastforce
  have "ok" "utf8_valid (drop n cs)" using char_rest_valid [OF k(2)] n by simp_all
  then show ?case using 2(1) [of "(ok, n)" ok n] k(1) n by simp
qed simp

text \<open>
  A stream: the bytes that come, and whether reading on fails then (or finds the end). \<open>read_line\<close>
  gives the line with its end, or \<open>None\<close> for an error.
\<close>

record stream =
  st_data :: string
  st_fails :: bool

abbreviation newline :: char where "newline \<equiv> CHR 0x0A"

definition read_line :: "stream \<Rightarrow> (string \<times> stream) option" where
  "read_line rd =
    (let line = takeWhile (\<lambda>c. c \<noteq> newline) (st_data rd);
         rest = dropWhile (\<lambda>c. c \<noteq> newline) (st_data rd);
         line = (if rest = [] then line else line @ [newline])
     in if rest = [] \<and> st_fails rd \<or> \<not> utf8_valid line then None
        else Some (line, rd\<lparr>st_data := tl rest\<rparr>))"

text \<open>\<open>splitn(2, c)\<close>, whose second part is missing without the separator, and \<open>split(c)\<close>.\<close>

definition split_once :: "char \<Rightarrow> string \<Rightarrow> (string \<times> string) option" where
  "split_once sep s =
    (if sep \<in> set s then Some (takeWhile (\<lambda>c. c \<noteq> sep) s, tl (dropWhile (\<lambda>c. c \<noteq> sep) s)) else None)"

fun split_all :: "char \<Rightarrow> string \<Rightarrow> string list" where
  "split_all sep [] = [[]]"
| "split_all sep (c # cs) =
    (if c = sep then [] # split_all sep cs
     else case split_all sep cs of p # ps \<Rightarrow> (c # p) # ps | [] \<Rightarrow> [[c]])"

section \<open>Addresses\<close>

text \<open>The parser of \<open>std::net\<close>: a number, with a limit to its digits and perhaps no leading zero.\<close>

definition read_number :: "nat \<Rightarrow> nat option \<Rightarrow> bool \<Rightarrow> nat \<Rightarrow> string \<Rightarrow> (nat \<times> string) option" where
  "read_number radix max_digits zero_prefix bound cs =
    (let ds = takeWhile (is_digit radix) cs; v = digits_value radix ds
     in if ds = [] \<or> (case max_digits of Some m \<Rightarrow> m < length ds | None \<Rightarrow> False) \<or>
           (\<not> zero_prefix \<and> hd ds = CHR ''0'' \<and> 1 < length ds) \<or> bound \<le> v
        then None else Some (v, dropWhile (is_digit radix) cs))"

definition read_char :: "char \<Rightarrow> string \<Rightarrow> string option" where
  "read_char c cs = (case cs of x # xs \<Rightarrow> if x = c then Some xs else None | [] \<Rightarrow> None)"

abbreviation read_octet :: "string \<Rightarrow> (nat \<times> string) option" where
  "read_octet \<equiv> read_number 10 (Some 3) False 256"

definition read_ipv4 :: "string \<Rightarrow> (bytes \<times> string) option" where
  "read_ipv4 cs =
    do {
      (a, cs) \<leftarrow> read_octet cs;
      cs \<leftarrow> read_char (CHR ''.'') cs;
      (b, cs) \<leftarrow> read_octet cs;
      cs \<leftarrow> read_char (CHR ''.'') cs;
      (c, cs) \<leftarrow> read_octet cs;
      cs \<leftarrow> read_char (CHR ''.'') cs;
      (d, cs) \<leftarrow> read_octet cs;
      Some (map word_of_nat [a, b, c, d], cs)
    }"

definition read_separator :: "bool \<Rightarrow> string \<Rightarrow> string option" where
  "read_separator first cs = (if first then Some cs else read_char (CHR '':'') cs)"

text \<open>\<open>read_groups\<close> with room for \<open>n\<close> groups: the groups, and whether the last two were written as IPv4.\<close>

fun read_groups :: "nat \<Rightarrow> bool \<Rightarrow> string \<Rightarrow> nat list \<times> bool \<times> string" where
  "read_groups 0 first cs = ([], False, cs)"
| "read_groups (Suc n) first cs =
    (case (if n > 0 then read_separator first cs \<bind> read_ipv4 else None) of
       Some (a, cs') \<Rightarrow> ([be_val (take 2 a), be_val (drop 2 a)], True, cs')
     | None \<Rightarrow>
         (case read_separator first cs \<bind> read_number 16 (Some 4) True 65536 of
            None \<Rightarrow> ([], False, cs)
          | Some (g, cs') \<Rightarrow> (let (gs, v4, cs'') = read_groups n False cs' in (g # gs, v4, cs''))))"

definition bytes_of_groups :: "nat list \<Rightarrow> bytes" where
  "bytes_of_groups gs = concat (map (be_bytes 2) gs)"

definition read_ipv6 :: "string \<Rightarrow> (bytes \<times> string) option" where
  "read_ipv6 cs =
    (let (head, v4, cs1) = read_groups 8 True cs
     in if length head = 8 then Some (bytes_of_groups head, cs1)
        else if v4 then None
        else do {
          cs2 \<leftarrow> read_char (CHR '':'') cs1;
          cs3 \<leftarrow> read_char (CHR '':'') cs2;
          let (tail, _, cs4) = read_groups (8 - (length head + 1)) True cs3;
          Some (bytes_of_groups (head @ replicate (8 - length head - length tail) 0 @ tail), cs4)
        })"

definition read_ip :: "string \<Rightarrow> (ip_addr \<times> string) option" where
  "read_ip cs =
    (case read_ipv4 cs of
       Some (a, cs') \<Rightarrow> Some (V4 a, cs')
     | None \<Rightarrow> map_option (\<lambda>(a, cs'). (V6 a, cs')) (read_ipv6 cs))"

definition read_port :: "string \<Rightarrow> (u16 \<times> string) option" where
  "read_port cs =
    do {
      cs \<leftarrow> read_char (CHR '':'') cs;
      (p, cs) \<leftarrow> read_number 10 None True 65536 cs;
      Some (word_of_nat p, cs)
    }"

definition read_scope :: "string \<Rightarrow> (u32 \<times> string) option" where
  "read_scope cs =
    do {
      cs \<leftarrow> read_char (CHR ''%'') cs;
      (p, cs) \<leftarrow> read_number 10 None True (2 ^ 32) cs;
      Some (word_of_nat p, cs)
    }"

definition read_sock_v4 :: "string \<Rightarrow> (sock_addr \<times> string) option" where
  "read_sock_v4 cs = do { (a, cs) \<leftarrow> read_ipv4 cs; (p, cs) \<leftarrow> read_port cs; Some (SockV4 a p, cs) }"

definition read_sock_v6 :: "string \<Rightarrow> (sock_addr \<times> string) option" where
  "read_sock_v6 cs =
    do {
      cs \<leftarrow> read_char (CHR ''['') cs;
      (a, cs) \<leftarrow> read_ipv6 cs;
      let (scope, cs) = (case read_scope cs of Some r \<Rightarrow> r | None \<Rightarrow> (0, cs));
      cs \<leftarrow> read_char (CHR '']'') cs;
      (p, cs) \<leftarrow> read_port cs;
      Some (SockV6 a p 0 scope, cs)
    }"

definition read_sock :: "string \<Rightarrow> (sock_addr \<times> string) option" where
  "read_sock cs = (case read_sock_v4 cs of Some r \<Rightarrow> Some r | None \<Rightarrow> read_sock_v6 cs)"

text \<open>\<open>parse\<close>: the whole text has to be read.\<close>

definition parse_with :: "(string \<Rightarrow> ('a \<times> string) option) \<Rightarrow> string \<Rightarrow> 'a option" where
  "parse_with scan s = (case scan s of Some (x, []) \<Rightarrow> Some x | _ \<Rightarrow> None)"

section \<open>Printing addresses\<close>

fun join :: "string \<Rightarrow> string list \<Rightarrow> string" where
  "join sep [] = []"
| "join sep [p] = p"
| "join sep (p # ps) = p @ sep @ join sep ps"

definition show_ipv4 :: "bytes \<Rightarrow> string" where
  "show_ipv4 a = join ''.'' (map (show_nat \<circ> unat) a)"

definition show_groups :: "nat list \<Rightarrow> string" where
  "show_groups gs = join '':'' (map (show_radix 16) gs)"

fun groups_of_bytes :: "bytes \<Rightarrow> nat list" where
  "groups_of_bytes (a # b # bs) = be_val [a, b] # groups_of_bytes bs"
| "groups_of_bytes _ = []"

text \<open>
  The longest run of zero groups, the first of them if there are several: the loop at position \<open>i\<close>,
  with the current and the longest run so far as start and length.
\<close>

fun zero_run :: "nat \<Rightarrow> nat \<times> nat \<Rightarrow> nat \<times> nat \<Rightarrow> nat list \<Rightarrow> nat \<times> nat" where
  "zero_run i cur longest [] = longest"
| "zero_run i cur longest (g # gs) =
    (if g = 0 then
       (let cur' = (if snd cur = 0 then i else fst cur, snd cur + 1)
        in zero_run (Suc i) cur' (if snd longest < snd cur' then cur' else longest) gs)
     else zero_run (Suc i) (0, 0) longest gs)"

definition show_ipv6 :: "bytes \<Rightarrow> string" where
  "show_ipv6 a =
    (let gs = groups_of_bytes a; (start, len) = zero_run 0 (0, 0) (0, 0) gs
     in if take 12 a = replicate 10 0 @ [0xff, 0xff] then ''::ffff:'' @ show_ipv4 (drop 12 a)
        else if len > 1 then show_groups (take start gs) @ ''::'' @ show_groups (drop (start + len) gs)
        else show_groups gs)"

fun show_ip :: "ip_addr \<Rightarrow> string" where
  "show_ip (V4 a) = show_ipv4 a"
| "show_ip (V6 a) = show_ipv6 a"

fun show_sock :: "sock_addr \<Rightarrow> string" where
  "show_sock (SockV4 a p) = show_ipv4 a @ '':'' @ show_nat (unat p)"
| "show_sock (SockV6 a p flow scope) =
    ''['' @ show_ipv6 a @ (if scope = 0 then '''' else ''%'' @ show_nat (unat scope)) @ '']:'' @ show_nat (unat p)"

text \<open>\<open>{:02x}\<close> of a byte.\<close>

definition hex_byte :: "u8 \<Rightarrow> string" where
  "hex_byte b = [from_digit (unat b div 16), from_digit (unat b mod 16)]"

end
