(* ===== verification/Text_Codecs.thy ===== *)
theory Text_Codecs
  imports Std_Text
begin

text \<open>
  Reading undoes printing. The locale \<open>text_codec\<close> states the law for a reader and a printer of the
  values that satisfy \<open>ok\<close>, whatever follows as long as it satisfies \<open>stop\<close>; numbers, addresses and
  socket addresses are its interpretations.
\<close>

section \<open>The interface\<close>

locale text_codec =
  fixes scan :: "string \<Rightarrow> ('a \<times> string) option"
    and show_text :: "'a \<Rightarrow> string"
    and ok :: "'a \<Rightarrow> bool"
    and stop :: "string \<Rightarrow> bool"
  assumes scan_show: "ok x \<Longrightarrow> stop rest \<Longrightarrow> scan (show_text x @ rest) = Some (x, rest)"
    and stop_end: "stop []"
begin

lemma parse_show: "ok x \<Longrightarrow> parse_with scan (show_text x) = Some x"
  using scan_show [OF _ stop_end] by (simp add: parse_with_def)

lemma show_inject: "ok x \<Longrightarrow> ok y \<Longrightarrow> show_text x = show_text y \<Longrightarrow> x = y"
  by (metis parse_show option.inject)

end

section \<open>Numbers\<close>

definition stops :: "nat \<Rightarrow> string \<Rightarrow> bool" where
  "stops radix rest \<longleftrightarrow> (case rest of [] \<Rightarrow> True | c # _ \<Rightarrow> \<not> is_digit radix c)"

lemma stops_simps [simp]: "stops r []" "stops r (c # cs) \<longleftrightarrow> \<not> is_digit r c"
  by (simp_all add: stops_def)

lemma to_digit_from_digit: "v < radix \<Longrightarrow> radix \<le> 36 \<Longrightarrow> to_digit radix (from_digit v) = Some v"
  by (simp add: to_digit_def from_digit_def Let_def of_char_of)

lemma is_digit_from_digit [simp]: "v < radix \<Longrightarrow> radix \<le> 36 \<Longrightarrow> is_digit radix (from_digit v)"
  by (simp add: is_digit_def to_digit_from_digit)

lemma digits_value_snoc: "digits_value r (cs @ [c]) = digits_value r cs * r + the (to_digit r c)"
  by (simp add: digits_value_def)

lemma show_radix_digits:
  assumes "2 \<le> r" and "r \<le> 36"
  shows "list_all (is_digit r) (show_radix r n) \<and> show_radix r n \<noteq> [] \<and> digits_value r (show_radix r n) = n"
proof (induction n rule: less_induct)
  case (less n)
  show ?case
  proof (cases "n < r")
    case True
    then show ?thesis using assms
      by (simp add: show_radix.simps [of r n] to_digit_from_digit digits_value_def)
  next
    case False
    then have "n div r < n" using assms by simp
    from less [OF this] show ?thesis using assms False
      by (simp add: show_radix.simps [of r n] to_digit_from_digit digits_value_snoc)
  qed
qed

lemma show_radix_length: "2 \<le> r \<Longrightarrow> n < r ^ Suc k \<Longrightarrow> length (show_radix r n) \<le> Suc k"
proof (induction k arbitrary: n)
  case (Suc k)
  show ?case
  proof (cases "n < r")
    case False
    have "n div r < r ^ Suc k" using Suc.prems by (simp add: less_mult_imp_div_less mult.commute)
    then show ?thesis using Suc False by (simp add: show_radix.simps [of r n])
  qed (simp add: show_radix.simps [of r n])
next
  case 0
  then show ?case by (simp add: show_radix.simps [of r n])
qed

lemma show_radix_leading_zero:
  assumes "2 \<le> r" and "r \<le> 36" and "hd (show_radix r n) = CHR ''0''"
  shows "length (show_radix r n) = 1"
  using assms(3)
proof (induction n rule: less_induct)
  case (less n)
  show ?case
  proof (cases "n < r")
    case False
    have pos: "n div r > 0" "n div r < n" using False assms by (simp_all add: div_greater_zero_iff)
    have "hd (show_radix r (n div r)) = CHR ''0''"
      using less.prems False assms show_radix_digits [of r "n div r"] by (simp add: show_radix.simps [of r n])
    from less.IH [OF pos(2) this] obtain c where c: "show_radix r (n div r) = [c]" by (cases "show_radix r (n div r)") auto
    then have "c = CHR ''0''" using \<open>hd (show_radix r (n div r)) = CHR ''0''\<close> by simp
    then have "digits_value r (show_radix r (n div r)) = 0" using assms
      by (simp add: c digits_value_def to_digit_def)
    then show ?thesis using show_radix_digits [of r "n div r"] assms pos by simp
  qed (simp add: show_radix.simps [of r n])
qed

lemma read_number_show:
  assumes "2 \<le> r" "r \<le> 36" "n < bound" "stops r rest"
    and "case max_digits of Some m \<Rightarrow> 0 < m \<and> n < r ^ m | None \<Rightarrow> True"
  shows "read_number r max_digits zp bound (show_radix r n @ rest) = Some (n, rest)"
proof -
  note d = show_radix_digits [OF assms(1,2), of n]
  have stop: "takeWhile (is_digit r) rest = []" "dropWhile (is_digit r) rest = rest"
    using assms(4) by (cases rest; simp)+
  have all: "\<And>c. c \<in> set (show_radix r n) \<Longrightarrow> is_digit r c" using d by (simp add: list_all_iff)
  have tw: "takeWhile (is_digit r) (show_radix r n @ rest) = show_radix r n"
    "dropWhile (is_digit r) (show_radix r n @ rest) = rest"
    using all stop by (simp_all add: takeWhile_append2 dropWhile_append2)
  have "length (show_radix r n) \<le> m" if "max_digits = Some m" for m
    using assms(5) that show_radix_length [OF assms(1), of n "m - 1"] by simp
  moreover have "\<not> (hd (show_radix r n) = CHR ''0'' \<and> 1 < length (show_radix r n))"
    using show_radix_leading_zero [OF assms(1,2)] by auto
  ultimately show ?thesis using d assms(3)
    by (auto simp: read_number_def tw Let_def not_less split: option.splits)
qed

interpretation octet: text_codec "read_octet" show_nat "\<lambda>n. n < 256" "stops 10"
  by unfold_locales (simp_all add: read_number_show)

interpretation group: text_codec "read_number 16 (Some 4) True 65536" "show_radix 16" "\<lambda>n. n < 65536" "stops 16"
  by unfold_locales (simp_all add: read_number_show)

interpretation dec16: text_codec "read_number 10 None True 65536" show_nat "\<lambda>n. n < 65536" "stops 10"
  by unfold_locales (simp_all add: read_number_show)

interpretation dec32: text_codec "read_number 10 None True (2 ^ 32)" show_nat "\<lambda>n. n < 2 ^ 32" "stops 10"
  by unfold_locales (rule read_number_show, simp_all)

text \<open>\<open>from_str_radix\<close> reads the same texts, since no digit is a plus sign.\<close>

lemma from_str_radix_show:
  assumes "2 \<le> r" "r \<le> 36" "n < bound"
  shows "from_str_radix r bound (show_radix r n) = Some n"
proof -
  note d = show_radix_digits [OF assms(1,2), of n]
  then obtain c cs where c: "show_radix r n = c # cs" by (cases "show_radix r n") auto
  have "\<not> is_digit r (CHR ''+'')" using assms(2) by (simp add: is_digit_def to_digit_def)
  then have "c \<noteq> CHR ''+''" using d c by auto
  then show ?thesis using d assms(3) c by (simp add: from_str_radix_def)
qed

lemma parse_unsigned_show: "parse_unsigned (show_nat (unat w)) = Some w" for w :: "'a::len word"
  by (simp add: parse_unsigned_def from_str_radix_show unsigned_less)

section \<open>IPv4\<close>

lemma read_char_hit [simp]: "read_char c (c # cs) = Some cs"
  by (simp add: read_char_def)

lemma read_char_miss: "cs = [] \<or> hd cs \<noteq> c \<Longrightarrow> read_char c cs = None"
  by (cases cs) (auto simp: read_char_def)

lemma not_digit [simp]:
  "\<not> is_digit 10 (CHR ''.'')" "\<not> is_digit 10 (CHR '':'')" "\<not> is_digit 16 (CHR '':'')" "\<not> is_digit 16 (CHR ''.'')"
  "\<not> is_digit 16 (CHR ''/'')" "\<not> is_digit 16 (CHR '']'')" "\<not> is_digit 16 (CHR ''%'')" "\<not> is_digit 10 (CHR '']'')"
  "\<not> is_digit 10 (CHR ''/'')"
  by (simp_all add: is_digit_def to_digit_def)

interpretation ip4: text_codec read_ipv4 show_ipv4 "\<lambda>a. length a = 4" "stops 10"
proof
  fix a :: bytes and rest
  assume len: "length a = 4" and stop: "stops 10 rest"
  then obtain w x y z where a: "a = [w, x, y, z]" by (auto simp: numeral_eq_Suc length_Suc_conv)
  show "read_ipv4 (show_ipv4 a @ rest) = Some (a, rest)"
    using stop by (simp add: a show_ipv4_def read_ipv4_def octet.scan_show)
qed simp

text \<open>A text in which no dot follows the first digits is no IPv4 address.\<close>

definition no_dot :: "string \<Rightarrow> bool" where
  "no_dot cs \<longleftrightarrow> read_char (CHR ''.'') (dropWhile (is_digit 10) cs) = None"

lemma read_ipv4_no_dot: "no_dot cs \<Longrightarrow> read_ipv4 cs = None"
  by (auto simp: no_dot_def read_ipv4_def read_number_def Let_def split: bind_split)

lemma decimal_is_hex: "is_digit 10 c \<Longrightarrow> is_digit 16 c"
  by (auto simp: is_digit_def to_digit_def Let_def split: if_splits)

lemma hex_no_dot: "list_all (is_digit 16) ds \<Longrightarrow> stops 16 rest \<Longrightarrow> rest = [] \<or> hd rest \<noteq> CHR ''.'' \<Longrightarrow> no_dot (ds @ rest)"
proof (induction ds)
  case Nil
  have "dropWhile (is_digit 10) rest = rest" using Nil(2) by (cases rest) (auto dest: decimal_is_hex)
  then show ?case using Nil(3) by (simp add: no_dot_def read_char_miss)
next
  case (Cons d ds)
  then show ?case by (cases "is_digit 10 d") (auto simp: no_dot_def read_char_def)
qed

section \<open>IPv6\<close>

text \<open>What ends the groups: neither a digit nor a dot, and no digit after a colon.\<close>

definition quiet :: "string \<Rightarrow> bool" where
  "quiet cs \<longleftrightarrow> stops 16 cs \<and> (cs = [] \<or> hd cs \<noteq> CHR ''.'') \<and> (cs \<noteq> [] \<and> hd cs = CHR '':'' \<longrightarrow> stops 16 (tl cs) \<and>
    (tl cs = [] \<or> hd (tl cs) \<noteq> CHR ''.''))"

lemma quiet_simps [simp]:
  "quiet []" "quiet (CHR '':'' # CHR '':'' # cs)" "quiet (CHR '']'' # cs)" "quiet (CHR ''%'' # cs)" "quiet (CHR ''/'' # cs)"
  by (simp_all add: quiet_def)

lemma stops_read_number: "stops r cs \<Longrightarrow> read_number r m z b cs = None"
  by (cases cs) (simp_all add: read_number_def)

lemma quiet_no_group:
  assumes "quiet rest"
  shows "read_separator first rest \<bind> read_ipv4 = None" "read_separator first rest \<bind> read_number 16 m z b = None"
proof -
  have "no_dot cs" if "stops 16 cs" "cs = [] \<or> hd cs \<noteq> CHR ''.''" for cs using hex_no_dot [of "[]" cs] that by simp
  then show "read_separator first rest \<bind> read_ipv4 = None" "read_separator first rest \<bind> read_number 16 m z b = None"
    using assms by (cases rest; auto simp: quiet_def read_separator_def read_char_def read_ipv4_no_dot stops_read_number)+
qed

definition group_text :: "bool \<Rightarrow> nat list \<Rightarrow> string" where
  "group_text first gs = (if first \<or> gs = [] then show_groups gs else CHR '':'' # show_groups gs)"

lemma show_groups_Cons: "show_groups (g # gs) = show_radix 16 g @ group_text False gs"
  by (cases gs) (simp_all add: show_groups_def group_text_def)

lemma read_groups_show:
  assumes "\<forall>g\<in>set gs. g < 65536" and "length gs \<le> n" and "quiet rest"
  shows "read_groups n first (group_text first gs @ rest) = (gs, False, rest)"
  using assms
proof (induction gs arbitrary: n first)
  case Nil
  then show ?case by (cases n) (simp_all add: group_text_def show_groups_def quiet_no_group)
next
  case (Cons g gs)
  obtain m where n: "n = Suc m" using Cons.prems(2) by (cases n) auto
  let ?rest = "group_text False gs @ rest"
  have sep: "read_separator first (group_text first (g # gs) @ rest) = Some (show_radix 16 g @ ?rest)"
    by (simp add: read_separator_def group_text_def [of first] show_groups_Cons)
  have q: "stops 16 ?rest" "?rest = [] \<or> hd ?rest \<noteq> CHR ''.''"
    using Cons.prems(3) by (auto simp: group_text_def show_groups_def quiet_def)
  have "list_all (is_digit 16) (show_radix 16 g)" using show_radix_digits [of 16 g] by simp
  from read_ipv4_no_dot [OF hex_no_dot [OF this q]]
  have "read_ipv4 (show_radix 16 g @ ?rest) = None" .
  moreover have "read_number 16 (Some 4) True 65536 (show_radix 16 g @ ?rest) = Some (g, ?rest)"
    by (rule group.scan_show) (use Cons.prems q in auto)
  ultimately have "read_groups (Suc m) first (group_text first (g # gs) @ rest) =
      (let (gs, v4, cs) = read_groups m False ?rest in (g # gs, v4, cs))"
    by (simp add: sep)
  moreover have "read_groups m False ?rest = (gs, False, rest)" using Cons n by simp
  ultimately show ?case by (simp only: n) simp
qed

lemma groups_of_bytes_facts:
  "length bs = 2 * k \<Longrightarrow> length (groups_of_bytes bs) = k \<and> (\<forall>g\<in>set (groups_of_bytes bs). g < 65536) \<and>
    bytes_of_groups (groups_of_bytes bs) = bs"
proof (induction bs arbitrary: k rule: groups_of_bytes.induct)
  case (1 a b bs)
  obtain j where k: "k = Suc j" using 1(2) by (cases k) auto
  have "be_bytes 2 (be_val [a, b]) = [a, b]"
    using le_bytes_le_val [of "[b, a]"] by (simp add: be_bytes_def be_val_def numeral_2_eq_2)
  then show ?case using 1 k be_val_less [of "[a, b]"] by (simp add: bytes_of_groups_def)
qed (auto simp: bytes_of_groups_def)

definition zeros_at :: "nat list \<Rightarrow> nat \<times> nat \<Rightarrow> bool" where
  "zeros_at gs r \<longleftrightarrow> fst r + snd r \<le> length gs \<and> (\<forall>k < snd r. gs ! (fst r + k) = 0)"

lemma zero_run_zeros:
  assumes "zeros_at pre longest" and "zeros_at pre cur" and "snd cur \<noteq> 0 \<longrightarrow> fst cur + snd cur = length pre"
  shows "zeros_at (pre @ gs) (zero_run (length pre) cur longest gs)"
  using assms
proof (induction gs arbitrary: pre cur longest)
  case (Cons g gs)
  have keep: "zeros_at (pre @ [g]) r" if "zeros_at pre r" for r using that by (auto simp: zeros_at_def nth_append)
  show ?case
  proof (cases "g = 0")
    case True
    obtain cur' where cur': "cur' = (if snd cur = 0 then length pre else fst cur, snd cur + 1)" by blast
    have z: "zeros_at (pre @ [g]) cur'" "fst cur' + snd cur' = length (pre @ [g])"
      using Cons.prems True by (auto simp: cur' zeros_at_def nth_append less_Suc_eq)
    have l: "zeros_at (pre @ [g]) (if snd longest < snd cur' then cur' else longest)"
      using keep Cons.prems z by simp
    have "zero_run (length pre) cur longest (g # gs) =
        zero_run (length (pre @ [g])) cur' (if snd longest < snd cur' then cur' else longest) gs"
      using True cur' by (simp add: Let_def)
    then show ?thesis using Cons.IH [OF l z(1)] z(2) by simp
  next
    case False
    from Cons.IH [OF keep [OF Cons.prems(1)], of "(0, 0)"] False show ?thesis by (simp add: zeros_at_def)
  qed
qed simp

lemma no_dot_groups: "\<forall>g\<in>set gs. g < 65536 \<Longrightarrow> gs \<noteq> [] \<Longrightarrow> quiet rest \<Longrightarrow> no_dot (show_groups gs @ rest)"
proof (cases gs)
  case (Cons g gs')
  assume q: "quiet rest"
  have "list_all (is_digit 16) (show_radix 16 g)" using show_radix_digits [of 16 g] by simp
  moreover have "stops 16 (group_text False gs' @ rest)" "group_text False gs' @ rest = [] \<or> hd (group_text False gs' @ rest) \<noteq> CHR ''.''"
    using q by (auto simp: group_text_def show_groups_def quiet_def)
  ultimately show ?thesis by (simp add: Cons show_groups_Cons hex_no_dot)
qed simp

lemma no_dot_colon [simp]: "no_dot (CHR '':'' # cs)"
  by (simp add: no_dot_def read_char_def)

text \<open>The three forms of an IPv6 address.\<close>

lemma read_ipv6_compressed:
  assumes "\<forall>g\<in>set (hs @ ts). g < 65536" and "length hs + length ts \<le> 7" and "quiet rest"
  shows "read_ipv6 (show_groups hs @ ''::'' @ show_groups ts @ rest) =
    Some (bytes_of_groups (hs @ replicate (8 - length hs - length ts) 0 @ ts), rest)"
proof -
  have "read_groups 8 True (group_text True hs @ ''::'' @ show_groups ts @ rest) = (hs, False, ''::'' @ show_groups ts @ rest)"
    by (rule read_groups_show) (use assms in auto)
  moreover have "read_groups (8 - (length hs + 1)) True (group_text True ts @ rest) = (ts, False, rest)"
    by (rule read_groups_show) (use assms in auto)
  ultimately show ?thesis using assms(2) by (simp add: read_ipv6_def group_text_def)
qed

lemma read_ipv6_full:
  assumes "\<forall>g\<in>set gs. g < 65536" and "length gs = 8" and "quiet rest"
  shows "read_ipv6 (show_groups gs @ rest) = Some (bytes_of_groups gs, rest)"
  using read_groups_show [OF assms(1) _ assms(3), of 8 True] assms(2) by (simp add: read_ipv6_def group_text_def)

lemma bytes_of_groups_append: "bytes_of_groups (gs @ hs) = bytes_of_groups gs @ bytes_of_groups hs"
  by (simp add: bytes_of_groups_def)

lemma bytes_of_zeros: "bytes_of_groups (replicate n 0) = replicate (2 * n) 0"
  by (induction n) (simp_all add: bytes_of_groups_def be_bytes_def numeral_2_eq_2)

lemma bytes_of_quad: "length a = 4 \<Longrightarrow> bytes_of_groups [be_val (take 2 a), be_val (drop 2 a)] = a"
  using groups_of_bytes_facts [of a 2] by (cases a rule: groups_of_bytes.cases; cases "drop 2 a" rule: groups_of_bytes.cases) auto

lemma bytes_of_ffff: "bytes_of_groups [65535] = [0xff, 0xff]"
  by (simp add: bytes_of_groups_def be_bytes_def numeral_2_eq_2)

lemma read_ipv6_mapped:
  assumes "length a = 4" and "stops 10 rest"
  shows "read_ipv6 (''::ffff:'' @ show_ipv4 a @ rest) = Some (replicate 10 0 @ [0xff, 0xff] @ a, rest)"
proof -
  have "read_groups 8 True (group_text True [] @ ''::ffff:'' @ show_ipv4 a @ rest) = ([], False, ''::ffff:'' @ show_ipv4 a @ rest)"
    by (rule read_groups_show) auto
  then have head: "read_groups 8 True (''::ffff:'' @ show_ipv4 a @ rest) = ([], False, ''::ffff:'' @ show_ipv4 a @ rest)"
    by (simp add: group_text_def show_groups_def)
  have f: "show_radix 16 65535 = ''ffff''" by (simp add: show_radix.simps from_digit_def char_of_def bit_0)
  have no: "read_ipv4 (''ffff:'' @ show_ipv4 a @ rest) = None"
  proof (rule read_ipv4_no_dot)
    have "no_dot (''ffff'' @ CHR '':'' # show_ipv4 a @ rest)"
      by (rule hex_no_dot) (simp_all add: is_digit_def to_digit_def)
    then show "no_dot (''ffff:'' @ show_ipv4 a @ rest)" by simp
  qed
  have num: "read_number 16 (Some 4) True 65536 (''ffff:'' @ show_ipv4 a @ rest) = Some (65535, CHR '':'' # show_ipv4 a @ rest)"
    using group.scan_show [of 65535 "CHR '':'' # show_ipv4 a @ rest"] by (simp add: f)
  have "read_groups (Suc (Suc (Suc n))) True (''ffff:'' @ show_ipv4 a @ rest) = ([65535, be_val (take 2 a), be_val (drop 2 a)], True, rest)" for n
    using no num ip4.scan_show [OF assms] by (simp add: read_separator_def)
  from this [of 4] have "read_groups (Suc (Suc (Suc 4))) True (''ffff:'' @ show_ipv4 a @ rest) =
      ([65535, be_val (take 2 a), be_val (drop 2 a)], True, rest)" .
  moreover have "read_groups (8 - (length ([] :: nat list) + 1)) = read_groups (Suc (Suc (Suc 4)))" by simp
  ultimately have "read_ipv6 (''::ffff:'' @ show_ipv4 a @ rest) =
      Some (bytes_of_groups (replicate 5 0 @ [65535, be_val (take 2 a), be_val (drop 2 a)]), rest)"
    using head by (simp add: read_ipv6_def)
  moreover have "bytes_of_groups (replicate 5 0 @ [65535] @ [be_val (take 2 a), be_val (drop 2 a)]) = replicate 10 0 @ [0xff, 0xff] @ a"
    by (simp only: bytes_of_groups_append bytes_of_zeros bytes_of_ffff bytes_of_quad [OF assms(1)]) simp
  ultimately show ?thesis by simp
qed

lemma show_ipv6_forms:
  assumes "length a = 16"
  obtains
    (mapped) b where "length b = 4" "a = replicate 10 0 @ [0xff, 0xff] @ b" "show_ipv6 a = ''::ffff:'' @ show_ipv4 b"
  | (compressed) hs ts where "\<forall>g\<in>set (hs @ ts). g < 65536" "length hs + length ts \<le> 6"
      "a = bytes_of_groups (hs @ replicate (8 - length hs - length ts) 0 @ ts)" "show_ipv6 a = show_groups hs @ ''::'' @ show_groups ts"
  | (full) gs where "\<forall>g\<in>set gs. g < 65536" "length gs = 8" "a = bytes_of_groups gs" "show_ipv6 a = show_groups gs"
proof -
  obtain gs where gs: "gs = groups_of_bytes a" by blast
  note f = groups_of_bytes_facts [of a 8]
  obtain start len where run: "zero_run 0 (0, 0) (0, 0) gs = (start, len)" by fastforce
  have z: "zeros_at gs (start, len)" using zero_run_zeros [of "[]" "(0, 0)" "(0, 0)" gs] run by (simp add: zeros_at_def)
  show thesis
  proof (cases "take 12 a = replicate 10 0 @ [0xff, 0xff]")
    case True
    have "a = replicate 10 0 @ [0xff, 0xff] @ drop 12 a" using append_take_drop_id [of 12 a] True by simp
    moreover have "show_ipv6 a = ''::ffff:'' @ show_ipv4 (drop 12 a)" using True by (simp add: show_ipv6_def Let_def split: prod.split)
    moreover have "length (drop 12 a) = 4" using assms by simp
    ultimately show thesis by (intro mapped [of "drop 12 a"])
  next
    case not_mapped: False
    show thesis
    proof (cases "len > 1")
      case True
      let ?hs = "take start gs" and ?ts = "drop (start + len) gs"
      have b: "start + len \<le> 8" using z f assms gs by (simp add: zeros_at_def)
      have "drop start gs = take len (drop start gs) @ ?ts" by (metis add.commute append_take_drop_id drop_drop)
      moreover have "take len (drop start gs) = replicate len 0"
        by (rule nth_equalityI) (use z f assms gs in \<open>auto simp: zeros_at_def\<close>)
      ultimately have "gs = ?hs @ replicate len 0 @ ?ts" by (metis append_take_drop_id)
      moreover have "8 - length ?hs - length ?ts = len" using b f assms gs by simp
      ultimately have "a = bytes_of_groups (?hs @ replicate (8 - length ?hs - length ?ts) 0 @ ?ts)" using f assms gs by simp
      moreover have "show_ipv6 a = show_groups ?hs @ ''::'' @ show_groups ?ts"
        using run not_mapped True gs by (simp add: show_ipv6_def Let_def)
      moreover have "\<forall>g\<in>set (?hs @ ?ts). g < 65536" using f assms gs by (auto dest: in_set_takeD in_set_dropD)
      moreover have "length ?hs + length ?ts \<le> 6" using b True f assms gs by simp
      ultimately show thesis by (intro compressed)
    next
      case False
      then have "show_ipv6 a = show_groups gs" using run not_mapped gs by (simp add: show_ipv6_def Let_def)
      then show thesis using f assms gs by (intro full) auto
    qed
  qed
qed

interpretation ip6: text_codec read_ipv6 show_ipv6 "\<lambda>a. length a = 16" quiet
proof
  fix a :: bytes and rest
  assume "length a = 16" and q: "quiet rest"
  then show "read_ipv6 (show_ipv6 a @ rest) = Some (a, rest)"
  proof (cases a rule: show_ipv6_forms)
    case (mapped b)
    have "stops 10 rest" using q by (cases rest) (auto simp: quiet_def dest: decimal_is_hex)
    then show ?thesis using read_ipv6_mapped [OF mapped(1)] mapped(2,3) by simp
  next
    case (compressed hs ts)
    then show ?thesis using read_ipv6_compressed [OF compressed(1) _ q] by simp
  next
    case (full gs)
    then show ?thesis using read_ipv6_full [OF full(1,2) q] by simp
  qed
qed simp

lemma show_ipv6_no_dot:
  assumes "length a = 16" and "quiet rest"
  shows "no_dot (show_ipv6 a @ rest)"
  using assms(1)
proof (cases a rule: show_ipv6_forms)
  case (compressed hs ts)
  then show ?thesis using no_dot_groups [of hs "''::'' @ show_groups ts @ rest"]
    by (cases "hs = []") (simp_all add: show_groups_def)
next
  case (full gs)
  then have "gs \<noteq> []" by auto
  then show ?thesis using no_dot_groups [of gs rest] full assms(2) by simp
qed simp

section \<open>Addresses and socket addresses\<close>

fun ip_ok :: "ip_addr \<Rightarrow> bool" where
  "ip_ok (V4 a) \<longleftrightarrow> length a = 4"
| "ip_ok (V6 a) \<longleftrightarrow> length a = 16"

interpretation ip: text_codec read_ip show_ip ip_ok quiet
proof
  fix a rest
  assume "ip_ok a" and q: "quiet rest"
  moreover have "stops 10 rest" using q by (cases rest) (auto simp: quiet_def dest: decimal_is_hex)
  ultimately show "read_ip (show_ip a @ rest) = Some (a, rest)"
    by (cases a) (simp_all add: read_ip_def ip4.scan_show ip6.scan_show read_ipv4_no_dot show_ipv6_no_dot)
qed simp

text \<open>The flow information of an IPv6 socket address is not printed.\<close>

fun sock_ok :: "sock_addr \<Rightarrow> bool" where
  "sock_ok (SockV4 a p) \<longleftrightarrow> length a = 4"
| "sock_ok (SockV6 a p flow scope) \<longleftrightarrow> length a = 16 \<and> flow = 0"

lemma read_port_show: "stops 10 rest \<Longrightarrow> read_port (CHR '':'' # show_nat (unat p) @ rest) = Some (p, rest)"
  using unat_bound [of p] by (simp add: read_port_def dec16.scan_show)

lemma read_scope_show: "read_scope (CHR ''%'' # show_nat (unat p) @ CHR '']'' # rest) = Some (p, CHR '']'' # rest)"
  using unat_bound [of p] dec32.scan_show [of "unat p" "CHR '']'' # rest"] by (simp add: read_scope_def)

interpretation sock: text_codec read_sock show_sock sock_ok "stops 10"
proof
  fix a rest
  assume ok: "sock_ok a" and stop: "stops 10 rest"
  show "read_sock (show_sock a @ rest) = Some (a, rest)"
  proof (cases a)
    case (SockV4 b p)
    then show ?thesis using ok stop by (simp add: read_sock_def read_sock_v4_def ip4.scan_show read_port_show)
  next
    case (SockV6 b p flow scope)
    have "no_dot (CHR ''['' # cs)" for cs by (simp add: no_dot_def read_char_def is_digit_def to_digit_def)
    then have "read_sock_v4 (show_sock a @ rest) = None" by (simp add: SockV6 read_sock_v4_def read_ipv4_no_dot)
    moreover have "read_scope (CHR '']'' # cs) = None" for cs by (simp add: read_scope_def read_char_def)
    ultimately show ?thesis using ok stop
      by (simp add: read_sock_def read_sock_v6_def SockV6 ip6.scan_show read_scope_show read_port_show)
  qed
qed simp

end
