(* ===== verification/Uapi.thy ===== *)
theory Uapi
  imports Text_Codecs Device_Net
begin

text \<open>
  The configuration protocol of the device (src/nekolink-core/src/device/api.rs) with its keys
  (serialization.rs) and prefixes (peer.rs) as texts. A connection is a \<open>stream\<close> of what the client
  sends; the reply is the text that is written. \<open>B\<close> is \<open>base64::decode\<close> and \<open>H\<close> is \<open>hex::encode\<close>, the
  functions of two crates. What creating peers and limiters reads from the clock and draws at random
  is \<open>E k\<close> for the \<open>k\<close>-th line of the connection. Creating the socket and its directory, and reading
  further than the request, are not modelled.
\<close>

section \<open>Keys and prefixes\<close>

text \<open>
  The loop over the 32 pairs of digits; slicing a text inside of a character panics. A pair may be
  a plus sign and a digit, since that is what \<open>from_str_radix\<close> takes.
\<close>

fun key_hex_pairs :: "string \<Rightarrow> nat list \<Rightarrow> (string + bytes) option" where
  "key_hex_pairs s [] = Some (Inr [])"
| "key_hex_pairs s (i # is) =
    (if \<not> char_boundary s (i * 2) \<or> \<not> char_boundary s (i * 2 + 2) then None
     else case from_str_radix 16 256 (slice (i * 2) (i * 2 + 2) s) of
       None \<Rightarrow> Some (Inl ''Illegal character in key'')
     | Some b \<Rightarrow> map_option (map_sum id ((#) (word_of_nat b))) (key_hex_pairs s is))"

definition key_from_str :: "(string \<Rightarrow> bytes option) \<Rightarrow> string \<Rightarrow> (string + bytes) option" where
  "key_from_str B s =
    (if length s = 64 then key_hex_pairs s [0..<32]
     else if length s = 43 \<or> length s = 44 then
       (case (if length s = 43 then B (s @ ''='') else B s) of
          Some decoded \<Rightarrow> Some (if length decoded = 32 then Inr decoded else Inl ''Illegal character in key'')
        | None \<Rightarrow> Some (Inl ''Illegal character in key''))
     else Some (Inl ''Illegal key size''))"

definition allowed_ip_from_str :: "string \<Rightarrow> (string + allowed_ip)" where
  "allowed_ip_from_str s =
    (case split_all (CHR ''/'') s of
       [a, c] \<Rightarrow>
         (case (parse_with read_ip a, parse_unsigned c :: u8 option) of
            (Some (V4 addr), Some cidr) \<Rightarrow>
              if cidr \<le> 32 then Inr \<lparr>ai_addr = V4 addr, ai_cidr = cidr\<rparr> else Inl ''Invalid IP format''
          | (Some (V6 addr), Some cidr) \<Rightarrow>
              if cidr \<le> 128 then Inr \<lparr>ai_addr = V6 addr, ai_cidr = cidr\<rparr> else Inl ''Invalid IP format''
          | _ \<Rightarrow> Inl ''Invalid IP format'')
     | _ \<Rightarrow> Inl ''Invalid IP format'')"

section \<open>The answer to get\<close>

text \<open>\<open>writeln!\<close> of a key and a value.\<close>

definition api_line :: "string \<Rightarrow> string \<Rightarrow> string" where
  "api_line key val = key @ ''='' @ val @ [newline]"

definition opt_line :: "string \<Rightarrow> ('a \<Rightarrow> string) \<Rightarrow> 'a option \<Rightarrow> string" where
  "opt_line key show_val v = (case v of None \<Rightarrow> [] | Some v \<Rightarrow> api_line key (show_val v))"

text \<open>The settings of a peer as they are printed.\<close>

definition show_settings ::
    "(bytes \<Rightarrow> string) \<Rightarrow> bytes \<Rightarrow> bytes option \<Rightarrow> u16 option \<Rightarrow> sock_addr option \<Rightarrow> (ip_addr \<times> u8) list \<Rightarrow> string" where
  "show_settings H k psk keepalive addr ips =
    api_line ''public_key'' (H k) @ opt_line ''preshared_key'' H psk @
    opt_line ''persistent_keepalive_interval'' (show_nat \<circ> unat) keepalive @ opt_line ''endpoint'' show_sock addr @
    concat (map (\<lambda>(ip, cidr). api_line ''allowed_ip'' (show_ip ip @ ''/'' @ show_nat (unat cidr))) ips)"

definition api_get_peer ::
    "('n, 't, 'u) libs \<Rightarrow> (bytes \<Rightarrow> string) \<Rightarrow> instant \<Rightarrow> bytes \<Rightarrow> 'u peer \<Rightarrow> string option" where
  "api_get_peer L H now k p =
    do {
      time \<leftarrow> time_since_last_handshake now (p_tunnel p);
      Some (show_settings H k (p_preshared_key p) (tunn_persistent_keepalive (p_tunnel p)) (ep_addr (p_endpoint p))
          (allowed_ips (lib_allowed L) p) @
        opt_line ''last_handshake_time_sec'' (show_nat \<circ> as_secs) time @
        opt_line ''last_handshake_time_nsec'' (show_nat \<circ> subsec_nanos) time @
        api_line ''rx_bytes'' (show_nat (unat (rx_bytes (p_tunnel p)))) @
        api_line ''tx_bytes'' (show_nat (unat (tx_bytes (p_tunnel p)))))
    }"

fun api_get_peers ::
    "('n, 't, 'u) libs \<Rightarrow> (bytes \<Rightarrow> string) \<Rightarrow> instant \<Rightarrow> 'u peer list \<Rightarrow> (bytes \<times> nat) list \<Rightarrow> string option" where
  "api_get_peers L H now heap [] = Some []"
| "api_get_peers L H now heap ((k, r) # ps) =
    do {
      p \<leftarrow> api_get_peer L H now k (heap ! r);
      ps \<leftarrow> api_get_peers L H now heap ps;
      Some (p @ ps)
    }"

definition api_get ::
    "('n, 't, 'u) libs \<Rightarrow> (bytes \<Rightarrow> string) \<Rightarrow> instant \<Rightarrow> ('t, 'u) device \<Rightarrow> (int \<times> string) option" where
  "api_get L H now d =
    do {
      peers \<leftarrow> api_get_peers L H now (d_heap d) (d_peers d);
      Some (0,
        opt_line ''own_public_key'' (\<lambda>k. H (snd k)) (d_key_pair d) @
        (case cfg_transport_mode (d_config d) of
           Udp \<Rightarrow> api_line ''protocol'' ''udp'' @
             (if d_listen_port d \<noteq> 0 then api_line ''listen_port'' (show_nat (unat (d_listen_port d))) else [])
         | RawIp \<Rightarrow> api_line ''protocol'' ''ip'' @
             opt_line ''ip_protocol'' (show_nat \<circ> unat) (cfg_ip_protocol (d_config d))
         | Tcp \<Rightarrow> api_line ''protocol'' ''tcp'') @
        opt_line ''fwmark'' (show_nat \<circ> unat) (d_fwmark d) @
        peers)
    }"

section \<open>Setting peers\<close>

abbreviation (input) EIO :: int where "EIO \<equiv> 5"
abbreviation (input) EPROTO :: int where "EPROTO \<equiv> 71"
abbreviation (input) EINVAL :: int where "EINVAL \<equiv> 22"
abbreviation (input) EADDRINUSE :: int where "EADDRINUSE \<equiv> 98"

record api_env =
  ae_stamper :: time_stamper
  ae_now :: instant
  ae_limiter :: limiter_env

record peer_settings =
  ps_public_key :: bytes
  ps_remove :: bool
  ps_replace_ips :: bool
  ps_endpoint :: "sock_addr option"
  ps_allowed_ips :: "allowed_ip list"
  ps_keepalive :: "u16 option"
  ps_preshared_key :: "bytes option"

definition settings_new :: "bytes \<Rightarrow> peer_settings" where
  "settings_new pub_key =
    \<lparr>ps_public_key = pub_key, ps_remove = False, ps_replace_ips = False, ps_endpoint = None, ps_allowed_ips = [],
     ps_keepalive = None, ps_preshared_key = None\<rparr>"

definition commit_peer ::
    "('n, 't, 'u) libs \<Rightarrow> api_env \<Rightarrow> peer_settings \<Rightarrow> ('t, 'u) device \<Rightarrow> ('t, 'u) device option" where
  "commit_peer L e ps d =
    update_peer L (ae_stamper e) (ae_now e) (ae_limiter e) (ps_public_key ps) (ps_remove ps) (ps_replace_ips ps)
      (ps_endpoint ps) (ps_allowed_ips ps) (ps_keepalive ps) (ps_preshared_key ps) d"

text \<open>One setting of the current peer; an error is the code that ends the request.\<close>

definition peer_setting ::
    "(string \<Rightarrow> bytes option) \<Rightarrow> string \<Rightarrow> string \<Rightarrow> peer_settings \<Rightarrow> (int + peer_settings) option" where
  "peer_setting B key val ps =
    (if key = ''remove'' then
       Some (case parse_bool val of Some b \<Rightarrow> Inr (ps\<lparr>ps_remove := b\<rparr>) | None \<Rightarrow> Inl EINVAL)
     else if key = ''preshared_key'' then
       map_option (\<lambda>r. case r of Inr k \<Rightarrow> Inr (ps\<lparr>ps_preshared_key := Some k\<rparr>) | Inl _ \<Rightarrow> Inl EINVAL) (key_from_str B val)
     else if key = ''endpoint'' then
       Some (case parse_with read_sock val of
               Some addr \<Rightarrow> Inr (ps\<lparr>ps_endpoint := Some addr\<rparr>)
             | None \<Rightarrow>
                 (case parse_with read_ip val of
                    Some ip \<Rightarrow> Inr (ps\<lparr>ps_endpoint := Some (sock_new ip 0)\<rparr>)
                  | None \<Rightarrow> Inl EINVAL))
     else if key = ''persistent_keepalive_interval'' then
       Some (case parse_unsigned val of Some i \<Rightarrow> Inr (ps\<lparr>ps_keepalive := Some i\<rparr>) | None \<Rightarrow> Inl EINVAL)
     else if key = ''replace_allowed_ips'' then
       Some (case parse_bool val of Some b \<Rightarrow> Inr (ps\<lparr>ps_replace_ips := b\<rparr>) | None \<Rightarrow> Inl EINVAL)
     else if key = ''allowed_ip'' then
       Some (case allowed_ip_from_str val of
               Inr ip \<Rightarrow> Inr (ps\<lparr>ps_allowed_ips := ps_allowed_ips ps @ [ip]\<rparr>)
             | Inl _ \<Rightarrow> Inl EINVAL)
     else if key = ''protocol_version'' then
       Some (if (parse_unsigned val :: u32 option) = Some 1 then Inr ps else Inl EINVAL)
     else Some (Inl EINVAL))"

lemma read_line_rest:
  assumes "read_line rd = Some (line, rd')"
  shows "length (st_data rd') \<le> length (st_data rd) - 1 \<and> (line \<noteq> [] \<longrightarrow> st_data rd \<noteq> [])"
proof -
  obtain P where P: "P = (\<lambda>c. c \<noteq> newline)" by blast
  have "length (dropWhile P (st_data rd)) \<le> length (st_data rd)" by (rule length_dropWhile_le)
  then show ?thesis using assms unfolding read_line_def P [symmetric] Let_def by (auto split: if_splits)
qed

lemma read_line_shorter:
  assumes "read_line rd = Some (line, rd')" and "str_pop line \<noteq> []"
  shows "length (st_data rd') < length (st_data rd)"
proof -
  have "line \<noteq> []" using assms(2) by (auto simp: str_pop_def)
  then show ?thesis using read_line_rest [OF assms(1)] by (cases "st_data rd") auto
qed

text \<open>
  The lines of a peer section, up to an empty line; a new \<open>public_key\<close> ends it and starts the next
  one, with everything but the prefixes kept.
\<close>

function api_set_peer ::
    "('n, 't, 'u) libs \<Rightarrow> (string \<Rightarrow> bytes option) \<Rightarrow> (nat \<Rightarrow> api_env) \<Rightarrow> nat \<Rightarrow> stream \<Rightarrow> peer_settings \<Rightarrow> ('t, 'u) device \<Rightarrow>
      (int \<times> ('t, 'u) device) option" where
  "api_set_peer L B E k rd ps d =
    (case read_line rd of
       None \<Rightarrow> Some (0, d)
     | Some (line, rd') \<Rightarrow>
         if str_pop line = [] then map_option (Pair 0) (commit_peer L (E k) ps d)
         else case split_once (CHR ''='') (str_pop line) of
           None \<Rightarrow> Some (EPROTO, d)
         | Some (key, val) \<Rightarrow>
             if key = ''public_key'' then
               (case commit_peer L (E k) ps d of
                  None \<Rightarrow> None
                | Some d' \<Rightarrow>
                    (case key_from_str B val of
                       None \<Rightarrow> None
                     | Some (Inl _) \<Rightarrow> Some (EINVAL, d')
                     | Some (Inr pk) \<Rightarrow>
                         api_set_peer L B E (Suc k) rd' (ps\<lparr>ps_allowed_ips := [], ps_public_key := pk\<rparr>) d'))
             else
               (case peer_setting B key val ps of
                  None \<Rightarrow> None
                | Some (Inl code) \<Rightarrow> Some (code, d)
                | Some (Inr ps') \<Rightarrow> api_set_peer L B E (Suc k) rd' ps' d))"
  by pat_completeness auto
termination
  by (relation "measure (\<lambda>(L, B, E, k, rd, ps, d). length (st_data rd))") (auto dest: read_line_shorter)

section \<open>Setting the device\<close>

text \<open>One setting of the device: a code that ends the request, or none, and the device.\<close>

definition device_setting ::
    "('n, 't, 'u) libs \<Rightarrow> os \<Rightarrow> (string \<Rightarrow> bytes option) \<Rightarrow> api_env \<Rightarrow> string \<Rightarrow> string \<Rightarrow> ('t, 'u) device \<Rightarrow>
      (int option \<times> ('t, 'u) device) option" where
  "device_setting L X B e key val d =
    (if key = ''private_key'' then
       do {
         r \<leftarrow> key_from_str B val;
         (case r of Inl _ \<Rightarrow> Some (Some EINVAL, d) | Inr sk \<Rightarrow> map_option (Pair None) (set_key L (ae_limiter e) sk d))
       }
     else if key = ''listen_port'' then
       (case parse_unsigned val of
          None \<Rightarrow> Some (Some EINVAL, d)
        | Some port \<Rightarrow>
            map_option (\<lambda>(r, d). (case r of Inl _ \<Rightarrow> Some EADDRINUSE | Inr _ \<Rightarrow> None, d)) (open_listen_socket X port d))
     else if key = ''fwmark'' then
       (case parse_unsigned val of
          None \<Rightarrow> Some (Some EINVAL, d)
        | Some mark \<Rightarrow>
            (let (r, d) = set_fwmark X mark d in Some (case r of Inl _ \<Rightarrow> Some EADDRINUSE | Inr _ \<Rightarrow> None, d)))
     else if key = ''replace_peers'' then
       Some (case parse_bool val of
               Some True \<Rightarrow> (None, clear_peers L d)
             | Some False \<Rightarrow> (None, d)
             | None \<Rightarrow> (Some EINVAL, d))
     else Some (Some EINVAL, d))"

function api_set_lines ::
    "('n, 't, 'u) libs \<Rightarrow> os \<Rightarrow> (string \<Rightarrow> bytes option) \<Rightarrow> (nat \<Rightarrow> api_env) \<Rightarrow> nat \<Rightarrow> stream \<Rightarrow> ('t, 'u) device \<Rightarrow>
      (int \<times> ('t, 'u) device) option" where
  "api_set_lines L X B E k rd d =
    (case read_line rd of
       None \<Rightarrow> Some (0, d)
     | Some (line, rd') \<Rightarrow>
         if str_pop line = [] then Some (0, d)
         else case split_once (CHR ''='') (str_pop line) of
           None \<Rightarrow> Some (EPROTO, d)
         | Some (key, val) \<Rightarrow>
             if key = ''public_key'' then
               (case key_from_str B val of
                  None \<Rightarrow> None
                | Some (Inl _) \<Rightarrow> Some (EINVAL, d)
                | Some (Inr pk) \<Rightarrow> api_set_peer L B E (Suc k) rd' (settings_new pk) d)
             else
               (case device_setting L X B (E k) key val d of
                  None \<Rightarrow> None
                | Some (Some code, d') \<Rightarrow> Some (code, d')
                | Some (None, d') \<Rightarrow> api_set_lines L X B E (Suc k) rd' d'))"
  by pat_completeness auto
termination
  by (relation "measure (\<lambda>(L, X, B, E, k, rd, d). length (st_data rd))") (auto dest: read_line_shorter)

declare api_set_peer.simps [simp del] api_set_lines.simps [simp del]

text \<open>
  \<open>try_writeable\<close> signals the other threads before and stops the signal in its closure; its result is
  always there (theory \<open>Dev_Lock\<close>), so the code \<open>EIO\<close> of \<open>unwrap_or\<close> is not reached.
\<close>

definition yield_notice :: "('t, 'u) device \<Rightarrow> nat option" where
  "yield_notice d = (case d_yield_notice d of None \<Rightarrow> None | Some fd \<Rightarrow> notification fd (d_poll d))"

definition api_set ::
    "('n, 't, 'u) libs \<Rightarrow> os \<Rightarrow> (string \<Rightarrow> bytes option) \<Rightarrow> (nat \<Rightarrow> api_env) \<Rightarrow> stream \<Rightarrow> ('t, 'u) device \<Rightarrow>
      (int \<times> ('t, 'u) device) option" where
  "api_set L X B E rd d =
    do {
      _ \<leftarrow> yield_notice d;
      _ \<leftarrow> yield_notice d;
      api_set_lines L X B E 0 rd d
    }"

section \<open>The handlers\<close>

text \<open>What is written in reply, with the error code at the end.\<close>

definition api_reply ::
    "('n, 't, 'u) libs \<Rightarrow> os \<Rightarrow> (bytes \<Rightarrow> string) \<Rightarrow> (string \<Rightarrow> bytes option) \<Rightarrow> (nat \<Rightarrow> api_env) \<Rightarrow> instant \<Rightarrow> string \<Rightarrow> stream \<Rightarrow>
      ('t, 'u) device \<Rightarrow> (string \<times> ('t, 'u) device) option" where
  "api_reply L X H B E now cmd rd d =
    do {
      (status, text, d) \<leftarrow>
        (if cmd = ''get=1'' then map_option (\<lambda>(c, t). (c, t, d)) (api_get L H now d)
         else if cmd = ''set=1'' then map_option (\<lambda>(c, d). (c, [], d)) (api_set L X B E rd d)
         else Some (EIO, [], d));
      Some (text @ api_line ''errno'' (show_nat (nat status)) @ [newline], d)
    }"

text \<open>A connection to the socket, if it was accepted: nothing is written when the first line cannot be read.\<close>

definition api_handler ::
    "('n, 't, 'u) libs \<Rightarrow> os \<Rightarrow> (bytes \<Rightarrow> string) \<Rightarrow> (string \<Rightarrow> bytes option) \<Rightarrow> (nat \<Rightarrow> api_env) \<Rightarrow> instant \<Rightarrow> stream option \<Rightarrow>
      ('t, 'u) device \<Rightarrow> (action \<times> string \<times> ('t, 'u) device) option" where
  "api_handler L X H B E now conn d =
    (case conn of
       None \<Rightarrow> Some (Continue, [], d)
     | Some rd \<Rightarrow>
         (case read_line rd of
            None \<Rightarrow> Some (Continue, [], d)
          | Some (cmd, rd') \<Rightarrow> map_option (Pair Continue) (api_reply L X H B E now (str_pop cmd) rd' d)))"

text \<open>The inherited descriptor: there a failed read ends the program.\<close>

definition api_fd_handler ::
    "('n, 't, 'u) libs \<Rightarrow> os \<Rightarrow> (bytes \<Rightarrow> string) \<Rightarrow> (string \<Rightarrow> bytes option) \<Rightarrow> (nat \<Rightarrow> api_env) \<Rightarrow> instant \<Rightarrow> stream \<Rightarrow>
      ('t, 'u) device \<Rightarrow> (action \<times> string \<times> ('t, 'u) device) option" where
  "api_fd_handler L X H B E now rd d =
    (case read_line rd of
       None \<Rightarrow> map_option (\<lambda>_. (Exit, [], d)) (trigger_exit d)
     | Some (cmd, rd') \<Rightarrow> map_option (Pair Continue) (api_reply L X H B E now (str_pop cmd) rd' d))"

text \<open>The periodic check of the socket's path, which also reads the mtu.\<close>

definition api_monitor :: "bool \<Rightarrow> os \<Rightarrow> ('t, 'u) device \<Rightarrow> (action \<times> ('t, 'u) device) option" where
  "api_monitor path_exists X d =
    (if \<not> path_exists then map_option (\<lambda>_. (Exit, d)) (trigger_exit d)
     else Some (Continue, case os_mtu X of Some m \<Rightarrow> d\<lparr>d_mtu := m\<rparr> | None \<Rightarrow> d))"

end
