(* ===== verification/Uapi_Properties.thy ===== *)
theory Uapi_Properties
  imports Uapi Device_Examples
begin

text \<open>
  What the configuration protocol guarantees: a request keeps the device reachable and ends with one
  of four codes, keys have 32 bytes, and the settings that are printed for a peer are read back.
\<close>

section \<open>A request keeps the device\<close>

lemma reach_commit: "dev_reach L d \<Longrightarrow> commit_peer L e ps d = Some d' \<Longrightarrow> dev_reach L d'"
  by (auto simp: commit_peer_def intro: reach_update)

lemma peer_setting_code: "peer_setting B key val ps = Some (Inl c) \<Longrightarrow> c = EINVAL"
  by (auto simp: peer_setting_def split: if_splits option.splits sum.splits; metis sum.exhaust)

abbreviation api_codes :: "int set" where
  "api_codes \<equiv> {0, EPROTO, EINVAL, EADDRINUSE}"

lemma reach_api_set_peer:
  "dev_reach L d \<Longrightarrow> api_set_peer L B E k rd ps d = Some (c, d') \<Longrightarrow> dev_reach L d' \<and> c \<in> api_codes"
proof (induction L B E k rd ps d rule: api_set_peer.induct)
  case (1 L B E k rd ps d)
  note unfold = api_set_peer.simps [of L B E k rd ps d]
  show ?case
  proof (cases "\<exists>line rd' key val. read_line rd = Some (line, rd') \<and> str_pop line \<noteq> [] \<and>
      split_once (CHR ''='') (str_pop line) = Some (key, val)")
    case False
    then show ?thesis using 1(3,4) reach_commit by (auto simp: unfold split: option.splits if_splits)
  next
    case True
    then obtain line rd' key val where l: "read_line rd = Some (line, rd')" "str_pop line \<noteq> []"
      "split_once (CHR ''='') (str_pop line) = Some (key, val)" by blast
    show ?thesis
    proof (cases "key = ''public_key''")
      case True
      then obtain d1 where d1: "commit_peer L (E k) ps d = Some d1" using 1(4) l by (auto simp: unfold split: option.splits)
      note reach = reach_commit [OF 1(3) d1]
      show ?thesis
      proof (cases "key_from_str B val")
        case (Some r)
        then show ?thesis
        proof (cases r)
          case (Inr pk)
          then show ?thesis using 1(1) [OF l(1) refl l(2,3) refl True d1 Some Inr reach] 1(4) l True d1 Some by (simp add: unfold)
        qed (use 1(4) l True d1 reach Some in \<open>simp add: unfold\<close>)
      qed (use 1(4) l True d1 in \<open>simp add: unfold\<close>)
    next
      case False
      show ?thesis
      proof (cases "peer_setting B key val ps")
        case (Some r)
        then show ?thesis
        proof (cases r)
          case (Inl code)
          then show ?thesis using 1(3,4) l False Some peer_setting_code by (auto simp: unfold)
        next
          case (Inr ps')
          then show ?thesis using 1(2) [OF l(1) refl l(2,3) refl False Some Inr 1(3)] 1(4) l False Some by (simp add: unfold)
        qed
      qed (use 1(4) l False in \<open>simp add: unfold\<close>)
    qed
  qed
qed

lemma reach_device_setting:
  assumes "dev_reach L d" and "device_setting L X B e key val d = Some (c, d')"
  shows "dev_reach L d' \<and> (case c of None \<Rightarrow> True | Some c \<Rightarrow> c \<in> api_codes)"
proof -
  consider (priv) "key = ''private_key''" | (port) "key = ''listen_port''" | (mark) "key = ''fwmark''"
    | (other) "key \<noteq> ''private_key''" "key \<noteq> ''listen_port''" "key \<noteq> ''fwmark''" by blast
  then show ?thesis
  proof cases
    case priv
    obtain a b u v where le: "ae_limiter e = (a, b, u, v)" by (cases "ae_limiter e")
    show ?thesis using assms reach_set_key [OF assms(1), of "(a, b, u, v)"]
      by (auto simp: priv device_setting_def le split: bind_splits sum.splits)
  next
    case port
    show ?thesis
    proof (cases "parse_unsigned val :: u16 option")
      case (Some p)
      then obtain r d1 where d1: "open_listen_socket X p d = Some (r, d1)" "d' = d1"
        "c = (case r of Inl _ \<Rightarrow> Some EADDRINUSE | Inr _ \<Rightarrow> None)"
        using assms(2) by (auto simp: port device_setting_def)
      then show ?thesis using reach_listen [OF assms(1) d1(1)] by (cases r) auto
    qed (use assms in \<open>auto simp: port device_setting_def\<close>)
  next
    case mark
    show ?thesis
    proof (cases "parse_unsigned val :: u32 option")
      case (Some m)
      obtain r d1 where d1: "set_fwmark X m d = (r, d1)" by fastforce
      then show ?thesis using assms reach_fwmark [OF assms(1) d1] Some
        by (cases r) (auto simp: mark device_setting_def)
    qed (use assms in \<open>auto simp: mark device_setting_def\<close>)
  next
    case other
    then show ?thesis using assms reach_clear [OF assms(1)]
      by (auto simp: device_setting_def split: if_splits option.splits bool.splits)
  qed
qed

lemma reach_api_set_lines:
  "dev_reach L d \<Longrightarrow> api_set_lines L X B E k rd d = Some (c, d') \<Longrightarrow> dev_reach L d' \<and> c \<in> api_codes"
proof (induction L X B E k rd d rule: api_set_lines.induct)
  case (1 L X B E k rd d)
  note unfold = api_set_lines.simps [of L X B E k rd d]
  show ?case
  proof (cases "\<exists>line rd' key val. read_line rd = Some (line, rd') \<and> str_pop line \<noteq> [] \<and>
      split_once (CHR ''='') (str_pop line) = Some (key, val)")
    case False
    then show ?thesis using 1(2,3) by (auto simp: unfold split: option.splits if_splits)
  next
    case True
    then obtain line rd' key val where l: "read_line rd = Some (line, rd')" "str_pop line \<noteq> []"
      "split_once (CHR ''='') (str_pop line) = Some (key, val)" by blast
    show ?thesis
    proof (cases "key = ''public_key''")
      case True
      then show ?thesis using 1(2,3) l reach_api_set_peer [OF 1(2)]
        by (auto simp: unfold simp del: insert_iff split: option.splits sum.splits)
    next
      case key: False
      obtain c1 d1 where d1: "device_setting L X B (E k) key val d = Some (c1, d1)"
        using 1(3) l key by (auto simp: unfold split: option.splits)
      note r = reach_device_setting [OF 1(2) d1]
      show ?thesis
      proof (cases c1)
        case None
        then show ?thesis using 1(1) [OF l(1) refl l(2,3) refl key d1 refl None] 1(3) l key d1 r by (simp add: unfold)
      next
        case (Some c1)
        then show ?thesis using 1(3) l key d1 r by (simp add: unfold)
      qed
    qed
  qed
qed

section \<open>Reading a printed line\<close>

text \<open>The characters that keys, numbers, addresses and prefixes are printed with.\<close>

definition plain :: "char \<Rightarrow> bool" where
  "plain c \<longleftrightarrow> is_digit 36 c \<or> c \<in> set ''.:[]%/_''"

lemma digit_char: "is_digit r c \<Longrightarrow> r \<le> 36 \<Longrightarrow> (of_char c :: nat) < 128 \<and> c \<noteq> newline \<and> c \<noteq> CHR ''='' \<and> c \<noteq> CHR ''/''"
  by (auto simp: is_digit_def to_digit_def Let_def split: if_splits)

lemma plain_char: "plain c \<Longrightarrow> (of_char c :: nat) < 128 \<and> c \<noteq> newline \<and> c \<noteq> CHR ''=''"
  using digit_char [of 36 c] by (auto simp: plain_def)

lemma digit_mono: "is_digit r c \<Longrightarrow> r \<le> 36 \<Longrightarrow> is_digit 36 c"
  by (auto simp: is_digit_def to_digit_def Let_def split: if_splits)

lemma plain_radix: "2 \<le> r \<Longrightarrow> r \<le> 36 \<Longrightarrow> list_all plain (show_radix r n) \<and> CHR ''/'' \<notin> set (show_radix r n)"
  using show_radix_digits [of r n] digit_mono [of r] digit_char [of r] by (auto simp: list_all_iff plain_def)

lemma utf8_ascii: "list_all (\<lambda>c. (of_char c :: nat) < 128) s \<Longrightarrow> utf8_valid s"
  by (induction s) (auto simp: Let_def)

lemma pop_last: "\<not> continues c \<Longrightarrow> str_pop (s @ [c]) = s"
  by (simp add: str_pop_def)

lemma read_plain_line:
  assumes "list_all plain key" "list_all plain val"
  shows "read_line (rd\<lparr>st_data := api_line key val @ rest\<rparr>) = Some (key @ ''='' @ val @ [newline], rd\<lparr>st_data := rest\<rparr>)"
    and "str_pop (key @ ''='' @ val @ [newline]) = key @ ''='' @ val"
    and "split_once (CHR ''='') (key @ ''='' @ val) = Some (key, val)"
proof -
  have k: "\<forall>c\<in>set key. (of_char c :: nat) < 128 \<and> c \<noteq> newline \<and> c \<noteq> CHR ''=''"
    and v: "\<forall>c\<in>set val. (of_char c :: nat) < 128 \<and> c \<noteq> newline" using assms plain_char by (auto simp: list_all_iff)
  obtain line where line: "line = key @ ''='' @ val" by blast
  have l: "\<forall>c\<in>set line. c \<noteq> newline" "\<forall>c\<in>set line. (of_char c :: nat) < 128" using k v by (auto simp: line)
  have tw: "takeWhile (\<lambda>c. c \<noteq> newline) (line @ newline # rest) = line"
    "dropWhile (\<lambda>c. c \<noteq> newline) (line @ newline # rest) = newline # rest"
    using l(1) by (simp_all add: takeWhile_append2 dropWhile_append2)
  have eq: "api_line key val @ rest = line @ newline # rest" by (simp add: api_line_def line)
  have "utf8_valid (line @ [newline])" by (rule utf8_ascii) (use l in \<open>auto simp: list_all_iff\<close>)
  then have "read_line (rd\<lparr>st_data := api_line key val @ rest\<rparr>) = Some (line @ [newline], rd\<lparr>st_data := rest\<rparr>)"
    by (simp add: read_line_def eq tw Let_def)
  then show "read_line (rd\<lparr>st_data := api_line key val @ rest\<rparr>) = Some (key @ ''='' @ val @ [newline], rd\<lparr>st_data := rest\<rparr>)"
    by (simp add: line)
  show "str_pop (key @ ''='' @ val @ [newline]) = key @ ''='' @ val"
    using pop_last [of newline line] by (simp add: continues_def line)
  have "takeWhile (\<lambda>c. c \<noteq> CHR ''='') (key @ CHR ''='' # val) = key"
    "dropWhile (\<lambda>c. c \<noteq> CHR ''='') (key @ CHR ''='' # val) = CHR ''='' # val"
    using k by (simp_all add: takeWhile_append2 dropWhile_append2)
  then show "split_once (CHR ''='') (key @ ''='' @ val) = Some (key, val)" by (simp add: split_once_def)
qed

lemma read_empty_line: "read_line (rd\<lparr>st_data := newline # rest\<rparr>) = Some ([newline], rd\<lparr>st_data := rest\<rparr>)" "str_pop [newline] = []"
  using pop_last [of newline "[]"] by (simp_all add: read_line_def Let_def continues_def)

lemma api_set_peer_line:
  assumes "list_all plain key" "list_all plain val" "key \<noteq> ''public_key''" "peer_setting B key val ps = Some (Inr ps')"
  shows "api_set_peer L B E k (rd\<lparr>st_data := api_line key val @ rest\<rparr>) ps d =
    api_set_peer L B E (Suc k) (rd\<lparr>st_data := rest\<rparr>) ps' d"
  using read_plain_line [OF assms(1,2)] assms(3,4) by (subst api_set_peer.simps) simp

lemma api_set_peer_end: "api_set_peer L B E k (rd\<lparr>st_data := newline # rest\<rparr>) ps d = map_option (Pair 0) (commit_peer L (E k) ps d)"
  using read_empty_line by (subst api_set_peer.simps) simp

section \<open>Keys\<close>

text \<open>What the crate \<open>hex\<close> documents of \<open>encode\<close>: two lower case digits for each byte.\<close>

definition hex_ok :: "(bytes \<Rightarrow> string) \<Rightarrow> bool" where
  "hex_ok H \<longleftrightarrow> (\<forall>bs. H bs = concat (map hex_byte bs))"

lemma nibble: "unat b div 16 < 16" for b :: u8
  using unat_less_256 [of b] by (simp add: div_less_iff_less_mult)

lemma hex_byte_digits: "list_all (is_digit 16) (hex_byte b)" "length (hex_byte b) = 2"
  by (simp_all add: hex_byte_def nibble)

lemma hex_byte_value: "from_str_radix 16 256 (hex_byte b) = Some (unat b)"
proof -
  note d = nibble [of b]
  have plus: "\<not> is_digit 16 (CHR ''+'')" by (simp add: is_digit_def to_digit_def)
  have "is_digit 16 (from_digit (unat b div 16))" using d by simp
  with plus have "from_digit (unat b div 16) \<noteq> CHR ''+''" by metis
  then show ?thesis using d
    by (simp add: from_str_radix_def hex_byte_def digits_value_def to_digit_from_digit Let_def)
qed

lemma slice_hex: "i < length bs \<Longrightarrow> slice (2 * i) (2 * i + 2) (concat (map hex_byte bs)) = hex_byte (bs ! i)"
proof (induction bs arbitrary: i)
  case (Cons b bs)
  then show ?case by (cases i) (auto simp: slice_def hex_byte_def)
qed simp

lemma ascii_boundary: "list_all (\<lambda>c. (of_char c :: nat) < 128) s \<Longrightarrow> i \<le> length s \<Longrightarrow> char_boundary s i"
  by (cases "i < length s") (force simp: char_boundary_def continues_def list_all_length)+

lemma key_hex_pairs_map:
  assumes "\<And>i. i \<in> set is \<Longrightarrow> char_boundary s (2 * i) \<and> char_boundary s (2 * i + 2) \<and>
      from_str_radix 16 256 (slice (2 * i) (2 * i + 2) s) = Some (unat (bs ! i))"
  shows "key_hex_pairs s is = Some (Inr (map (\<lambda>i. bs ! i) is))"
  using assms by (induction "is") (simp_all add: mult.commute)

lemma key_hex_round_trip:
  assumes "hex_ok H" and "length bs = 32"
  shows "key_from_str B (H bs) = Some (Inr bs)"
proof -
  have H: "H bs = concat (map hex_byte bs)" using assms(1) by (simp add: hex_ok_def)
  have len: "length (concat (map hex_byte bs)) = 2 * length bs" by (induction bs) (simp_all add: hex_byte_digits)
  have "list_all (\<lambda>c. (of_char c :: nat) < 128) (concat (map hex_byte bs))"
    using hex_byte_digits(1) digit_char by (fastforce simp: list_all_iff)
  then have "key_hex_pairs (concat (map hex_byte bs)) [0..<32] = Some (Inr (map (\<lambda>i. bs ! i) [0..<32]))"
    by (intro key_hex_pairs_map conjI ascii_boundary) (use assms(2) len in \<open>auto simp: slice_hex hex_byte_value simp del: add_2_eq_Suc'\<close>)
  also have "map (\<lambda>i. bs ! i) [0..<32] = bs" using assms(2) map_nth [of bs] by simp
  finally show ?thesis using assms(2) len by (simp add: key_from_str_def H)
qed

lemma plain_hex: "hex_ok H \<Longrightarrow> list_all plain (H bs)"
  using hex_byte_digits(1) digit_mono [of 16] by (fastforce simp: hex_ok_def list_all_iff plain_def)

lemma key_hex_pairs_length: "key_hex_pairs s is = Some (Inr bs) \<Longrightarrow> length bs = length is"
proof (induction "is" arbitrary: bs)
  case (Cons i "is")
  then obtain b r where "key_hex_pairs s is = Some r" "map_sum id ((#) b) r = Inr bs"
    by (auto split: if_splits option.splits)
  then show ?case using Cons.IH by (cases r) auto
qed simp

lemma key_length: "key_from_str B s = Some (Inr k) \<Longrightarrow> length k = 32"
  by (auto simp: key_from_str_def dest!: key_hex_pairs_length split: if_splits option.splits)

section \<open>Settings as they are printed\<close>

text \<open>Addresses and numbers are written with these.\<close>

definition addr_char :: "char \<Rightarrow> bool" where
  "addr_char c \<longleftrightarrow> is_digit 16 c \<or> c \<in> set ''.:[]%''"

lemma addr_char_plain: "list_all addr_char s \<Longrightarrow> list_all plain s \<and> CHR ''/'' \<notin> set s"
  using digit_mono [of 16] digit_char [of 16] by (fastforce simp: list_all_iff addr_char_def plain_def)

lemma addr_char_simps [simp]:
  "addr_char (CHR ''.'')" "addr_char (CHR '':'')" "addr_char (CHR ''['')" "addr_char (CHR '']'')" "addr_char (CHR ''%'')"
  "addr_char (CHR ''f'')"
  by (simp_all add: addr_char_def is_digit_def to_digit_def)

lemma addr_radix: "2 \<le> r \<Longrightarrow> r \<le> 16 \<Longrightarrow> list_all addr_char (show_radix r n)"
proof -
  assume r: "2 \<le> r" "r \<le> 16"
  have "is_digit r c \<Longrightarrow> is_digit 16 c" for c using r by (auto simp: is_digit_def to_digit_def Let_def split: if_splits)
  then show ?thesis using show_radix_digits [of r n] r by (auto simp: list_all_iff addr_char_def)
qed

lemma addr_join: "list_all addr_char sep \<Longrightarrow> list_all (list_all addr_char) ps \<Longrightarrow> list_all addr_char (join sep ps)"
  by (induction sep ps rule: join.induct) auto

lemma addr_show_ip: "list_all addr_char (show_ip a)"
proof -
  have v4: "list_all addr_char (show_ipv4 b)" for b
    unfolding show_ipv4_def by (rule addr_join) (simp_all add: list.pred_map list.pred_True addr_radix comp_def)
  moreover have "list_all addr_char (show_groups gs)" for gs
    unfolding show_groups_def by (rule addr_join) (simp_all add: list.pred_map list.pred_True addr_radix comp_def)
  ultimately have "list_all addr_char (show_ipv6 b)" for b by (simp add: show_ipv6_def Let_def split: prod.split)
  with v4 show ?thesis by (cases a) simp_all
qed

lemma addr_show_sock: "list_all addr_char (show_sock a)"
  using addr_show_ip [of "sock_ip a"] by (cases a) (simp_all add: addr_radix)

lemma split_all_two: "sep \<notin> set a \<Longrightarrow> sep \<notin> set b \<Longrightarrow> split_all sep (a @ sep # b) = [a, b]"
proof (induction a)
  case Nil
  have "sep \<notin> set c \<Longrightarrow> split_all sep c = [c]" for c by (induction c) auto
  with Nil show ?case by simp
qed auto

fun prefix_ok :: "ip_addr \<times> u8 \<Rightarrow> bool" where
  "prefix_ok (V4 a, c) \<longleftrightarrow> length a = 4 \<and> c \<le> 32"
| "prefix_ok (V6 a, c) \<longleftrightarrow> length a = 16 \<and> c \<le> 128"

lemma allowed_ip_round_trip:
  "prefix_ok (ip, c) \<Longrightarrow> allowed_ip_from_str (show_ip ip @ ''/'' @ show_nat (unat c)) = Inr \<lparr>ai_addr = ip, ai_cidr = c\<rparr>"
proof -
  assume ok: "prefix_ok (ip, c)"
  have "split_all (CHR ''/'') (show_ip ip @ ''/'' @ show_nat (unat c)) = [show_ip ip, show_nat (unat c)]"
    using split_all_two [of "CHR ''/''" "show_ip ip" "show_nat (unat c)"] addr_char_plain [OF addr_show_ip [of ip]]
      addr_char_plain [OF addr_radix [of 10 "unat c"]] by simp
  moreover have "parse_with read_ip (show_ip ip) = Some ip" by (rule ip.parse_show) (use ok in \<open>cases ip; simp\<close>)
  ultimately show ?thesis using ok by (cases ip) (simp_all add: allowed_ip_from_str_def parse_unsigned_show)
qed

text \<open>The lines of a peer as keys and values, and what they do one after the other.\<close>

definition opt_pair :: "string \<Rightarrow> ('a \<Rightarrow> string) \<Rightarrow> 'a option \<Rightarrow> (string \<times> string) list" where
  "opt_pair key f v = (case v of None \<Rightarrow> [] | Some v \<Rightarrow> [(key, f v)])"

definition setting_pairs ::
    "(bytes \<Rightarrow> string) \<Rightarrow> bytes option \<Rightarrow> u16 option \<Rightarrow> sock_addr option \<Rightarrow> (ip_addr \<times> u8) list \<Rightarrow> (string \<times> string) list" where
  "setting_pairs H psk keepalive addr ips =
    opt_pair ''preshared_key'' H psk @ opt_pair ''persistent_keepalive_interval'' (show_nat \<circ> unat) keepalive @
    opt_pair ''endpoint'' show_sock addr @ map (\<lambda>(ip, c). (''allowed_ip'', show_ip ip @ ''/'' @ show_nat (unat c))) ips"

abbreviation api_lines :: "(string \<times> string) list \<Rightarrow> string" where
  "api_lines kvs \<equiv> concat (map (\<lambda>(key, val). api_line key val) kvs)"

lemma api_lines_opt: "api_lines (opt_pair key f v) = opt_line key f v"
  by (simp add: opt_pair_def opt_line_def split: option.split)

lemma api_lines_allowed:
  "api_lines (map (\<lambda>(ip, c). (''allowed_ip'', show_ip ip @ ''/'' @ show_nat (unat c))) ips) =
    concat (map (\<lambda>(ip, c). api_line ''allowed_ip'' (show_ip ip @ ''/'' @ show_nat (unat c))) ips)"
  by (induction ips) auto

lemma show_settings_pairs:
  "show_settings H k psk keepalive addr ips = api_line ''public_key'' (H k) @ api_lines (setting_pairs H psk keepalive addr ips)"
  by (simp only: show_settings_def setting_pairs_def map_append concat_append api_lines_opt api_lines_allowed append_assoc)

fun apply_settings :: "(string \<Rightarrow> bytes option) \<Rightarrow> (string \<times> string) list \<Rightarrow> peer_settings \<Rightarrow> peer_settings option" where
  "apply_settings B [] ps = Some ps"
| "apply_settings B ((key, val) # kvs) ps =
    (case peer_setting B key val ps of Some (Inr ps') \<Rightarrow> apply_settings B kvs ps' | _ \<Rightarrow> None)"

lemma apply_settings_append: "apply_settings B (xs @ ys) ps = apply_settings B xs ps \<bind> apply_settings B ys"
  by (induction B xs ps rule: apply_settings.induct) (auto split: option.splits sum.splits)

lemma api_set_peer_lines:
  assumes "\<forall>(key, val)\<in>set kvs. list_all plain key \<and> list_all plain val \<and> key \<noteq> ''public_key''"
    and "apply_settings B kvs ps = Some ps'"
  shows "api_set_peer L B E k (rd\<lparr>st_data := api_lines kvs @ rest\<rparr>) ps d =
    api_set_peer L B E (k + length kvs) (rd\<lparr>st_data := rest\<rparr>) ps' d"
  using assms
proof (induction kvs arbitrary: k ps)
  case (Cons kv kvs)
  obtain key val where kv: "kv = (key, val)" by (cases kv)
  obtain ps1 where ps1: "peer_setting B key val ps = Some (Inr ps1)" "apply_settings B kvs ps1 = Some ps'"
    using Cons.prems(2) by (auto simp: kv split: option.splits sum.splits)
  have "api_set_peer L B E k (rd\<lparr>st_data := api_line key val @ api_lines kvs @ rest\<rparr>) ps d =
      api_set_peer L B E (Suc k) (rd\<lparr>st_data := api_lines kvs @ rest\<rparr>) ps1 d"
    by (rule api_set_peer_line [OF _ _ _ ps1(1)]) (use Cons.prems(1) kv in auto)
  then show ?case using Cons.IH [OF _ ps1(2), of "Suc k"] Cons.prems(1) by (simp add: kv)
qed simp

abbreviation to_allowed :: "ip_addr \<times> u8 \<Rightarrow> allowed_ip" where
  "to_allowed p \<equiv> \<lparr>ai_addr = fst p, ai_cidr = snd p\<rparr>"

lemma apply_allowed:
  "\<forall>p\<in>set ips. prefix_ok p \<Longrightarrow>
    apply_settings B (map (\<lambda>(ip, c). (''allowed_ip'', show_ip ip @ ''/'' @ show_nat (unat c))) ips) ps =
      Some (ps\<lparr>ps_allowed_ips := ps_allowed_ips ps @ map to_allowed ips\<rparr>)"
proof (induction ips arbitrary: ps)
  case (Cons p ips)
  obtain ip c where p: "p = (ip, c)" by (cases p)
  have "peer_setting B ''allowed_ip'' (show_ip ip @ ''/'' @ show_nat (unat c)) ps =
      Some (Inr (ps\<lparr>ps_allowed_ips := ps_allowed_ips ps @ [to_allowed p]\<rparr>))"
    using allowed_ip_round_trip [of ip c] Cons.prems by (simp add: peer_setting_def p)
  then show ?case using Cons by (simp add: p)
qed simp

lemma apply_setting_pairs:
  assumes "hex_ok H" and "\<forall>k. psk = Some k \<longrightarrow> length k = 32" and "\<forall>a. addr = Some a \<longrightarrow> sock_ok a"
    and "\<forall>p\<in>set ips. prefix_ok p"
  shows "apply_settings B (setting_pairs H psk ka addr ips) (settings_new key) =
    Some \<lparr>ps_public_key = key, ps_remove = False, ps_replace_ips = False, ps_endpoint = addr,
      ps_allowed_ips = map to_allowed ips, ps_keepalive = ka, ps_preshared_key = psk\<rparr>"
proof -
  have psk: "apply_settings B (opt_pair ''preshared_key'' H psk) ps = Some (ps\<lparr>ps_preshared_key := psk\<rparr>)"
    if "ps_preshared_key ps = None" for ps
    using that assms(2) key_hex_round_trip [OF assms(1)] by (cases psk) (simp_all add: opt_pair_def peer_setting_def)
  have ka: "apply_settings B (opt_pair ''persistent_keepalive_interval'' (show_nat \<circ> unat) ka) ps = Some (ps\<lparr>ps_keepalive := ka\<rparr>)"
    if "ps_keepalive ps = None" for ps
    using that by (cases ka) (simp_all add: opt_pair_def peer_setting_def parse_unsigned_show)
  have addr: "apply_settings B (opt_pair ''endpoint'' show_sock addr) ps = Some (ps\<lparr>ps_endpoint := addr\<rparr>)"
    if "ps_endpoint ps = None" for ps
    using that assms(3) sock.parse_show by (cases addr) (simp_all add: opt_pair_def peer_setting_def)
  show ?thesis using apply_allowed [OF assms(4)]
    by (simp add: setting_pairs_def apply_settings_append psk ka addr settings_new_def)
qed

lemma plain_letters: "list_all plain ''abcdefghijklmnopqrstuvwxyz_/''"
  by (simp add: plain_def is_digit_def to_digit_def)

lemmas plain_letter [simp] = plain_letters [simplified]

lemma setting_pairs_plain:
  assumes "hex_ok H"
  shows "\<forall>(key, val)\<in>set (setting_pairs H psk ka addr ips). list_all plain key \<and> list_all plain val \<and> key \<noteq> ''public_key''"
proof -
  show ?thesis
    using plain_hex [OF assms] addr_char_plain [OF addr_show_sock] addr_char_plain [OF addr_show_ip] plain_radix [of 10]
    by (auto simp: setting_pairs_def opt_pair_def split: option.splits)
qed

lemma api_set_lines_peer:
  assumes "hex_ok H" and "length key = 32"
  shows "api_set_lines L X B E k (rd\<lparr>st_data := api_line ''public_key'' (H key) @ rest\<rparr>) d =
    api_set_peer L B E (Suc k) (rd\<lparr>st_data := rest\<rparr>) (settings_new key) d"
  using read_plain_line [of "''public_key''", OF _ plain_hex [OF assms(1)]] key_hex_round_trip [OF assms]
  by (subst api_set_lines.simps) simp

lemma api_set_peer_next:
  assumes "hex_ok H" and "length key = 32"
  shows "api_set_peer L B E k (rd\<lparr>st_data := api_line ''public_key'' (H key) @ rest\<rparr>) ps d =
    (case commit_peer L (E k) ps d of None \<Rightarrow> None
     | Some d' \<Rightarrow> api_set_peer L B E (Suc k) (rd\<lparr>st_data := rest\<rparr>) (ps\<lparr>ps_allowed_ips := [], ps_public_key := key\<rparr>) d')"
  using read_plain_line [of "''public_key''", OF _ plain_hex [OF assms(1)]] key_hex_round_trip [OF assms]
  by (subst api_set_peer.simps) (simp split: option.split)

lemma api_set_ready: "yield_notice d \<noteq> None \<Longrightarrow> api_set L X B E rd d = api_set_lines L X B E 0 rd d"
  by (auto simp: api_set_def)

lemma key_hex_pairs_error: "key_hex_pairs s is = Some (Inl e) \<Longrightarrow> e = ''Illegal character in key''"
proof (induction "is" arbitrary: e)
  case (Cons i "is")
  show ?case
  proof (cases "from_str_radix 16 256 (slice (i * 2) (i * 2 + 2) s)")
    case (Some b)
    then obtain r where "key_hex_pairs s is = Some r" "map_sum id ((#) (word_of_nat b :: u8)) r = Inl e"
      using Cons.prems by (auto split: if_splits)
    then show ?thesis using Cons.IH by (cases r) auto
  qed (use Cons.prems in \<open>auto split: if_splits\<close>)
qed simp

lemma key_hex_pairs_panic:
  assumes "key_hex_pairs s is = None" and "\<forall>i\<in>set is. i * 2 + 2 \<le> length s"
  shows "\<not> list_all (\<lambda>c. (of_char c :: nat) < 128) s"
proof
  assume ascii: "list_all (\<lambda>c. (of_char c :: nat) < 128) s"
  from assms show False
  proof (induction "is")
    case (Cons i "is")
    then have "char_boundary s (i * 2)" "char_boundary s (i * 2 + 2)" by (simp_all add: ascii_boundary [OF ascii])
    then show ?case using Cons by (auto split: option.splits)
  qed simp
qed

lemma key_from_str_outcome:
  "case key_from_str B s of
     Some (Inr k) \<Rightarrow> length k = 32
   | Some (Inl e) \<Rightarrow> e \<in> {''Illegal character in key'', ''Illegal key size''}
   | None \<Rightarrow> length s = 64 \<and> (\<exists>c\<in>set s. 128 \<le> (of_char c :: nat))"
proof (cases "length s = 64")
  case True
  obtain pairs where pairs: "pairs = [0..<32]" by blast
  have key: "key_from_str B s = key_hex_pairs s pairs" using True by (simp only: key_from_str_def pairs simp_thms if_True)
  have len: "length pairs = 32" "\<forall>i\<in>set pairs. i * 2 + 2 \<le> length s" using True by (simp_all only: pairs) auto
  show ?thesis
  proof (cases "key_hex_pairs s pairs")
    case None
    from key_hex_pairs_panic [OF this len(2)] True show ?thesis by (auto simp: key None list_all_iff not_less)
  next
    case (Some r)
    then show ?thesis using key_hex_pairs_length [of s pairs] key_hex_pairs_error [of s pairs] len(1)
      by (cases r) (simp_all add: key)
  qed
qed (auto simp: key_from_str_def split: option.split)

section \<open>Examples\<close>

lemma toy_yield: "yield_notice (toy_keyed cfg a) = Some 1"
proof -
  have "yield_notice (toy_new cfg) = Some 1"
    by (simp add: yield_notice_def toy_new_def device_new_def toy_lfsr(1) add_event_def new_event_def register_event_def Let_def
        toy_os_def register_notifiers_def register_timers_def new_notifier_def new_periodic_event_def device_init_def
        insert_at_def ctl_del_def poll_new_def notification_def)
  moreover have "d_poll (toy_keyed cfg a) = d_poll (toy_new cfg)" "d_yield_notice (toy_keyed cfg a) = d_yield_notice (toy_new cfg)"
    by (simp_all add: toy_keyed_eq(2))
  ultimately show ?thesis by (simp only: yield_notice_def)
qed

lemma toy_keyed_reach: "dev_reach toy_libs (toy_keyed cfg a)"
  using dev_reach.reach_set_key [OF dev_reach.reach_new [of toy_libs toy_os]] toy_new_eq [of cfg] toy_keyed_eq(1) [of a cfg] toy_le_def by metis

definition toy_hex :: "bytes \<Rightarrow> string" where
  "toy_hex bs = concat (map hex_byte bs)"

lemma toy_hex_ok: "hex_ok toy_hex"
  by (simp add: hex_ok_def toy_hex_def)

definition toy_api_env :: "nat \<Rightarrow> api_env" where
  "toy_api_env k = \<lparr>ae_stamper = stamper_new 5 epoch, ae_now = epoch, ae_limiter = toy_le\<rparr>"

section \<open>The properties\<close>



text \<open>C19 The settings of a peer that the device prints are read back: the lines that get prints of a peer's key, preshared key, keepalive, endpoint and prefixes, sent with set and ended by an empty line, make the device update the peer with this key and exactly these settings, and the answer is 0. This is the round trip of keys in hexadecimal, of numbers, and of IPv4 and IPv6 addresses in all their printed forms.\<close>

theorem printed_settings_read_back:
  assumes "hex_ok H" and "length key = 32" and "\<forall>k. psk = Some k \<longrightarrow> length k = 32" and "\<forall>a. addr = Some a \<longrightarrow> sock_ok a"
    and "\<forall>p\<in>set ips. prefix_ok p" and "yield_notice d \<noteq> None"
    and "e = E (Suc (length (setting_pairs H psk ka addr ips)))"
  shows "api_set L X B E (rd\<lparr>st_data := show_settings H key psk ka addr ips @ newline # rest\<rparr>) d =
    map_option (Pair 0) (update_peer L (ae_stamper e) (ae_now e) (ae_limiter e) key False False addr
      (map (\<lambda>p. \<lparr>ai_addr = fst p, ai_cidr = snd p\<rparr>) ips) ka psk d)"
proof -
  have "api_set L X B E (rd\<lparr>st_data := show_settings H key psk ka addr ips @ newline # rest\<rparr>) d =
      api_set_peer L B E (Suc 0) (rd\<lparr>st_data := api_lines (setting_pairs H psk ka addr ips) @ newline # rest\<rparr>) (settings_new key) d"
    using assms(6) by (simp add: api_set_ready show_settings_pairs api_set_lines_peer [OF assms(1,2)])
  also have "\<dots> = map_option (Pair 0) (commit_peer L e \<lparr>ps_public_key = key, ps_remove = False, ps_replace_ips = False,
      ps_endpoint = addr, ps_allowed_ips = map to_allowed ips, ps_keepalive = ka, ps_preshared_key = psk\<rparr> d)"
    by (simp only: api_set_peer_lines [OF setting_pairs_plain [OF assms(1)] apply_setting_pairs [OF assms(1,3-5)]]
        api_set_peer_end assms(7) plus_nat.add_Suc plus_nat.add_0)
  finally show ?thesis by (simp add: commit_peer_def)
qed

theorem printed_settings_read_back_witness:
  "\<exists>e :: api_env. api_set toy_libs toy_os (\<lambda>_. None) toy_api_env (\<lparr>st_data = [], st_fails = False\<rparr>\<lparr>st_data :=
        show_settings toy_hex (replicate 32 7) None (Some 25) (Some (SockV4 [10, 0, 0, 9] 51820)) [(V6 (replicate 16 0), 64)] @
        newline # []\<rparr>) (toy_keyed config_default [1]) =
    map_option (Pair 0) (update_peer toy_libs (ae_stamper e) (ae_now e) (ae_limiter e) (replicate 32 7) False False
      (Some (SockV4 [10, 0, 0, 9] 51820)) [\<lparr>ai_addr = V6 (replicate 16 0), ai_cidr = 64\<rparr>] (Some 25) None
      (toy_keyed config_default [1]))"
proof -
  let ?ips = "[(V6 (replicate 16 0), 64)] :: (ip_addr \<times> u8) list" and ?addr = "Some (SockV4 [10, 0, 0, 9] 51820)"
  obtain e where e: "e = toy_api_env (Suc (length (setting_pairs toy_hex None (Some 25) ?addr ?ips)))" by blast
  have "api_set toy_libs toy_os (\<lambda>_. None) toy_api_env (\<lparr>st_data = [], st_fails = False\<rparr>\<lparr>st_data :=
        show_settings toy_hex (replicate 32 7) None (Some 25) ?addr ?ips @ newline # []\<rparr>) (toy_keyed config_default [1]) =
    map_option (Pair 0) (update_peer toy_libs (ae_stamper e) (ae_now e) (ae_limiter e) (replicate 32 7) False False
      ?addr (map to_allowed ?ips) (Some 25) None (toy_keyed config_default [1]))"
    by (rule printed_settings_read_back [where E = toy_api_env, OF toy_hex_ok _ _ _ _ _ e]) (simp_all add: toy_yield)
  then show ?thesis by (intro exI [of _ e]) simp
qed

text \<open>C38 A key that is accepted has 32 bytes, and what is refused is refused with an error; the text that makes the parser panic is one of 64 bytes with a character that is not ASCII.\<close>

theorem accepted_keys_have_32_bytes:
  "case key_from_str B s of
     Some (Inr k) \<Rightarrow> length k = 32
   | Some (Inl e) \<Rightarrow> e \<in> {''Illegal character in key'', ''Illegal key size''}
   | None \<Rightarrow> length s = 64 \<and> (\<exists>c\<in>set s. 128 \<le> (of_char c :: nat))"
  by (rule key_from_str_outcome)

text \<open>A later section of a request inherits the settings of the one before it: of the settings only the prefixes are forgotten where a new key starts the next peer. So a request that removes one peer and then merely names a second one removes both.\<close>

theorem later_section_inherits_remove:
  assumes "hex_ok H" and "length k1 = 32" and "length k2 = 32" and "yield_notice d \<noteq> None"
  shows "\<exists>d'. api_set L X B E (rd\<lparr>st_data := api_line ''public_key'' (H k1) @ api_line ''remove'' ''true'' @
      api_line ''public_key'' (H k2) @ newline # rest\<rparr>) d = Some (0, d') \<and>
    d_peers d' = hm_remove k2 (hm_remove k1 (d_peers d))"
proof -
  have removed: "d_peers (remove_peer L k d) = hm_remove k (d_peers d)" for k d
  proof (cases "hm_get (d_peers d) k")
    case None
    then have "hm_remove k (d_peers d) = d_peers d" by (simp add: delete_idem map_of_eq_None_iff)
    with None show ?thesis by (simp add: remove_peer_def)
  qed (rule remove_peer_tables(1))
  have key: "ps_public_key (settings_new k1) = k1" by (simp add: settings_new_def)
  have flag: "peer_setting B ''remove'' ''true'' (settings_new k1) = Some (Inr ((settings_new k1)\<lparr>ps_remove := True\<rparr>))"
    by (simp add: peer_setting_def parse_bool_def)
  have "api_set L X B E (rd\<lparr>st_data := api_line ''public_key'' (H k1) @ api_line ''remove'' ''true'' @
      api_line ''public_key'' (H k2) @ newline # rest\<rparr>) d = Some (0, remove_peer L k2 (remove_peer L k1 d))"
    using assms(4)
    by (simp add: api_set_ready api_set_lines_peer [OF assms(1,2)] api_set_peer_line [OF _ _ _ flag] api_set_peer_next [OF assms(1,3)]
        api_set_peer_end commit_peer_def update_peer_def key)
  then show ?thesis by (simp add: removed)
qed

theorem later_section_inherits_remove_witness:
  "\<exists>d'. api_set toy_libs toy_os (\<lambda>_. None) toy_api_env (\<lparr>st_data = [], st_fails = False\<rparr>\<lparr>st_data :=
      api_line ''public_key'' (toy_hex (replicate 32 7)) @ api_line ''remove'' ''true'' @
      api_line ''public_key'' (toy_hex (replicate 32 9)) @ newline # []\<rparr>) (toy_keyed config_default [1]) = Some (0, d') \<and>
    d_peers d' = hm_remove (replicate 32 9) (hm_remove (replicate 32 7) (d_peers (toy_keyed config_default [1])))"
  by (rule later_section_inherits_remove [OF toy_hex_ok]) (simp_all add: toy_yield)

end
