(* ===== verification/Ctl_Text.thy ===== *)
theory Ctl_Text
  imports Text_Codecs
begin

text \<open>
  The texts that the control plane (src/nekolink-ctl/src/main.rs) works with beyond those of the
  device: trimming, lines, signed numbers, and keys in Base64. \<open>B\<close> is \<open>decode\<close> of the crate base64 in
  its standard alphabet with padding.
\<close>

section \<open>Trimming and lines\<close>

text \<open>\<open>trim_start_matches\<close> and \<open>trim_end_matches\<close> of one character, and \<open>rsplit_once\<close>.\<close>

definition trim_start_char :: "char \<Rightarrow> string \<Rightarrow> string" where
  "trim_start_char c s = dropWhile (\<lambda>x. x = c) s"

definition trim_end_char :: "char \<Rightarrow> string \<Rightarrow> string" where
  "trim_end_char c s = rev (dropWhile (\<lambda>x. x = c) (rev s))"

definition rsplit_once :: "char \<Rightarrow> string \<Rightarrow> (string \<times> string) option" where
  "rsplit_once sep s = map_option (\<lambda>(a, b). (rev b, rev a)) (split_once sep (rev s))"

text \<open>The white space of \<open>str::trim\<close>, as its UTF-8 bytes.\<close>

definition white :: "string list" where
  "white = map (map (char_of :: nat \<Rightarrow> char))
    ([[9], [10], [11], [12], [13], [32], [0xC2, 0x85], [0xC2, 0xA0], [0xE1, 0x9A, 0x80]] @
     map (\<lambda>b. [0xE2, 0x80, b]) ([0x80..<0x8B] @ [0xA8, 0xA9, 0xAF]) @ [[0xE2, 0x81, 0x9F], [0xE3, 0x80, 0x80]])"

definition starts_with :: "string \<Rightarrow> string \<Rightarrow> bool" where
  "starts_with p s \<longleftrightarrow> take (length p) s = p"

definition strip_prefix :: "string \<Rightarrow> string \<Rightarrow> string option" where
  "strip_prefix p s = (if starts_with p s then Some (drop (length p) s) else None)"

text \<open>Trimming takes at most as many steps as the text has bytes.\<close>

fun trim_front :: "string list \<Rightarrow> nat \<Rightarrow> string \<Rightarrow> string" where
  "trim_front ws 0 s = s"
| "trim_front ws (Suc n) s =
    (case find (\<lambda>w. starts_with w s) ws of Some w \<Rightarrow> trim_front ws n (drop (length w) s) | None \<Rightarrow> s)"

definition trim_end :: "string \<Rightarrow> string" where
  "trim_end s = rev (trim_front (map rev white) (length s) (rev s))"

definition trim :: "string \<Rightarrow> string" where
  "trim s = trim_end (trim_front white (length s) s)"

text \<open>\<open>str::lines\<close>: without the line ends, and without an empty line at the end.\<close>

fun text_lines_aux :: "string list \<Rightarrow> string list" where
  "text_lines_aux [] = []"
| "text_lines_aux [l] = (if l = [] then [] else [l])"
| "text_lines_aux (l # ls) = (if l \<noteq> [] \<and> last l = CHR 0x0D then butlast l else l) # text_lines_aux ls"

definition text_lines :: "string \<Rightarrow> string list" where
  "text_lines s = text_lines_aux (split_all newline s)"

text \<open>\<open>parse::<i32>\<close>.\<close>

definition parse_i32 :: "string \<Rightarrow> int option" where
  "parse_i32 s =
    (case s of
       c # ds \<Rightarrow>
         if c = CHR ''-'' then
           (if ds \<noteq> [] \<and> list_all (is_digit 10) ds \<and> digits_value 10 ds \<le> 2 ^ 31 then Some (- int (digits_value 10 ds)) else None)
         else map_option int (from_str_radix 10 (2 ^ 31) s)
     | [] \<Rightarrow> None)"

section \<open>Keys\<close>

text \<open>The padding is corrected when the key does not decode as it is.\<close>

definition decode_base64 :: "(string \<Rightarrow> bytes option) \<Rightarrow> string \<Rightarrow> bytes option" where
  "decode_base64 B s =
    (let s = trim s
     in case B s of
          Some b \<Rightarrow> Some b
        | None \<Rightarrow>
            (let padded = trim_end_char (CHR ''='') s
             in B (padded @ replicate ((4 - length padded mod 4) mod 4) (CHR ''=''))))"

definition base64_to_hex :: "(string \<Rightarrow> bytes option) \<Rightarrow> string \<Rightarrow> string" where
  "base64_to_hex B b64 = (case decode_base64 B b64 of Some bs \<Rightarrow> concat (map hex_byte bs) | None \<Rightarrow> b64)"

section \<open>Texts without white space at the ends\<close>

lemma white_codes: "white = map (map (char_of :: nat \<Rightarrow> char)) [[9], [10], [11], [12], [13], [32], [0xC2, 0x85], [0xC2, 0xA0],
    [0xE1, 0x9A, 0x80], [0xE2, 0x80, 0x80], [0xE2, 0x80, 0x81], [0xE2, 0x80, 0x82], [0xE2, 0x80, 0x83], [0xE2, 0x80, 0x84],
    [0xE2, 0x80, 0x85], [0xE2, 0x80, 0x86], [0xE2, 0x80, 0x87], [0xE2, 0x80, 0x88], [0xE2, 0x80, 0x89], [0xE2, 0x80, 0x8A],
    [0xE2, 0x80, 0xA8], [0xE2, 0x80, 0xA9], [0xE2, 0x80, 0xAF], [0xE2, 0x81, 0x9F], [0xE3, 0x80, 0x80]]"
  by (simp add: white_def upt_rec)

end
