(* ===== verification/Ctl_Mtu.thy ===== *)
theory Ctl_Mtu
  imports Ctl_Text
begin

text \<open>
  How the control plane (src/nekolink-ctl/src/main.rs) finds the mtu of an interface: the search for
  the largest packet that reaches a host, the overhead of the transport that is taken off, the cache
  of the answers, and the agreement with the mtu that a peer asks for. What the sockets and the
  program ping answer are parameters; lengths are unsigned words of 16 bits and wrap around.
\<close>

section \<open>Searching the mtu of a path\<close>

text \<open>The kernel's answer for the connected socket, if there is one; it is cut to 16 bits.\<close>

definition perform_tcp_mtu_probe :: "(string \<Rightarrow> int option) \<Rightarrow> string \<Rightarrow> u16 option" where
  "perform_tcp_mtu_probe ip_mtu host =
    (case ip_mtu host of
       Some mtu \<Rightarrow> if mtu > 0 then Some (word_of_int mtu) else None
     | None \<Rightarrow> None)"

text \<open>The loop between \<open>low\<close> and \<open>high\<close>, which on words need not end.\<close>

partial_function (option) mtu_search :: "(u16 \<Rightarrow> bool) \<Rightarrow> u16 \<Rightarrow> u16 \<Rightarrow> u16 \<Rightarrow> u16 option" where
  "mtu_search ping low high best =
    (if low \<le> high then
       (let mid = (low + high) div 2
        in if ping (mid - 28) then mtu_search ping (mid + 1) high mid
           else mtu_search ping low (mid - 1) best)
     else Some best)"

declare mtu_search.simps [code]

definition perform_mtu_probe :: "(string \<Rightarrow> u16 option) \<Rightarrow> (string \<Rightarrow> u16 \<Rightarrow> bool) \<Rightarrow> string \<Rightarrow> u16 option" where
  "perform_mtu_probe udp_mtu ping host =
    (case udp_mtu host of
       Some mtu \<Rightarrow>
         if mtu \<ge> 576 \<and> mtu \<le> 1500 then Some mtu
         else if ping host (1500 - 28) then Some 1500
         else mtu_search (ping host) 576 1500 1280
     | None \<Rightarrow>
         if ping host (1500 - 28) then Some 1500
         else mtu_search (ping host) 576 1500 1280)"

section \<open>The mtu inside of the tunnel\<close>

text \<open>The host of an endpoint.\<close>

definition endpoint_host :: "string \<Rightarrow> string" where
  "endpoint_host endpoint =
    (case parse_with read_sock endpoint of
       Some addr \<Rightarrow> show_ip (sock_ip addr)
     | None \<Rightarrow>
         (case rsplit_once (CHR '':'') endpoint of
            Some (host, _) \<Rightarrow> trim_end_char (CHR '']'') (trim_start_char (CHR ''['') host)
          | None \<Rightarrow> endpoint))"

definition host_is_ipv6 :: "string \<Rightarrow> bool" where
  "host_is_ipv6 host \<longleftrightarrow> CHR '':'' \<in> set host \<or> parse_with read_ipv6 host \<noteq> None"

text \<open>What the transport takes of a packet.\<close>

definition tunnel_overhead :: "string \<Rightarrow> bool \<Rightarrow> u16" where
  "tunnel_overhead mode is_ipv6 =
    (let ip_header_size = (if is_ipv6 then 40 else 20)
     in if mode = ''fake-tcp'' then 84
        else if mode = ''ip'' then ip_header_size + 32
        else if mode = ''tcp'' \<or> mode = ''mullvad-tcp'' then ip_header_size + 20 + 2 + 32
        else ip_header_size + 8 + 32)"

text \<open>\<open>now\<close> is the reading of the clock for the age of an entry, \<open>later\<close> that for a new one.\<close>

type_synonym mtu_cache = "(string \<times> (u16 \<times> instant)) list"

definition get_auto_mtu ::
    "(string \<Rightarrow> u16 option) \<Rightarrow> (string \<Rightarrow> u16 option) \<Rightarrow> instant \<Rightarrow> instant \<Rightarrow> string \<Rightarrow> string \<Rightarrow> mtu_cache \<Rightarrow> u16 \<times> mtu_cache" where
  "get_auto_mtu tcp_probe probe now later endpoint mode cache =
    (let fresh =
       (let host = endpoint_host endpoint;
            pmtu = (if mode = ''tcp'' \<or> mode = ''mullvad-tcp'' then
                      (case tcp_probe host of Some v \<Rightarrow> v | None \<Rightarrow> (case probe host of Some v \<Rightarrow> v | None \<Rightarrow> 1500))
                    else (case probe host of Some v \<Rightarrow> v | None \<Rightarrow> 1500));
            recommended = pmtu - tunnel_overhead mode (host_is_ipv6 host)
        in (recommended, AList.update endpoint (recommended, later) cache))
     in case map_of cache endpoint of
          Some (mtu, timestamp) \<Rightarrow> if duration_since now timestamp < secs 3600 then (mtu, cache) else fresh
        | None \<Rightarrow> fresh)"

section \<open>Agreement with a peer\<close>

text \<open>
  \<open>iface_mtu\<close> is the mtu that the interface reports, if it can be read. The result is the mtu that the
  interface is set to, if one is.
\<close>

definition sync_mtu_if_needed :: "u16 option \<Rightarrow> u16 \<Rightarrow> u16 option \<Rightarrow> u16 option" where
  "sync_mtu_if_needed iface_mtu peer_mtu probed_mtu =
    (let current_mtu = (case iface_mtu of Some m \<Rightarrow> m | None \<Rightarrow> 1420);
         target_mtu = (case probed_mtu of Some p \<Rightarrow> min p peer_mtu | None \<Rightarrow> peer_mtu)
     in if target_mtu < 1280 then None
        else if current_mtu \<noteq> target_mtu then Some target_mtu else None)"

text \<open>The command that only reports: its overheads are those of the headers without the tunnel's own 32 bytes.\<close>

definition probe_mtu_cmd :: "(string \<Rightarrow> u16 option) \<Rightarrow> (string \<Rightarrow> u16 option) \<Rightarrow> string \<Rightarrow> string \<Rightarrow> u16 \<times> u16" where
  "probe_mtu_cmd tcp_probe probe endpoint mode =
    (let host = takeWhile (\<lambda>c. c \<noteq> CHR '':'') endpoint;
         pmtu = (if mode = ''tcp'' \<or> mode = ''mullvad-tcp'' then
                   (case tcp_probe host of Some v \<Rightarrow> v | None \<Rightarrow> (case probe host of Some v \<Rightarrow> v | None \<Rightarrow> 1500))
                 else (case probe host of Some v \<Rightarrow> v | None \<Rightarrow> 1500));
         overhead = (if mode = ''ip'' then 20 else if mode = ''tcp'' then 20 + 20 + 2 else 20 + 8)
     in (pmtu, pmtu - overhead))"

section \<open>The search finds the mtu\<close>

text \<open>A path of mtu \<open>p\<close> lets through the pings of which the packet, with 28 bytes of headers, is not larger.\<close>

lemma mtu_search_finds:
  assumes "\<And>s. ping s \<longleftrightarrow> unat s + 28 \<le> p" and "576 \<le> unat low" and "unat high \<le> 1500"
    and "unat low \<le> p + 1 \<or> unat low = 576" and "p \<le> unat high"
    and "unat low \<le> unat high + 1" and "576 < unat low \<Longrightarrow> unat best = unat low - 1"
  shows "mtu_search ping low high best = Some (if unat low \<le> p then word_of_nat p else best)"
  using assms
proof (induction "unat high + 1 - unat low" arbitrary: low high best rule: less_induct)
  case less
  show ?case
  proof (cases "low \<le> high")
    case False
    then have "\<not> unat low \<le> p" using less.prems by (simp add: word_le_nat_alt)
    with False show ?thesis by (subst mtu_search.simps) simp
  next
    case True
    obtain mid where mid: "mid = (low + high) div 2" by blast
    have le: "unat low \<le> unat high" using True by (simp add: word_le_nat_alt)
    have "unat (low + high) = unat low + unat high" using less.prems(3) le by (simp add: unat_plus_small)
    then have m: "unat mid = (unat low + unat high) div 2" by (simp add: mid unat_div)
    have b: "unat low \<le> unat mid" "unat mid \<le> unat high" "576 \<le> unat mid" "unat mid \<le> 1500" using le less.prems m by auto
    have m28: "unat (mid - 28) = unat mid - 28" using b by (simp add: unat_minus_le word_le_nat_alt)
    have up: "unat (mid + 1) = unat mid + 1" using b by (simp add: unat_plus_small)
    have down: "unat (mid - 1) = unat mid - 1" using b by (simp add: unat_minus_le word_le_nat_alt)
    show ?thesis
    proof (cases "ping (mid - 28)")
      case True
      then have p: "unat mid \<le> p" using less.prems(1) m28 b by simp
      have "mtu_search ping (mid + 1) high mid = Some (if unat (mid + 1) \<le> p then word_of_nat p else mid)"
        by (rule less.hyps) (use less.prems p b up in auto)
      moreover have "mid = word_of_nat p" if "\<not> unat (mid + 1) \<le> p"
      proof -
        have "unat mid = p" using that p up by simp
        then show ?thesis by auto
      qed
      ultimately have "mtu_search ping (mid + 1) high mid = Some (word_of_nat p)" by auto
      then show ?thesis using \<open>low \<le> high\<close> True p b
        by (subst mtu_search.simps) (simp add: mid [symmetric] Let_def)
    next
      case False
      then have p: "p < unat mid" using less.prems(1) m28 b by simp
      have "mtu_search ping low (mid - 1) best = Some (if unat low \<le> p then word_of_nat p else best)"
        by (rule less.hyps) (use less.prems p b down in auto)
      then show ?thesis using \<open>low \<le> high\<close> False
        by (subst mtu_search.simps) (simp add: mid [symmetric] Let_def)
    qed
  qed
qed

text \<open>C27 The search finds the mtu of the path and ends: if a ping reaches the host exactly when its packet is not larger than the path's mtu, and the kernel knows no mtu between 576 and 1500, then the result is this mtu, 1500 for a larger one, and 1280 where not even a packet of 576 bytes gets through.\<close>

theorem mtu_probe_exact:
  assumes "\<And>s. ping host s \<longleftrightarrow> unat s + 28 \<le> p"
    and "case udp_mtu host of Some m \<Rightarrow> m < 576 \<or> 1500 < m | None \<Rightarrow> True"
  shows "perform_mtu_probe udp_mtu ping host = Some (if p < 576 then 1280 else if 1500 \<le> p then 1500 else word_of_nat p)"
proof -
  have whole: "ping host (1500 - 28) \<longleftrightarrow> 1500 \<le> p" by (simp add: assms(1))
  have search: "mtu_search (ping host) 576 1500 1280 = Some (if 576 \<le> p then word_of_nat p else 1280)" if "p < 1500"
    using mtu_search_finds [of "ping host" p 576 1500 1280] assms(1) that by simp
  have "perform_mtu_probe udp_mtu ping host =
      (if ping host (1500 - 28) then Some 1500 else mtu_search (ping host) 576 1500 1280)"
    using assms(2) by (auto simp: perform_mtu_probe_def split: option.splits)
  then show ?thesis using whole search by auto
qed

theorem mtu_probe_exact_witness:
  "perform_mtu_probe (\<lambda>_. None) (\<lambda>_ s. unat s + 28 \<le> 1380) ''peer'' = Some 1380"
  using mtu_probe_exact [of "\<lambda>_ s. unat s + 28 \<le> 1380" "''peer''" 1380 "\<lambda>_. None"] by simp

text \<open>A cached mtu is given for every transport: the cache is asked by the endpoint only, so within an hour of the first answer the same mtu is given whatever the mode and whatever the path is like by then, also where the other mode takes more of a packet.\<close>

theorem mtu_cached_across_modes:
  assumes "map_of cache endpoint = None" and "get_auto_mtu tcp1 probe1 now1 later1 endpoint mode1 cache = (mtu, cache')"
    and "duration_since now2 later1 < secs 3600"
  shows "get_auto_mtu tcp2 probe2 now2 later2 endpoint mode2 cache' = (mtu, cache')"
proof -
  have "cache' = AList.update endpoint (mtu, later1) cache" using assms(1,2) by (auto simp: get_auto_mtu_def Let_def)
  then have "map_of cache' endpoint = Some (mtu, later1)" by (simp add: update_conv')
  then show ?thesis using assms(3) by (simp add: get_auto_mtu_def)
qed

theorem mtu_cached_across_modes_witness:
  "\<exists>mtu cache. get_auto_mtu (\<lambda>_. None) (\<lambda>_. Some 1500) epoch epoch ''10.0.0.1'' ''udp'' [] = (mtu, cache) \<and>
    get_auto_mtu (\<lambda>_. None) (\<lambda>_. Some 1500) epoch epoch ''10.0.0.1'' ''tcp'' cache = (mtu, cache)"
proof -
  obtain mtu cache where first: "get_auto_mtu (\<lambda>_. None) (\<lambda>_. Some 1500) epoch epoch ''10.0.0.1'' ''udp'' [] = (mtu, cache)"
    by fastforce
  have "duration_since epoch epoch < secs 3600" by (simp add: duration_since_def checked_duration_since_def epoch_def)
  with mtu_cached_across_modes [OF _ first this] first show ?thesis by auto
qed

end
