(* ===== verification/Ctl_Config.thy ===== *)
theory Ctl_Config
  imports Ctl_Mtu
begin

text \<open>
  The configuration of the control plane (src/nekolink-ctl/src/main.rs) as it is read from the files
  of the interfaces, and the resolution of names to addresses with its cache. Reading the files,
  the resolver of the system, and the query that is sent through a tunnel are parameters.
\<close>

section \<open>Configuration\<close>

datatype ctl_error =
  Io_Error
| Timed_Out
| Malformed
| Empty_Lookup
| Unsupported
| Uapi_Error int

record peer_config =
  pc_endpoint :: string
  pc_public_key :: "string option"
  pc_preshared_key :: "string option"
  pc_allowed_ips :: "string option"
  pc_persistent_keepalive :: "u16 option"
  pc_signal_port :: "u16 option"

record global_config =
  gc_signal_port :: u16
  gc_loopback_interface :: "string option"
  gc_loopback_address :: "string option"
  gc_device_id :: "string option"

definition global_default :: global_config where
  "global_default =
    \<lparr>gc_signal_port = 12580, gc_loopback_interface = None, gc_loopback_address = None, gc_device_id = None\<rparr>"

record neko_config =
  nc_interface :: string
  nc_mode :: string
  nc_ip_protocol :: "u8 option"
  nc_local_address :: string
  nc_psk :: string
  nc_peers :: "peer_config list"
  nc_listen_port :: "u16 option"
  nc_auto_route :: bool
  nc_persistent_keepalive :: "u16 option"
  nc_mtu :: "u16 option"
  nc_clamp_mss :: bool
  nc_mullvad_tcp_port :: u16
  nc_native_wg_compat :: bool
  nc_private_key :: "string option"
  nc_use_multi_queue :: bool
  nc_socks5_port :: "u16 option"
  nc_enable_udp_gro :: bool
  nc_signal_port :: "u16 option"
  nc_prefer_ipv6 :: bool
  nc_socks5_listen_local :: bool
  nc_socks5_listen_loopback :: bool
  nc_socks5_bind_addr :: "string option"

text \<open>The state of an interface, but for the process of its sidecar.\<close>

record neko_state =
  ns_config :: neko_config
  ns_priv_b64 :: string
  ns_pub_key :: bytes
  ns_global :: global_config

text \<open>What \<open>serde\<close> fills in for the fields that a file leaves out, given those it must have.\<close>

definition config_fill :: "string \<Rightarrow> string \<Rightarrow> string \<Rightarrow> peer_config list \<Rightarrow> neko_config" where
  "config_fill interface local_address psk peers =
    \<lparr>nc_interface = interface, nc_mode = ''udp'', nc_ip_protocol = None, nc_local_address = local_address, nc_psk = psk,
     nc_peers = peers, nc_listen_port = None, nc_auto_route = False, nc_persistent_keepalive = None, nc_mtu = None,
     nc_clamp_mss = False, nc_mullvad_tcp_port = 12581, nc_native_wg_compat = False, nc_private_key = None,
     nc_use_multi_queue = False, nc_socks5_port = None, nc_enable_udp_gro = True, nc_signal_port = None,
     nc_prefer_ipv6 = False, nc_socks5_listen_local = True, nc_socks5_listen_loopback = False, nc_socks5_bind_addr = None\<rparr>"

text \<open>An interface without an endpoint to call is that of a server; one is enough for the signalling to listen on its port.\<close>

definition is_server :: "neko_config \<Rightarrow> bool" where
  "is_server cfg \<longleftrightarrow> nc_peers cfg = [] \<or> list_all (\<lambda>p. pc_endpoint p = []) (nc_peers cfg)"

definition listen_signal_port :: "global_config \<Rightarrow> neko_config list \<Rightarrow> u16" where
  "listen_signal_port global configs = (if list_ex is_server configs then gc_signal_port global else 0)"

section \<open>Resolving names\<close>

text \<open>\<open>lookup\<close> is the answer of the system for a name.\<close>

definition resolve_with_preference :: "(string \<Rightarrow> ip_addr list option) \<Rightarrow> string \<Rightarrow> bool \<Rightarrow> ctl_error + ip_addr" where
  "resolve_with_preference lookup host prefer_ipv6 =
    (case lookup host of
       None \<Rightarrow> Inl Io_Error
     | Some addrs \<Rightarrow>
         if addrs = [] then Inl Empty_Lookup
         else case find (\<lambda>ip. is_v6 ip = prefer_ipv6) addrs of
           Some ip \<Rightarrow> Inr ip
         | None \<Rightarrow> Inr (hd addrs))"

text \<open>\<open>tunnel\<close> is the answer of the server that is asked through an interface.\<close>

type_synonym dns_cache = "(string \<times> (ip_addr \<times> instant)) list"

definition resolve_dns ::
    "(string \<Rightarrow> string \<Rightarrow> ip_addr option) \<Rightarrow> (string \<Rightarrow> ip_addr list option) \<Rightarrow> instant \<Rightarrow> instant \<Rightarrow> string \<Rightarrow> string option \<Rightarrow>
      bool \<Rightarrow> dns_cache \<Rightarrow> (ctl_error + ip_addr) \<times> dns_cache" where
  "resolve_dns tunnel lookup now later host interface prefer_ipv6 cache =
    (let fresh =
       (let found =
          (case interface of
             Some iface \<Rightarrow>
               (case tunnel host iface of
                  Some ip \<Rightarrow> Inr ip
                | None \<Rightarrow> resolve_with_preference lookup host prefer_ipv6)
           | None \<Rightarrow> resolve_with_preference lookup host prefer_ipv6)
        in case found of
             Inl e \<Rightarrow> (Inl e, cache)
           | Inr addr \<Rightarrow> (Inr addr, AList.update host (addr, later) cache))
     in case map_of cache host of
          Some (ip, timestamp) \<Rightarrow> if duration_since now timestamp < secs 300 then (Inr ip, cache) else fresh
        | None \<Rightarrow> fresh)"

fun set_port :: "u16 \<Rightarrow> sock_addr \<Rightarrow> sock_addr" where
  "set_port port (SockV4 a _) = SockV4 a port"
| "set_port port (SockV6 a _ flow scope) = SockV6 a port flow scope"

text \<open>\<open>dns\<close> resolves a name that is no address, with the caches it keeps in \<open>s\<close>.\<close>

definition resolve_endpoint_with_port ::
    "(string \<Rightarrow> 's \<Rightarrow> (ctl_error + ip_addr) \<times> 's) \<Rightarrow> string \<Rightarrow> u16 \<Rightarrow> 's \<Rightarrow> (ctl_error + sock_addr) \<times> 's" where
  "resolve_endpoint_with_port dns endpoint port s =
    (case parse_with read_sock endpoint of
       Some sa \<Rightarrow> (Inr (set_port port sa), s)
     | None \<Rightarrow>
         (case parse_with read_ip endpoint of
            Some ip \<Rightarrow> (Inr (sock_new ip port), s)
          | None \<Rightarrow> apfst (map_sum id (\<lambda>ip. sock_new ip port)) (dns endpoint s)))"

section \<open>What is resolved\<close>

lemma resolve_with_preference_from:
  "resolve_with_preference lookup host prefer = Inr ip \<Longrightarrow> \<exists>addrs. lookup host = Some addrs \<and> ip \<in> set addrs \<and>
    (is_v6 ip \<noteq> prefer \<longrightarrow> (\<forall>a\<in>set addrs. is_v6 a \<noteq> prefer))"
  by (auto simp: resolve_with_preference_def find_None_iff find_Some_iff split: option.splits if_splits)

lemma resolve_endpoint_printed:
  assumes "sock_ok addr"
  shows "resolve_endpoint_with_port dns (show_sock addr) port s = (Inr (set_port port addr), s)"
  using sock.parse_show [OF assms] by (simp add: resolve_endpoint_with_port_def)

text \<open>
  An answer is kept for five minutes whoever asked for it: also for the other preference, and for a
  question that is to be asked through the tunnel while the answer came from the system.
\<close>

lemma resolve_dns_kept:
  assumes "map_of cache host = None" and "resolve_dns tunnel1 lookup1 now1 later1 host iface1 prefer1 cache = (Inr ip, cache')"
    and "duration_since now2 later1 < secs 300"
  shows "resolve_dns tunnel2 lookup2 now2 later2 host iface2 prefer2 cache' = (Inr ip, cache')"
proof -
  have "cache' = AList.update host (ip, later1) cache"
    using assms(1,2) by (auto simp: resolve_dns_def Let_def split: option.splits sum.splits)
  then have "map_of cache' host = Some (ip, later1)" by (simp add: update_conv')
  then show ?thesis using assms(3) by (simp add: resolve_dns_def)
qed

end
