(* ===== verification/Ctl_Peer.thy ===== *)
theory Ctl_Peer
  imports Ctl_Config Uapi
begin

text \<open>
  How the control plane (src/nekolink-ctl/src/main.rs) talks to the devices: requests over their
  sockets, the replies, and \<open>configure_peer\<close> with the cache of the endpoints it has configured. The
  devices, the interfaces of the system and the sidecar programs are the world \<open>'w\<close>; what it answers
  are the fields of \<open>ctl_env\<close>. The lock around the configuration of a peer is held from the look at
  the cache to the end, so that the calls happen one after the other.
\<close>

section \<open>The state and the world\<close>

text \<open>
  \<open>ce_uapi\<close> connects to the socket of an interface, sends a text and gives the reply as it can be
  read; \<open>None\<close> when connecting or sending fails. \<open>ce_lookup\<close> is \<open>lookup_host\<close>, \<open>ce_iface_mtu\<close> and
  \<open>ce_set_mtu\<close> read and set the mtu of an interface, \<open>ce_spawn\<close> starts a program in place of the
  sidecar that runs, and the last fields are what the probes, the resolvers and the clock give.
\<close>

record 'w ctl_env =
  ce_uapi :: "string \<Rightarrow> string \<Rightarrow> 'w \<Rightarrow> stream option \<times> 'w"
  ce_lookup :: "string \<Rightarrow> 'w \<Rightarrow> sock_addr list option"
  ce_iface_mtu :: "string \<Rightarrow> 'w \<Rightarrow> u16 option"
  ce_set_mtu :: "u16 \<Rightarrow> string \<Rightarrow> 'w \<Rightarrow> 'w"
  ce_spawn :: "string list \<Rightarrow> 'w \<Rightarrow> 'w"
  ce_tcp_mtu :: "string \<Rightarrow> 'w \<Rightarrow> int option"
  ce_udp_mtu :: "string \<Rightarrow> 'w \<Rightarrow> u16 option"
  ce_ping :: "string \<Rightarrow> u16 \<Rightarrow> 'w \<Rightarrow> bool"
  ce_tunnel_dns :: "string \<Rightarrow> string \<Rightarrow> 'w \<Rightarrow> ip_addr option"
  ce_system_dns :: "string \<Rightarrow> 'w \<Rightarrow> ip_addr list option"
  ce_now :: "'w \<Rightarrow> instant"
  ce_later :: "'w \<Rightarrow> instant"

text \<open>\<open>PEER_CACHE\<close>, \<open>PROBED_MTU_CACHE\<close> and \<open>DNS_CACHE\<close>.\<close>

record 'w ctl =
  ct_peers :: "string \<times> string \<Rightarrow> string option"
  ct_mtus :: mtu_cache
  ct_dns :: dns_cache
  ct_world :: 'w

section \<open>Requests\<close>

text \<open>The reply to a request that sets: lines up to the one with the error number.\<close>

function uapi_result :: "stream \<Rightarrow> ctl_error + unit" where
  "uapi_result rd =
    (case read_line rd of
       None \<Rightarrow> Inl Io_Error
     | Some (line, rd') \<Rightarrow>
         if line = [] then Inr ()
         else case strip_prefix ''errno='' line of
           None \<Rightarrow> uapi_result rd'
         | Some stripped \<Rightarrow>
             (case parse_i32 (trim stripped) of
                None \<Rightarrow> Inl Malformed
              | Some errno \<Rightarrow> if errno \<noteq> 0 then Inl (Uapi_Error errno) else Inr ()))"
  by pat_completeness auto

lemma read_line_less:
  assumes "read_line rd = Some (line, rd')" and "line \<noteq> []"
  shows "length (st_data rd') < length (st_data rd)"
  using read_line_rest [OF assms(1)] assms(2) by (cases "st_data rd") auto

termination uapi_result
  by (relation "measure (\<lambda>rd. length (st_data rd))") (auto dest: read_line_less)

declare uapi_result.simps [simp del]

definition send_uapi :: "'w ctl_env \<Rightarrow> string \<Rightarrow> string \<Rightarrow> 'w \<Rightarrow> (ctl_error + unit) \<times> 'w" where
  "send_uapi V interface commands w =
    (case ce_uapi V interface commands w of
       (None, w) \<Rightarrow> (Inl Io_Error, w)
     | (Some rd, w) \<Rightarrow> (uapi_result rd, w))"

abbreviation (input) get_request :: string where
  "get_request \<equiv> ''get=1'' @ [newline] @ [newline]"

text \<open>The reply to a request that gets, each line behind two spaces.\<close>

function uapi_info :: "stream \<Rightarrow> (ctl_error + string)" where
  "uapi_info rd =
    (case read_line rd of
       None \<Rightarrow> Inl Io_Error
     | Some (line, rd') \<Rightarrow>
         if line = [] \<or> line = [newline] then Inr []
         else map_sum id (\<lambda>response. ''  '' @ line @ response) (uapi_info rd'))"
  by pat_completeness auto
termination
  by (relation "measure (\<lambda>rd. length (st_data rd))") (auto dest: read_line_less)

declare uapi_info.simps [simp del]

definition get_uapi_info :: "'w ctl_env \<Rightarrow> string \<Rightarrow> 'w \<Rightarrow> (ctl_error + string) \<times> 'w" where
  "get_uapi_info V interface w =
    (case ce_uapi V interface get_request w of
       (None, w) \<Rightarrow> (Inl Io_Error, w)
     | (Some rd, w) \<Rightarrow> (uapi_info rd, w))"

text \<open>
  The port of a device; an error while reading leaves what was read if it is text.
\<close>

definition get_actual_listen_port :: "'w ctl_env \<Rightarrow> string \<Rightarrow> 'w \<Rightarrow> u16 option \<times> 'w" where
  "get_actual_listen_port V interface w =
    (case ce_uapi V interface get_request w of
       (None, w) \<Rightarrow> (None, w)
     | (Some rd, w) \<Rightarrow>
         (case find (starts_with ''listen_port='') (text_lines (if utf8_valid (st_data rd) then st_data rd else [])) of
            Some line \<Rightarrow> (parse_unsigned (trim (drop (length ''listen_port='') line)), w)
          | None \<Rightarrow> (None, w)))"

text \<open>
  The peers of which the last handshake is at most 150 seconds ago, for the seconds \<open>now\<close> since the
  start of 1970.
\<close>

fun established_lines :: "u64 \<Rightarrow> string list \<Rightarrow> string \<Rightarrow> string set \<Rightarrow> string set" where
  "established_lines now [] current_peer established = established"
| "established_lines now (l # ls) current_peer established =
    (let line = trim l
     in if starts_with ''public_key='' line then
          established_lines now ls (drop (length ''public_key='') line) established
        else if starts_with ''last_handshake_time_sec='' line then
          (case (parse_unsigned (drop (length ''last_handshake_time_sec='') line) :: u64 option) of
             Some sec \<Rightarrow>
               established_lines now ls current_peer
                 (if sec > 0 \<and> now > sec \<and> now - sec < 150 then insert current_peer established else established)
           | None \<Rightarrow> established_lines now ls current_peer established)
        else established_lines now ls current_peer established)"

definition get_established_peers :: "'w ctl_env \<Rightarrow> u64 \<Rightarrow> string \<Rightarrow> 'w \<Rightarrow> string set \<times> 'w" where
  "get_established_peers V now interface w =
    (case get_uapi_info V interface w of
       (Inr info, w) \<Rightarrow> (established_lines now (text_lines info) [] {}, w)
     | (Inl _, w) \<Rightarrow> ({}, w))"

section \<open>Names and the mtu of an interface\<close>

definition ctl_resolve :: "'w ctl_env \<Rightarrow> string option \<Rightarrow> bool \<Rightarrow> string \<Rightarrow> 'w ctl \<Rightarrow> (ctl_error + ip_addr) \<times> 'w ctl" where
  "ctl_resolve V interface prefer_ipv6 host c =
    (let w = ct_world c;
         (r, dns) = resolve_dns (\<lambda>host iface. ce_tunnel_dns V host iface w) (\<lambda>host. ce_system_dns V host w) (ce_now V w) (ce_later V w)
           host interface prefer_ipv6 (ct_dns c)
     in (r, c\<lparr>ct_dns := dns\<rparr>))"

definition iface_mtu :: "'w ctl_env \<Rightarrow> string \<Rightarrow> 'w \<Rightarrow> u16" where
  "iface_mtu V interface w = (case ce_iface_mtu V interface w of Some m \<Rightarrow> m | None \<Rightarrow> 1420)"

definition auto_mtu :: "'w ctl_env \<Rightarrow> string \<Rightarrow> string \<Rightarrow> 'w ctl \<Rightarrow> u16 \<times> 'w ctl" where
  "auto_mtu V endpoint mode c =
    (let w = ct_world c;
         (mtu, mtus) = get_auto_mtu (perform_tcp_mtu_probe (\<lambda>host. ce_tcp_mtu V host w))
           (perform_mtu_probe (\<lambda>host. ce_udp_mtu V host w) (\<lambda>host size. ce_ping V host size w))
           (ce_now V w) (ce_later V w) endpoint mode (ct_mtus c)
     in (mtu, c\<lparr>ct_mtus := mtus\<rparr>))"

definition sync_mtu :: "'w ctl_env \<Rightarrow> string \<Rightarrow> u16 \<Rightarrow> u16 option \<Rightarrow> 'w ctl \<Rightarrow> 'w ctl" where
  "sync_mtu V interface peer_mtu probed_mtu c =
    (case sync_mtu_if_needed (ce_iface_mtu V interface (ct_world c)) peer_mtu probed_mtu of
       Some m \<Rightarrow> c\<lparr>ct_world := ce_set_mtu V m interface (ct_world c)\<rparr>
     | None \<Rightarrow> c)"

section \<open>Configuring a peer\<close>

definition peer_remove_cmd :: "string \<Rightarrow> string" where
  "peer_remove_cmd key = api_line ''set'' ''1'' @ api_line ''public_key'' key @ api_line ''remove'' ''true'' @ [newline]"

definition peer_add_cmd :: "string \<Rightarrow> string \<Rightarrow> u16 option \<Rightarrow> string" where
  "peer_add_cmd key endpoint keepalive =
    api_line ''set'' ''1'' @ api_line ''public_key'' key @ api_line ''allowed_ip'' ''0.0.0.0/0'' @ api_line ''allowed_ip'' ''::/0'' @
    api_line ''endpoint'' endpoint @ opt_line ''persistent_keepalive_interval'' (show_nat \<circ> unat) keepalive @ [newline]"

text \<open>The first address of a name, or the text as it is.\<close>

definition lookup_endpoint :: "'w ctl_env \<Rightarrow> string \<Rightarrow> 'w \<Rightarrow> string" where
  "lookup_endpoint V endpoint w = (case ce_lookup V endpoint w of Some (a # _) \<Rightarrow> show_sock a | _ \<Rightarrow> endpoint)"

text \<open>
  In the mode \<open>mullvad-tcp\<close> the endpoint becomes that of a local program, which the client starts; its
  port is the one after the device's, on 16 bits.
\<close>

definition bridge_endpoint :: "'w ctl_env \<Rightarrow> string \<Rightarrow> string \<Rightarrow> bool \<Rightarrow> string \<Rightarrow> 'w \<Rightarrow> string \<times> 'w" where
  "bridge_endpoint V interface mode client endpoint w =
    (if mode = ''mullvad-tcp'' \<and> endpoint \<noteq> [] \<and> \<not> starts_with ''127.0.0.1'' endpoint then
       (let (port, w) = get_actual_listen_port V interface w;
            bridge = ''127.0.0.1:'' @ show_nat (unat ((case port of Some p \<Rightarrow> p | None \<Rightarrow> 51820) + 1));
            w = (if client then ce_spawn V [''udp2tcp'', ''--udp-listen'', bridge, ''--tcp-forward'', endpoint] w else w)
        in (bridge, w))
     else (endpoint, w))"

text \<open>
  The mtu is agreed on when it is left to be found, and otherwise only lowered to that of the peer.
\<close>

definition adopt_mtu :: "'w ctl_env \<Rightarrow> string \<Rightarrow> u16 option \<Rightarrow> bool \<Rightarrow> string \<Rightarrow> string \<Rightarrow> 'w ctl \<Rightarrow> 'w ctl" where
  "adopt_mtu V interface peer_mtu auto_sync_mtu probe_address mode c =
    (case peer_mtu of
       None \<Rightarrow> c
     | Some m \<Rightarrow>
         if auto_sync_mtu then
           (let (probed, c) = auto_mtu V probe_address mode c in sync_mtu V interface m (Some probed) c)
         else if m < iface_mtu V interface (ct_world c) then sync_mtu V interface m None c
         else c)"

definition configure_peer ::
    "'w ctl_env \<Rightarrow> (string \<Rightarrow> bytes option) \<Rightarrow> string \<Rightarrow> string \<Rightarrow> string \<Rightarrow> u16 option \<Rightarrow> u16 option \<Rightarrow> bool \<Rightarrow> string \<Rightarrow> bool \<Rightarrow>
      'w ctl \<Rightarrow> (ctl_error + unit) \<times> 'w ctl" where
  "configure_peer V B interface peer_pub_key endpoint keepalive peer_mtu auto_sync_mtu mode client c =
    (let original = (if endpoint = [] then endpoint else lookup_endpoint V endpoint (ct_world c));
         (endpoint, w) = bridge_endpoint V interface mode client original (ct_world c);
         c = c\<lparr>ct_world := w\<rparr>;
         probe_address = (if starts_with ''127.0.0.1'' endpoint then original else endpoint)
     in if ct_peers c (interface, peer_pub_key) = Some endpoint then (Inr (), c)
        else
          (let key = base64_to_hex B peer_pub_key;
               (_, w) = send_uapi V interface (peer_remove_cmd key) (ct_world c);
               (result, w) = send_uapi V interface (peer_add_cmd key endpoint keepalive) w;
               c = c\<lparr>ct_world := w\<rparr>
           in case result of
                Inl e \<Rightarrow> (Inl e, c)
              | Inr _ \<Rightarrow>
                  (Inr (), adopt_mtu V interface peer_mtu auto_sync_mtu probe_address mode
                    (c\<lparr>ct_peers := (ct_peers c)((interface, peer_pub_key) \<mapsto> endpoint)\<rparr>))))"

text \<open>The cache forgets an interface that is stopped.\<close>

definition cleanup_interface_state :: "string \<Rightarrow> 'w ctl \<Rightarrow> 'w ctl" where
  "cleanup_interface_state interface c =
    c\<lparr>ct_peers := \<lambda>(iface, key). if iface = interface then None else ct_peers c (iface, key)\<rparr>"

section \<open>Starting an interface\<close>

text \<open>The key and the port of a device that was started.\<close>

definition private_key_cmd :: "(string \<Rightarrow> bytes option) \<Rightarrow> neko_state \<Rightarrow> string" where
  "private_key_cmd B st =
    api_line ''set'' ''1'' @ api_line ''private_key'' (base64_to_hex B (ns_priv_b64 st)) @
    opt_line ''listen_port'' (show_nat \<circ> unat) (nc_listen_port (ns_config st)) @ [newline]"

text \<open>The peers that are named by the file, in the mode without signalling.\<close>

definition native_peer_cmd :: "'w ctl_env \<Rightarrow> (string \<Rightarrow> bytes option) \<Rightarrow> u16 option \<Rightarrow> peer_config \<Rightarrow> string \<Rightarrow> 'w \<Rightarrow> string" where
  "native_peer_cmd V B default_keepalive p pub_key w =
    (let allowed_ips = (case pc_allowed_ips p of Some ips \<Rightarrow> ips | None \<Rightarrow> ''0.0.0.0/0, ::/0'');
         keepalive = (case pc_persistent_keepalive p of Some k \<Rightarrow> Some k | None \<Rightarrow> default_keepalive)
     in api_line ''set'' ''1'' @ api_line ''public_key'' (base64_to_hex B pub_key) @
        concat (map (api_line ''allowed_ip'') (filter (\<lambda>ip. ip \<noteq> []) (map trim (split_all (CHR '','') allowed_ips)))) @
        (if pc_endpoint p = [] then [] else api_line ''endpoint'' (lookup_endpoint V (pc_endpoint p) w)) @
        opt_line ''persistent_keepalive_interval'' (show_nat \<circ> unat) keepalive @
        opt_line ''preshared_key'' (base64_to_hex B) (pc_preshared_key p) @ [newline])"

fun configure_native_peers ::
    "'w ctl_env \<Rightarrow> (string \<Rightarrow> bytes option) \<Rightarrow> neko_config \<Rightarrow> peer_config list \<Rightarrow> 'w \<Rightarrow> 'w" where
  "configure_native_peers V B cfg [] w = w"
| "configure_native_peers V B cfg (p # ps) w =
    (case pc_public_key p of
       None \<Rightarrow> configure_native_peers V B cfg ps w
     | Some pub_key \<Rightarrow>
         configure_native_peers V B cfg ps
           (snd (send_uapi V (nc_interface cfg)
             (native_peer_cmd V B (nc_persistent_keepalive cfg) p pub_key w) w)))"

text \<open>The arguments of the program that runs the device.\<close>

definition cli_args :: "neko_config \<Rightarrow> string list" where
  "cli_args cfg =
    [''-f'', nc_interface cfg, ''--disable-drop-privileges''] @
    (if nc_mode cfg = ''ip'' then
       (case nc_ip_protocol cfg of Some proto \<Rightarrow> [''--ip-protocol'', show_nat (unat proto)] | None \<Rightarrow> []) @
       (if nc_use_multi_queue cfg then [] else [''--disable-multi-queue''])
     else []) @
    (if nc_enable_udp_gro cfg then [] else [''--disable-udp-gro'']) @
    (if nc_mode cfg = ''tcp'' \<or> nc_mode cfg = ''mullvad-tcp'' then [''--tcp''] else [])"

text \<open>\<open>None\<close> and 0 start with 1420.\<close>

definition start_mtu :: "neko_config \<Rightarrow> u16" where
  "start_mtu cfg = (case nc_mtu cfg of Some m \<Rightarrow> if m = 0 then 1420 else m | None \<Rightarrow> 1420)"

definition local_addresses :: "neko_config \<Rightarrow> string list" where
  "local_addresses cfg = filter (\<lambda>s. s \<noteq> []) (map trim (split_all (CHR '','') (nc_local_address cfg)))"

section \<open>Endpoints that are known\<close>

lemma configure_known:
  assumes "mode \<noteq> ''mullvad-tcp''" and "ct_peers c (interface, pub) = Some (if ep = [] then ep else lookup_endpoint V ep (ct_world c))"
  shows "configure_peer V B interface pub ep keepalive peer_mtu auto mode client c = (Inr (), c)"
  using assms by (simp add: configure_peer_def bridge_endpoint_def)

lemma configure_new:
  assumes "mode \<noteq> ''mullvad-tcp''" and "endpoint = (if ep = [] then ep else lookup_endpoint V ep (ct_world c))"
    and "ct_peers c (interface, pub) \<noteq> Some endpoint" and "key = base64_to_hex B pub"
    and "send_uapi V interface (peer_remove_cmd key) (ct_world c) = (removed, w1)"
    and "send_uapi V interface (peer_add_cmd key endpoint keepalive) w1 = (result, w2)"
  shows "configure_peer V B interface pub ep keepalive peer_mtu auto mode client c =
    (case result of
       Inl e \<Rightarrow> (Inl e, c\<lparr>ct_world := w2\<rparr>)
     | Inr _ \<Rightarrow> (Inr (), adopt_mtu V interface peer_mtu auto endpoint mode
         (c\<lparr>ct_world := w2, ct_peers := (ct_peers c)((interface, pub) \<mapsto> endpoint)\<rparr>)))"
  using assms(1,3,5,6)
  by (simp add: configure_peer_def bridge_endpoint_def assms(2) [symmetric] assms(4) [symmetric] split: sum.split)

lemma adopt_mtu_keeps:
  assumes "\<And>m i w. ce_set_mtu V m i w = w"
  shows "\<exists>mtus. adopt_mtu V interface peer_mtu auto probe mode c = c\<lparr>ct_mtus := mtus\<rparr>"
proof -
  have sync: "sync_mtu V i m p c' = c'" for i m p c' by (simp add: sync_mtu_def assms split: option.split)
  have "\<exists>mtus. snd (auto_mtu V a md c) = c\<lparr>ct_mtus := mtus\<rparr>" for a md
    by (auto simp: auto_mtu_def Let_def split: prod.split)
  then obtain mtus where "snd (auto_mtu V probe mode c) = c\<lparr>ct_mtus := mtus\<rparr>" by blast
  moreover have "\<exists>mtus. c = c\<lparr>ct_mtus := mtus\<rparr>" by (rule exI [of _ "ct_mtus c"]) simp
  ultimately show ?thesis by (auto simp: adopt_mtu_def sync case_prod_beta split: option.split)
qed

lemma adopt_mtu_peers: "ct_peers (adopt_mtu V interface peer_mtu auto probe mode c) = ct_peers c"
  by (auto simp: adopt_mtu_def sync_mtu_def auto_mtu_def Let_def split: option.split prod.split)

text \<open>A world for examples, where nothing can be probed.\<close>

definition toy_ctl_env ::
    "(string \<Rightarrow> string \<Rightarrow> 'w \<Rightarrow> stream option \<times> 'w) \<Rightarrow> (string \<Rightarrow> sock_addr list option) \<Rightarrow> 'w ctl_env" where
  "toy_ctl_env uapi lookup =
    \<lparr>ce_uapi = uapi, ce_lookup = (\<lambda>host _. lookup host), ce_iface_mtu = (\<lambda>_ _. None), ce_set_mtu = (\<lambda>_ _ w. w),
     ce_spawn = (\<lambda>_ w. w), ce_tcp_mtu = (\<lambda>_ _. None), ce_udp_mtu = (\<lambda>_ _. None), ce_ping = (\<lambda>_ _ _. False),
     ce_tunnel_dns = (\<lambda>_ _ _. None), ce_system_dns = (\<lambda>_ _. None),
     ce_now = (\<lambda>_. epoch), ce_later = (\<lambda>_. epoch)\<rparr>"

text \<open>The world counts the requests; a socket that takes all of them, and one that takes the first only.\<close>

definition toy_socket :: "string \<Rightarrow> string \<Rightarrow> nat \<Rightarrow> stream option \<times> nat" where
  "toy_socket iface commands n = (Some \<lparr>st_data = [], st_fails = False\<rparr>, Suc n)"

definition toy_socket_once :: "string \<Rightarrow> string \<Rightarrow> nat \<Rightarrow> stream option \<times> nat" where
  "toy_socket_once iface commands n = (if n = 0 then Some \<lparr>st_data = [], st_fails = False\<rparr> else None, Suc n)"

lemma uapi_result_end: "uapi_result \<lparr>st_data = [], st_fails = False\<rparr> = Inr ()"
  by (subst uapi_result.simps) (simp add: read_line_def)

section \<open>Properties\<close>

text \<open>Configuring is done once: after a call that succeeded, a call for the same peer whose endpoint resolves as before changes nothing and sends nothing, whatever keepalive and mtu the peer announces by then.\<close>

theorem configure_peer_once:
  assumes "configure_peer V B interface pub ep keepalive peer_mtu auto mode client c = (Inr (), c')" and "mode \<noteq> ''mullvad-tcp''"
    and "lookup_endpoint V ep (ct_world c') = lookup_endpoint V ep (ct_world c)"
  shows "configure_peer V B interface pub ep keepalive' peer_mtu' auto' mode client' c' = (Inr (), c')"
proof -
  obtain endpoint where endpoint: "endpoint = (if ep = [] then ep else lookup_endpoint V ep (ct_world c))" by blast
  have "ct_peers c' (interface, pub) = Some endpoint"
  proof (cases "ct_peers c (interface, pub) = Some endpoint")
    case True
    then show ?thesis using assms(1) configure_known [OF assms(2) True [unfolded endpoint]] by simp
  next
    case False
    obtain removed w1 result w2 where "send_uapi V interface (peer_remove_cmd (base64_to_hex B pub)) (ct_world c) = (removed, w1)"
      "send_uapi V interface (peer_add_cmd (base64_to_hex B pub) endpoint keepalive) w1 = (result, w2)" by fastforce
    from assms(1) configure_new [OF assms(2) endpoint False refl this] show ?thesis
      by (auto simp: adopt_mtu_peers split: sum.splits)
  qed
  then show ?thesis using assms(3) by (intro configure_known [OF assms(2)]) (simp add: endpoint)
qed

theorem configure_peer_once_witness:
  "\<exists>c'. configure_peer (toy_ctl_env toy_socket (\<lambda>_. None)) (\<lambda>_. None)
      ''wg0'' ''key'' ''10.0.0.9:1'' None None False ''udp'' True \<lparr>ct_peers = Map.empty, ct_mtus = [], ct_dns = [], ct_world = 0\<rparr> = (Inr (), c') \<and>
    configure_peer (toy_ctl_env toy_socket (\<lambda>_. None)) (\<lambda>_. None)
      ''wg0'' ''key'' ''10.0.0.9:1'' (Some 25) (Some 1280) False ''udp'' True c' = (Inr (), c') \<and> ct_world c' = 2"
proof -
  let ?V = "toy_ctl_env toy_socket (\<lambda>_. None)"
  let ?c = "\<lparr>ct_peers = Map.empty, ct_mtus = [], ct_dns = [], ct_world = 0 :: nat\<rparr>"
  have look: "lookup_endpoint ?V ''10.0.0.9:1'' w = ''10.0.0.9:1''" for w by (simp add: lookup_endpoint_def toy_ctl_env_def)
  obtain key where key: "base64_to_hex (\<lambda>_. None) ''key'' = key" by blast
  have sent: "send_uapi ?V i cmd n = (Inr (), Suc n)" for i cmd n
    by (simp add: send_uapi_def toy_ctl_env_def toy_socket_def uapi_result_end)
  have first: "\<exists>c'. configure_peer ?V (\<lambda>_. None) ''wg0'' ''key'' ''10.0.0.9:1'' None None False ''udp'' True ?c = (Inr (), c') \<and> ct_world c' = 2"
    by (simp add: configure_peer_def bridge_endpoint_def look key sent adopt_mtu_def)
  then show ?thesis using configure_peer_once [OF _ _ trans [OF look look [symmetric]]] by fastforce
qed

text \<open>C37 A failure on a new endpoint loses the peer: when the second request of a call fails, its first one has already removed the peer from the device while the former endpoint stays in the cache, so that the next call for the former endpoint is answered with success and sends nothing.\<close>

theorem configure_failure_loses_peer:
  assumes "ct_peers c (interface, pub) = Some (lookup_endpoint V ep (ct_world c'))" and "ep \<noteq> []" and "mode \<noteq> ''mullvad-tcp''"
    and "configure_peer V B interface pub ep' keepalive peer_mtu auto mode client c = (Inl e, c')"
  shows "configure_peer V B interface pub ep keepalive' peer_mtu' auto' mode client' c' = (Inr (), c') \<and>
    (\<exists>w1. w1 = snd (send_uapi V interface (peer_remove_cmd (base64_to_hex B pub)) (ct_world c)) \<and>
      ct_world c' = snd (ce_uapi V interface (peer_add_cmd (base64_to_hex B pub)
        (if ep' = [] then ep' else lookup_endpoint V ep' (ct_world c)) keepalive) w1))"
proof -
  obtain endpoint where endpoint: "endpoint = (if ep' = [] then ep' else lookup_endpoint V ep' (ct_world c))" by blast
  have new: "ct_peers c (interface, pub) \<noteq> Some endpoint"
  proof
    assume "ct_peers c (interface, pub) = Some endpoint"
    from configure_known [OF assms(3) this [unfolded endpoint]] assms(4) show False by simp
  qed
  obtain removed w1 result w2 where sent: "send_uapi V interface (peer_remove_cmd (base64_to_hex B pub)) (ct_world c) = (removed, w1)"
    "send_uapi V interface (peer_add_cmd (base64_to_hex B pub) endpoint keepalive) w1 = (result, w2)" by fastforce
  have c': "c' = c\<lparr>ct_world := w2\<rparr>" using assms(4) configure_new [OF assms(3) endpoint new refl sent] by (auto split: sum.splits)
  have "w2 = snd (ce_uapi V interface (peer_add_cmd (base64_to_hex B pub) endpoint keepalive) w1)"
    using sent(2) by (auto simp: send_uapi_def split: prod.splits option.splits)
  then show ?thesis using sent(1) configure_known [OF assms(3), of c' interface pub ep V B keepalive' peer_mtu' auto' client'] assms(1,2)
    by (simp add: c' endpoint)
qed

theorem configure_failure_loses_peer_witness:
  "\<exists>c'. configure_peer (toy_ctl_env toy_socket_once (\<lambda>_. None))
      (\<lambda>_. None) ''wg0'' ''key'' ''10.0.0.10:1'' None None False ''udp'' True
      \<lparr>ct_peers = [(''wg0'', ''key'') \<mapsto> ''10.0.0.9:1''], ct_mtus = [], ct_dns = [], ct_world = 0\<rparr> = (Inl Io_Error, c') \<and>
    configure_peer (toy_ctl_env toy_socket_once (\<lambda>_. None))
      (\<lambda>_. None) ''wg0'' ''key'' ''10.0.0.9:1'' None None False ''udp'' True c' = (Inr (), c')"
proof -
  let ?V = "toy_ctl_env toy_socket_once (\<lambda>_. None)"
  let ?c = "\<lparr>ct_peers = [(''wg0'', ''key'') \<mapsto> ''10.0.0.9:1''], ct_mtus = [], ct_dns = [], ct_world = 0 :: nat\<rparr>"
  have look: "lookup_endpoint ?V ep w = ep" for ep w by (simp add: lookup_endpoint_def toy_ctl_env_def)
  obtain key where key: "base64_to_hex (\<lambda>_. None) ''key'' = key" by blast
  have sent: "send_uapi ?V i cmd n = (if n = 0 then Inr () else Inl Io_Error, Suc n)" for i cmd n
    by (simp add: send_uapi_def toy_ctl_env_def toy_socket_once_def uapi_result_end)
  have "\<exists>c'. configure_peer ?V (\<lambda>_. None) ''wg0'' ''key'' ''10.0.0.10:1'' None None False ''udp'' True ?c = (Inl Io_Error, c')"
    by (simp add: configure_peer_def bridge_endpoint_def look key sent)
  then obtain c' where failed: "configure_peer ?V (\<lambda>_. None) ''wg0'' ''key'' ''10.0.0.10:1'' None None False ''udp'' True ?c = (Inl Io_Error, c')"
    by blast
  have "ct_peers ?c (''wg0'', ''key'') = Some (lookup_endpoint ?V ''10.0.0.9:1'' (ct_world c'))" by (simp add: look)
  from conjunct1 [OF configure_failure_loses_peer [OF this _ _ failed]] failed show ?thesis by auto
qed

end
