(* ===== verification/Ctl_Device.thy ===== *)
theory Ctl_Device
  imports Ctl_Peer Uapi_Properties
begin

text \<open>
  The control plane and the device together: what \<open>configure_peer\<close> and the questions about a device
  come to when the socket is that of a device of this program (theory \<open>Uapi\<close>).
\<close>

section \<open>Lines without white space at the ends\<close>

definition inky :: "char \<Rightarrow> bool" where
  "inky c \<longleftrightarrow> 33 \<le> (of_char c :: nat) \<and> (of_char c :: nat) \<le> 126"

lemma digit_inky: "is_digit 36 c \<Longrightarrow> inky c"
  by (auto simp: inky_def is_digit_def to_digit_def Let_def split: if_splits)

lemma plain_inky: "plain c \<Longrightarrow> inky c"
  using digit_inky [of c] by (auto simp: plain_def inky_def)

lemma white_not_inky: "w \<in> set white \<Longrightarrow> w \<noteq> [] \<and> \<not> inky (hd w) \<and> \<not> inky (last w)"
  by (auto simp: white_codes inky_def)

lemma find_none: "(\<And>w. w \<in> set ws \<Longrightarrow> w \<noteq> [] \<and> hd w \<noteq> c) \<Longrightarrow> find (\<lambda>w. starts_with w (c # s)) ws = None"
  by (fastforce simp: find_None_iff starts_with_def neq_Nil_conv)

lemma trim_front_stop: "(\<And>w. w \<in> set ws \<Longrightarrow> w \<noteq> [] \<and> hd w \<noteq> hd s) \<Longrightarrow> s \<noteq> [] \<Longrightarrow> trim_front ws n s = s"
  by (cases n; cases s) (simp_all add: find_none)

lemma trim_front_inky: "s \<noteq> [] \<Longrightarrow> inky (hd s) \<Longrightarrow> trim_front white n s = s"
  by (rule trim_front_stop) (metis white_not_inky)+

lemma trim_front_back: "s \<noteq> [] \<Longrightarrow> inky (last s) \<Longrightarrow> trim_front (map rev white) n (rev s) = rev s"
  by (rule trim_front_stop) (use white_not_inky in \<open>auto simp: hd_rev, metis\<close>)

lemma is_char_of: "c = char_of n \<longleftrightarrow> (of_char c :: nat) = n mod 256"
  by (metis char_of_eq_iff take_bit_eq_mod [of 8 n, simplified])

lemma of_char_is: "char_of n = c \<longleftrightarrow> (of_char c :: nat) = n mod 256"
  by (metis is_char_of)

lemma find_space: "find (\<lambda>w. starts_with w (CHR '' '' # s)) white = Some [CHR '' '']"
  by (simp add: white_codes starts_with_def is_char_of of_char_is)

lemma find_newline: "find (\<lambda>w. starts_with w (newline # s)) (map rev white) = Some [newline]"
  by (simp add: white_codes starts_with_def is_char_of of_char_is)

lemma trim_front_space: "trim_front white (Suc n) (CHR '' '' # s) = trim_front white n s"
  by (simp add: find_space)

lemma trim_front_newline: "trim_front (map rev white) (Suc n) (newline # s) = trim_front (map rev white) n s"
  by (simp add: find_newline)

lemma trim_indented:
  assumes "s \<noteq> []" "inky (hd s)" "inky (last s)"
  shows "trim (''  '' @ s) = s"
  using trim_front_inky [OF assms(1,2)] trim_front_back [OF assms(1,3)]
  by (simp add: trim_def trim_front_space trim_end_def del: trim_front.simps)

lemma trim_newline:
  assumes "s \<noteq> []" "inky (hd s)" "inky (last s)"
  shows "trim (s @ [newline]) = s"
  using trim_front_inky [of "s @ [newline]"] trim_front_back [OF assms(1,3)] assms
  by (simp add: trim_def trim_end_def trim_front_newline del: trim_front.simps)

lemma split_lines:
  "\<forall>l\<in>set ls. newline \<notin> set l \<Longrightarrow> split_all newline (concat (map (\<lambda>l. l @ [newline]) ls)) = ls @ [[]]"
proof (induction ls)
  case (Cons l ls)
  have "newline \<notin> set l \<Longrightarrow> split_all newline (l @ newline # s) = l # split_all newline s" for s
    by (induction l) auto
  with Cons show ?case by simp
qed simp

lemma text_lines_indented:
  assumes "\<forall>l\<in>set ls. newline \<notin> set l \<and> l \<noteq> [] \<and> inky (last l)"
  shows "text_lines (concat (map (\<lambda>l. ''  '' @ l @ [newline]) ls)) = map ((@) ''  '') ls"
proof -
  have "split_all newline (concat (map (\<lambda>l. l @ [newline]) (map ((@) ''  '') ls))) = map ((@) ''  '') ls @ [[]]"
    by (rule split_lines) (use assms in auto)
  moreover have "\<forall>l\<in>set ls. l \<noteq> [] \<and> last l \<noteq> CHR 0x0D" using assms by (auto simp: inky_def)
  then have "text_lines_aux (map ((@) ''  '') ls @ [[]]) = map ((@) ''  '') ls"
  proof (induction ls)
    case (Cons l ls)
    then show ?case by (cases ls) auto
  qed simp
  ultimately show ?thesis by (simp add: text_lines_def comp_def)
qed

section \<open>The reply to a request that sets\<close>

abbreviation reply_text :: "nat \<Rightarrow> string" where
  "reply_text n \<equiv> api_line ''errno'' (show_nat n) @ [newline]"

lemma show_nat_inky: "show_nat n \<noteq> []" "inky (hd (show_nat n))" "inky (last (show_nat n))" "list_all plain (show_nat n)"
proof -
  note d = show_radix_digits [of 10 n, simplified] and p = plain_radix [of 10 n, simplified]
  show "show_nat n \<noteq> []" "list_all plain (show_nat n)" using d p by simp_all
  then show "inky (hd (show_nat n))" "inky (last (show_nat n))" using plain_inky by (auto simp: list_all_iff)
qed

lemma parse_i32_show: "n < 2 ^ 31 \<Longrightarrow> parse_i32 (show_nat n) = Some (int n)"
proof -
  assume n: "n < 2 ^ 31"
  obtain c cs where c: "show_nat n = c # cs" using show_nat_inky(1) by (cases "show_nat n") auto
  have "\<not> is_digit 10 (CHR ''-'')" by (simp add: is_digit_def to_digit_def)
  then have "c \<noteq> CHR ''-''" using show_radix_digits [of 10 n, simplified] by (auto simp: c)
  then show ?thesis using from_str_radix_show [of 10 n "2 ^ 31"] n by (simp add: parse_i32_def c)
qed

lemma uapi_result_reply:
  assumes "n < 2 ^ 31"
  shows "uapi_result \<lparr>st_data = reply_text n, st_fails = False\<rparr> = (if n = 0 then Inr () else Inl (Uapi_Error (int n)))"
proof -
  have "read_line \<lparr>st_data = reply_text n, st_fails = False\<rparr> =
      Some (''errno='' @ show_nat n @ [newline], \<lparr>st_data = [newline], st_fails = False\<rparr>)"
    using read_plain_line(1) [of "''errno''" "show_nat n" "[newline]" "\<lparr>st_data = [], st_fails = False\<rparr>"] show_nat_inky(4) [of n]
    by (simp add: plain_def is_digit_def to_digit_def)
  moreover have "trim (show_nat n @ [newline]) = show_nat n" by (rule trim_newline) (rule show_nat_inky)+
  ultimately show ?thesis using parse_i32_show [OF assms]
    by (subst uapi_result.simps) (simp add: strip_prefix_def starts_with_def)
qed

section \<open>A device behind the socket\<close>

text \<open>
  The world of one device that serves the interface \<open>iface\<close>: the number of connections so far, of
  which the device's readings depend, and the device, which is gone once its thread has panicked.
\<close>

type_synonym ('t, 'u) device_world = "nat \<times> ('t, 'u) device option"

definition device_uapi ::
    "('n, 't, 'u) libs \<Rightarrow> os \<Rightarrow> (bytes \<Rightarrow> string) \<Rightarrow> (string \<Rightarrow> bytes option) \<Rightarrow> (nat \<Rightarrow> nat \<Rightarrow> api_env) \<Rightarrow> (nat \<Rightarrow> instant) \<Rightarrow> string \<Rightarrow>
      string \<Rightarrow> string \<Rightarrow> ('t, 'u) device_world \<Rightarrow> stream option \<times> ('t, 'u) device_world" where
  "device_uapi L X H B Es nows iface name commands w =
    (case w of
       (n, Some d) \<Rightarrow>
         if name = iface then
           (case api_handler L X H B (Es n) (nows n) (Some \<lparr>st_data = commands, st_fails = False\<rparr>) d of
              Some (_, reply, d') \<Rightarrow> (Some \<lparr>st_data = reply, st_fails = False\<rparr>, Suc n, Some d')
            | None \<Rightarrow> (Some \<lparr>st_data = [], st_fails = False\<rparr>, Suc n, None))
         else (None, w)
     | (n, None) \<Rightarrow> (None, w))"

lemma plain_others: "list_all plain ''01:.''"
  by (simp add: plain_def is_digit_def to_digit_def)

lemmas plain_other [simp] = plain_others [simplified]

text \<open>A request that sets one peer.\<close>

lemma handler_set_peer:
  assumes "hex_ok K" "length key = 32" "yield_notice d \<noteq> None"
    and "\<forall>(k, v)\<in>set kvs. list_all plain k \<and> list_all plain v \<and> k \<noteq> ''public_key''"
    and "apply_settings B kvs (settings_new key) = Some ps"
  shows "api_handler L X H B E now (Some \<lparr>st_data = api_line ''set'' ''1'' @ api_line ''public_key'' (K key) @ api_lines kvs @ [newline],
      st_fails = False\<rparr>) d =
    map_option (\<lambda>d'. (Continue, reply_text 0, d')) (commit_peer L (E (Suc (length kvs))) ps d)"
proof -
  obtain T where T: "T = api_line ''public_key'' (K key) @ api_lines kvs @ [newline]" by blast
  obtain e :: stream where e: "e = \<lparr>st_data = [], st_fails = False\<rparr>" by blast
  have rd: "\<lparr>st_data = s, st_fails = False\<rparr> = e\<lparr>st_data := s\<rparr>" for s by (simp add: e)
  have set: "api_set L X B E (e\<lparr>st_data := T\<rparr>) d = map_option (Pair 0) (commit_peer L (E (Suc (length kvs))) ps d)"
    by (simp only: T api_set_ready [OF assms(3)] api_set_lines_peer [OF assms(1,2)] api_set_peer_lines [OF assms(4,5)] api_set_peer_end
        plus_nat.add_Suc plus_nat.add_0)
  have "read_line (e\<lparr>st_data := api_line ''set'' ''1'' @ T\<rparr>) = Some (''set=1'' @ [newline], e\<lparr>st_data := T\<rparr>)"
    and "str_pop (''set=1'' @ [newline]) = ''set=1''"
    using read_plain_line(1) [of "''set''" "''1''" T e] read_plain_line(2) [of "''set''" "''1''"] by simp_all
  then have "api_handler L X H B E now (Some (e\<lparr>st_data := api_line ''set'' ''1'' @ T\<rparr>)) d =
      map_option (Pair Continue) (api_reply L X H B E now ''set=1'' (e\<lparr>st_data := T\<rparr>) d)"
    by (simp only: api_handler_def option.case prod.case)
  also have "\<dots> = map_option (\<lambda>d'. (Continue, reply_text 0, d')) (commit_peer L (E (Suc (length kvs))) ps d)"
    by (cases "commit_peer L (E (Suc (length kvs))) ps d") (simp_all add: api_reply_def set del: stream.update_convs)
  finally show ?thesis by (simp only: rd T)
qed

section \<open>Configuring a peer of a device\<close>

abbreviation everything :: "(ip_addr \<times> u8) list" where
  "everything \<equiv> [(V4 (replicate 4 0), 0), (V6 (replicate 16 0), 0)]"

lemma replicate_eval: "replicate (numeral k) x = x # replicate (pred_numeral k) x"
  by (simp add: numeral_eq_Suc)

lemma any_v4: "show_ip (V4 (replicate 4 0)) @ ''/'' @ show_nat (unat (0 :: u8)) = ''0.0.0.0/0''"
  by (simp add: show_ipv4_def replicate_eval show_radix.simps [of 10 0] from_digit_def of_char_is)

lemma any_v6: "show_ip (V6 (replicate 16 0)) @ ''/'' @ show_nat (unat (0 :: u8)) = ''::/0''"
  by (simp add: show_ipv6_def replicate_eval show_radix.simps [of 10 0] from_digit_def show_groups_def be_val_def of_char_is)

lemma peer_add_pairs:
  "peer_add_cmd key endpoint keepalive = api_line ''set'' ''1'' @ api_line ''public_key'' key @
    api_lines (map (\<lambda>(ip, c). (''allowed_ip'', show_ip ip @ ''/'' @ show_nat (unat c))) everything @ (''endpoint'', endpoint) #
      opt_pair ''persistent_keepalive_interval'' (show_nat \<circ> unat) keepalive) @ [newline]"
  by (simp only: peer_add_cmd_def map_append list.map prod.case concat_append concat.simps api_lines_opt any_v4 [unfolded append_Cons append_Nil]
      any_v6 [unfolded append_Cons append_Nil] append_assoc
      append_Nil append_Cons append_Nil2)

lemma apply_add:
  assumes "sock_ok addr"
  shows "apply_settings B (map (\<lambda>(ip, c). (''allowed_ip'', show_ip ip @ ''/'' @ show_nat (unat c))) everything @ (''endpoint'', show_sock addr) #
      opt_pair ''persistent_keepalive_interval'' (show_nat \<circ> unat) keepalive) (settings_new key) =
    Some \<lparr>ps_public_key = key, ps_remove = False, ps_replace_ips = False, ps_endpoint = Some addr,
      ps_allowed_ips = map to_allowed everything, ps_keepalive = keepalive, ps_preshared_key = None\<rparr>"
  using apply_allowed [of everything B "settings_new key"] sock.parse_show [OF assms]
  by (cases keepalive)
    (simp_all add: apply_settings_append peer_setting_def opt_pair_def parse_unsigned_show settings_new_def del: list.map)

lemma remove_request:
  assumes "length key = 32" "yield_notice d \<noteq> None"
  shows "api_handler L X H B E now (Some \<lparr>st_data = peer_remove_cmd (toy_hex key), st_fails = False\<rparr>) d =
    Some (Continue, reply_text 0, remove_peer L key d)"
proof -
  have "apply_settings B [(''remove'', ''true'')] (settings_new key) = Some ((settings_new key)\<lparr>ps_remove := True\<rparr>)"
    by (simp add: peer_setting_def parse_bool_def)
  from handler_set_peer [OF toy_hex_ok assms _ this, of L X H E now] show ?thesis
    by (simp add: peer_remove_cmd_def commit_peer_def update_peer_def settings_new_def)
qed

lemma add_request:
  assumes "length key = 32" "yield_notice d \<noteq> None" "sock_ok addr" and "k = (if keepalive = None then 4 else 5)"
  shows "api_handler L X H B E now (Some \<lparr>st_data = peer_add_cmd (toy_hex key) (show_sock addr) keepalive, st_fails = False\<rparr>) d =
    map_option (\<lambda>d'. (Continue, reply_text 0, d'))
      (update_peer L (ae_stamper (E k)) (ae_now (E k)) (ae_limiter (E k)) key False False (Some addr) (map to_allowed everything) keepalive None d)"
proof -
  let ?kvs = "map (\<lambda>(ip, c). (''allowed_ip'', show_ip ip @ ''/'' @ show_nat (unat c))) everything @ (''endpoint'', show_sock addr) #
    opt_pair ''persistent_keepalive_interval'' (show_nat \<circ> unat) keepalive"
  have "\<forall>(key, val)\<in>set ?kvs. list_all plain key \<and> list_all plain val \<and> key \<noteq> ''public_key''"
    using addr_char_plain [OF addr_show_sock [of addr]] show_nat_inky(4) any_v4 any_v6
    by (auto simp: opt_pair_def simp del: show_ip.simps split: option.splits)
  moreover have "k = Suc (length ?kvs)" using assms(4) by (cases keepalive) (simp_all add: opt_pair_def)
  ultimately show ?thesis
    using handler_set_peer [OF toy_hex_ok assms(1,2) _ apply_add [OF assms(3), of B keepalive key], of L X H E now]
    by (simp only: peer_add_pairs commit_peer_def peer_settings.simps)
qed

text \<open>
  For an endpoint that resolves and is not the one of the last time, the two requests make the device
  forget the peer and then take it up with this endpoint, all addresses and the keepalive. The result
  is success also where the device's thread panics on the second request, since a reply that ends
  without an error number counts as one.
\<close>

lemma configure_reaches:
  fixes V :: "('t, 'u) device_world ctl_env"
  assumes "ce_uapi V = device_uapi L X H B Es nows iface" and "\<And>m i w. ce_set_mtu V m i w = w" and "mode \<noteq> ''mullvad-tcp''"
    and "ct_world c = (n, Some d)" and "yield_notice d \<noteq> None" and "yield_notice (remove_peer L key d) \<noteq> None"
    and "decode_base64 Dec pub = Some key" and "length key = 32" and "endpoint \<noteq> []"
    and "ce_lookup V endpoint (n, Some d) = Some (addr # others)" and "sock_ok addr" and "ct_peers c (iface, pub) \<noteq> Some (show_sock addr)"
    and "e = Es (Suc n) (if keepalive = None then 4 else 5)"
  shows "\<exists>mtus. configure_peer V Dec iface pub endpoint keepalive peer_mtu auto mode client c =
    (Inr (), c\<lparr>ct_world := (n + 2, update_peer L (ae_stamper e) (ae_now e) (ae_limiter e) key False False (Some addr)
        [\<lparr>ai_addr = V4 (replicate 4 0), ai_cidr = 0\<rparr>, \<lparr>ai_addr = V6 (replicate 16 0), ai_cidr = 0\<rparr>] keepalive None
        (remove_peer L key d)),
      ct_peers := (ct_peers c)((iface, pub) \<mapsto> show_sock addr), ct_mtus := mtus\<rparr>)"
proof -
  let ?new = "update_peer L (ae_stamper e) (ae_now e) (ae_limiter e) key False False (Some addr) (map to_allowed everything) keepalive None
    (remove_peer L key d)"
  have hex: "base64_to_hex Dec pub = toy_hex key" by (simp add: base64_to_hex_def toy_hex_def assms(7))
  have removed: "send_uapi V iface (peer_remove_cmd (toy_hex key)) (n, Some d) = (Inr (), Suc n, Some (remove_peer L key d))"
    using uapi_result_reply [of 0] by (simp add: send_uapi_def assms(1) device_uapi_def remove_request [OF assms(8,5)])
  have "uapi_result \<lparr>st_data = [], st_fails = False\<rparr> = Inr ()" by (subst uapi_result.simps) (simp add: read_line_def)
  then have added: "send_uapi V iface (peer_add_cmd (toy_hex key) (show_sock addr) keepalive) (Suc n, Some (remove_peer L key d)) =
      (Inr (), n + 2, ?new)"
    using uapi_result_reply [of 0]
    by (cases ?new) (simp_all add: send_uapi_def assms(1,13) device_uapi_def add_request [OF assms(8,6,11) refl] del: list.map)
  have look: "show_sock addr = (if endpoint = [] then endpoint else lookup_endpoint V endpoint (ct_world c))"
    by (simp add: lookup_endpoint_def assms(4,9,10))
  have world: "send_uapi V iface (peer_remove_cmd (toy_hex key)) (ct_world c) = (Inr (), Suc n, Some (remove_peer L key d))"
    using removed by (simp only: assms(4))
  from configure_new [OF assms(3) look assms(12) hex [symmetric] world added]
    adopt_mtu_keeps [OF assms(2), of iface peer_mtu auto "show_sock addr" mode
      "c\<lparr>ct_world := (n + 2, ?new), ct_peers := (ct_peers c)((iface, pub) \<mapsto> show_sock addr)\<rparr>"]
  show ?thesis by (auto simp del: fun_upd_apply)
qed

definition toy_device_env :: "((toy_net \<times> nat) list, (toy_net \<times> unit) list) device_world ctl_env" where
  "toy_device_env =
    toy_ctl_env (device_uapi toy_libs toy_os toy_hex (\<lambda>_. None) (\<lambda>_. toy_api_env) (\<lambda>_. epoch) ''wg0'') (\<lambda>_. Some [SockV4 [10, 0, 0, 9] 51820])"

definition toy_device_ctl :: "((toy_net \<times> nat) list, (toy_net \<times> unit) list) device_world ctl" where
  "toy_device_ctl = \<lparr>ct_peers = Map.empty, ct_mtus = [], ct_dns = [], ct_world = (0, Some (toy_keyed config_default [1]))\<rparr>"

section \<open>Asking a device for its handshakes\<close>

abbreviation plain_pair :: "string \<times> string \<Rightarrow> bool" where
  "plain_pair kv \<equiv> list_all plain (fst kv) \<and> list_all plain (snd kv) \<and> fst kv \<noteq> []"

abbreviation pair_line :: "string \<times> string \<Rightarrow> string" where
  "pair_line kv \<equiv> fst kv @ ''='' @ snd kv"

lemma pair_line_inky:
  assumes "plain_pair kv"
  shows "pair_line kv \<noteq> []" "inky (hd (pair_line kv))" "inky (last (pair_line kv))" "newline \<notin> set (pair_line kv)"
proof -
  show "pair_line kv \<noteq> []" by simp
  show "inky (hd (pair_line kv))" using assms plain_inky by (cases "fst kv") auto
  have "inky (CHR ''='')" by (simp add: inky_def)
  then show "inky (last (pair_line kv))" using assms plain_inky by (auto simp: list_all_iff)
  show "newline \<notin> set (pair_line kv)" using assms plain_char by (auto simp: list_all_iff)
qed

lemma starts_with_key:
  "list_all plain k \<Longrightarrow> list_all plain p \<Longrightarrow> starts_with (p @ ''='') (k @ ''='' @ v) \<longleftrightarrow> k = p"
proof (induction k arbitrary: p)
  case Nil
  then show ?case using plain_char by (cases p) (auto simp: starts_with_def)
next
  case (Cons c k)
  then show ?case using plain_char [of c] by (cases p) (auto simp: starts_with_def)
qed

lemma uapi_info_pairs:
  assumes "\<forall>kv\<in>set kvs. plain_pair kv"
  shows "uapi_info \<lparr>st_data = api_lines kvs @ [newline], st_fails = False\<rparr> =
    Inr (concat (map (\<lambda>kv. ''  '' @ pair_line kv @ [newline]) kvs))"
  using assms
proof (induction kvs)
  case Nil
  show ?case using read_empty_line(1) [of "[]" "\<lparr>st_data = [], st_fails = False\<rparr>"] by (subst uapi_info.simps) simp
next
  case (Cons kv kvs)
  have "read_line \<lparr>st_data = api_lines (kv # kvs) @ [newline], st_fails = False\<rparr> =
      Some (pair_line kv @ [newline], \<lparr>st_data = api_lines kvs @ [newline], st_fails = False\<rparr>)"
    using read_plain_line(1) [of "fst kv" "snd kv" "api_lines kvs @ [newline]" "\<lparr>st_data = [], st_fails = False\<rparr>"] Cons.prems
    by (cases kv) simp
  then show ?case using Cons by (subst uapi_info.simps) simp
qed

lemma pairs_text_lines:
  assumes "\<forall>kv\<in>set kvs. plain_pair kv"
  shows "text_lines (concat (map (\<lambda>kv. ''  '' @ pair_line kv @ [newline]) kvs)) = map (\<lambda>kv. ''  '' @ pair_line kv) kvs"
proof -
  have "\<forall>l\<in>set (map pair_line kvs). newline \<notin> set l \<and> l \<noteq> [] \<and> inky (last l)"
  proof
    fix l assume "l \<in> set (map pair_line kvs)"
    then obtain kv where "kv \<in> set kvs" "l = pair_line kv" by auto
    then show "newline \<notin> set l \<and> l \<noteq> [] \<and> inky (last l)" using pair_line_inky [of kv] assms by blast
  qed
  from text_lines_indented [OF this] show ?thesis by (simp only: map_map comp_def)
qed

lemma established_none:
  assumes "\<forall>kv\<in>set kvs. plain_pair kv"
    and "\<forall>v. (''last_handshake_time_sec'', v) \<in> set kvs \<longrightarrow> (\<exists>n. v = show_nat n \<and> n + 150 \<le> unat now)"
  shows "established_lines now (map (\<lambda>kv. ''  '' @ pair_line kv) kvs) current_peer established = established"
  using assms
proof (induction kvs arbitrary: current_peer)
  case (Cons kv kvs)
  let ?sec = "''last_handshake_time_sec''" and ?pk = "''public_key''"
  have line: "trim (''  '' @ pair_line kv) = pair_line kv" by (rule trim_indented) (use Cons.prems(1) pair_line_inky [of kv] in auto)
  have key: "starts_with (p @ ''='') (pair_line kv) \<longleftrightarrow> fst kv = p" if "list_all plain p" for p
    using starts_with_key that Cons.prems(1) by simp
  have pk: "starts_with ''public_key='' (pair_line kv) \<longleftrightarrow> fst kv = ?pk" using key [of ?pk] by simp
  have sec: "starts_with ''last_handshake_time_sec='' (pair_line kv) \<longleftrightarrow> fst kv = ?sec" using key [of ?sec] by simp
  have ih: "established_lines now (map (\<lambda>kv. ''  '' @ pair_line kv) kvs) peer established = established" for peer
    using Cons by simp
  show ?case
  proof (cases "fst kv = ?sec")
    case True
    then obtain n where n: "snd kv = show_nat n" "n + 150 \<le> unat now" using Cons.prems(2) by (cases kv) auto
    moreover have "unat now < 2 ^ LENGTH(64)" by (rule unsigned_less)
    ultimately have "n < 2 ^ 64" by simp
    then have w: "unat (word_of_nat n :: u64) = n" by (simp add: unsigned_of_nat take_bit_nat_eq_self)
    have parsed: "(parse_unsigned (show_nat n) :: u64 option) = Some (word_of_nat n)"
      using parse_unsigned_show [of "word_of_nat n :: u64"] by (simp only: w)
    have drop: "drop (length ''last_handshake_time_sec='') (pair_line kv) = show_nat n"
      using True n(1) by simp
    have "unat (now - word_of_nat n) = unat now - n" using n(2) w by (simp add: unat_minus_le word_le_nat_alt)
    then have "\<not> now - word_of_nat n < 150" using n(2) by (simp add: word_less_nat_alt)
    then have "(if (word_of_nat n :: u64) > 0 \<and> now > word_of_nat n \<and> now - word_of_nat n < 150 then insert peer established else established) = established"
      for peer by simp
    moreover have "starts_with ''public_key='' (pair_line kv) \<longleftrightarrow> False" "starts_with ''last_handshake_time_sec='' (pair_line kv) \<longleftrightarrow> True"
      using pk sec True by simp_all
    ultimately show ?thesis by (simp only: list.map established_lines.simps line drop parsed ih Let_def option.case if_True if_False)
  next
    case False
    then have "starts_with ''last_handshake_time_sec='' (pair_line kv) \<longleftrightarrow> False" using sec by simp
    then show ?thesis by (simp only: list.map established_lines.simps line ih Let_def if_False if_cancel)
  qed
qed simp

text \<open>What \<open>get\<close> prints, as keys and values.\<close>

abbreviation hs_key :: string where "hs_key \<equiv> ''last_handshake_time_sec''"

lemma plain_setting_pairs: "hex_ok H \<Longrightarrow> \<forall>kv\<in>set (setting_pairs H psk ka addr ips). plain_pair kv \<and> fst kv \<noteq> hs_key"
  using setting_pairs_plain [of H psk ka addr ips] by (fastforce simp: setting_pairs_def opt_pair_def split: option.splits)

lemma api_get_peer_pairs:
  assumes "hex_ok H" and "api_get_peer L H now k p = Some out"
  shows "\<exists>kvs. out = api_lines kvs \<and> (\<forall>kv\<in>set kvs. plain_pair kv) \<and>
    (\<forall>v. (hs_key, v) \<in> set kvs \<longrightarrow> (\<exists>t. time_since_last_handshake now (p_tunnel p) = Some (Some t) \<and> v = show_nat (as_secs t)))"
proof -
  obtain tm where tm: "time_since_last_handshake now (p_tunnel p) = Some tm" using assms(2) by (auto simp: api_get_peer_def split: bind_splits)
  obtain sp where sp: "sp = setting_pairs H (p_preshared_key p) (tunn_persistent_keepalive (p_tunnel p)) (ep_addr (p_endpoint p))
    (allowed_ips (lib_allowed L) p)" by blast
  obtain kvs where kvs: "kvs = (''public_key'', H k) # sp @ opt_pair hs_key (show_nat \<circ> as_secs) tm @
    opt_pair ''last_handshake_time_nsec'' (show_nat \<circ> subsec_nanos) tm @
    [(''rx_bytes'', show_nat (unat (rx_bytes (p_tunnel p)))), (''tx_bytes'', show_nat (unat (tx_bytes (p_tunnel p))))]" by blast
  have "out = api_lines kvs" using assms(2)
    by (simp add: api_get_peer_def tm show_settings_pairs sp [symmetric] kvs api_lines_opt)
  moreover have "\<forall>kv\<in>set sp. plain_pair kv \<and> fst kv \<noteq> hs_key" unfolding sp by (rule plain_setting_pairs [OF assms(1)])
  moreover have "list_all plain (H k)" by (rule plain_hex [OF assms(1)])
  ultimately show ?thesis using show_nat_inky(4) by (intro exI [of _ kvs]) (auto simp: kvs opt_pair_def tm split: option.splits)
qed

lemma api_get_peers_pairs:
  assumes "hex_ok H" and "api_get_peers L H now heap ps = Some out"
  shows "\<exists>kvs. out = api_lines kvs \<and> (\<forall>kv\<in>set kvs. plain_pair kv) \<and>
    (\<forall>v. (hs_key, v) \<in> set kvs \<longrightarrow>
      (\<exists>(k, r)\<in>set ps. \<exists>t. time_since_last_handshake now (p_tunnel (heap ! r)) = Some (Some t) \<and> v = show_nat (as_secs t)))"
  using assms(2)
proof (induction ps arbitrary: out)
  case Nil
  then show ?case by (intro exI [of _ "[]"]) simp
next
  case (Cons kr ps)
  obtain k r where kr: "kr = (k, r)" by (cases kr)
  obtain a b where ab: "api_get_peer L H now k (heap ! r) = Some a" "api_get_peers L H now heap ps = Some b" "out = a @ b"
    using Cons.prems by (auto simp: kr split: bind_splits)
  obtain xs where "a = api_lines xs" "\<forall>kv\<in>set xs. plain_pair kv"
    "\<forall>v. (hs_key, v) \<in> set xs \<longrightarrow> (\<exists>t. time_since_last_handshake now (p_tunnel (heap ! r)) = Some (Some t) \<and> v = show_nat (as_secs t))"
    using api_get_peer_pairs [OF assms(1) ab(1)] by blast
  moreover obtain ys where "b = api_lines ys" "\<forall>kv\<in>set ys. plain_pair kv"
    "\<forall>v. (hs_key, v) \<in> set ys \<longrightarrow>
      (\<exists>(k, r)\<in>set ps. \<exists>t. time_since_last_handshake now (p_tunnel (heap ! r)) = Some (Some t) \<and> v = show_nat (as_secs t))"
    using Cons.IH [OF ab(2)] by blast
  ultimately show ?case by (intro exI [of _ "xs @ ys"]) (auto simp: ab(3) kr)
qed

lemma api_get_pairs:
  assumes "hex_ok H" and "api_get L H now d = Some (code, out)"
  shows "code = 0 \<and> (\<exists>kvs. out = api_lines kvs \<and> (\<forall>kv\<in>set kvs. plain_pair kv) \<and>
    (\<forall>v. (hs_key, v) \<in> set kvs \<longrightarrow>
      (\<exists>(k, r)\<in>set (d_peers d). \<exists>t. time_since_last_handshake now (p_tunnel (d_heap d ! r)) = Some (Some t) \<and> v = show_nat (as_secs t))))"
proof -
  obtain peers where peers: "api_get_peers L H now (d_heap d) (d_peers d) = Some peers" using assms(2) by (auto simp: api_get_def split: bind_splits)
  obtain ps where ps: "peers = api_lines ps" "\<forall>kv\<in>set ps. plain_pair kv" "\<forall>v. (hs_key, v) \<in> set ps \<longrightarrow>
      (\<exists>(k, r)\<in>set (d_peers d). \<exists>t. time_since_last_handshake now (p_tunnel (d_heap d ! r)) = Some (Some t) \<and> v = show_nat (as_secs t))"
    using api_get_peers_pairs [OF assms(1) peers] by blast
  obtain kvs where kvs: "kvs = opt_pair ''own_public_key'' (\<lambda>k. H (snd k)) (d_key_pair d) @
    (case cfg_transport_mode (d_config d) of
       Udp \<Rightarrow> (''protocol'', ''udp'') # (if d_listen_port d \<noteq> 0 then [(''listen_port'', show_nat (unat (d_listen_port d)))] else [])
     | RawIp \<Rightarrow> (''protocol'', ''ip'') # opt_pair ''ip_protocol'' (show_nat \<circ> unat) (cfg_ip_protocol (d_config d))
     | Tcp \<Rightarrow> [(''protocol'', ''tcp'')]) @
    opt_pair ''fwmark'' (show_nat \<circ> unat) (d_fwmark d) @ ps" by blast
  have "code = 0 \<and> out = api_lines kvs" using assms(2)
    by (cases "cfg_transport_mode (d_config d)") (auto simp: api_get_def peers kvs api_lines_opt ps(1))
  moreover have "\<forall>kv\<in>set kvs. plain_pair kv" using ps(2) show_nat_inky(4) plain_hex [OF assms(1)]
    by (auto simp: kvs opt_pair_def split: option.splits transport_mode.splits if_splits)
  moreover have "(hs_key, v) \<in> set kvs \<Longrightarrow> (hs_key, v) \<in> set ps" for v
    by (auto simp: kvs opt_pair_def split: option.splits transport_mode.splits if_splits)
  ultimately show ?thesis using ps(3) by blast
qed

lemma get_reply_pairs:
  assumes "hex_ok H" and "api_handler L X H B E t (Some \<lparr>st_data = get_request, st_fails = False\<rparr>) d = Some (a, reply, d')"
  obtains kvs info where "uapi_info \<lparr>st_data = reply, st_fails = False\<rparr> = Inr info"
    and "text_lines info = map (\<lambda>kv. ''  '' @ pair_line kv) kvs" and "\<forall>kv\<in>set kvs. plain_pair kv"
    and "\<forall>v. (hs_key, v) \<in> set kvs \<longrightarrow> (\<exists>(k, r)\<in>set (d_peers d). \<exists>s.
      time_since_last_handshake t (p_tunnel (d_heap d ! r)) = Some (Some s) \<and> v = show_nat (as_secs s))"
proof -
  obtain e :: stream where e: "e = \<lparr>st_data = [], st_fails = False\<rparr>" by blast
  have "read_line (e\<lparr>st_data := api_line ''get'' ''1'' @ [newline]\<rparr>) = Some (''get=1'' @ [newline], e\<lparr>st_data := [newline]\<rparr>)"
    "str_pop (''get=1'' @ [newline]) = ''get=1''"
    using read_plain_line(1) [of "''get''" "''1''" "[newline]" e] read_plain_line(2) [of "''get''" "''1''"] by simp_all
  moreover have "\<lparr>st_data = get_request, st_fails = False\<rparr> = e\<lparr>st_data := api_line ''get'' ''1'' @ [newline]\<rparr>"
    by (simp add: e api_line_def)
  ultimately obtain code out where got: "api_get L H t d = Some (code, out)" "reply = out @ api_line ''errno'' (show_nat (nat code)) @ [newline]"
    using assms(2) by (auto simp: api_handler_def api_reply_def simp del: stream.update_convs split: bind_splits)
  obtain kvs where kvs: "code = 0" "out = api_lines kvs" "\<forall>kv\<in>set kvs. plain_pair kv"
    "\<forall>v. (hs_key, v) \<in> set kvs \<longrightarrow> (\<exists>(k, r)\<in>set (d_peers d). \<exists>s.
      time_since_last_handshake t (p_tunnel (d_heap d ! r)) = Some (Some s) \<and> v = show_nat (as_secs s))"
    using api_get_pairs [OF assms(1) got(1)] by blast
  let ?kvs = "kvs @ [(''errno'', show_nat 0)]"
  have pairs: "\<forall>kv\<in>set ?kvs. plain_pair kv" using kvs(3) show_nat_inky(4) by auto
  have "reply = api_lines ?kvs @ [newline]" by (simp add: got(2) kvs(1,2))
  then have info: "uapi_info \<lparr>st_data = reply, st_fails = False\<rparr> = Inr (concat (map (\<lambda>kv. ''  '' @ pair_line kv @ [newline]) ?kvs))"
    by (simp only: uapi_info_pairs [OF pairs])
  show ?thesis by (rule that [OF info pairs_text_lines [OF pairs] pairs]) (use kvs(4) in simp)
qed

lemma established_by_device:
  assumes "hex_ok H" and "api_handler L X H B E t (Some \<lparr>st_data = get_request, st_fails = False\<rparr>) d = Some (a, reply, d')"
    and "\<And>k r s. (k, r) \<in> set (d_peers d) \<Longrightarrow> time_since_last_handshake t (p_tunnel (d_heap d ! r)) = Some (Some s) \<Longrightarrow>
      as_secs s + 150 \<le> unat now"
  shows "\<exists>info. uapi_info \<lparr>st_data = reply, st_fails = False\<rparr> = Inr info \<and> established_lines now (text_lines info) [] {} = {}"
proof (rule get_reply_pairs [OF assms(1,2)])
  fix kvs info
  assume info: "uapi_info \<lparr>st_data = reply, st_fails = False\<rparr> = Inr info" "text_lines info = map (\<lambda>kv. ''  '' @ pair_line kv) kvs"
    and pairs: "\<forall>kv\<in>set kvs. plain_pair kv"
    and ages: "\<forall>v. (hs_key, v) \<in> set kvs \<longrightarrow> (\<exists>(k, r)\<in>set (d_peers d). \<exists>s.
      time_since_last_handshake t (p_tunnel (d_heap d ! r)) = Some (Some s) \<and> v = show_nat (as_secs s))"
  have "established_lines now (map (\<lambda>kv. ''  '' @ pair_line kv) kvs) [] {} = {}"
    by (rule established_none [OF pairs]) (use ages assms(3) in fastforce)
  with info show ?thesis by simp
qed

text \<open>C28 A handshake is never seen: the device prints how long ago the last handshake of a peer was, and the control plane reads this as the time of the handshake. So whenever the clock is past the beginning of 1970 by 150 seconds more than the ages that are printed, no peer counts as established, however fresh its handshake is.\<close>

theorem handshakes_not_seen:
  assumes "hex_ok H" and "ce_uapi V = device_uapi L X H B Es nows iface"
    and "\<And>k r s. (k, r) \<in> set (d_peers d) \<Longrightarrow> time_since_last_handshake (nows n) (p_tunnel (d_heap d ! r)) = Some (Some s) \<Longrightarrow>
      as_secs s + 150 \<le> unat now"
  shows "fst (get_established_peers V now iface (n, Some d)) = {}"
proof (cases "api_handler L X H B (Es n) (nows n) (Some \<lparr>st_data = get_request, st_fails = False\<rparr>) d")
  case None
  have "uapi_info \<lparr>st_data = [], st_fails = False\<rparr> = Inr []" by (subst uapi_info.simps) (simp add: read_line_def)
  with None show ?thesis
    by (simp add: get_established_peers_def get_uapi_info_def assms(2) device_uapi_def text_lines_def)
next
  case (Some res)
  obtain a reply d' where res: "res = (a, reply, d')" by (cases res)
  have "\<exists>info. uapi_info \<lparr>st_data = reply, st_fails = False\<rparr> = Inr info \<and> established_lines now (text_lines info) [] {} = {}"
    by (rule established_by_device [OF assms(1) Some [unfolded res]]) (rule assms(3))
  then show ?thesis using Some by (auto simp: get_established_peers_def get_uapi_info_def assms(2) device_uapi_def res)
qed

definition toy_met :: "session \<Rightarrow> toy_device" where
  "toy_met s =
    (let d = toy_peered config_default [1] [2] None; p = d_heap d ! 0
     in d\<lparr>d_heap := [p\<lparr>p_tunnel := (p_tunnel p)\<lparr>sessions := replicate N_SESSIONS (Some s)\<rparr>\<rparr>]\<rparr>)"

theorem handshakes_not_seen_witness:
  "\<forall>s. fst (get_established_peers toy_device_env 1763000000 ''wg0'' (0, Some (toy_met s))) = {} \<and>
    time_since_last_handshake epoch (p_tunnel (d_heap (toy_met s) ! 0)) = Some (Some 0)"
proof
  fix s
  have met: "time_since_last_handshake epoch (p_tunnel (d_heap (toy_met s) ! 0)) = Some (Some 0)" "d_peers (toy_met s) = [(x25519_public toy_crypto [2], 0)]"
    by (simp_all add: toy_met_def Let_def toy_peered_fields time_since_last_handshake_def tunn_new_def timers_new_def epoch_def
        duration_since_def checked_duration_since_def dur_sub_def)
  have "fst (get_established_peers toy_device_env 1763000000 ''wg0'' (0, Some (toy_met s))) = {}"
  proof (rule handshakes_not_seen [OF toy_hex_ok])
    show "ce_uapi toy_device_env = device_uapi toy_libs toy_os toy_hex (\<lambda>_. None) (\<lambda>_. toy_api_env) (\<lambda>_. epoch) ''wg0''"
      by (simp add: toy_device_env_def toy_ctl_env_def)
  qed (auto simp: met as_secs_def)
  then show "fst (get_established_peers toy_device_env 1763000000 ''wg0'' (0, Some (toy_met s))) = {} \<and>
    time_since_last_handshake epoch (p_tunnel (d_heap (toy_met s) ! 0)) = Some (Some 0)" using met by simp
qed

end
