(* ===== verification/Ctl_Signal.thy ===== *)
theory Ctl_Signal
  imports Ctl_Device Crypto
begin

text \<open>
  The signalling of the control plane (src/nekolink-ctl/src/main.rs): two sides that share a secret
  tell each other their key, mtu and port in one sealed message, over UDP, over TCP, or as raw IP
  packets. \<open>Enc\<close> and \<open>B\<close> are \<open>encode\<close> and \<open>decode\<close> of the crate base64; the random nonces are
  arguments. The loops run over a snapshot of the states of all interfaces, in the order of a hash
  map, which is the order of the list. Sockets, tasks and pauses are not modelled: the definitions
  are what is done with one message, and what is sent in one round.
\<close>

section \<open>Messages\<close>

definition text_bytes :: "string \<Rightarrow> bytes" where
  "text_bytes s = map of_char s"

definition derive_cipher :: "crypto \<Rightarrow> string \<Rightarrow> bytes" where
  "derive_cipher C psk = blake2s C (text_bytes psk @ text_bytes ''NekoLink_Magic_Salt'')"

text \<open>The nonce and what \<open>encrypt\<close> makes of the message without associated data.\<close>

definition seal_signal :: "crypto \<Rightarrow> string \<Rightarrow> bytes \<Rightarrow> bytes \<Rightarrow> bytes" where
  "seal_signal C psk rnd msg = rnd @ aead_chacha20_seal_inner C (derive_cipher C psk) rnd msg []"

definition open_signal :: "crypto \<Rightarrow> string \<Rightarrow> bytes \<Rightarrow> bytes option" where
  "open_signal C psk pkt = chacha_open C (derive_cipher C psk) (take 12 pkt) [] (drop 12 pkt)"

definition signal_message :: "bytes \<Rightarrow> u16 \<Rightarrow> u16 \<Rightarrow> bytes" where
  "signal_message pub_key mtu port = pub_key @ u16_be mtu @ u16_be port"

definition parse_signal :: "bytes \<Rightarrow> (bytes \<times> u16 \<times> u16) option" where
  "parse_signal decrypted =
    (if length decrypted \<ge> 36 then
       Some (take 32 decrypted, word_of_nat (be_val (slice 32 34 decrypted)), word_of_nat (be_val (slice 34 36 decrypted)))
     else None)"

definition signal_endpoint :: "ip_addr \<Rightarrow> u16 \<Rightarrow> string" where
  "signal_endpoint ip port = show_ip ip @ (if port > 0 then '':'' @ show_nat (unat port) else [])"

section \<open>What a side tells\<close>

text \<open>The mtu: searched when it is to be found, and otherwise that of the interface.\<close>

definition told_mtu :: "'w ctl_env \<Rightarrow> neko_config \<Rightarrow> string \<Rightarrow> string \<Rightarrow> 'w ctl \<Rightarrow> u16 \<times> 'w ctl" where
  "told_mtu V cfg host mode c =
    (if nc_mtu cfg = Some 0 then auto_mtu V host mode c
     else (iface_mtu V (nc_interface cfg) (ct_world c), c))"

definition told_port :: "'w ctl_env \<Rightarrow> neko_config \<Rightarrow> 'w ctl \<Rightarrow> u16 \<times> 'w ctl" where
  "told_port V cfg c =
    (if nc_mode cfg = ''mullvad-tcp'' then (nc_mullvad_tcp_port cfg, c)
     else
       (let (port, w) = get_actual_listen_port V (nc_interface cfg) (ct_world c)
        in (case port of Some p \<Rightarrow> p | None \<Rightarrow> 0, c\<lparr>ct_world := w\<rparr>)))"

section \<open>Receiving\<close>

text \<open>
  A message that came from \<open>ip\<close>, over the states that \<open>takes\<close> selects: the first that opens it, with
  36 bytes or more and a port, is configured and answers. The answer is sealed with \<open>rnd\<close>.
\<close>

fun signal_recv ::
    "crypto \<Rightarrow> 'w ctl_env \<Rightarrow> (string \<Rightarrow> bytes option) \<Rightarrow> (bytes \<Rightarrow> string) \<Rightarrow> (neko_config \<Rightarrow> bool) \<Rightarrow> bytes \<Rightarrow> bytes \<Rightarrow> ip_addr \<Rightarrow>
      neko_state list \<Rightarrow> 'w ctl \<Rightarrow> bytes option \<times> 'w ctl" where
  "signal_recv C V B Enc takes rnd pkt ip [] c = (None, c)"
| "signal_recv C V B Enc takes rnd pkt ip (st # sts) c =
    (let cfg = ns_config st
     in if \<not> takes cfg then signal_recv C V B Enc takes rnd pkt ip sts c
        else case open_signal C (nc_psk cfg) pkt of
          None \<Rightarrow> signal_recv C V B Enc takes rnd pkt ip sts c
        | Some decrypted \<Rightarrow>
            (case parse_signal decrypted of
               None \<Rightarrow> signal_recv C V B Enc takes rnd pkt ip sts c
             | Some (key, mtu, port) \<Rightarrow>
                 if port = 0 \<and> nc_mode cfg \<noteq> ''ip'' then signal_recv C V B Enc takes rnd pkt ip sts c
                 else
                   (let (_, c) = configure_peer V B (nc_interface cfg) (Enc key) (signal_endpoint ip port)
                          (nc_persistent_keepalive cfg) (Some mtu) (nc_mtu cfg = Some 0) (nc_mode cfg) True c;
                        (own_mtu, c) = told_mtu V cfg (show_ip ip) (nc_mode cfg) c;
                        (own_port, c) = told_port V cfg c
                    in (Some (seal_signal C (nc_psk cfg) rnd (signal_message (ns_pub_key st) own_mtu own_port)), c))))"

definition udp_takes :: "neko_config \<Rightarrow> bool" where
  "udp_takes cfg \<longleftrightarrow> nc_mode cfg = ''udp'' \<and> \<not> nc_native_wg_compat cfg"

definition tcp_takes :: "neko_config \<Rightarrow> bool" where
  "tcp_takes cfg \<longleftrightarrow> (nc_mode cfg = ''tcp'' \<or> nc_mode cfg = ''mullvad-tcp'') \<and> \<not> nc_native_wg_compat cfg"

definition udp_signal_recv ::
    "crypto \<Rightarrow> 'w ctl_env \<Rightarrow> (string \<Rightarrow> bytes option) \<Rightarrow> (bytes \<Rightarrow> string) \<Rightarrow> bytes \<Rightarrow> bytes \<Rightarrow> sock_addr \<Rightarrow>
      neko_state list \<Rightarrow> 'w ctl \<Rightarrow> bytes option \<times> 'w ctl" where
  "udp_signal_recv C V B Enc rnd pkt addr states c =
    (if length pkt < 12 + 32 then (None, c)
     else signal_recv C V B Enc udp_takes rnd pkt (sock_ip addr) states c)"

definition tcp_signal_recv ::
    "crypto \<Rightarrow> 'w ctl_env \<Rightarrow> (string \<Rightarrow> bytes option) \<Rightarrow> (bytes \<Rightarrow> string) \<Rightarrow> bytes \<Rightarrow> bytes \<Rightarrow> sock_addr \<Rightarrow>
      neko_state list \<Rightarrow> 'w ctl \<Rightarrow> bytes option \<times> 'w ctl" where
  "tcp_signal_recv C V B Enc rnd pkt addr states c =
    (if length pkt \<ge> 12 + 32 then signal_recv C V B Enc tcp_takes rnd pkt (sock_ip addr) states c
     else (None, c))"

text \<open>
  The answer to the client of TCP, which configures the peer without a keepalive and always lets the
  mtu be found.
\<close>

definition tcp_signal_ack ::
    "crypto \<Rightarrow> 'w ctl_env \<Rightarrow> (string \<Rightarrow> bytes option) \<Rightarrow> (bytes \<Rightarrow> string) \<Rightarrow> neko_config \<Rightarrow> bytes \<Rightarrow> sock_addr \<Rightarrow> 'w ctl \<Rightarrow> 'w ctl" where
  "tcp_signal_ack C V B Enc cfg ack addr c =
    (if length ack \<ge> 12 + 32 then
       (case open_signal C (nc_psk cfg) ack of
          None \<Rightarrow> c
        | Some decrypted \<Rightarrow>
            (case parse_signal decrypted of
               None \<Rightarrow> c
             | Some (key, mtu, port) \<Rightarrow>
                 if port = 0 then c
                 else snd (configure_peer V B (nc_interface cfg) (Enc key) (signal_endpoint (sock_ip addr) port)
                        None (Some mtu) True (nc_mode cfg) True c)))
     else c)"

text \<open>
  A raw packet, with or without its IPv4 header. Every state that opens it is configured and answers;
  taking the first 32 bytes of what was opened panics when there are fewer.
\<close>

abbreviation (input) magic_byte :: u8 where "magic_byte \<equiv> 0x99"

definition raw_takes :: "u8 \<Rightarrow> neko_config \<Rightarrow> bool" where
  "raw_takes proto cfg \<longleftrightarrow> nc_mode cfg = ''ip'' \<and>
     (case nc_ip_protocol cfg of Some p \<Rightarrow> p | None \<Rightarrow> 141) = proto \<and> \<not> nc_native_wg_compat cfg"

fun raw_recv_states ::
    "crypto \<Rightarrow> 'w ctl_env \<Rightarrow> (string \<Rightarrow> bytes option) \<Rightarrow> (bytes \<Rightarrow> string) \<Rightarrow> u8 \<Rightarrow> (nat \<Rightarrow> bytes) \<Rightarrow> bytes \<Rightarrow> ip_addr \<Rightarrow>
      neko_state list \<Rightarrow> 'w ctl \<Rightarrow> (bytes list \<times> 'w ctl) option" where
  "raw_recv_states C V B Enc proto nonces sealed ip [] c = Some ([], c)"
| "raw_recv_states C V B Enc proto nonces sealed ip (st # sts) c =
    (let cfg = ns_config st
     in if \<not> raw_takes proto cfg then raw_recv_states C V B Enc proto nonces sealed ip sts c
        else case open_signal C (nc_psk cfg) sealed of
          None \<Rightarrow> raw_recv_states C V B Enc proto nonces sealed ip sts c
        | Some decrypted \<Rightarrow>
            if length decrypted < 32 then None
            else
              (let mtu = (if length decrypted \<ge> 34 then Some (word_of_nat (be_val (slice 32 34 decrypted))) else None);
                   (_, c) = configure_peer V B (nc_interface cfg) (Enc (take 32 decrypted)) (show_ip ip)
                     (nc_persistent_keepalive cfg) mtu (nc_mtu cfg = Some 0) ''ip'' True c;
                   (own_mtu, c) = told_mtu V cfg (show_ip ip) ''ip'' c;
                   answer = magic_byte # seal_signal C (nc_psk cfg) (nonces (length sts)) (ns_pub_key st @ u16_be own_mtu)
               in map_option (apfst ((#) answer)) (raw_recv_states C V B Enc proto nonces sealed ip sts c)))"

definition raw_signal_recv ::
    "crypto \<Rightarrow> 'w ctl_env \<Rightarrow> (string \<Rightarrow> bytes option) \<Rightarrow> (bytes \<Rightarrow> string) \<Rightarrow> u8 \<Rightarrow> (nat \<Rightarrow> bytes) \<Rightarrow> bytes \<Rightarrow> sock_addr option \<Rightarrow>
      neko_state list \<Rightarrow> 'w ctl \<Rightarrow> (bytes list \<times> 'w ctl) option" where
  "raw_signal_recv C V B Enc proto nonces pkt addr states c =
    (let offset = (if length pkt \<ge> 20 \<and> (pkt ! 0 AND 0xf0) = 0x40 then 20 else 0)
     in if length pkt \<ge> offset + 1 + 12 + 32 \<and> pkt ! offset = magic_byte then
          raw_recv_states C V B Enc proto nonces (drop (offset + 1) pkt)
            (case addr of Some a \<Rightarrow> sock_ip a | None \<Rightarrow> V4 (replicate 4 0)) states c
        else Some ([], c))"

section \<open>Sending\<close>

text \<open>The port: that of the peer, of the interface, or of all.\<close>

definition target_port :: "neko_state \<Rightarrow> peer_config \<Rightarrow> u16" where
  "target_port st p =
    (case pc_signal_port p of
       Some port \<Rightarrow> port
     | None \<Rightarrow> (case nc_signal_port (ns_config st) of Some port \<Rightarrow> port | None \<Rightarrow> gc_signal_port (ns_global st)))"

text \<open>One round for a peer of an interface of the mode udp: what is sent, and where.\<close>

definition udp_push_peer ::
    "crypto \<Rightarrow> 'w ctl_env \<Rightarrow> bytes \<Rightarrow> neko_state \<Rightarrow> peer_config \<Rightarrow> 'w ctl \<Rightarrow> (bytes \<times> sock_addr) option \<times> 'w ctl" where
  "udp_push_peer C V rnd st p c =
    (let cfg = ns_config st;
         (mtu, c) = told_mtu V cfg (pc_endpoint p) (nc_mode cfg) c;
         (r, c) = resolve_endpoint_with_port (ctl_resolve V None (nc_prefer_ipv6 cfg)) (pc_endpoint p) (target_port st p) c
     in case r of
          Inl _ \<Rightarrow> (None, c)
        | Inr addr \<Rightarrow>
            (let (port, w) = get_actual_listen_port V (nc_interface cfg) (ct_world c);
                 msg = signal_message (ns_pub_key st) mtu (case port of Some p \<Rightarrow> p | None \<Rightarrow> 0)
             in (Some (seal_signal C (nc_psk cfg) rnd msg, addr), c\<lparr>ct_world := w\<rparr>)))"

fun udp_push_peers ::
    "crypto \<Rightarrow> 'w ctl_env \<Rightarrow> (nat \<Rightarrow> bytes) \<Rightarrow> neko_state \<Rightarrow> peer_config list \<Rightarrow> 'w ctl \<Rightarrow> (bytes \<times> sock_addr) list \<times> 'w ctl" where
  "udp_push_peers C V nonces st [] c = ([], c)"
| "udp_push_peers C V nonces st (p # ps) c =
    (let (sent, c) = udp_push_peer C V (nonces (length ps)) st p c;
         (others, c) = udp_push_peers C V nonces st ps c
     in (case sent of Some x \<Rightarrow> x # others | None \<Rightarrow> others, c))"

text \<open>An interface is skipped while a peer of its device counts as established; \<open>now\<close> are the seconds since 1970.\<close>

definition udp_push_state ::
    "crypto \<Rightarrow> 'w ctl_env \<Rightarrow> u64 \<Rightarrow> (nat \<Rightarrow> bytes) \<Rightarrow> neko_state \<Rightarrow> 'w ctl \<Rightarrow> (bytes \<times> sock_addr) list \<times> 'w ctl" where
  "udp_push_state C V now nonces st c =
    (let cfg = ns_config st
     in if nc_mode cfg \<noteq> ''udp'' \<or> ns_pub_key st = replicate 32 0 \<or> nc_native_wg_compat cfg then ([], c)
        else
          (let (established, w) = get_established_peers V now (nc_interface cfg) (ct_world c);
               c = c\<lparr>ct_world := w\<rparr>
           in if established \<noteq> {} then ([], c) else udp_push_peers C V nonces st (nc_peers cfg) c))"

text \<open>The message of a client of TCP to \<open>addr\<close>, and that of a raw packet.\<close>

definition tcp_signal_push :: "crypto \<Rightarrow> 'w ctl_env \<Rightarrow> bytes \<Rightarrow> neko_state \<Rightarrow> sock_addr \<Rightarrow> 'w ctl \<Rightarrow> bytes \<times> 'w ctl" where
  "tcp_signal_push C V rnd st addr c =
    (let cfg = ns_config st;
         (mtu, c) = told_mtu V cfg (show_ip (sock_ip addr)) ''tcp'' c;
         (port, c) = told_port V cfg c
     in (seal_signal C (nc_psk cfg) rnd (signal_message (ns_pub_key st) mtu port), c))"

definition raw_push_peer ::
    "crypto \<Rightarrow> 'w ctl_env \<Rightarrow> bytes \<Rightarrow> neko_state \<Rightarrow> peer_config \<Rightarrow> 'w ctl \<Rightarrow> (bytes \<times> ip_addr) option \<times> 'w ctl" where
  "raw_push_peer C V rnd st p c =
    (let cfg = ns_config st;
         (mtu, c) = told_mtu V cfg (pc_endpoint p) ''ip'' c;
         (r, c) =
           (case parse_with read_ip (pc_endpoint p) of
              Some ip \<Rightarrow> (Inr ip, c)
            | None \<Rightarrow>
                (case parse_with read_sock (pc_endpoint p) of
                   Some sa \<Rightarrow> (Inr (sock_ip sa), c)
                 | None \<Rightarrow> ctl_resolve V None (nc_prefer_ipv6 cfg) (pc_endpoint p) c))
     in case r of
          Inl _ \<Rightarrow> (None, c)
        | Inr ip \<Rightarrow> (Some (magic_byte # seal_signal C (nc_psk cfg) rnd (ns_pub_key st @ u16_be mtu), ip), c))"

section \<open>Sealed messages\<close>

lemma open_seal_signal:
  assumes "crypto_ok C" and "length rnd = 12"
  shows "open_signal C psk (seal_signal C psk rnd msg) = Some msg" "length (seal_signal C psk rnd msg) = length msg + 28"
proof -
  obtain ct tag where ct: "chacha_seal C (derive_cipher C psk) rnd [] msg = (ct, tag)" by fastforce
  have ok: "aead_ok (chacha_seal C) (chacha_open C)" using assms(1) by (simp add: crypto_ok_def)
  show "open_signal C psk (seal_signal C psk rnd msg) = Some msg" using aead_open_seal [OF ok ct] assms(2)
    by (simp add: open_signal_def seal_signal_def aead_chacha20_seal_inner_def ct)
  show "length (seal_signal C psk rnd msg) = length msg + 28" using aead_lengths [OF ok ct] assms(2)
    by (simp add: seal_signal_def aead_chacha20_seal_inner_def ct)
qed

lemma parse_signal_message:
  assumes "length pub = 32"
  shows "parse_signal (signal_message pub mtu port) = Some (pub, mtu, port)"
proof -
  have "slice 32 34 (pub @ u16_be mtu @ u16_be port) = u16_be mtu" "slice 34 36 (pub @ u16_be mtu @ u16_be port) = u16_be port"
    using assms slice_hit [of 34 "pub @ u16_be mtu" 36 "u16_be port" "[]"] by (simp_all add: slice_hit u16_be_def)
  moreover have "word_of_nat (be_val (u16_be v)) = v" for v :: u16 using unat_bound [of v] by (simp add: u16_be_def byte_simps)
  ultimately show ?thesis using assms by (simp add: parse_signal_def signal_message_def u16_be_def)
qed

lemma signal_recv_refused:
  "(\<And>st. st \<in> set states \<Longrightarrow> takes (ns_config st) \<Longrightarrow> open_signal C (nc_psk (ns_config st)) pkt = None) \<Longrightarrow>
    signal_recv C V B Enc takes rnd pkt ip states c = (None, c)"
  by (induction states) (simp_all add: Let_def)

lemma raw_recv_refused:
  "(\<And>st. st \<in> set states \<Longrightarrow> raw_takes proto (ns_config st) \<Longrightarrow> open_signal C (nc_psk (ns_config st)) sealed = None) \<Longrightarrow>
    raw_recv_states C V B Enc proto rnds sealed ip states c = Some ([], c)"
  by (induction states) (simp_all add: Let_def)

lemma raw_recv_panics:
  assumes "st \<in> set states" "raw_takes proto (ns_config st)" "open_signal C (nc_psk (ns_config st)) sealed = Some msg" "length msg < 32"
  shows "raw_recv_states C V B Enc proto rnds sealed ip states c = None"
  using assms(1)
proof (induction states arbitrary: c)
  case (Cons s sts)
  then show ?case using assms(2-4) by (auto simp: Let_def split: option.split prod.split)
qed simp

section \<open>From the message to the device\<close>

text \<open>What the crate base64 documents: decoding undoes encoding, and the text has no white space at its ends.\<close>

definition base64_ok :: "(string \<Rightarrow> bytes option) \<Rightarrow> (bytes \<Rightarrow> string) \<Rightarrow> bool" where
  "base64_ok B Enc \<longleftrightarrow> (\<forall>k. length k = 32 \<longrightarrow> trim (Enc k) = Enc k \<and> B (Enc k) = Some k)"

lemma decode_encoded: "base64_ok B Enc \<Longrightarrow> length k = 32 \<Longrightarrow> decode_base64 B (Enc k) = Some k"
  by (simp add: base64_ok_def decode_base64_def)

lemma signal_recv_taken:
  assumes "crypto_ok C" "length rnd = 12" "length pub = 32" "0 < port" "takes (ns_config st)" "cfg = ns_config st" "psk = nc_psk cfg"
    and "configure_peer V B (nc_interface cfg) (Enc pub) (signal_endpoint ip port) (nc_persistent_keepalive cfg) (Some mtu)
      (nc_mtu cfg = Some 0) (nc_mode cfg) True c = (r, c1)"
    and "nc_mtu cfg \<noteq> Some 0" and "told_port V cfg c1 = (own_port, c2)"
  shows "signal_recv C V B Enc takes rnd' (seal_signal C psk rnd (signal_message pub mtu port)) ip (st # sts) c =
    (Some (seal_signal C psk rnd' (signal_message (ns_pub_key st) (iface_mtu V (nc_interface cfg) (ct_world c1)) own_port)), c2)"
proof -
  have "port \<noteq> 0" using assms(4) by auto
  then show ?thesis using assms(5,8-10)
  by (simp add: open_seal_signal(1) [OF assms(1,2)] parse_signal_message [OF assms(3)] assms(6) [symmetric] assms(7) [symmetric] told_mtu_def)
qed


text \<open>C16 Signalling needs the secret: a packet that no secret of an interface opens is answered by none of the three receivers and changes nothing, neither the caches nor a device.\<close>

theorem signal_needs_secret:
  assumes "\<And>st. st \<in> set states \<Longrightarrow> open_signal C (nc_psk (ns_config st)) pkt = None"
  shows "udp_signal_recv C V B Enc rnd pkt addr states c = (None, c) \<and> tcp_signal_recv C V B Enc rnd pkt addr states c = (None, c) \<and>
    raw_recv_states C V B Enc proto rnds pkt ip states c = Some ([], c)"
proof -
  note refused = signal_recv_refused [OF assms] and raw = raw_recv_refused [OF assms]
  show ?thesis by (simp add: udp_signal_recv_def tcp_signal_recv_def refused raw)
qed

text \<open>A raw message of fewer than 32 bytes ends the receiver: a packet that holds one of 16 to 31 bytes, sealed with the secret of an interface of this protocol, passes the check of the length, and then taking the 32 bytes of the key panics.\<close>

theorem short_raw_message_panics:
  assumes "crypto_ok C" and "length rnd = 12" and "16 \<le> length msg" and "length msg < 32"
    and "st \<in> set states" and "raw_takes proto (ns_config st)"
  shows "raw_signal_recv C V B Enc proto rnds (0x99 # seal_signal C (nc_psk (ns_config st)) rnd msg) addr states c = None"
proof -
  have "((0x99 :: u8) AND 0xf0) \<noteq> 0x40" by code_simp
  then show ?thesis
    using raw_recv_panics [OF assms(5,6) open_seal_signal(1) [OF assms(1,2)] assms(4)] open_seal_signal(2) [OF assms(1,2)] assms(3)
    by (simp add: raw_signal_recv_def Let_def)
qed

section \<open>Examples\<close>

definition toy_enc :: "bytes \<Rightarrow> string" where
  "toy_enc = toy_hex"

definition toy_dec :: "string \<Rightarrow> bytes option" where
  "toy_dec s = (case key_from_str (\<lambda>_. None) s of Some (Inr k) \<Rightarrow> Some k | _ \<Rightarrow> None)"

lemma toy_base64: "base64_ok toy_dec toy_enc"
proof -
  have "trim (toy_enc k) = toy_enc k" if "length k = 32" for k
  proof -
    have p: "list_all plain (toy_enc k)" unfolding toy_enc_def by (rule plain_hex [OF toy_hex_ok])
    have "k \<noteq> []" using that by auto
    then obtain b bs where "k = b # bs" by (cases k) simp
    then have n: "toy_enc k \<noteq> []" by (simp add: toy_enc_def toy_hex_def hex_byte_def)
    then have "inky (hd (toy_enc k))" "inky (last (toy_enc k))" using p plain_inky by (auto simp: list_all_iff)
    then show ?thesis using n trim_front_inky [of "toy_enc k"] trim_front_back [of "toy_enc k"] by (simp add: trim_def trim_end_def)
  qed
  then show ?thesis by (simp add: base64_ok_def toy_dec_def toy_enc_def key_hex_round_trip [OF toy_hex_ok])
qed

definition toy_state :: "string \<Rightarrow> string \<Rightarrow> neko_state" where
  "toy_state mode psk =
    \<lparr>ns_config = (config_fill ''wg0'' ''10.0.0.1/24'' psk [])\<lparr>nc_mode := mode\<rparr>, ns_priv_b64 = ''k'', ns_pub_key = replicate 32 1,
     ns_global = global_default\<rparr>"

lemma toy_refuses: "open_signal toy_crypto ''b'' (seal_signal toy_crypto ''a'' (replicate 12 5) msg) = None"
proof -
  have "chacha_seal toy_crypto (derive_cipher toy_crypto ''a'') (replicate 12 5) [] msg = (msg, pad_to 16 (derive_cipher toy_crypto ''a''))"
    by (simp add: toy_crypto_def toy_seal_def)
  moreover have "pad_to 16 (derive_cipher toy_crypto ''a'') \<noteq> pad_to 16 (derive_cipher toy_crypto ''b'')" by code_simp
  ultimately show ?thesis
    by (simp add: open_signal_def seal_signal_def aead_chacha20_seal_inner_def toy_open_def) (simp add: toy_crypto_def toy_open_def)
qed

theorem signal_needs_secret_witness:
  "udp_signal_recv toy_crypto (toy_ctl_env toy_socket (\<lambda>_. None)) toy_dec toy_enc [] (seal_signal toy_crypto ''a'' (replicate 12 5)
      (signal_message (replicate 32 7) 1420 51820)) (SockV4 [10, 0, 0, 9] 12580) [toy_state ''udp'' ''b'']
      \<lparr>ct_peers = Map.empty, ct_mtus = [], ct_dns = [], ct_world = 0\<rparr> =
    (None, \<lparr>ct_peers = Map.empty, ct_mtus = [], ct_dns = [], ct_world = 0\<rparr>)"
  by (rule conjunct1 [OF signal_needs_secret]) (use toy_refuses in \<open>simp add: toy_state_def config_fill_def\<close>)

theorem short_raw_message_panics_witness:
  "raw_signal_recv toy_crypto (toy_ctl_env toy_socket (\<lambda>_. None)) toy_dec toy_enc 141 (\<lambda>_. [])
    (0x99 # seal_signal toy_crypto (nc_psk (ns_config (toy_state ''ip'' ''b''))) (replicate 12 5) (replicate 20 1)) None
    [toy_state ''ip'' ''b''] \<lparr>ct_peers = Map.empty, ct_mtus = [], ct_dns = [], ct_world = 0\<rparr> = None"
  by (rule short_raw_message_panics [OF toy_crypto_ok]) (simp_all add: toy_state_def config_fill_def raw_takes_def)


end
