(* ===== verification/Ctl_Socks.thy ===== *)
theory Ctl_Socks
  imports Ctl_Device
begin

text \<open>
  The SOCKS5 proxy of the control plane (src/nekolink-ctl/src/main.rs): the requests of a client, the
  address it names and how it is resolved, and the relay of datagrams with their headers. What a
  client sends is the list of the bytes that come until the end of its stream. Opening sockets,
  copying a connection, and the timeouts are not modelled.
\<close>

section \<open>Requests\<close>

text \<open>\<open>read_exact\<close>.\<close>

definition read_exact :: "nat \<Rightarrow> bytes \<Rightarrow> ctl_error + bytes \<times> bytes" where
  "read_exact n client = (if n \<le> length client then Inr (take n client, drop n client) else Inl Io_Error)"

text \<open>
  What a client asks for: a connection to a text, or an association for datagrams. The first
  component is what has been written by then; the methods it offers and the version of the request
  are not looked at.
\<close>

datatype socks_cmd = Connect string | Associate

definition be_port :: "bytes \<Rightarrow> u16" where
  "be_port bs = word_of_nat (be_val (take 2 bs))"

definition socks_target :: "u8 \<Rightarrow> bytes \<Rightarrow> ctl_error + string \<times> bytes" where
  "socks_target atyp client =
    (if atyp = 1 then
       (case read_exact 4 client of
          Inl e \<Rightarrow> Inl e
        | Inr (ip, client) \<Rightarrow>
            (case read_exact 2 client of
               Inl e \<Rightarrow> Inl e
             | Inr (port, client) \<Rightarrow> Inr (show_ip (V4 ip) @ '':'' @ show_nat (unat (be_port port)), client)))
     else if atyp = 3 then
       (case read_exact 1 client of
          Inl e \<Rightarrow> Inl e
        | Inr (len, client) \<Rightarrow>
            (case read_exact (unat (hd len)) client of
               Inl e \<Rightarrow> Inl e
             | Inr (domain, client) \<Rightarrow>
                 (case read_exact 2 client of
                    Inl e \<Rightarrow> Inl e
                  | Inr (port, client) \<Rightarrow>
                      Inr (from_utf8_lossy (bytes_text domain) @ '':'' @ show_nat (unat (be_port port)), client))))
     else if atyp = 4 then
       (case read_exact 16 client of
          Inl e \<Rightarrow> Inl e
        | Inr (ip, client) \<Rightarrow>
            (case read_exact 2 client of
               Inl e \<Rightarrow> Inl e
             | Inr (port, client) \<Rightarrow>
                 Inr (''['' @ show_ip (V6 ip) @ '']:'' @ show_nat (unat (be_port port)), client)))
     else Inl Unsupported)"

definition socks_source :: "u8 \<Rightarrow> bytes \<Rightarrow> ctl_error + bytes" where
  "socks_source atyp client =
    (if atyp = 1 then map_sum id snd (read_exact 6 client)
     else if atyp = 3 then
       (case read_exact 1 client of
          Inl e \<Rightarrow> Inl e
        | Inr (len, client) \<Rightarrow> map_sum id snd (read_exact (unat (hd len) + 2) client))
     else if atyp = 4 then map_sum id snd (read_exact 18 client)
     else Inl Unsupported)"

definition socks_request :: "bytes \<Rightarrow> bytes \<times> (ctl_error + socks_cmd \<times> bytes)" where
  "socks_request client =
    (case read_exact 2 client of
       Inl e \<Rightarrow> ([], Inl e)
     | Inr (greeting, client) \<Rightarrow>
         if greeting ! 0 \<noteq> 5 then ([], Inl Malformed)
         else case read_exact (unat (greeting ! 1)) client of
           Inl e \<Rightarrow> ([], Inl e)
         | Inr (_, client) \<Rightarrow>
             (case read_exact 4 client of
                Inl e \<Rightarrow> ([5, 0], Inl e)
              | Inr (request, client) \<Rightarrow>
                  if request ! 1 = 1 then
                    ([5, 0], map_sum id (apfst Connect) (socks_target (request ! 3) client))
                  else if request ! 1 = 3 then
                    ([5, 0], map_sum id (Pair Associate) (socks_source (request ! 3) client))
                  else ([5, 0], Inl Unsupported)))"

text \<open>The answers: to a connection, and with the port of the relay to an association.\<close>

definition connect_reply :: "bool \<Rightarrow> bytes" where
  "connect_reply success = [5, if success then 0 else 1, 0, 1, 0, 0, 0, 0, 0, 0]"

definition associate_reply :: "u16 \<Rightarrow> bytes" where
  "associate_reply port = [5, 0, 0, 1, 0, 0, 0, 0, ucast (drop_bit 8 port), ucast (and port 0xFF)]"

text \<open>The address to connect to and the local address to bind to.\<close>

definition connect_address ::
    "(string \<Rightarrow> 's \<Rightarrow> (ctl_error + ip_addr) \<times> 's) \<Rightarrow> string \<Rightarrow> 's \<Rightarrow> (ctl_error + sock_addr) \<times> 's" where
  "connect_address dns target s =
    (case rsplit_once (CHR '':'') target of
       None \<Rightarrow> (Inl Malformed, s)
     | Some (host, port_str) \<Rightarrow>
         (case (parse_unsigned port_str :: u16 option) of
            None \<Rightarrow> (Inl Malformed, s)
          | Some port \<Rightarrow>
              (case parse_with read_ip host of
                 Some ip \<Rightarrow> (Inr (sock_new ip port), s)
               | None \<Rightarrow> apfst (map_sum id (\<lambda>ip. sock_new ip port)) (dns host s))))"

definition connect_source :: "ip_addr list \<Rightarrow> sock_addr \<Rightarrow> sock_addr option" where
  "connect_source local_ips addr =
    map_option (\<lambda>lip. sock_new lip 0) (find (\<lambda>lip. is_v6 lip \<longleftrightarrow> \<not> sock_is_ipv4 addr) local_ips)"

definition datagram_source :: "ip_addr list \<Rightarrow> bool \<times> sock_addr option" where
  "datagram_source local_ips =
    (let v4 = (case local_ips of [] \<Rightarrow> True | ip # _ \<Rightarrow> \<not> is_v6 ip)
     in (v4, map_option (\<lambda>lip. sock_new lip 0) (find (\<lambda>lip. is_v6 lip \<longleftrightarrow> \<not> v4) local_ips)))"

section \<open>Datagrams\<close>

text \<open>
  The header in front of a datagram of the client: its length and the address, or a panic for the
  missing length of a name.
\<close>

definition parse_socks5_udp_header ::
    "(string \<Rightarrow> 's \<Rightarrow> (ctl_error + ip_addr) \<times> 's) \<Rightarrow> bytes \<Rightarrow> 's \<Rightarrow> ((ctl_error + nat \<times> sock_addr) \<times> 's) option" where
  "parse_socks5_udp_header dns buf s =
    (if length buf < 4 then Some (Inl Malformed, s)
     else if buf ! 2 \<noteq> 0 then Some (Inl Unsupported, s)
     else if buf ! 3 = 1 then
       (if length buf < 10 then Some (Inl Malformed, s)
        else Some (Inr (10, sock_new (V4 (slice 4 8 buf)) (be_port (drop 8 buf))), s))
     else if buf ! 3 = 3 then
       (if length buf \<le> 4 then None
        else
          (let len = unat (buf ! 4)
           in if length buf < 5 + len + 2 then Some (Inl Malformed, s)
              else Some (apfst (map_sum id (\<lambda>ip. (5 + len + 2, sock_new ip (be_port (drop (5 + len) buf)))))
                (dns (from_utf8_lossy (bytes_text (slice 5 (5 + len) buf))) s))))
     else if buf ! 3 = 4 then
       (if length buf < 22 then Some (Inl Malformed, s)
        else Some (Inr (22, sock_new (V6 (slice 4 20 buf)) (be_port (drop 20 buf))), s))
     else Some (Inl Unsupported, s))"

fun append_socks5_udp_header :: "bytes \<Rightarrow> sock_addr \<Rightarrow> bytes" where
  "append_socks5_udp_header buf (SockV4 ip port) = buf @ [0, 0, 0, 1] @ ip @ u16_be port"
| "append_socks5_udp_header buf (SockV6 ip port flow scope) = buf @ [0, 0, 0, 4] @ ip @ u16_be port"

text \<open>
  An association: the client's address is that of its first datagram. A datagram of the client, with
  what is sent through the tunnel, and a datagram of the tunnel, with what is sent to the client.
\<close>

definition relay_from_client ::
    "(string \<Rightarrow> 's \<Rightarrow> (ctl_error + ip_addr) \<times> 's) \<Rightarrow> sock_addr option \<Rightarrow> bytes \<Rightarrow> sock_addr \<Rightarrow> 's \<Rightarrow>
      (sock_addr option \<times> (bytes \<times> sock_addr) option \<times> 's) option" where
  "relay_from_client dns client buf addr s =
    (let client = (case client of None \<Rightarrow> Some addr | Some c \<Rightarrow> Some c)
     in if Some addr = client then
          (case parse_socks5_udp_header dns buf s of
             None \<Rightarrow> None
           | Some (Inr (header_len, target), s) \<Rightarrow> Some (client, Some (drop header_len buf, target), s)
           | Some (Inl _, s) \<Rightarrow> Some (client, None, s))
        else Some (client, None, s))"

definition relay_from_tunnel :: "sock_addr option \<Rightarrow> bytes \<Rightarrow> sock_addr \<Rightarrow> (bytes \<times> sock_addr) option" where
  "relay_from_tunnel client buf addr =
    map_option (\<lambda>c_addr. (append_socks5_udp_header [] addr @ buf, c_addr)) client"

section \<open>Where the proxy listens\<close>

fun split_host :: "string \<Rightarrow> string" where
  "split_host s = takeWhile (\<lambda>c. c \<noteq> CHR ''/'') s"

abbreviation trimmed_parts :: "string \<Rightarrow> string list" where
  "trimmed_parts s \<equiv> filter (\<lambda>s. s \<noteq> []) (map trim (split_all (CHR '','') s))"

definition socks_listen_addrs :: "neko_config \<Rightarrow> global_config \<Rightarrow> u16 \<Rightarrow> sock_addr list" where
  "socks_listen_addrs cfg global port =
    (case nc_socks5_bind_addr cfg of
       Some bind_addr \<Rightarrow> map (\<lambda>ip. sock_new ip port) (List.map_filter (parse_with read_ip) (trimmed_parts bind_addr))
     | None \<Rightarrow>
         (if nc_socks5_listen_local cfg then [sock_new (V4 [127, 0, 0, 1]) port] else []) @
         (if nc_socks5_listen_loopback cfg then
            (case gc_loopback_address global of
               Some addrs \<Rightarrow> map (\<lambda>ip. sock_new ip port) (List.map_filter (\<lambda>s. parse_with read_ip (split_host s)) (trimmed_parts addrs))
             | None \<Rightarrow> [])
          else []))"

text \<open>The addresses of the interface that connections are made from.\<close>

definition socks_local_ips :: "neko_config \<Rightarrow> ip_addr list" where
  "socks_local_ips cfg = List.map_filter (\<lambda>s. parse_with read_ip (split_host s)) (split_all (CHR '','') (nc_local_address cfg))"

section \<open>Headers and addresses\<close>

lemma be_port_be: "be_port (u16_be p @ rest) = p"
  using unat_bound [of p] by (simp add: be_port_def u16_be_def byte_simps)

lemma header_parsed:
  assumes "sock_ok addr"
  shows "parse_socks5_udp_header dns (append_socks5_udp_header [] addr @ payload) s =
    Some (Inr (length (append_socks5_udp_header [] addr), sock_new (sock_ip addr) (sock_port addr)), s)"
proof (cases addr)
  case (SockV4 ip port)
  then show ?thesis using assms be_port_be [of port payload] slice_hit [of 4 "[0, 0, 0, 1]" 8 ip "u16_be port @ payload"]
    by (simp add: parse_socks5_udp_header_def u16_be_def)
next
  case (SockV6 ip port flow scope)
  then show ?thesis using assms be_port_be [of port payload] slice_hit [of 4 "[0, 0, 0, 4]" 20 ip "u16_be port @ payload"]
    by (simp add: parse_socks5_udp_header_def u16_be_def)
qed

lemma rsplit_once_last: "c \<notin> set b \<Longrightarrow> rsplit_once c (a @ c # b) = Some (a, b)"
proof -
  assume c: "c \<notin> set b"
  have "takeWhile (\<lambda>x. x \<noteq> c) (rev b @ c # rev a) = rev b" "dropWhile (\<lambda>x. x \<noteq> c) (rev b @ c # rev a) = c # rev a"
    using c by (induction b rule: rev_induct) auto
  then have "split_once c (rev b @ c # rev a) = Some (rev b, rev a)" by (simp add: split_once_def)
  then show ?thesis by (simp add: rsplit_once_def)
qed

lemma connect_address_printed:
  "connect_address dns (host @ '':'' @ show_nat (unat port)) s =
    (case parse_with read_ip host of
       Some ip \<Rightarrow> (Inr (sock_new ip port), s)
     | None \<Rightarrow> apfst (map_sum id (\<lambda>ip. sock_new ip port)) (dns host s))"
proof -
  have "CHR '':'' \<notin> set (show_nat (unat port))"
    using show_radix_digits [of 10 "unat port", simplified] by (auto simp: list_all_iff is_digit_def to_digit_def)
  from rsplit_once_last [OF this, of host] show ?thesis by (simp add: connect_address_def parse_unsigned_show)
qed

lemma bracket_no_ip: "parse_with read_ip (CHR ''['' # cs) = None"
proof -
  have d: "\<not> is_digit 10 (CHR ''['')" "\<not> is_digit 16 (CHR ''['')" by (simp_all add: is_digit_def to_digit_def)
  have n: "read_number 10 m z b (CHR ''['' # cs) = None" "read_number 16 m z b (CHR ''['' # cs) = None" for m z b
    using d by (simp_all add: read_number_def)
  have "read_ipv4 (CHR ''['' # cs) = None" by (simp add: read_ipv4_def n)
  moreover from this have "read_groups (Suc k) True (CHR ''['' # cs) = ([], False, CHR ''['' # cs)" for k
    by (simp add: read_separator_def n)
  moreover have "(8 :: nat) = Suc 7" by simp
  ultimately have "read_groups 8 True (CHR ''['' # cs) = ([], False, CHR ''['' # cs)" "read_ipv4 (CHR ''['' # cs) = None" by (simp_all only:)
  moreover from this have "read_ipv6 (CHR ''['' # cs) = None" by (simp add: read_ipv6_def read_char_def)
  ultimately show ?thesis by (simp add: parse_with_def read_ip_def)
qed

lemma socks_target_ip:
  "length ip = 4 \<Longrightarrow> socks_target 1 (ip @ u16_be port @ rest) = Inr (show_ip (V4 ip) @ '':'' @ show_nat (unat port), rest)"
  "length ip = 16 \<Longrightarrow> socks_target 4 (ip @ u16_be port @ rest) = Inr (''['' @ show_ip (V6 ip) @ '']:'' @ show_nat (unat port), rest)"
  using be_port_be [of port "[]"] by (simp_all add: socks_target_def read_exact_def u16_be_def)

text \<open>A sequence of datagrams that reach the relay, with what is sent on.\<close>

fun relay_datagrams ::
    "(string \<Rightarrow> 's \<Rightarrow> (ctl_error + ip_addr) \<times> 's) \<Rightarrow> sock_addr option \<Rightarrow> (bytes \<times> sock_addr) list \<Rightarrow> 's \<Rightarrow>
      (sock_addr option \<times> (bytes \<times> sock_addr) list) option" where
  "relay_datagrams dns client [] s = Some (client, [])"
| "relay_datagrams dns client ((buf, addr) # ds) s =
    (case relay_from_client dns client buf addr s of
       None \<Rightarrow> None
     | Some (client, sent, s) \<Rightarrow>
         map_option (apsnd (\<lambda>rest. case sent of Some x \<Rightarrow> x # rest | None \<Rightarrow> rest)) (relay_datagrams dns client ds s))"

lemma relay_step:
  assumes "relay_from_client dns (Some a) buf addr s = Some (client, sent, s')"
  shows "client = Some a \<and> (case sent of None \<Rightarrow> True | Some x \<Rightarrow> addr = a \<and> (\<exists>n. fst x = drop n buf))"
  using assms by (auto simp: relay_from_client_def Let_def split: if_splits option.splits sum.splits)

lemma relay_served:
  "relay_datagrams dns (Some a) ds s = Some (client, sent) \<Longrightarrow>
    client = Some a \<and> (\<forall>x\<in>set sent. \<exists>buf n. (buf, a) \<in> set ds \<and> fst x = drop n buf)"
proof (induction ds arbitrary: s sent)
  case (Cons d ds)
  obtain buf addr where d: "d = (buf, addr)" by (cases d)
  obtain client1 sent1 s1 where r: "relay_from_client dns (Some a) buf addr s = Some (client1, sent1, s1)"
    using Cons.prems by (auto simp: d split: option.splits)
  note step = relay_step [OF r]
  obtain rest where rest: "relay_datagrams dns (Some a) ds s1 = Some (client, rest)" "sent = (case sent1 of Some x \<Rightarrow> x # rest | None \<Rightarrow> rest)"
    using Cons.prems step by (auto simp: d r)
  show ?case using Cons.IH [OF rest(1)] step by (cases sent1) (fastforce simp: rest(2) d)+
qed simp

lemma relay_first: "relay_from_client dns None buf addr s = relay_from_client dns (Some addr) buf addr s"
  by (simp add: relay_from_client_def)

section \<open>Properties\<close>

text \<open>The relay's headers are read back: a datagram that came from the tunnel and was given its header for the client is, when the client sends it, taken apart into the same payload for the same address and port.\<close>

theorem relay_headers_round_trip:
  assumes "sock_ok addr" and "relay_from_tunnel (Some client) buf addr = Some (datagram, c_addr)"
  shows "relay_from_client dns (Some client) datagram c_addr s = Some (Some client, Some (buf, sock_new (sock_ip addr) (sock_port addr)), s)"
proof -
  have "datagram = append_socks5_udp_header [] addr @ buf" "c_addr = client" using assms(2) by (simp_all add: relay_from_tunnel_def)
  then show ?thesis using header_parsed [OF assms(1), of dns buf s] by (simp add: relay_from_client_def)
qed

theorem relay_headers_round_trip_witness:
  "\<exists>datagram. relay_from_tunnel (Some (SockV4 [127, 0, 0, 1] 4000)) [1, 2, 3] (SockV6 (replicate 16 1) 53 0 0) =
      Some (datagram, SockV4 [127, 0, 0, 1] 4000) \<and>
    relay_from_client (\<lambda>_. Pair (Inl Io_Error)) (Some (SockV4 [127, 0, 0, 1] 4000)) datagram (SockV4 [127, 0, 0, 1] 4000) () =
      Some (Some (SockV4 [127, 0, 0, 1] 4000), Some ([1, 2, 3], SockV6 (replicate 16 1) 53 0 0), ())"
proof -
  obtain datagram where d: "relay_from_tunnel (Some (SockV4 [127, 0, 0, 1] 4000)) [1, 2, 3] (SockV6 (replicate 16 1) 53 0 0) =
      Some (datagram, SockV4 [127, 0, 0, 1] 4000)"
    by (simp add: relay_from_tunnel_def)
  from relay_headers_round_trip [OF _ d, of "\<lambda>_. Pair (Inl Io_Error)" "()"] d show ?thesis by (auto simp:)
qed

text \<open>C29 Only the first sender is served: over any sequence of datagrams that reach the relay, its client stays the sender of the first one, and all that is sent through the tunnel are ends of datagrams of this client.\<close>

theorem relay_serves_first_sender:
  assumes "relay_datagrams dns None ((buf, a) # ds) s = Some (client, sent)"
  shows "client = Some a \<and> (\<forall>x\<in>set sent. \<exists>buf' n. (buf', a) \<in> set ((buf, a) # ds) \<and> fst x = drop n buf')"
proof -
  have "relay_datagrams dns (Some a) ((buf, a) # ds) s = Some (client, sent)" using assms by (simp add: relay_first)
  from relay_served [OF this] show ?thesis by blast
qed

theorem relay_serves_first_sender_witness:
  "\<exists>client sent. relay_datagrams (\<lambda>_. Pair (Inl Io_Error)) None
      [([0, 0, 0, 1, 10, 0, 0, 1, 0, 53, 7], SockV4 [127, 0, 0, 1] 4000), ([0, 0, 0, 1, 10, 0, 0, 2, 0, 53, 8], SockV4 [127, 0, 0, 1] 4001)] () =
      Some (client, sent) \<and> client = Some (SockV4 [127, 0, 0, 1] 4000) \<and> length sent = 1"
proof -
  let ?ds = "[([0, 0, 0, 1, 10, 0, 0, 1, 0, 53, 7], SockV4 [127, 0, 0, 1] 4000), ([0, 0, 0, 1, 10, 0, 0, 2, 0, 53, 8], SockV4 [127, 0, 0, 1] 4001)]"
  obtain sent where sent: "relay_datagrams (\<lambda>_. Pair (Inl Io_Error)) None ?ds () = Some (Some (SockV4 [127, 0, 0, 1] 4000), sent)" "length sent = 1"
    by (simp add: relay_from_client_def parse_socks5_udp_header_def Let_def)
  from relay_serves_first_sender [OF sent(1)] sent show ?thesis by blast
qed

text \<open>The header parser panics on exactly one kind of datagram: four bytes long, not a fragment, and announcing a name, whose length is read without a check.\<close>

theorem udp_header_panics:
  "parse_socks5_udp_header dns buf s = None \<longleftrightarrow> length buf = 4 \<and> buf ! 2 = 0 \<and> buf ! 3 = 3"
  by (auto simp: parse_socks5_udp_header_def Let_def)

text \<open>A connection to an IPv4 address goes to this address and port without asking a resolver, while for an IPv6 address the text in brackets is not read as an address and a resolver is asked for it as for a name.\<close>

theorem connection_resolves:
  assumes "length ip4 = 4" and "length ip6 = 16"
  shows "(case socks_target 1 (ip4 @ u16_be port @ rest) of
        Inr (target, _) \<Rightarrow> connect_address dns target s = (Inr (SockV4 ip4 port), s) | Inl _ \<Rightarrow> False) \<and>
    (case socks_target 4 (ip6 @ u16_be port @ rest) of
        Inr (target, _) \<Rightarrow> connect_address dns target s =
          apfst (map_sum id (\<lambda>ip. sock_new ip port)) (dns (''['' @ show_ip (V6 ip6) @ '']'') s) | Inl _ \<Rightarrow> False)"
proof -
  have "parse_with read_ip (show_ip (V4 ip4)) = Some (V4 ip4)" by (rule ip.parse_show) (simp add: assms(1))
  then show ?thesis
    using connect_address_printed [of dns "show_ip (V4 ip4)" port s] connect_address_printed [of dns "''['' @ show_ip (V6 ip6) @ '']''" port s]
    by (simp add: socks_target_ip assms bracket_no_ip)
qed

theorem connection_resolves_witness:
  "(case socks_target 1 ([10, 0, 0, 9] @ u16_be 443 @ []) of
        Inr (target, _) \<Rightarrow> connect_address (\<lambda>_. Pair (Inl Io_Error)) target () = (Inr (SockV4 [10, 0, 0, 9] 443), ()) | Inl _ \<Rightarrow> False) \<and>
    (case socks_target 4 (replicate 16 1 @ u16_be 443 @ []) of
        Inr (target, _) \<Rightarrow> connect_address (\<lambda>_. Pair (Inl Io_Error)) target () =
          apfst (map_sum id (\<lambda>ip. sock_new ip 443)) (Inl Io_Error, ()) | Inl _ \<Rightarrow> False)"
  by (rule connection_resolves) simp_all

end
