(* ===== verification/Ctl_Reload.thy ===== *)
theory Ctl_Reload
  imports Ctl_Config Crypto Slots
begin

text \<open>
  The instances of the control plane (\<open>main\<close> of src/nekolink-ctl/src/main.rs): one task for each
  interface, started with the program and compared with the files on every SIGHUP. A task is a
  number; \<open>dm_running\<close> are those that were started and not cancelled, also when no instance names
  them any more. The texts that \<open>serde_json\<close> makes of two configurations are equal exactly when the
  configurations are, since every field is written. What the tasks do is in the theories \<open>Ctl_Peer\<close>
  and \<open>Ctl_Signal\<close>.
\<close>

section \<open>Keys\<close>

text \<open>
  \<open>files\<close> is \<open>load_or_generate_keys\<close>: the private key in Base64 and the public key. At the start an
  error ends the program; on a reload a key that cannot be used is replaced by that of the files, and
  this by an empty one.
\<close>

definition start_keys ::
    "crypto \<Rightarrow> (string \<Rightarrow> bytes option) \<Rightarrow> (string \<Rightarrow> (string \<times> bytes) option) \<Rightarrow> neko_config \<Rightarrow> ctl_error + string \<times> bytes" where
  "start_keys C B files cfg =
    (case nc_private_key cfg of
       Some pk \<Rightarrow>
         (case decode_base64 B pk of
            None \<Rightarrow> Inl Malformed
          | Some b \<Rightarrow> if length b = 32 then Inr (pk, x25519_public C b) else Inl Malformed)
     | None \<Rightarrow> (case files (nc_interface cfg) of Some k \<Rightarrow> Inr k | None \<Rightarrow> Inl Io_Error))"

definition reload_keys ::
    "crypto \<Rightarrow> (string \<Rightarrow> bytes option) \<Rightarrow> (string \<Rightarrow> (string \<times> bytes) option) \<Rightarrow> neko_config \<Rightarrow> string \<times> bytes" where
  "reload_keys C B files cfg =
    (let loaded = (case files (nc_interface cfg) of Some k \<Rightarrow> k | None \<Rightarrow> ([], replicate 32 0))
     in case nc_private_key cfg of
          Some pk \<Rightarrow>
            (case decode_base64 B pk of
               Some b \<Rightarrow> if length b = 32 then (pk, x25519_public C b) else loaded
             | None \<Rightarrow> loaded)
        | None \<Rightarrow> loaded)"

section \<open>Instances\<close>

record instance_handle =
  ih_state :: neko_state
  ih_task :: nat

record daemon =
  dm_instances :: "(string \<times> instance_handle) list"
  dm_running :: "nat list"
  dm_next_task :: nat
  dm_global :: global_config
  dm_signalling :: "global_config list"
  dm_loopback :: "global_config list"

text \<open>
  \<open>dm_signalling\<close> are the configurations that the signalling was started with, the last of which
  runs, and \<open>dm_loopback\<close> those that the loopback interface was set up with.
\<close>

definition spawn_instance :: "global_config \<Rightarrow> neko_config \<Rightarrow> string \<times> bytes \<Rightarrow> daemon \<Rightarrow> instance_handle \<times> daemon" where
  "spawn_instance global cfg keys d =
    (\<lparr>ih_state = \<lparr>ns_config = cfg, ns_priv_b64 = fst keys, ns_pub_key = snd keys, ns_global = global\<rparr>, ih_task = dm_next_task d\<rparr>,
     d\<lparr>dm_running := dm_next_task d # dm_running d, dm_next_task := Suc (dm_next_task d)\<rparr>)"

definition cancel_instance :: "instance_handle \<Rightarrow> daemon \<Rightarrow> daemon" where
  "cancel_instance h d = d\<lparr>dm_running := filter (\<lambda>t. t \<noteq> ih_task h) (dm_running d)\<rparr>"

fun start_instances ::
    "crypto \<Rightarrow> (string \<Rightarrow> bytes option) \<Rightarrow> (string \<Rightarrow> (string \<times> bytes) option) \<Rightarrow> neko_config list \<Rightarrow> daemon \<Rightarrow> ctl_error + daemon" where
  "start_instances C B files [] d = Inr d"
| "start_instances C B files (cfg # cfgs) d =
    (case start_keys C B files cfg of
       Inl e \<Rightarrow> Inl e
     | Inr keys \<Rightarrow>
         (let (h, d) = spawn_instance (dm_global d) cfg keys d
          in start_instances C B files cfgs (d\<lparr>dm_instances := hm_insert (nc_interface cfg) h (dm_instances d)\<rparr>)))"

definition start_daemon ::
    "crypto \<Rightarrow> (string \<Rightarrow> bytes option) \<Rightarrow> (string \<Rightarrow> (string \<times> bytes) option) \<Rightarrow> global_config \<Rightarrow> neko_config list \<Rightarrow> ctl_error + daemon" where
  "start_daemon C B files global cfgs =
    map_sum id (\<lambda>d. d\<lparr>dm_signalling := [global]\<rparr>)
      (start_instances C B files cfgs
        \<lparr>dm_instances = [], dm_running = [], dm_next_task = 0, dm_global = global, dm_signalling = [], dm_loopback = [global]\<rparr>)"

section \<open>Reloading\<close>

text \<open>
  The instances of the daemon are those that are not yet compared; \<open>kept\<close> are the next ones, in
  which a second configuration of an interface takes the place of the first.
\<close>

definition reload_one ::
    "crypto \<Rightarrow> (string \<Rightarrow> bytes option) \<Rightarrow> (string \<Rightarrow> (string \<times> bytes) option) \<Rightarrow> global_config \<Rightarrow> neko_config \<Rightarrow>
      (string \<times> instance_handle) list \<times> daemon \<Rightarrow> (string \<times> instance_handle) list \<times> daemon" where
  "reload_one C B files global cfg s =
    (let (kept, d) = s; iface = nc_interface cfg;
         should_restart = (case hm_get (dm_instances d) iface of Some old \<Rightarrow> ns_config (ih_state old) \<noteq> cfg | None \<Rightarrow> True)
     in if should_restart then
          (let d = (case hm_get (dm_instances d) iface of
                      Some old \<Rightarrow> cancel_instance old (d\<lparr>dm_instances := hm_remove iface (dm_instances d)\<rparr>)
                    | None \<Rightarrow> d);
               (h, d) = spawn_instance global cfg (reload_keys C B files cfg) d
           in (hm_insert iface h kept, d))
        else
          (case hm_get (dm_instances d) iface of
             Some old \<Rightarrow> (hm_insert iface old kept, d\<lparr>dm_instances := hm_remove iface (dm_instances d)\<rparr>)
           | None \<Rightarrow> (kept, d)))"

definition reload_signalling :: "global_config \<Rightarrow> daemon \<Rightarrow> daemon" where
  "reload_signalling new d =
    (let d = (if gc_signal_port new \<noteq> gc_signal_port (dm_global d)
              then d\<lparr>dm_signalling := new # dm_signalling d, dm_global := new\<rparr> else d)
     in if gc_loopback_interface new \<noteq> gc_loopback_interface (dm_global d) \<or> gc_loopback_address new \<noteq> gc_loopback_address (dm_global d)
        then d\<lparr>dm_loopback := new # dm_loopback d, dm_global := new\<rparr> else d)"

text \<open>The instances that are left are those of interfaces without a file; their tasks are cancelled.\<close>

definition reload_daemon ::
    "crypto \<Rightarrow> (string \<Rightarrow> bytes option) \<Rightarrow> (string \<Rightarrow> (string \<times> bytes) option) \<Rightarrow> global_config \<Rightarrow> neko_config list \<Rightarrow> daemon \<Rightarrow> daemon" where
  "reload_daemon C B files new cfgs d =
    (let (kept, d) = fold (reload_one C B files new) cfgs ([], reload_signalling new d);
         d = fold (\<lambda>(iface, old). cancel_instance old) (dm_instances d) d
     in d\<lparr>dm_instances := kept\<rparr>)"

section \<open>The loopback interface\<close>

text \<open>Commands that must succeed, and such that need not; \<open>run\<close> tells whether one did.\<close>

fun run_commands :: "(string \<Rightarrow> 'w \<Rightarrow> bool \<times> 'w) \<Rightarrow> (bool \<times> string) list \<Rightarrow> 'w \<Rightarrow> bool \<times> 'w" where
  "run_commands run [] w = (True, w)"
| "run_commands run ((must, cmd) # cmds) w =
    (let (ok, w) = run cmd w in if must \<and> \<not> ok then (False, w) else run_commands run cmds w)"

definition setup_loopback_interface ::
    "(string \<Rightarrow> 'w \<Rightarrow> bool) \<Rightarrow> (string \<Rightarrow> 'w \<Rightarrow> bool \<times> 'w) \<Rightarrow> global_config \<Rightarrow> 'w \<Rightarrow> bool \<times> 'w" where
  "setup_loopback_interface link_exists run global w =
    (case gc_loopback_interface global of
       None \<Rightarrow> (True, w)
     | Some iface \<Rightarrow>
         run_commands run
           ((if link_exists iface w then [] else [(True, ''ip link add '' @ iface @ '' type dummy'')]) @
            [(True, ''ip link set '' @ iface @ '' up'')] @
            (case gc_device_id global of
               Some i \<Rightarrow> [(True, ''ip link set dev '' @ iface @ '' alias '' @ [CHR 0x22] @ ''DeviceID:'' @ i @ [CHR 0x22])]
             | None \<Rightarrow> []) @
            (case gc_loopback_address global of
               Some addresses \<Rightarrow>
                 concat (map (\<lambda>a. [(False, ''ip addr del '' @ a @ '' dev '' @ iface @ '' 2>/dev/null''),
                                   (False, ''ip addr add '' @ a @ '' dev '' @ iface)])
                   (filter (\<lambda>s. s \<noteq> []) (map trim (split_all (CHR '','') addresses))))
             | None \<Rightarrow> [])) w)"

section \<open>The instances of an interface\<close>

abbreviation task_of :: "string \<times> instance_handle \<Rightarrow> nat" where
  "task_of x \<equiv> ih_task (snd x)"

text \<open>Instances \<open>S\<close> and tasks: the tasks that run are those of the instances, one for each.\<close>

definition instances_inv :: "(string \<times> instance_handle) set \<Rightarrow> nat list \<Rightarrow> nat \<Rightarrow> bool" where
  "instances_inv S running next_task \<longleftrightarrow>
    inj_on fst S \<and> inj_on task_of S \<and> set running = task_of ` S \<and> (\<forall>t\<in>set running. t < next_task) \<and>
    (\<forall>(i, h)\<in>S. nc_interface (ns_config (ih_state h)) = i)"

definition daemon_inv :: "daemon \<Rightarrow> bool" where
  "daemon_inv d \<longleftrightarrow> instances_inv (set (dm_instances d)) (dm_running d) (dm_next_task d)"

lemma map_of_inj: "inj_on fst (set xs) \<Longrightarrow> (k, v) \<in> set xs \<Longrightarrow> map_of xs k = Some v"
proof -
  assume inj: "inj_on fst (set xs)" and kv: "(k, v) \<in> set xs"
  then obtain v' where v': "map_of xs k = Some v'" by (metis not_Some_eq weak_map_of_SomeI)
  then have "(k, v') \<in> set xs" by (rule map_of_SomeD)
  then have "v' = v" using inj_onD [OF inj, of "(k, v')" "(k, v)"] kv by simp
  with v' show ?thesis by simp
qed

lemma set_hm_insert: "k \<notin> fst ` set xs \<Longrightarrow> set (hm_insert k v xs) = insert (k, v) (set xs)"
  by (induction xs) auto

lemma set_hm_remove: "set (hm_remove k xs) = {x \<in> set xs. fst x \<noteq> k}"
  by (auto simp: AList.delete_eq)

lemma instances_inj: "instances_inv S running n \<Longrightarrow> T \<subseteq> S \<Longrightarrow> inj_on fst T \<and> inj_on task_of T"
  unfolding instances_inv_def by (meson inj_on_subset)

lemma instances_replace:
  assumes "instances_inv S running n" and "iface \<notin> fst ` (S - R)" and "R \<subseteq> S" and "nc_interface (ns_config (ih_state h)) = iface"
    and "ih_task h = n" and "set running' = insert n (set running - task_of ` R)"
  shows "instances_inv (insert (iface, h) (S - R)) running' (Suc n)"
proof -
  have inj: "inj_on fst S" "inj_on task_of S" and run: "set running = task_of ` S" and less: "\<forall>t\<in>set running. t < n"
    and names: "\<forall>(i, h)\<in>S. nc_interface (ns_config (ih_state h)) = i" using assms(1) by (simp_all add: instances_inv_def)
  have "task_of ` S - task_of ` R = task_of ` (S - R)" using inj(2) assms(3) by (simp add: inj_on_image_set_diff)
  then have "set running' = task_of ` insert (iface, h) (S - R)" by (simp add: assms(5,6) run)
  moreover have "n \<notin> task_of ` (S - R)" using less run by auto
  then have "inj_on task_of (insert (iface, h) (S - R))" using inj_on_diff [OF inj(2)] assms(5) by (auto simp: inj_on_insert)
  moreover have "inj_on fst (insert (iface, h) (S - R))" using inj_on_diff [OF inj(1)] assms(2) by (auto simp: inj_on_insert)
  moreover have "\<forall>t\<in>set running'. t < Suc n" using less assms(6) by auto
  moreover have "\<forall>(i, h)\<in>insert (iface, h) (S - R). nc_interface (ns_config (ih_state h)) = i" using names assms(4) by auto
  ultimately show ?thesis by (simp only: instances_inv_def simp_thms)
qed

lemma reload_one_step:
  assumes "instances_inv (set kept \<union> set (dm_instances d)) (dm_running d) (dm_next_task d)" and "nc_interface cfg \<notin> fst ` set kept"
    and "reload_one C B files global cfg (kept, d) = (kept', d')"
  shows "instances_inv (set kept' \<union> set (dm_instances d')) (dm_running d') (dm_next_task d')"
    and "set (dm_instances d') = {x \<in> set (dm_instances d). fst x \<noteq> nc_interface cfg}"
    and "\<exists>h. set kept' = insert (nc_interface cfg, h) (set kept) \<and> ns_config (ih_state h) = cfg \<and>
      (\<forall>old. hm_get (dm_instances d) (nc_interface cfg) = Some old \<longrightarrow> ns_config (ih_state old) = cfg \<longrightarrow> h = old)"
proof -
  let ?i = "nc_interface cfg" and ?S = "set kept \<union> set (dm_instances d)"
  have inj: "inj_on fst ?S" using assms(1) by (simp add: instances_inv_def)
  have new: "set (hm_insert ?i h kept) = insert (?i, h) (set kept)" for h by (rule set_hm_insert [OF assms(2)])
  have goals: "instances_inv (set kept' \<union> set (dm_instances d')) (dm_running d') (dm_next_task d') \<and>
      set (dm_instances d') = {x \<in> set (dm_instances d). fst x \<noteq> ?i} \<and>
      (\<exists>h. set kept' = insert (?i, h) (set kept) \<and> ns_config (ih_state h) = cfg \<and>
        (\<forall>old. hm_get (dm_instances d) ?i = Some old \<longrightarrow> ns_config (ih_state old) = cfg \<longrightarrow> h = old))"
  proof (cases "hm_get (dm_instances d) ?i")
    case None
    then have none: "?i \<notin> fst ` set (dm_instances d)" by (simp add: map_of_eq_None_iff)
    obtain h where h: "kept' = hm_insert ?i h kept" "ih_task h = dm_next_task d" "ns_config (ih_state h) = cfg"
      "dm_instances d' = dm_instances d" "dm_running d' = dm_next_task d # dm_running d" "dm_next_task d' = Suc (dm_next_task d)"
      using assms(3) None by (auto simp: reload_one_def spawn_instance_def Let_def)
    have "instances_inv (insert (?i, h) (?S - {})) (dm_next_task d # dm_running d) (Suc (dm_next_task d))"
      by (rule instances_replace [OF assms(1)]) (use none assms(2) h in auto)
    then show ?thesis using none None h new by (auto simp: image_iff)
  next
    case (Some old)
    have old: "(?i, old) \<in> set (dm_instances d)" using Some by (rule map_of_SomeD)
    have only: "{x \<in> set (dm_instances d). fst x \<noteq> ?i} = set (dm_instances d) - {(?i, old)}"
      using inj_onD [OF inj, of _ "(?i, old)"] old by auto
    show ?thesis
    proof (cases "ns_config (ih_state old) = cfg")
      case True
      have r: "kept' = hm_insert ?i old kept" "d' = d\<lparr>dm_instances := hm_remove ?i (dm_instances d)\<rparr>"
        using assms(3) Some True by (simp_all add: reload_one_def Let_def)
      have "set kept' \<union> set (dm_instances d') = ?S" using old only by (auto simp: r new set_hm_remove)
      then show ?thesis using assms(1) True Some by (auto simp: r new set_hm_remove)
    next
      case False
      obtain h where h: "kept' = hm_insert ?i h kept" "ih_task h = dm_next_task d" "ns_config (ih_state h) = cfg"
        "dm_instances d' = hm_remove ?i (dm_instances d)" "dm_running d' = dm_next_task d # filter (\<lambda>t. t \<noteq> ih_task old) (dm_running d)"
        "dm_next_task d' = Suc (dm_next_task d)"
        using assms(3) Some False by (auto simp: reload_one_def spawn_instance_def cancel_instance_def Let_def)
      have rest: "?S - {(?i, old)} = set kept \<union> (set (dm_instances d) - {(?i, old)})" using assms(2) by force
      have free: "?i \<notin> fst ` (?S - {(?i, old)})" unfolding rest only [symmetric] using assms(2) by auto
      have "instances_inv (insert (?i, h) (?S - {(?i, old)})) (dm_next_task d # filter (\<lambda>t. t \<noteq> ih_task old) (dm_running d)) (Suc (dm_next_task d))"
        by (rule instances_replace [OF assms(1) free]) (use old h in auto)
      then show ?thesis using False Some h by (simp add: new set_hm_remove only rest) blast
    qed
  qed
  then show "instances_inv (set kept' \<union> set (dm_instances d')) (dm_running d') (dm_next_task d')"
    and "set (dm_instances d') = {x \<in> set (dm_instances d). fst x \<noteq> nc_interface cfg}"
    and "\<exists>h. set kept' = insert (nc_interface cfg, h) (set kept) \<and> ns_config (ih_state h) = cfg \<and>
      (\<forall>old. hm_get (dm_instances d) (nc_interface cfg) = Some old \<longrightarrow> ns_config (ih_state old) = cfg \<longrightarrow> h = old)"
    by blast+
qed

lemma reload_fold:
  assumes "instances_inv (set kept \<union> set (dm_instances d)) (dm_running d) (dm_next_task d)"
    and "distinct (map nc_interface cfgs)" and "fst ` set kept \<inter> nc_interface ` set cfgs = {}"
    and "fst ` set kept \<inter> fst ` set (dm_instances d) = {}"
    and "fold (reload_one C B files global) cfgs (kept, d) = (kept', d')"
  shows "instances_inv (set kept' \<union> set (dm_instances d')) (dm_running d') (dm_next_task d') \<and>
    fst ` set kept' = fst ` set kept \<union> nc_interface ` set cfgs \<and> set kept \<subseteq> set kept' \<and>
    fst ` set kept' \<inter> fst ` set (dm_instances d') = {} \<and>
    (\<forall>cfg\<in>set cfgs. \<exists>h. (nc_interface cfg, h) \<in> set kept' \<and> ns_config (ih_state h) = cfg \<and>
      (\<forall>old. hm_get (dm_instances d) (nc_interface cfg) = Some old \<longrightarrow> ns_config (ih_state old) = cfg \<longrightarrow> h = old))"
  using assms
proof (induction cfgs arbitrary: kept d)
  case (Cons cfg cfgs)
  obtain kept1 d1 where one: "reload_one C B files global cfg (kept, d) = (kept1, d1)" by fastforce
  have free: "nc_interface cfg \<notin> fst ` set kept" using Cons.prems(3) by auto
  note step = reload_one_step [OF Cons.prems(1) free one]
  obtain h where h: "set kept1 = insert (nc_interface cfg, h) (set kept)" "ns_config (ih_state h) = cfg"
    "\<And>old. hm_get (dm_instances d) (nc_interface cfg) = Some old \<Longrightarrow> ns_config (ih_state old) = cfg \<Longrightarrow> h = old"
    using step(3) by blast
  have ih: "instances_inv (set kept' \<union> set (dm_instances d')) (dm_running d') (dm_next_task d') \<and>
    fst ` set kept' = fst ` set kept1 \<union> nc_interface ` set cfgs \<and> set kept1 \<subseteq> set kept' \<and>
    fst ` set kept' \<inter> fst ` set (dm_instances d') = {} \<and>
    (\<forall>cfg\<in>set cfgs. \<exists>h. (nc_interface cfg, h) \<in> set kept' \<and> ns_config (ih_state h) = cfg \<and>
      (\<forall>old. hm_get (dm_instances d1) (nc_interface cfg) = Some old \<longrightarrow> ns_config (ih_state old) = cfg \<longrightarrow> h = old))"
  proof (rule Cons.IH [OF step(1)])
    show "distinct (map nc_interface cfgs)" using Cons.prems(2) by simp
    show "fst ` set kept1 \<inter> nc_interface ` set cfgs = {}" using Cons.prems(2,3) h(1) by auto
    show "fst ` set kept1 \<inter> fst ` set (dm_instances d1) = {}" using Cons.prems(4) h(1) step(2) by auto
    show "fold (reload_one C B files global) cfgs (kept1, d1) = (kept', d')" using Cons.prems(5) one by simp
  qed
  from ih have inv: "instances_inv (set kept' \<union> set (dm_instances d')) (dm_running d') (dm_next_task d')"
    and keys: "fst ` set kept' = fst ` set kept1 \<union> nc_interface ` set cfgs" and sub: "set kept1 \<subseteq> set kept'"
    and free': "fst ` set kept' \<inter> fst ` set (dm_instances d') = {}"
    and later: "\<forall>cfg\<in>set cfgs. \<exists>h. (nc_interface cfg, h) \<in> set kept' \<and> ns_config (ih_state h) = cfg \<and>
      (\<forall>old. hm_get (dm_instances d1) (nc_interface cfg) = Some old \<longrightarrow> ns_config (ih_state old) = cfg \<longrightarrow> h = old)"
    by - (elim conjE, assumption)+
  have inj: "inj_on fst (set (dm_instances d))" "inj_on fst (set (dm_instances d1))"
    using instances_inj [OF Cons.prems(1), of "set (dm_instances d)"] instances_inj [OF step(1), of "set (dm_instances d1)"] by simp_all
  have same: "hm_get (dm_instances d1) (nc_interface c) = Some old" if "c \<in> set cfgs" "hm_get (dm_instances d) (nc_interface c) = Some old" for c old
  proof -
    have "nc_interface c \<noteq> nc_interface cfg" using Cons.prems(2) that(1) by (metis distinct.simps(2) image_eqI list.map(2) list.set_map)
    then have "(nc_interface c, old) \<in> set (dm_instances d1)" using map_of_SomeD [OF that(2)] step(2) by simp
    then show ?thesis by (rule map_of_inj [OF inj(2)])
  qed
  have first: "\<exists>h. (nc_interface cfg, h) \<in> set kept' \<and> ns_config (ih_state h) = cfg \<and>
      (\<forall>old. hm_get (dm_instances d) (nc_interface cfg) = Some old \<longrightarrow> ns_config (ih_state old) = cfg \<longrightarrow> h = old)"
  proof (intro exI conjI allI impI)
    show "(nc_interface cfg, h) \<in> set kept'" using sub by (simp add: h(1))
  qed (simp_all add: h(2,3))
  have others: "\<exists>h. (nc_interface c, h) \<in> set kept' \<and> ns_config (ih_state h) = c \<and>
      (\<forall>old. hm_get (dm_instances d) (nc_interface c) = Some old \<longrightarrow> ns_config (ih_state old) = c \<longrightarrow> h = old)" if c_in: "c \<in> set cfgs" for c
  proof -
    obtain h' where h': "(nc_interface c, h') \<in> set kept'" "ns_config (ih_state h') = c"
      "\<And>old. hm_get (dm_instances d1) (nc_interface c) = Some old \<Longrightarrow> ns_config (ih_state old) = c \<Longrightarrow> h' = old"
      using bspec [OF later c_in] by blast
    show ?thesis
    proof (intro exI conjI allI impI)
      fix old assume "hm_get (dm_instances d) (nc_interface c) = Some old" "ns_config (ih_state old) = c"
      then show "h' = old" using h'(3) same [OF c_in] by simp
    qed (rule h')+
  qed
  show ?case
  proof (intro conjI ballI)
    show "fst ` set kept' = fst ` set kept \<union> nc_interface ` set (cfg # cfgs)" by (simp add: keys h(1))
    show "set kept \<subseteq> set kept'" using sub by (simp add: h(1))
    fix c assume "c \<in> set (cfg # cfgs)"
    then show "\<exists>h. (nc_interface c, h) \<in> set kept' \<and> ns_config (ih_state h) = c \<and>
      (\<forall>old. hm_get (dm_instances d) (nc_interface c) = Some old \<longrightarrow> ns_config (ih_state old) = c \<longrightarrow> h = old)"
      using first others by auto
  qed (rule inv free')+
qed simp

lemma cancel_all:
  "fold (\<lambda>(iface, old). cancel_instance old) xs d =
    d\<lparr>dm_running := filter (\<lambda>t. t \<notin> task_of ` set xs) (dm_running d)\<rparr>"
  by (induction xs arbitrary: d) (auto simp: cancel_instance_def filter_filter split: prod.split intro!: arg_cong2 [where f = filter])

lemma reload_signalling_frame:
  "dm_instances (reload_signalling new d) = dm_instances d" "dm_running (reload_signalling new d) = dm_running d"
  "dm_next_task (reload_signalling new d) = dm_next_task d"
  by (simp_all add: reload_signalling_def Let_def)

lemma reload_one_frame:
  "dm_loopback (snd (reload_one C B files global cfg s)) = dm_loopback (snd s) \<and> dm_global (snd (reload_one C B files global cfg s)) = dm_global (snd s)"
  by (auto simp: reload_one_def spawn_instance_def cancel_instance_def Let_def split: prod.split option.split)

lemma reload_fold_frame:
  "dm_loopback (snd (fold (reload_one C B files global) cfgs s)) = dm_loopback (snd s) \<and>
    dm_global (snd (fold (reload_one C B files global) cfgs s)) = dm_global (snd s)"
  by (induction cfgs arbitrary: s) (simp_all add: reload_one_frame)

lemma reload_global:
  "dm_loopback (reload_daemon C B files new cfgs d) = dm_loopback (reload_signalling new d)"
  "dm_global (reload_daemon C B files new cfgs d) = dm_global (reload_signalling new d)"
  using reload_fold_frame [of C B files new cfgs "([], reload_signalling new d)"]
  by (simp_all add: reload_daemon_def cancel_all case_prod_beta Let_def)

lemma start_instances_inv:
  "start_instances C B files cfgs d = Inr d' \<Longrightarrow> daemon_inv d \<Longrightarrow> distinct (map nc_interface cfgs) \<Longrightarrow>
    fst ` set (dm_instances d) \<inter> nc_interface ` set cfgs = {} \<Longrightarrow> daemon_inv d'"
proof (induction C B files cfgs d rule: start_instances.induct)
  case (2 C B files cfg cfgs d)
  obtain keys where keys: "start_keys C B files cfg = Inr keys" using 2(2) by (auto split: sum.splits)
  obtain h d1 where spawn: "spawn_instance (dm_global d) cfg keys d = (h, d1)" by fastforce
  let ?d = "d1\<lparr>dm_instances := hm_insert (nc_interface cfg) h (dm_instances d1)\<rparr>"
  have d1: "d1 = d\<lparr>dm_running := dm_next_task d # dm_running d, dm_next_task := Suc (dm_next_task d)\<rparr>" "ih_task h = dm_next_task d"
    "ns_config (ih_state h) = cfg" using spawn by (auto simp: spawn_instance_def)
  have free: "nc_interface cfg \<notin> fst ` set (dm_instances d)" using 2(5) by auto
  have "instances_inv (insert (nc_interface cfg, h) (set (dm_instances d) - {})) (dm_next_task d # dm_running d) (Suc (dm_next_task d))"
    by (rule instances_replace [OF 2(3) [unfolded daemon_inv_def]]) (use free d1 in auto)
  then have "daemon_inv ?d" using set_hm_insert [OF free, of h] by (simp add: daemon_inv_def d1)
  moreover have "start_instances C B files cfgs ?d = Inr d'" using 2(2) keys spawn by simp
  moreover have "fst ` set (dm_instances ?d) \<inter> nc_interface ` set cfgs = {}" using 2(4,5) set_hm_insert [OF free, of h] by (auto simp: d1)
  ultimately show ?case using 2(1) [OF keys spawn [symmetric] refl] 2(4) by simp
qed simp

lemma start_daemon_inv: "start_daemon C B files global cfgs = Inr d \<Longrightarrow> distinct (map nc_interface cfgs) \<Longrightarrow> daemon_inv d"
proof -
  assume start: "start_daemon C B files global cfgs = Inr d" and names: "distinct (map nc_interface cfgs)"
  let ?d = "\<lparr>dm_instances = [], dm_running = [], dm_next_task = 0, dm_global = global, dm_signalling = [], dm_loopback = [global]\<rparr>"
  obtain d' where d': "start_instances C B files cfgs ?d = Inr d'" "d = d'\<lparr>dm_signalling := [global]\<rparr>"
    using start by (cases "start_instances C B files cfgs ?d") (auto simp: start_daemon_def)
  have "daemon_inv ?d" by (simp add: daemon_inv_def instances_inv_def)
  from start_instances_inv [OF d'(1) this names] show ?thesis by (simp add: d'(2) daemon_inv_def)
qed

text \<open>Two files that name the same interface: two tasks run, of which one belongs to no instance.\<close>

lemma duplicate_interface_leaks:
  assumes "nc_interface cfg1 = nc_interface cfg2" "start_keys C B files cfg1 = Inr k1" "start_keys C B files cfg2 = Inr k2"
    and "start_daemon C B files global [cfg1, cfg2] = Inr d"
  shows "dm_running d = [1, 0] \<and> map task_of (dm_instances d) = [1]"
  using assms(4) by (auto simp: start_daemon_def assms(1-3) spawn_instance_def Let_def)

text \<open>A history of the program: the start and any number of reloads, each with one file for each interface.\<close>

inductive daemon_reach ::
    "crypto \<Rightarrow> (string \<Rightarrow> bytes option) \<Rightarrow> daemon \<Rightarrow> bool" for C B where
  reach_start: "start_daemon C B files global cfgs = Inr d \<Longrightarrow> distinct (map nc_interface cfgs) \<Longrightarrow> daemon_reach C B d"
| reach_reload: "daemon_reach C B d \<Longrightarrow> distinct (map nc_interface cfgs) \<Longrightarrow> daemon_reach C B (reload_daemon C B files new cfgs d)"

section \<open>Properties\<close>

lemma reload_matches:
  assumes "daemon_inv d" and "distinct (map nc_interface cfgs)"
  shows "daemon_inv (reload_daemon C B files new cfgs d) \<and>
    fst ` set (dm_instances (reload_daemon C B files new cfgs d)) = nc_interface ` set cfgs \<and>
    (\<forall>cfg\<in>set cfgs. \<exists>h. hm_get (dm_instances (reload_daemon C B files new cfgs d)) (nc_interface cfg) = Some h \<and> ns_config (ih_state h) = cfg \<and>
      (\<forall>old. hm_get (dm_instances d) (nc_interface cfg) = Some old \<longrightarrow> ns_config (ih_state old) = cfg \<longrightarrow> h = old))"
proof -
  obtain kept d1 where fold: "fold (reload_one C B files new) cfgs ([], reload_signalling new d) = (kept, d1)" by fastforce
  have "instances_inv (set [] \<union> set (dm_instances (reload_signalling new d))) (dm_running (reload_signalling new d)) (dm_next_task (reload_signalling new d))"
    using assms(1) by (simp add: reload_signalling_frame daemon_inv_def)
  note r = reload_fold [OF this assms(2) _ _ fold, simplified]
  have result: "reload_daemon C B files new cfgs d =
      d1\<lparr>dm_running := filter (\<lambda>t. t \<notin> task_of ` set (dm_instances d1)) (dm_running d1), dm_instances := kept\<rparr>"
    by (simp add: reload_daemon_def fold cancel_all)
  have inv: "instances_inv (set kept \<union> set (dm_instances d1)) (dm_running d1) (dm_next_task d1)" using r by blast
  have inj: "inj_on fst (set kept)" "inj_on task_of (set kept)" using instances_inj [OF inv, of "set kept"] by simp_all
  have "set kept \<inter> set (dm_instances d1) = {}" using r by auto
  then have "task_of ` set kept \<inter> task_of ` set (dm_instances d1) = {}" using inv inj_on_image_Int [of task_of _ "set kept" "set (dm_instances d1)"]
    by (metis (no_types, lifting) Un_upper1 Un_upper2 image_empty instances_inv_def)
  then have "daemon_inv (reload_daemon C B files new cfgs d)" using inv inj
    by (auto simp: result daemon_inv_def instances_inv_def)
  moreover have "\<exists>h. hm_get kept (nc_interface cfg) = Some h \<and> ns_config (ih_state h) = cfg \<and>
      (\<forall>old. hm_get (dm_instances d) (nc_interface cfg) = Some old \<longrightarrow> ns_config (ih_state old) = cfg \<longrightarrow> h = old)"
    if "cfg \<in> set cfgs" for cfg
    using r that map_of_inj [OF inj(1)] by (metis reload_signalling_frame(1))
  ultimately show ?thesis using r by (simp add: result)
qed

lemma reach_inv: "daemon_reach C B d \<Longrightarrow> daemon_inv d"
  by (induction rule: daemon_reach.induct) (use start_daemon_inv reload_matches in blast)+

text \<open>C20 After a reload the instances are those of the files: whatever the start and the reloads before, with one file for each interface every interface of the files has exactly one instance with the configuration of its file, the tasks that run are those of the instances and of no other, and an interface whose configuration did not change keeps its task.\<close>

theorem reload_matches_files:
  assumes "daemon_reach C B d" and "distinct (map nc_interface cfgs)" and "d' = reload_daemon C B files new cfgs d"
  shows "set (dm_running d') = (\<lambda>(_, h). ih_task h) ` set (dm_instances d') \<and>
    fst ` set (dm_instances d') = nc_interface ` set cfgs \<and>
    (\<forall>cfg\<in>set cfgs. \<exists>h. hm_get (dm_instances d') (nc_interface cfg) = Some h \<and> ns_config (ih_state h) = cfg \<and>
      (\<forall>old. hm_get (dm_instances d) (nc_interface cfg) = Some old \<longrightarrow> ns_config (ih_state old) = cfg \<longrightarrow> h = old))"
proof -
  note r = reload_matches [where B = B and C = C and files = files and new = new, OF reach_inv [OF assms(1)] assms(2)]
  then have "set (dm_running d') = task_of ` set (dm_instances d')"
    unfolding assms(3) by (elim conjE) (simp add: daemon_inv_def instances_inv_def)
  then show ?thesis using r unfolding assms(3) by (simp add: case_prod_beta)
qed

theorem reload_matches_files_witness:
  "\<exists>d d'. start_daemon toy_crypto (\<lambda>_. None) (\<lambda>_. Some (''k'', replicate 32 1)) global_default
        [config_fill ''wg0'' ''10.0.0.1/24'' ''a'' [], config_fill ''wg1'' ''10.0.1.1/24'' ''a'' []] = Inr d \<and>
    d' = reload_daemon toy_crypto (\<lambda>_. None) (\<lambda>_. Some (''k'', replicate 32 1)) global_default
        [config_fill ''wg1'' ''10.0.1.1/24'' ''a'' [], config_fill ''wg2'' ''10.0.2.1/24'' ''b'' []] d \<and>
    set (dm_running d') = (\<lambda>(_, h). ih_task h) ` set (dm_instances d') \<and> fst ` set (dm_instances d') = {''wg1'', ''wg2''}"
proof -
  let ?f = "\<lambda>_ :: string. Some (''k'', replicate 32 1)" and ?c = "\<lambda>i a p. config_fill i a p []"
  have names: "nc_interface (config_fill i a p ps) = i" for i a p ps by (simp add: config_fill_def)
  have keys: "start_keys toy_crypto (\<lambda>_. None) ?f (config_fill i a p ps) = Inr (''k'', replicate 32 1)" for i a p ps
    by (simp add: start_keys_def config_fill_def)
  obtain d where d: "start_daemon toy_crypto (\<lambda>_. None) ?f global_default [?c ''wg0'' ''10.0.0.1/24'' ''a'', ?c ''wg1'' ''10.0.1.1/24'' ''a''] = Inr d"
    by (simp add: start_daemon_def keys spawn_instance_def Let_def)
  have "daemon_reach toy_crypto (\<lambda>_. None) d" by (rule reach_start [OF d]) (simp add: names)
  note at_toy = reload_matches_files [OF this _ refl, of "[?c ''wg1'' ''10.0.1.1/24'' ''a'', ?c ''wg2'' ''10.0.2.1/24'' ''b'']" ?f global_default]
  have "distinct (map nc_interface [?c ''wg1'' ''10.0.1.1/24'' ''a'', ?c ''wg2'' ''10.0.2.1/24'' ''b''])" by (simp add: names)
  note at_toy = at_toy [OF this]
  have "nc_interface ` set [?c ''wg1'' ''10.0.1.1/24'' ''a'', ?c ''wg2'' ''10.0.2.1/24'' ''b''] = {''wg1'', ''wg2''}" by (simp add: names)
  then show ?thesis using d at_toy by (intro exI [of _ d] exI conjI) (assumption, rule refl, (simp only:)+)
qed

text \<open>A change of the loopback interface is lost when the signal port changes with it: the configuration is taken over with the port before the loopback settings are compared, so that the interface is not set up anew, neither by this reload nor by one with the same files after it.\<close>

theorem loopback_change_missed:
  assumes "gc_signal_port new \<noteq> gc_signal_port (dm_global d)"
  shows "dm_loopback (reload_daemon C B files new cfgs d) = dm_loopback d \<and>
    dm_loopback (reload_daemon C B files' new cfgs' (reload_daemon C B files new cfgs d)) = dm_loopback d"
  using assms by (simp add: reload_global reload_signalling_def)

theorem loopback_change_missed_witness:
  "\<exists>d. start_daemon toy_crypto (\<lambda>_. None) (\<lambda>_. None) global_default [] = Inr d \<and>
    dm_loopback (reload_daemon toy_crypto (\<lambda>_. None) (\<lambda>_. None)
      (global_default\<lparr>gc_signal_port := 1, gc_loopback_interface := Some ''lo1''\<rparr>) [] d) = [global_default]"
proof -
  obtain d where d: "start_daemon toy_crypto (\<lambda>_. None) (\<lambda>_. None) global_default [] = Inr d" "dm_global d = global_default"
    "dm_loopback d = [global_default]" by (simp add: start_daemon_def)
  have "gc_signal_port (global_default\<lparr>gc_signal_port := 1, gc_loopback_interface := Some ''lo1''\<rparr>) \<noteq> gc_signal_port (dm_global d)"
    by (simp add: d(2) global_default_def)
  from conjunct1 [OF loopback_change_missed [OF this]] d(1,3) show ?thesis by auto
qed

end
