(* ===== verification/Ctl_Keys.thy ===== *)
theory Ctl_Keys
  imports Ctl_Reload Ctl_Signal
begin

text \<open>
  The keys of an interface in files (\<open>load_or_generate_keys\<close> in src/nekolink-ctl/src/main.rs), which
  the start and a reload take as their argument \<open>files\<close>. A file system is a map from paths to
  contents; \<open>writable\<close> tells the paths that can be written, and \<open>rnd\<close> is the secret that was drawn.
\<close>

type_synonym file_system = "string \<Rightarrow> string option"

definition key_path :: "string \<Rightarrow> string" where
  "key_path interface = ''/etc/neko-link/'' @ interface @ ''.key''"

definition pub_path :: "string \<Rightarrow> string" where
  "pub_path interface = ''/etc/neko-link/'' @ interface @ ''.pub''"

definition load_or_generate_keys ::
    "crypto \<Rightarrow> (string \<Rightarrow> bytes option) \<Rightarrow> (bytes \<Rightarrow> string) \<Rightarrow> (string \<Rightarrow> bool) \<Rightarrow> bytes \<Rightarrow> string \<Rightarrow> file_system \<Rightarrow>
      (ctl_error + string \<times> string \<times> bytes) \<times> file_system" where
  "load_or_generate_keys C B Enc writable rnd interface fs =
    (let (priv, fs) =
       (case fs (key_path interface) of
          Some existing \<Rightarrow>
            (case B (trim existing) of
               None \<Rightarrow> (Inl Malformed, fs)
             | Some b \<Rightarrow> (if length b = 32 then Inr b else Inl Malformed, fs))
        | None \<Rightarrow>
            if writable (key_path interface) then (Inr rnd, fs(key_path interface \<mapsto> Enc rnd)) else (Inl Io_Error, fs))
     in case priv of
          Inl e \<Rightarrow> (Inl e, fs)
        | Inr priv \<Rightarrow>
            (let pub = x25519_public C priv
             in (Inr (Enc priv, Enc pub, pub),
                 if writable (pub_path interface) then fs(pub_path interface \<mapsto> Enc pub) else fs)))"

text \<open>The argument of \<open>start_keys\<close> and \<open>reload_keys\<close>.\<close>

definition key_files ::
    "crypto \<Rightarrow> (string \<Rightarrow> bytes option) \<Rightarrow> (bytes \<Rightarrow> string) \<Rightarrow> (string \<Rightarrow> bool) \<Rightarrow> bytes \<Rightarrow> file_system \<Rightarrow>
      string \<Rightarrow> (string \<times> bytes) option" where
  "key_files C B Enc writable rnd fs interface =
    (case fst (load_or_generate_keys C B Enc writable rnd interface fs) of
       Inl _ \<Rightarrow> None
     | Inr (priv_b64, pub_b64, pub) \<Rightarrow> Some (priv_b64, pub))"

lemma paths_differ: "pub_path i \<noteq> key_path i'"
proof -
  have "last (pub_path i) = CHR ''b''" "last (key_path i') = CHR ''y''" by (simp_all add: pub_path_def key_path_def)
  then show ?thesis by auto
qed

text \<open>Keys that were loaded or generated once are those that every later start finds, whatever it draws.\<close>

lemma keys_are_kept:
  assumes "base64_ok B Enc" and "length rnd = 32"
    and "load_or_generate_keys C B Enc writable rnd interface fs = (Inr keys, fs')"
  shows "fst (load_or_generate_keys C B Enc writable' rnd' interface fs') = Inr keys"
proof -
  have enc: "trim (Enc k) = Enc k" "B (Enc k) = Some k" if "length k = 32" for k using assms(1) that by (simp_all add: base64_ok_def)
  show ?thesis using assms(3) enc [OF assms(2)] assms(2) paths_differ [of interface interface]
    by (auto simp: load_or_generate_keys_def Let_def split: option.splits if_splits sum.splits)
qed

text \<open>An interface whose file names no key starts with the same keys after every reload.\<close>

lemma reload_keeps_keys:
  assumes "base64_ok B Enc" and "length rnd = 32" and "nc_private_key cfg = None"
    and "load_or_generate_keys C B Enc writable rnd (nc_interface cfg) fs = (Inr (priv_b64, pub_b64, pub), fs')"
  shows "start_keys C B (key_files C B Enc writable rnd fs) cfg = Inr (priv_b64, pub) \<and>
    reload_keys C B (key_files C B Enc writable' rnd' fs') cfg = (priv_b64, pub)"
  using keys_are_kept [OF assms(1,2,4), of writable' rnd'] assms(3,4)
  by (simp add: start_keys_def reload_keys_def key_files_def)

end
