(* ===== verification/Ctl_Main.thy ===== *)
theory Ctl_Main
  imports Ctl_Keys
begin

text \<open>
  The program of the control plane (src/nekolink-ctl/src/main.rs): its commands, the files of the
  configuration, the start of the service and its reload from these files, and the report of the
  status. The parsers of \<open>serde_json\<close> are parameters; a file system is a map from paths to texts, in which
  a file that is not UTF-8 cannot be read. \<open>paths\<close> is what the crate glob gives for *.json.
\<close>

section \<open>Commands\<close>

datatype command =
    Serve
  | Show_Status
  | Genkey
  | Show_Version
  | Mtu_Probe string string
  | Send_Reload
  | Bad_Usage

text \<open>The arguments, the first of which is the name of the program.\<close>

definition ctl_command :: "string list \<Rightarrow> command" where
  "ctl_command args =
    (if length args > 1 then
       (let cmd = args ! 1
        in if cmd = ''status'' then Show_Status
           else if cmd = ''genkey'' then Genkey
           else if cmd = ''version'' then Show_Version
           else if cmd = ''mtu-probe'' then
             (if length args < 3 then Bad_Usage
              else Mtu_Probe (args ! 2) (if length args > 3 then args ! 3 else ''udp''))
           else if cmd = ''reload'' then Send_Reload
           else Bad_Usage)
     else Serve)"

definition genkey :: "crypto \<Rightarrow> (bytes \<Rightarrow> string) \<Rightarrow> bytes \<Rightarrow> string \<times> string" where
  "genkey C Enc rnd = (Enc rnd, Enc (x25519_public C rnd))"

text \<open>\<open>kill\<close> sends SIGHUP to a process; the result is whether the program ends with success.\<close>

definition pid_path :: string where
  "pid_path = ''/var/run/nekolink-ctl.pid''"

definition send_reload :: "(int \<Rightarrow> 'w \<Rightarrow> bool \<times> 'w) \<Rightarrow> file_system \<Rightarrow> 'w \<Rightarrow> bool \<times> 'w" where
  "send_reload kill fs w =
    (case fs pid_path of
       None \<Rightarrow> (False, w)
     | Some pid_str \<Rightarrow> (case parse_i32 (trim pid_str) of None \<Rightarrow> (False, w) | Some pid \<Rightarrow> kill pid w))"

section \<open>The files\<close>

definition config_dir :: string where
  "config_dir = ''/etc/neko-link''"

definition global_path :: string where
  "global_path = config_dir @ ''/global.json''"

definition read_global :: "(string \<Rightarrow> global_config option) \<Rightarrow> file_system \<Rightarrow> global_config" where
  "read_global G fs =
    (case Option.bind (fs global_path) G of Some conf \<Rightarrow> conf | None \<Rightarrow> global_default)"

text \<open>The last part of a path that does not end in a slash.\<close>

definition file_name :: "string \<Rightarrow> string" where
  "file_name path = last (split_all (CHR ''/'') path)"

text \<open>A file that does not parse is passed over; one that cannot be read fails the whole.\<close>

fun read_configs ::
    "(string \<Rightarrow> neko_config option) \<Rightarrow> file_system \<Rightarrow> (ctl_error + string) list \<Rightarrow> ctl_error + neko_config list" where
  "read_configs J fs [] = Inr []"
| "read_configs J fs (Inl e # paths) = Inl e"
| "read_configs J fs (Inr path # paths) =
    (if file_name path = ''global.json'' then read_configs J fs paths
     else case fs path of
       None \<Rightarrow> Inl Io_Error
     | Some config_str \<Rightarrow>
         (case J config_str of
            None \<Rightarrow> read_configs J fs paths
          | Some config \<Rightarrow> map_sum id (\<lambda>configs. config # configs) (read_configs J fs paths)))"

definition load_configs ::
    "(string \<Rightarrow> global_config option) \<Rightarrow> (string \<Rightarrow> neko_config option) \<Rightarrow> file_system \<Rightarrow> (ctl_error + string) list \<Rightarrow>
      ctl_error + global_config \<times> neko_config list" where
  "load_configs G J fs paths = map_sum id (\<lambda>configs. (read_global G fs, configs)) (read_configs J fs paths)"

section \<open>The service\<close>

text \<open>\<open>keys\<close> is \<open>load_or_generate_keys\<close>.\<close>

definition serve ::
    "crypto \<Rightarrow> (string \<Rightarrow> bytes option) \<Rightarrow> (string \<Rightarrow> (string \<times> bytes) option) \<Rightarrow> (string \<Rightarrow> global_config option) \<Rightarrow>
      (string \<Rightarrow> neko_config option) \<Rightarrow> file_system \<Rightarrow> (ctl_error + string) list \<Rightarrow> ctl_error + daemon" where
  "serve C B keys G J fs paths =
    (case load_configs G J fs paths of
       Inl e \<Rightarrow> Inl e
     | Inr (global, configs) \<Rightarrow> start_daemon C B keys global configs)"

definition on_sighup ::
    "crypto \<Rightarrow> (string \<Rightarrow> bytes option) \<Rightarrow> (string \<Rightarrow> (string \<times> bytes) option) \<Rightarrow> (string \<Rightarrow> global_config option) \<Rightarrow>
      (string \<Rightarrow> neko_config option) \<Rightarrow> file_system \<Rightarrow> (ctl_error + string) list \<Rightarrow> daemon \<Rightarrow> daemon" where
  "on_sighup C B keys G J fs paths d =
    (case load_configs G J fs paths of
       Inl _ \<Rightarrow> d
     | Inr (new_global, new_configs) \<Rightarrow> reload_daemon C B keys new_global new_configs d)"

section \<open>The report of the status\<close>

text \<open>What is printed, line by line; the words around the values are not modelled.\<close>

datatype report_line =
    Rep_Title
  | Rep_Device_Id string
  | Rep_Loopback string "string option"
  | Rep_No_Files
  | Rep_Interface string
  | Rep_Mode_Ip u8
  | Rep_Mode_Tcp
  | Rep_Mode_Udp
  | Rep_Local_Address string
  | Rep_Running
  | Rep_Known string string
  | Rep_Handshake_Ago u64
  | Rep_Handshake_None
  | Rep_Other string string
  | Rep_Offline
  | Rep_Link_Up
  | Rep_Address_Missing
  | Rep_Link_Down
  | Rep_End

definition known_keys :: "string list" where
  "known_keys =
    [''protocol'', ''ip_protocol'', ''listen_port'', ''own_public_key'', ''public_key'', ''endpoint'', ''rx_bytes'', ''tx_bytes'',
     ''persistent_keepalive_interval'', ''allowed_ip'']"

text \<open>A key and a value of the answer, for the seconds \<open>now\<close> since the start of 1970.\<close>

definition report_pair :: "u64 \<Rightarrow> string \<Rightarrow> string \<Rightarrow> report_line list" where
  "report_pair now k v =
    (if k \<in> set known_keys then [Rep_Known k v]
     else if k = ''last_handshake_time_sec'' then
       (case (parse_unsigned v :: u64 option) of
          None \<Rightarrow> []
        | Some sec \<Rightarrow> if sec > 0 then [Rep_Handshake_Ago (if sec \<le> now then now - sec else 0)] else [Rep_Handshake_None])
     else [Rep_Other k v])"

definition report_info :: "u64 \<Rightarrow> string \<Rightarrow> report_line list" where
  "report_info now info =
    concat (map (\<lambda>l. case split_once (CHR ''='') (trim l) of None \<Rightarrow> [] | Some (k, v) \<Rightarrow> report_pair now k v) (text_lines info))"

definition str_contains :: "string \<Rightarrow> string \<Rightarrow> bool" where
  "str_contains s p = list_ex (\<lambda>i. starts_with p (drop i s)) [0..<Suc (length s)]"

text \<open>\<open>addr_show\<close> is the output of the command ip for an interface, if it could be run.\<close>

definition report_interface ::
    "'w ctl_env \<Rightarrow> (string \<Rightarrow> 'w \<Rightarrow> string option) \<Rightarrow> u64 \<Rightarrow> neko_config \<Rightarrow> 'w \<Rightarrow> report_line list \<times> 'w" where
  "report_interface V addr_show now cfg w =
    (let mode =
       (if nc_mode cfg = ''ip'' then Rep_Mode_Ip (case nc_ip_protocol cfg of Some p \<Rightarrow> p | None \<Rightarrow> 141)
        else if nc_mode cfg = ''tcp'' then Rep_Mode_Tcp else Rep_Mode_Udp);
       (info, w) = get_uapi_info V (nc_interface cfg) w;
       uapi = (case info of Inr t \<Rightarrow> Rep_Running # report_info now t | Inl _ \<Rightarrow> [Rep_Offline]);
       link =
         (case addr_show (nc_interface cfg) w of
            None \<Rightarrow> []
          | Some s \<Rightarrow>
              if str_contains s ''UP'' then
                Rep_Link_Up #
                (if str_contains s (hd (split_all (CHR ''/'') (nc_local_address cfg))) then [] else [Rep_Address_Missing])
              else [Rep_Link_Down])
     in ([Rep_Interface (nc_interface cfg), mode, Rep_Local_Address (nc_local_address cfg)] @ uapi @ link @ [Rep_End], w))"

fun report_files ::
    "'w ctl_env \<Rightarrow> (string \<Rightarrow> 'w \<Rightarrow> string option) \<Rightarrow> u64 \<Rightarrow> (string \<Rightarrow> neko_config option) \<Rightarrow> file_system \<Rightarrow>
      (ctl_error + string) list \<Rightarrow> 'w \<Rightarrow> (report_line list \<times> (ctl_error + unit)) \<times> 'w" where
  "report_files V addr_show now J fs [] w = (([], Inr ()), w)"
| "report_files V addr_show now J fs (Inl e # paths) w = (([], Inl e), w)"
| "report_files V addr_show now J fs (Inr path # paths) w =
    (if file_name path = ''global.json'' then report_files V addr_show now J fs paths w
     else case fs path of
       None \<Rightarrow> (([], Inl Io_Error), w)
     | Some config_str \<Rightarrow>
         (case J config_str of
            None \<Rightarrow> report_files V addr_show now J fs paths w
          | Some cfg \<Rightarrow>
              (let (ls, w) = report_interface V addr_show now cfg w;
                   ((more_ls, r), w) = report_files V addr_show now J fs paths w
               in ((ls @ more_ls, r), w))))"

definition show_status ::
    "'w ctl_env \<Rightarrow> (string \<Rightarrow> 'w \<Rightarrow> string option) \<Rightarrow> u64 \<Rightarrow> (string \<Rightarrow> global_config option) \<Rightarrow>
      (string \<Rightarrow> neko_config option) \<Rightarrow> file_system \<Rightarrow> (ctl_error + string) list \<Rightarrow> 'w \<Rightarrow>
      (report_line list \<times> (ctl_error + unit)) \<times> 'w" where
  "show_status V addr_show now G J fs paths w =
    (let global = read_global G fs;
         top = Rep_Title #
           (case gc_device_id global of Some did \<Rightarrow> [Rep_Device_Id did] | None \<Rightarrow> []) @
           (case gc_loopback_interface global of Some lif \<Rightarrow> [Rep_Loopback lif (gc_loopback_address global)] | None \<Rightarrow> [])
     in if paths = [] then ((top @ [Rep_No_Files], Inr ()), w)
        else (let ((ls, r), w) = report_files V addr_show now J fs paths w in ((top @ ls, r), w)))"

section \<open>The instances follow the files\<close>

text \<open>The configurations of the files that can be parsed, in the order of their paths.\<close>

definition file_config :: "(string \<Rightarrow> neko_config option) \<Rightarrow> file_system \<Rightarrow> ctl_error + string \<Rightarrow> neko_config option" where
  "file_config J fs entry =
    (case entry of Inl _ \<Rightarrow> None | Inr path \<Rightarrow> if file_name path = ''global.json'' then None else Option.bind (fs path) J)"

lemma read_configs_parsed: "read_configs J fs paths = Inr configs \<Longrightarrow> configs = List.map_filter (file_config J fs) paths"
proof (induction J fs paths arbitrary: configs rule: read_configs.induct)
  case (3 J fs path paths)
  note simps = map_filter_simps file_config_def
  show ?case
  proof (cases "file_name path = ''global.json''")
    case True
    then show ?thesis using 3 by (simp add: simps)
  next
    case other: False
    then obtain config_str where str: "fs path = Some config_str" using 3(4) by (cases "fs path") auto
    show ?thesis
    proof (cases "J config_str")
      case None
      then show ?thesis using 3(2,4) other str by (simp add: simps)
    next
      case (Some config)
      then obtain configs' where "read_configs J fs paths = Inr configs'" "configs = config # configs'"
        using 3(4) other str by (cases "read_configs J fs paths") auto
      then show ?thesis using 3(3) [OF other str Some] other str Some by (simp add: simps)
    qed
  qed
qed (simp_all add: map_filter_simps)

text \<open>A second file for an interface aside, the service follows the files and a failed load changes nothing.\<close>

lemma serve_reaches:
  "serve C B keys G J fs paths = Inr d \<Longrightarrow> distinct (map nc_interface (List.map_filter (file_config J fs) paths)) \<Longrightarrow> daemon_reach C B d"
  by (cases "read_configs J fs paths") (auto simp: serve_def load_configs_def dest: read_configs_parsed intro: reach_start)

lemma sighup_follows_files:
  assumes "daemon_reach C B d" and "distinct (map nc_interface (List.map_filter (file_config J fs) paths))"
    and "d' = on_sighup C B keys G J fs paths d"
  shows "daemon_reach C B d' \<and>
    (case load_configs G J fs paths of
       Inl _ \<Rightarrow> d' = d
     | Inr _ \<Rightarrow> \<forall>cfg\<in>set (List.map_filter (file_config J fs) paths).
         \<exists>h. hm_get (dm_instances d') (nc_interface cfg) = Some h \<and> ns_config (ih_state h) = cfg \<and>
           (\<forall>old. hm_get (dm_instances d) (nc_interface cfg) = Some old \<longrightarrow> ns_config (ih_state old) = cfg \<longrightarrow> h = old))"
proof (cases "read_configs J fs paths")
  case (Inl e)
  then show ?thesis using assms(1,3) by (simp add: on_sighup_def load_configs_def)
next
  case (Inr configs)
  have c: "configs = List.map_filter (file_config J fs) paths" by (rule read_configs_parsed [OF Inr])
  have d': "d' = reload_daemon C B keys (read_global G fs) configs d" by (simp add: assms(3) on_sighup_def load_configs_def Inr)
  have dist: "distinct (map nc_interface configs)" using assms(2) by (simp only: c)
  from reload_matches [OF reach_inv [OF assms(1)] dist] show ?thesis
    using reach_reload [OF assms(1) dist] by (simp add: load_configs_def Inr d' c [symmetric])
qed

section \<open>What the report tells\<close>

text \<open>Each line of a device's answer is reported.\<close>

lemma report_pairs:
  assumes "text_lines info = map (\<lambda>kv. ''  '' @ pair_line kv) kvs" and "\<forall>kv\<in>set kvs. plain_pair kv"
  shows "report_info now info = concat (map (\<lambda>(k, v). report_pair now k v) kvs)"
proof -
  have "(case split_once (CHR ''='') (trim (''  '' @ pair_line kv)) of None \<Rightarrow> [] | Some (k, v) \<Rightarrow> report_pair now k v) =
      (case kv of (k, v) \<Rightarrow> report_pair now k v)" if "kv \<in> set kvs" for kv
  proof -
    have kv: "plain_pair kv" using assms(2) that by blast
    have "trim (''  '' @ pair_line kv) = pair_line kv" by (rule trim_indented) (use pair_line_inky [OF kv] in auto)
    moreover have "split_once (CHR ''='') (pair_line kv) = Some kv" using read_plain_line(3) [of "fst kv" "snd kv"] kv by simp
    ultimately show ?thesis by (simp only: option.case)
  qed
  then show ?thesis unfolding report_info_def assms(1) map_map comp_def by (intro arg_cong [of _ _ concat] map_cong refl) simp
qed

text \<open>
  The age of a handshake is reported as the time from its age to now: a handshake of a moment ago
  as one of more than fifty years ago.
\<close>

lemma report_handshake_age:
  assumes "hex_ok H" and "ce_uapi V = device_uapi L X H B Es nows (nc_interface cfg)"
    and "Rep_Handshake_Ago x \<in> set (fst (report_interface V addr_show now cfg (n, Some d)))"
    and "\<And>k r s. (k, r) \<in> set (d_peers d) \<Longrightarrow> time_since_last_handshake (nows n) (p_tunnel (d_heap d ! r)) = Some (Some s) \<Longrightarrow>
      as_secs s \<le> unat now"
  shows "\<exists>(k, r)\<in>set (d_peers d). \<exists>s. time_since_last_handshake (nows n) (p_tunnel (d_heap d ! r)) = Some (Some s) \<and>
    unat x = unat now - as_secs s"
proof (cases "api_handler L X H B (Es n) (nows n) (Some \<lparr>st_data = get_request, st_fails = False\<rparr>) d")
  case None
  have "uapi_info \<lparr>st_data = [], st_fails = False\<rparr> = Inr []" by (subst uapi_info.simps) (simp add: read_line_def)
  with None have "get_uapi_info V (nc_interface cfg) (n, Some d) = (Inr [], Suc n, None)"
    by (simp add: get_uapi_info_def assms(2) device_uapi_def)
  then show ?thesis using assms(3)
    by (auto simp: report_interface_def report_info_def text_lines_def Let_def split: option.splits if_splits)
next
  case (Some res)
  obtain a reply d' where res: "res = (a, reply, d')" by (cases res)
  show ?thesis
  proof (rule get_reply_pairs [OF assms(1) Some [unfolded res]])
    fix kvs info
    assume info: "uapi_info \<lparr>st_data = reply, st_fails = False\<rparr> = Inr info" "text_lines info = map (\<lambda>kv. ''  '' @ pair_line kv) kvs"
      and pairs: "\<forall>kv\<in>set kvs. plain_pair kv"
      and ages: "\<forall>v. (hs_key, v) \<in> set kvs \<longrightarrow> (\<exists>(k, r)\<in>set (d_peers d). \<exists>s.
        time_since_last_handshake (nows n) (p_tunnel (d_heap d ! r)) = Some (Some s) \<and> v = show_nat (as_secs s))"
    have "get_uapi_info V (nc_interface cfg) (n, Some d) = (Inr info, Suc n, Some d')"
      using Some by (simp add: get_uapi_info_def assms(2) device_uapi_def res info(1))
    then have "Rep_Handshake_Ago x \<in> set (report_info now info)" using assms(3)
      by (auto simp: report_interface_def Let_def split: option.splits if_splits)
    then obtain k v where kv: "(k, v) \<in> set kvs" "Rep_Handshake_Ago x \<in> set (report_pair now k v)"
      by (auto simp: report_pairs [OF info(2) pairs])
    then obtain sec where sec: "k = hs_key" "parse_unsigned v = Some sec" "x = (if sec \<le> now then now - sec else 0)"
      by (cases "parse_unsigned v :: u64 option") (auto simp: report_pair_def split: if_splits)
    then obtain k' r s where s: "(k', r) \<in> set (d_peers d)" "time_since_last_handshake (nows n) (p_tunnel (d_heap d ! r)) = Some (Some s)"
      "v = show_nat (as_secs s)" using ages kv(1) by blast
    have le: "as_secs s \<le> unat now" by (rule assms(4) [OF s(1,2)])
    moreover have "unat now < 2 ^ LENGTH(64)" by (rule unsigned_less)
    ultimately have "as_secs s < 2 ^ LENGTH(64)" by linarith
    then have w: "unat (word_of_nat (as_secs s) :: u64) = as_secs s" by (simp add: unsigned_of_nat take_bit_nat_eq_self)
    have "sec = word_of_nat (as_secs s)"
      using parse_unsigned_show [of "word_of_nat (as_secs s) :: u64"] sec(2) by (simp add: s(3) w)
    then have "unat x = unat now - as_secs s" using le w by (simp add: sec(3) unat_minus_le word_le_nat_alt)
    then show ?thesis using s(1,2) by blast
  qed
qed

end
