(* ===== verification/Ctl_Instance.thy ===== *)
theory Ctl_Instance
  imports Ctl_Reload Ctl_Socks
begin

text \<open>
  The life of one interface (\<open>run_instance\<close> in src/nekolink-ctl/src/main.rs): the program of its device
  is started and configured, the interface is set up by commands of the system, the proxy and a
  sidecar are started, and all is taken down when the program ends or the instance is cancelled.
  The system is a parameter: what a command or a program does to the world, and whether a
  proxy gets its address. Pauses, and what is printed, are not modelled.
\<close>

record 'w system =
  sy_run :: "string \<Rightarrow> 'w \<Rightarrow> bool \<times> 'w"
  sy_start :: "string list \<Rightarrow> 'w \<Rightarrow> bool \<times> 'w"
  sy_kill :: "string list \<Rightarrow> 'w \<Rightarrow> 'w"
  sy_bind :: "sock_addr \<Rightarrow> 'w \<Rightarrow> bool"

text \<open>The programs that instances hold, by their arguments, and the proxies that run.\<close>

record 'w host =
  ho_ctl :: "'w ctl"
  ho_children :: "string list list"
  ho_proxies :: "(string \<times> sock_addr list) list"

abbreviation ho_world :: "'w host \<Rightarrow> 'w" where
  "ho_world h \<equiv> ct_world (ho_ctl h)"

definition set_world :: "'w \<Rightarrow> 'w host \<Rightarrow> 'w host" where
  "set_world w h = h\<lparr>ho_ctl := (ho_ctl h)\<lparr>ct_world := w\<rparr>\<rparr>"

definition spawn_child :: "'w system \<Rightarrow> string list \<Rightarrow> 'w host \<Rightarrow> bool \<times> 'w host" where
  "spawn_child S args h =
    (let (ok, w) = sy_start S args (ho_world h); h = set_world w h
     in (ok, if ok then h\<lparr>ho_children := args # ho_children h\<rparr> else h))"

text \<open>A program is killed; \<open>kill_on_drop\<close> does the same where its handle is dropped.\<close>

definition kill_child :: "'w system \<Rightarrow> string list \<Rightarrow> 'w host \<Rightarrow> 'w host" where
  "kill_child S args h = (set_world (sy_kill S args (ho_world h)) h)\<lparr>ho_children := remove1 args (ho_children h)\<rparr>"

section \<open>The start\<close>

definition device_program :: "neko_config \<Rightarrow> string list" where
  "device_program cfg = ''nekolink-cli'' # cli_args cfg"

definition mtu_cmd :: "neko_config \<Rightarrow> string" where
  "mtu_cmd cfg = ''ip link set mtu '' @ show_nat (unat (start_mtu cfg)) @ '' dev '' @ nc_interface cfg"

definition del_cmd :: "neko_config \<Rightarrow> string" where
  "del_cmd cfg = ''ip link del '' @ nc_interface cfg @ '' 2>/dev/null''"

text \<open>The commands, of which the first, the third and the last must succeed.\<close>

definition interface_cmds :: "neko_config \<Rightarrow> (bool \<times> string) list" where
  "interface_cmds cfg =
    [(True, mtu_cmd cfg), (False, ''ip link set dev '' @ nc_interface cfg @ '' multicast on''),
     (True, ''ip link set up dev '' @ nc_interface cfg)] @
    concat (map (\<lambda>a. [(False, ''ip addr del '' @ a @ '' dev '' @ nc_interface cfg @ '' 2>/dev/null''),
                      (False, ''ip addr add '' @ a @ '' dev '' @ nc_interface cfg)]) (local_addresses cfg)) @
    [(True, mtu_cmd cfg)]"

definition configure_interface ::
    "'w system \<Rightarrow> 'w ctl_env \<Rightarrow> (string \<Rightarrow> bytes option) \<Rightarrow> neko_state \<Rightarrow> 'w \<Rightarrow> (ctl_error + unit) \<times> 'w" where
  "configure_interface S V B st w =
    (let cfg = ns_config st
     in case send_uapi V (nc_interface cfg) (private_key_cmd B st) w of
          (Inl e, w) \<Rightarrow> (Inl e, w)
        | (Inr _, w) \<Rightarrow>
            (let (ok, w) = run_commands (sy_run S) (interface_cmds cfg) w
             in if \<not> ok then (Inl Io_Error, w)
                else (Inr (), if nc_native_wg_compat cfg then configure_native_peers V B cfg (nc_peers cfg) w else w)))"

text \<open>The sidecar of a server, which has no peer with an endpoint.\<close>

definition sidecar_args :: "neko_config \<Rightarrow> u16 option \<Rightarrow> string list" where
  "sidecar_args cfg port =
    [''tcp2udp'', ''--tcp-listen'', ''0.0.0.0:'' @ show_nat (unat (nc_mullvad_tcp_port cfg)), ''--udp-forward'',
     ''127.0.0.1:'' @ show_nat (unat (case port of Some p \<Rightarrow> p | None \<Rightarrow> 51820))]"

definition start_sidecar :: "'w system \<Rightarrow> 'w ctl_env \<Rightarrow> neko_config \<Rightarrow> 'w host \<Rightarrow> string list option \<times> 'w host" where
  "start_sidecar S V cfg h =
    (if nc_mode cfg = ''mullvad-tcp'' \<and> is_server cfg then
       (let (port, w) = get_actual_listen_port V (nc_interface cfg) (ho_world h);
            (ok, h) = spawn_child S (sidecar_args cfg port) (set_world w h)
        in (if ok then Some (sidecar_args cfg port) else None, h))
     else (None, h))"

text \<open>The proxy, which ends by itself when it has no address or gets none.\<close>

definition start_proxy :: "'w system \<Rightarrow> neko_state \<Rightarrow> 'w host \<Rightarrow> (string \<times> sock_addr list) option \<times> 'w host" where
  "start_proxy S st h =
    (case nc_socks5_port (ns_config st) of
       None \<Rightarrow> (None, h)
     | Some port \<Rightarrow>
         (let listeners = filter (\<lambda>a. sy_bind S a (ho_world h)) (socks_listen_addrs (ns_config st) (ns_global st) port);
              proxy = (nc_interface (ns_config st), listeners)
          in if listeners = [] then (None, h) else (Some proxy, h\<lparr>ho_proxies := proxy # ho_proxies h\<rparr>)))"

section \<open>The end\<close>

text \<open>
  The program of the device ends; the token of the instance is cancelled and \<open>run_instance\<close> sees it; or
  the task that runs it sees the token first, and drops \<open>run_instance\<close> where it waits.
\<close>

datatype instance_stop =
    Program_Ended
  | Token_Cancelled
  | Future_Dropped

definition stop_proxy :: "(string \<times> sock_addr list) option \<Rightarrow> 'w host \<Rightarrow> 'w host" where
  "stop_proxy proxy h = (case proxy of None \<Rightarrow> h | Some p \<Rightarrow> h\<lparr>ho_proxies := remove1 p (ho_proxies h)\<rparr>)"

definition stop_sidecar :: "'w system \<Rightarrow> string list option \<Rightarrow> 'w host \<Rightarrow> 'w host" where
  "stop_sidecar S sidecar h = (case sidecar of None \<Rightarrow> h | Some args \<Rightarrow> kill_child S args h)"

definition cleanup_cmds :: "neko_config \<Rightarrow> (bool \<times> string) list" where
  "cleanup_cmds cfg =
    (if nc_clamp_mss cfg then [(False, ''nft delete table inet nekolink_mss_'' @ nc_interface cfg @ '' 2>/dev/null'')] else []) @
    [(False, del_cmd cfg)]"

definition finish_instance ::
    "'w system \<Rightarrow> neko_config \<Rightarrow> (string \<times> sock_addr list) option \<Rightarrow> string list option \<Rightarrow> instance_stop \<Rightarrow> 'w host \<Rightarrow> 'w host" where
  "finish_instance S cfg proxy sidecar stop h =
    (if stop = Future_Dropped then stop_sidecar S sidecar (kill_child S (device_program cfg) h)
     else
       (let h = stop_sidecar S sidecar (stop_proxy proxy (kill_child S (device_program cfg) h))
        in set_world (snd (run_commands (sy_run S) (cleanup_cmds cfg) (ho_world h))) h))"

text \<open>While the instance runs, the other tasks do \<open>meanwhile\<close> to the caches and the world.\<close>

definition run_instance ::
    "'w system \<Rightarrow> 'w ctl_env \<Rightarrow> (string \<Rightarrow> bytes option) \<Rightarrow> neko_state \<Rightarrow> ('w ctl \<Rightarrow> 'w ctl) \<Rightarrow> instance_stop \<Rightarrow> 'w host \<Rightarrow>
      (ctl_error + unit) \<times> 'w host" where
  "run_instance S V B st meanwhile stop h =
    (let cfg = ns_config st;
         h = h\<lparr>ho_ctl := cleanup_interface_state (nc_interface cfg) (ho_ctl h)\<rparr>;
         h = set_world (snd (sy_run S (del_cmd cfg) (ho_world h))) h;
         (ok, h) = spawn_child S (device_program cfg) h
     in if \<not> ok then (Inl Io_Error, h)
        else
          (let (r, w) = configure_interface S V B st (ho_world h); h = set_world w h
           in case r of
                Inl e \<Rightarrow> (Inl e, kill_child S (device_program cfg) h)
              | Inr _ \<Rightarrow>
                  (let (sidecar, h) = start_sidecar S V cfg h;
                       (proxy, h) = start_proxy S st h;
                       h = h\<lparr>ho_ctl := meanwhile (ho_ctl h)\<rparr>
                   in (Inr (), finish_instance S cfg proxy sidecar stop h))))"

section \<open>What is left behind\<close>

lemma world_frames [simp]:
  "ho_children (set_world w h) = ho_children h" "ho_proxies (set_world w h) = ho_proxies h"
  "ho_children (kill_child S args h) = remove1 args (ho_children h)" "ho_proxies (kill_child S args h) = ho_proxies h"
  by (simp_all add: set_world_def kill_child_def)

lemma spawn_children:
  "spawn_child S args h = (ok, h') \<Longrightarrow>
    ho_children h' = (if ok then args # ho_children h else ho_children h) \<and> ho_proxies h' = ho_proxies h"
  by (auto simp: spawn_child_def Let_def split: prod.splits)

lemma sidecar_children:
  "start_sidecar S V cfg h = (sidecar, h') \<Longrightarrow>
    ho_children h' = (case sidecar of Some args \<Rightarrow> args # ho_children h | None \<Rightarrow> ho_children h) \<and> ho_proxies h' = ho_proxies h"
  by (auto simp: start_sidecar_def Let_def split: prod.splits if_splits dest!: spawn_children)

lemma proxy_children:
  "start_proxy S st h = (proxy, h') \<Longrightarrow>
    ho_children h' = ho_children h \<and> ho_proxies h' = (case proxy of Some p \<Rightarrow> p # ho_proxies h | None \<Rightarrow> ho_proxies h)"
  by (auto simp: start_proxy_def Let_def split: option.splits if_splits)

lemma finish_children:
  assumes "ho_children h = (case sidecar of Some args \<Rightarrow> args # device_program cfg # cs | None \<Rightarrow> device_program cfg # cs)"
    and "ho_proxies h = (case proxy of Some p \<Rightarrow> p # ps | None \<Rightarrow> ps)"
  shows "ho_children (finish_instance S cfg proxy sidecar stop h) = cs"
    and "ho_proxies (finish_instance S cfg proxy sidecar stop h) =
      (if stop = Future_Dropped then (case proxy of Some p \<Rightarrow> p # ps | None \<Rightarrow> ps) else ps)"
  using assms
  by (auto simp: finish_instance_def stop_sidecar_def stop_proxy_def Let_def split: option.splits)

text \<open>C15 What an instance leaves behind: however it ends, and also when its start fails at any step, the programs it started are ended. Its proxy is ended only where \<open>run_instance\<close> comes to its end; where the task sees the token first and drops it, as a reload may, the proxy goes on with its addresses.\<close>

theorem instance_leaves_only_proxy:
  assumes "\<And>a w. sy_bind S a w" and "run_instance S V B st meanwhile stop h = (r, h')"
  shows "ho_children h' = ho_children h \<and>
    ho_proxies h' =
      (case nc_socks5_port (ns_config st) of
         None \<Rightarrow> ho_proxies h
       | Some port \<Rightarrow>
           (if stop = Future_Dropped \<and> r = Inr () \<and> socks_listen_addrs (ns_config st) (ns_global st) port \<noteq> []
            then (nc_interface (ns_config st), socks_listen_addrs (ns_config st) (ns_global st) port) # ho_proxies h
            else ho_proxies h))"
proof -
  let ?cfg = "ns_config st"
  let ?h0 = "set_world (snd (sy_run S (del_cmd ?cfg) (ct_world (cleanup_interface_state (nc_interface ?cfg) (ho_ctl h)))))
    (h\<lparr>ho_ctl := cleanup_interface_state (nc_interface ?cfg) (ho_ctl h)\<rparr>)"
  obtain ok h1 where h1: "spawn_child S (device_program ?cfg) ?h0 = (ok, h1)" by fastforce
  obtain r1 w where cfg: "configure_interface S V B st (ho_world h1) = (r1, w)" by fastforce
  obtain sidecar h2 where h2: "start_sidecar S V ?cfg (set_world w h1) = (sidecar, h2)" by fastforce
  obtain proxy h3 where h3: "start_proxy S st h2 = (proxy, h3)" by fastforce
  note c = spawn_children [OF h1] sidecar_children [OF h2] proxy_children [OF h3]
  have proxy: "proxy = (case nc_socks5_port ?cfg of None \<Rightarrow> None
    | Some port \<Rightarrow> (if socks_listen_addrs ?cfg (ns_global st) port = [] then None
        else Some (nc_interface ?cfg, socks_listen_addrs ?cfg (ns_global st) port)))"
    using h3 by (auto simp: start_proxy_def assms(1) Let_def split: option.splits if_splits)
  consider "\<not> ok" "r \<noteq> Inr ()" "h' = h1" | e where "ok" "r = Inl e" "h' = kill_child S (device_program ?cfg) (set_world w h1)"
    | "ok" "r = Inr ()" "h' = finish_instance S ?cfg proxy sidecar stop (h3\<lparr>ho_ctl := meanwhile (ho_ctl h3)\<rparr>)"
    using assms(2) by (auto simp: run_instance_def Let_def h1 cfg h2 h3 split: if_splits sum.splits)
  then show ?thesis
  proof cases
    case 3
    then have "ho_children h3 = (case sidecar of Some args \<Rightarrow> args # device_program ?cfg # ho_children h | None \<Rightarrow> device_program ?cfg # ho_children h)"
      "ho_proxies h3 = (case proxy of Some p \<Rightarrow> p # ho_proxies h | None \<Rightarrow> ho_proxies h)" using c by (simp_all split: option.splits)
    then show ?thesis
      using 3 finish_children [where h = "h3\<lparr>ho_ctl := meanwhile (ho_ctl h3)\<rparr>" and sidecar = sidecar and cfg = ?cfg and
        cs = "ho_children h" and proxy = proxy and ps = "ho_proxies h" and S = S and stop = stop]
      by (simp add: proxy split: option.split)
  qed (use c in \<open>auto split: option.split\<close>)
qed

section \<open>The device gets its key\<close>

lemma set_private_key_line:
  assumes "hex_ok H" and "length key = 32"
  shows "api_set_lines L X B E k (rd\<lparr>st_data := api_line ''private_key'' (H key) @ rest\<rparr>) d =
    (case set_key L (ae_limiter (E k)) key d of None \<Rightarrow> None | Some d' \<Rightarrow> api_set_lines L X B E (Suc k) (rd\<lparr>st_data := rest\<rparr>) d')"
  using read_plain_line [of "''private_key''", OF _ plain_hex [OF assms(1)]] key_hex_round_trip [OF assms]
  by (subst api_set_lines.simps) (simp add: device_setting_def split: option.split)

lemma set_listen_port_line:
  "api_set_lines L X B E k (rd\<lparr>st_data := api_line ''listen_port'' (show_nat (unat (p :: u16))) @ rest\<rparr>) d =
    (case open_listen_socket X p d of
       None \<Rightarrow> None
     | Some (Inl _, d') \<Rightarrow> Some (EADDRINUSE, d')
     | Some (Inr _, d') \<Rightarrow> api_set_lines L X B E (Suc k) (rd\<lparr>st_data := rest\<rparr>) d')"
  using read_plain_line [of "''listen_port''" "show_nat (unat p)"] show_nat_inky(4)
  by (subst api_set_lines.simps) (simp add: device_setting_def parse_unsigned_show split: option.split sum.split prod.split)

lemma set_lines_end: "api_set_lines L X B E k (rd\<lparr>st_data := [newline]\<rparr>) d = Some (0, d)"
  using read_empty_line(1) [of "[]" rd] read_empty_line(2) by (subst api_set_lines.simps) simp

text \<open>The device's answer to the first request.\<close>

lemma private_key_request:
  assumes "decode_base64 Dec (ns_priv_b64 st) = Some key" and "length key = 32" and "yield_notice d \<noteq> None"
    and "set_key L (ae_limiter (E 0)) key d = Some d1"
  shows "api_handler L X H B E now (Some \<lparr>st_data = private_key_cmd Dec st, st_fails = False\<rparr>) d =
    (case nc_listen_port (ns_config st) of
       None \<Rightarrow> Some (Continue, reply_text 0, d1)
     | Some p \<Rightarrow>
         map_option (\<lambda>(r, d2). (Continue, reply_text (case r of Inl _ \<Rightarrow> nat EADDRINUSE | Inr _ \<Rightarrow> 0), d2)) (open_listen_socket X p d1))"
proof -
  have hex: "base64_to_hex Dec (ns_priv_b64 st) = toy_hex key" by (simp add: base64_to_hex_def toy_hex_def assms(1))
  obtain T where T: "T = api_line ''private_key'' (toy_hex key) @
    opt_line ''listen_port'' (show_nat \<circ> unat) (nc_listen_port (ns_config st)) @ [newline]" by blast
  obtain e :: stream where e: "e = \<lparr>st_data = [], st_fails = False\<rparr>" by blast
  have rd: "\<lparr>st_data = s, st_fails = False\<rparr> = e\<lparr>st_data := s\<rparr>" for s by (simp add: e)
  have set: "api_set L X B E (e\<lparr>st_data := T\<rparr>) d =
    (case nc_listen_port (ns_config st) of
       None \<Rightarrow> Some (0, d1)
     | Some p \<Rightarrow> map_option (\<lambda>(r, d2). (case r of Inl _ \<Rightarrow> EADDRINUSE | Inr _ \<Rightarrow> 0, d2)) (open_listen_socket X p d1))"
    by (cases "nc_listen_port (ns_config st)")
      (simp_all add: T api_set_ready [OF assms(3)] set_private_key_line [OF toy_hex_ok assms(2)] assms(4) opt_line_def
        set_listen_port_line set_lines_end split: option.split sum.split prod.split del: stream.update_convs)
  have "read_line (e\<lparr>st_data := api_line ''set'' ''1'' @ T\<rparr>) = Some (''set=1'' @ [newline], e\<lparr>st_data := T\<rparr>)"
    and "str_pop (''set=1'' @ [newline]) = ''set=1''"
    using read_plain_line(1) [of "''set''" "''1''" T e] read_plain_line(2) [of "''set''" "''1''"] by simp_all
  then have "api_handler L X H B E now (Some (e\<lparr>st_data := api_line ''set'' ''1'' @ T\<rparr>)) d =
      map_option (Pair Continue) (api_reply L X H B E now ''set=1'' (e\<lparr>st_data := T\<rparr>) d)"
    by (simp only: api_handler_def option.case prod.case)
  also have "\<dots> = (case nc_listen_port (ns_config st) of
       None \<Rightarrow> Some (Continue, reply_text 0, d1)
     | Some p \<Rightarrow>
         map_option (\<lambda>(r, d2). (Continue, reply_text (case r of Inl _ \<Rightarrow> nat EADDRINUSE | Inr _ \<Rightarrow> 0), d2)) (open_listen_socket X p d1))"
    by (cases "nc_listen_port (ns_config st)"; simp add: api_reply_def set del: stream.update_convs)
      (cases "open_listen_socket X (the (nc_listen_port (ns_config st))) d1"; auto split: sum.split)
  finally show ?thesis by (simp only: private_key_cmd_def hex T rd)
qed

lemma run_commands_still: "(\<And>cmd w. run cmd w = (True, w)) \<Longrightarrow> run_commands run cmds w = (True, w)"
  by (induction cmds) auto

text \<open>C14 An interface that starts gives its device the private key of its state and the port of its file: the first request is served by a fresh device with exactly this key pair, and with its sockets on this port; where the port cannot be had, the start fails with the code of the device, so that the instance ends and is started again.\<close>

theorem start_keys_device:
  fixes V :: "('t, 'u) device_world ctl_env"
  assumes "ce_uapi V = device_uapi L X H B Es nows (nc_interface (ns_config st))" and "\<And>cmd w. sy_run S cmd w = (True, w)"
    and "yield_notice d \<noteq> None" and "d_key_pair d = None" and "d_peers d = []"
    and "decode_base64 Dec (ns_priv_b64 st) = Some key" and "length key = 32" and "\<not> nc_native_wg_compat (ns_config st)"
  shows "\<exists>d1. set_key L (ae_limiter (Es n 0)) key d = Some d1 \<and> d_key_pair d1 = Some (key, x25519_public (lib_crypto L) key) \<and>
    configure_interface S V Dec st (n, Some d) =
      (case nc_listen_port (ns_config st) of
         None \<Rightarrow> (Inr (), Suc n, Some d1)
       | Some p \<Rightarrow>
           (case open_listen_socket X p d1 of
              None \<Rightarrow> (Inr (), Suc n, None)
            | Some (Inl _, d2) \<Rightarrow> (Inl (Uapi_Error EADDRINUSE), Suc n, Some d2)
            | Some (Inr _, d2) \<Rightarrow> (Inr (), Suc n, Some d2)))"
proof -
  obtain r16 r32 now1 now2 where le: "ae_limiter (Es n 0) = (r16, r32, now1, now2)" by (metis prod_cases4)
  obtain d1 where d1: "set_key L (ae_limiter (Es n 0)) key d = Some d1" and pair: "d_key_pair d1 = Some (key, x25519_public (lib_crypto L) key)"
    using assms(4,5) by (auto simp: set_key_def le Let_def)
  have empty: "uapi_result \<lparr>st_data = [], st_fails = False\<rparr> = Inr ()" by (subst uapi_result.simps) (simp add: read_line_def)
  note request = private_key_request [where E = "Es n" and X = X and H = H and B = B and now = "nows n", OF assms(6,7,3) d1]
  have sent: "send_uapi V (nc_interface (ns_config st)) (private_key_cmd Dec st) (n, Some d) =
      (case nc_listen_port (ns_config st) of
         None \<Rightarrow> (Inr (), Suc n, Some d1)
       | Some p \<Rightarrow>
           (case open_listen_socket X p d1 of
              None \<Rightarrow> (Inr (), Suc n, None)
            | Some (Inl _, d2) \<Rightarrow> (Inl (Uapi_Error EADDRINUSE), Suc n, Some d2)
            | Some (Inr _, d2) \<Rightarrow> (Inr (), Suc n, Some d2)))"
    using uapi_result_reply [of 0] uapi_result_reply [of 98]
    by (simp add: send_uapi_def assms(1) device_uapi_def request empty split: option.split sum.split prod.split)
  show ?thesis
    by (intro exI [of _ d1] conjI d1 pair)
      (simp add: configure_interface_def sent run_commands_still [of "sy_run S", OF assms(2)] assms(8)
        split: option.split sum.split prod.split)
qed

section \<open>Examples\<close>

definition toy_system :: "'w system" where
  "toy_system = \<lparr>sy_run = (\<lambda>_ w. (True, w)), sy_start = (\<lambda>_ w. (True, w)), sy_kill = (\<lambda>_ w. w), sy_bind = (\<lambda>_ _. True)\<rparr>"

definition toy_accepting :: "nat ctl_env" where
  "toy_accepting = toy_ctl_env (\<lambda>_ _ w. (Some \<lparr>st_data = reply_text 0, st_fails = False\<rparr>, w)) (\<lambda>_. None)"

definition toy_proxied :: neko_state where
  "toy_proxied =
    \<lparr>ns_config = (config_fill ''wg0'' ''10.0.0.1/24'' ''s'' [])\<lparr>nc_socks5_port := Some 1080\<rparr>, ns_priv_b64 = toy_hex (replicate 32 7),
     ns_pub_key = replicate 32 1, ns_global = global_default\<rparr>"

definition toy_host :: "nat host" where
  "toy_host = \<lparr>ho_ctl = \<lparr>ct_peers = Map.empty, ct_mtus = [], ct_dns = [], ct_world = 0\<rparr>, ho_children = [], ho_proxies = []\<rparr>"

lemma toy_instance_starts: "fst (run_instance toy_system toy_accepting Dec toy_proxied id stop toy_host) = Inr ()"
proof -
  have "configure_interface toy_system toy_accepting Dec toy_proxied w = (Inr (), w)" for w
    using uapi_result_reply [of 0]
    by (simp add: configure_interface_def send_uapi_def toy_accepting_def toy_ctl_env_def toy_system_def run_commands_still
        toy_proxied_def config_fill_def)
  then show ?thesis by (simp add: run_instance_def Let_def spawn_child_def toy_system_def split: prod.split)
qed

theorem instance_leaves_only_proxy_witness:
  "ho_children (snd (run_instance toy_system toy_accepting (\<lambda>_. None) toy_proxied id Future_Dropped toy_host)) = [] \<and>
    ho_proxies (snd (run_instance toy_system toy_accepting (\<lambda>_. None) toy_proxied id Future_Dropped toy_host)) =
      [(''wg0'', [SockV4 [127, 0, 0, 1] 1080])]"
proof -
  have "run_instance toy_system toy_accepting (\<lambda>_. None) toy_proxied id Future_Dropped toy_host =
      (Inr (), snd (run_instance toy_system toy_accepting (\<lambda>_. None) toy_proxied id Future_Dropped toy_host))"
    using toy_instance_starts by (metis prod.collapse)
  from instance_leaves_only_proxy [OF _ this] show ?thesis
    by (simp add: toy_system_def toy_proxied_def toy_host_def config_fill_def socks_listen_addrs_def)
qed

theorem start_keys_device_witness:
  "\<exists>d1. set_key toy_libs toy_le (replicate 32 7) (toy_new config_default) = Some d1 \<and>
    d_key_pair d1 = Some (replicate 32 7, x25519_public toy_crypto (replicate 32 7)) \<and>
    configure_interface toy_system toy_device_env (\<lambda>_. Some (replicate 32 7)) toy_proxied (0, Some (toy_new config_default)) =
      (Inr (), 1, Some d1)"
proof -
  have v: "ce_uapi toy_device_env =
      device_uapi toy_libs toy_os toy_hex (\<lambda>_. None) (\<lambda>_. toy_api_env) (\<lambda>_. epoch) (nc_interface (ns_config toy_proxied))"
    by (simp add: toy_device_env_def toy_ctl_env_def toy_proxied_def config_fill_def)
  have "yield_notice (toy_new config_default) = yield_notice (toy_keyed config_default [1])"
    by (simp add: toy_keyed_eq(2) yield_notice_def split: option.split)
  then have "yield_notice (toy_new config_default) \<noteq> None" by (simp add: toy_yield)
  then show ?thesis
    using start_keys_device [OF v, of toy_system "toy_new config_default" "\<lambda>_. Some (replicate 32 7)" "replicate 32 7" 0]
    by (simp add: toy_system_def toy_new_fields toy_api_env_def toy_proxied_def config_fill_def decode_base64_def toy_libs_def)
qed

end
