(* ===== verification/Cli.thy ===== *)
theory Cli
  imports Ctl_Peer
begin

text \<open>
  The program that runs a device (src/nekolink-cli/src/main.rs): its configuration from the arguments,
  its start and what it tells the process that started it; and giving up the rights of the
  superuser (src/nekolink-core/src/device/drop_privileges.rs, on Linux). The parser of the
  arguments is the crate clap: what it finds are the texts \<open>cm_value\<close>, with the defaults, and
  whether an argument is present. Files of log messages are not modelled.
\<close>

section \<open>Arguments\<close>

record cli_matches =
  cm_present :: "string \<Rightarrow> bool"
  cm_value :: "string \<Rightarrow> string option"

text \<open>\<open>isize\<close> and \<open>usize\<close> have 64 bits.\<close>

definition parse_isize :: "string \<Rightarrow> int option" where
  "parse_isize s =
    (case s of
       c # ds \<Rightarrow>
         if c = CHR ''-'' then
           (if ds \<noteq> [] \<and> list_all (is_digit 10) ds \<and> digits_value 10 ds \<le> 2 ^ 63 then Some (- int (digits_value 10 ds)) else None)
         else map_option int (from_str_radix 10 (2 ^ 63) s)
     | [] \<Rightarrow> None)"

text \<open>
  The name of the interface and the configuration. \<open>Some (Inl ())\<close> is the end of the program by
  \<open>e.exit()\<close>, \<open>None\<close> a panic. The level of the log is one of the values that clap lets pass.
\<close>

definition value_of_t :: "(string \<Rightarrow> 'a option) \<Rightarrow> string \<Rightarrow> cli_matches \<Rightarrow> unit + 'a" where
  "value_of_t parse name M = (case Option.bind (cm_value M name) parse of Some v \<Rightarrow> Inr v | None \<Rightarrow> Inl ())"

definition cli_transport :: "cli_matches \<Rightarrow> transport_mode" where
  "cli_transport M = (if cm_present M ''tcp'' then Tcp else if cm_present M ''ip-protocol'' then RawIp else Udp)"

definition cli_config :: "cli_matches \<Rightarrow> (unit + string \<times> device_config) option" where
  "cli_config M =
    (case value_of_t parse_i32 ''uapi-fd'' M of Inl e \<Rightarrow> Some (Inl e) | Inr uapi_fd \<Rightarrow>
     case value_of_t parse_isize ''tun-fd'' M of Inl e \<Rightarrow> Some (Inl e) | Inr tun_fd \<Rightarrow>
     do {
       name \<leftarrow> cm_value M ''INTERFACE_NAME'';
       tun_name \<leftarrow> (if tun_fd \<ge> 0 then cm_value M ''tun-fd'' else Some name);
       case value_of_t (parse_unsigned :: string \<Rightarrow> u64 option) ''threads'' M of Inl e \<Rightarrow> Some (Inl e) | Inr n_threads \<Rightarrow>
       do {
         ip_protocol \<leftarrow>
           (case cm_value M ''ip-protocol'' of
              None \<Rightarrow> Some None
            | Some v \<Rightarrow> map_option Some (parse_unsigned v :: u8 option));
         Some (Inr (tun_name,
           \<lparr>cfg_n_threads = unat n_threads, cfg_use_connected_socket = \<not> cm_present M ''disable-connected-udp'',
            cfg_use_multi_queue = \<not> cm_present M ''disable-multi-queue'', cfg_uapi_fd = uapi_fd,
            cfg_ip_protocol = ip_protocol, cfg_transport_mode = cli_transport M,
            cfg_enable_udp_gro = \<not> cm_present M ''disable-udp-gro''\<rparr>))
       }
     })"

section \<open>Giving up rights\<close>

text \<open>
  The system: the name of the user who logged in, the entry of a user with its user and group, and
  the two calls on the state \<open>'p\<close> of the process, which tell whether they succeeded.
\<close>

record 'p privilege_calls =
  pv_getlogin :: "string option"
  pv_getpwnam :: "string \<Rightarrow> (nat \<times> nat) option"
  pv_setgid :: "nat \<Rightarrow> 'p \<Rightarrow> bool \<times> 'p"
  pv_setuid :: "nat \<Rightarrow> 'p \<Rightarrow> bool \<times> 'p"

definition get_saved_ids :: "'p privilege_calls \<Rightarrow> (nat \<times> nat) option" where
  "get_saved_ids P = Option.bind (pv_getlogin P) (pv_getpwnam P)"

definition drop_privileges :: "'p privilege_calls \<Rightarrow> 'p \<Rightarrow> bool \<times> 'p" where
  "drop_privileges P p =
    (case get_saved_ids P of
       None \<Rightarrow> (False, p)
     | Some (saved_uid, saved_gid) \<Rightarrow>
         (let (ok, p) = pv_setgid P saved_gid p
          in if \<not> ok then (False, p)
             else
               (let (ok, p) = pv_setuid P saved_uid p
                in if \<not> ok then (False, p)
                   else if saved_uid \<noteq> 0 \<and> saved_gid \<noteq> 0 then
                     (let (back, p) = pv_setgid P 0 p
                      in if back then (False, p) else (let (back, p) = pv_setuid P 0 p in (\<not> back, p)))
                   else (True, p))))"

section \<open>The start\<close>

text \<open>
  \<open>open_device\<close> is \<open>DeviceHandle::new\<close>. The result is the byte that the process which waits is
  sent, and whether the device then runs; else the exit code is 1, or 2 where clap ends the program
  before anything was sent.
\<close>

datatype cli_end =
    Usage
  | Failed
  | Running string device_config

definition cli_main ::
    "(string \<Rightarrow> device_config \<Rightarrow> 'p \<Rightarrow> bool \<times> 'p) \<Rightarrow> 'p privilege_calls \<Rightarrow> cli_matches \<Rightarrow> 'p \<Rightarrow> (cli_end \<times> u8 option \<times> 'p) option" where
  "cli_main open_device P M p =
    (case cli_config M of
       None \<Rightarrow> None
     | Some (Inl _) \<Rightarrow> Some (Usage, None, p)
     | Some (Inr (tun_name, config)) \<Rightarrow>
         (let (ok, p) = open_device tun_name config p
          in if \<not> ok then Some (Failed, Some 0, p)
             else if cm_present M ''disable-drop-privileges'' then Some (Running tun_name config, Some 1, p)
             else
               (let (ok, p) = drop_privileges P p
                in if ok then Some (Running tun_name config, Some 1, p) else Some (Failed, Some 0, p))))"

text \<open>The exit code of the process that waits, for the byte it receives, if any.\<close>

definition parent_exit :: "u8 option \<Rightarrow> nat" where
  "parent_exit b = (if b = Some 1 then 0 else 1)"

lemma parent_told_truth: "cli_main open_device P M p = Some (e, b, p') \<Longrightarrow> parent_exit b = 0 \<longleftrightarrow> (\<exists>n c. e = Running n c)"
  by (auto simp: cli_main_def parent_exit_def Let_def split: option.splits sum.splits if_splits prod.splits)

text \<open>A device that runs without \<open>disable-drop-privileges\<close> for a user who is not the superuser cannot get the rights back.\<close>

lemma privileges_stay_dropped:
  assumes "drop_privileges P p = (True, p')" and "get_saved_ids P = Some (u, g)" and "u \<noteq> 0" and "g \<noteq> 0"
  shows "\<exists>p1 p2 p3. pv_setgid P g p = (True, p1) \<and> pv_setuid P u p1 = (True, p2) \<and>
    pv_setgid P 0 p2 = (False, p3) \<and> pv_setuid P 0 p3 = (False, p')"
  using assms by (auto simp: drop_privileges_def Let_def split: prod.splits if_splits)

section \<open>Command lines\<close>

text \<open>
  What clap documents, for the arguments that this program declares: a line of arguments, each at most
  once, with one that is the name, is read as its arguments and the defaults. Variables of
  the environment that stand for arguments are not set.
\<close>

datatype cli_arg =
    CliFlag string
  | CliOption string string
  | CliName string

fun cli_words :: "cli_arg \<Rightarrow> string list" where
  "cli_words (CliFlag f) = (if f = ''foreground'' then [''-f''] else [''--'' @ f])"
| "cli_words (CliOption x v) = [''--'' @ x, v]"
| "cli_words (CliName n) = [n]"

definition cli_flags :: "string list" where
  "cli_flags =
    [''foreground'', ''disable-drop-privileges'', ''disable-connected-udp'', ''disable-multi-queue'', ''disable-udp-gro'', ''tcp'']"

definition cli_options :: "(string \<times> string option) list" where
  "cli_options =
    [(''threads'', Some ''4''), (''verbosity'', Some ''error''), (''uapi-fd'', Some ''-1''), (''tun-fd'', Some ''-1''),
     (''log'', Some ''/tmp/boringtun.out''), (''ip-protocol'', None)]"

fun cli_arg_ok :: "cli_arg \<Rightarrow> bool" where
  "cli_arg_ok (CliFlag f) \<longleftrightarrow> f \<in> set cli_flags"
| "cli_arg_ok (CliOption x v) \<longleftrightarrow> x \<in> fst ` set cli_options \<and> (v \<noteq> [] \<and> hd v \<noteq> CHR ''-'')"
| "cli_arg_ok (CliName n) \<longleftrightarrow> n \<noteq> [] \<and> hd n \<noteq> CHR ''-''"

fun cli_key :: "cli_arg \<Rightarrow> string" where
  "cli_key (CliFlag f) = f"
| "cli_key (CliOption x v) = x"
| "cli_key (CliName n) = ''INTERFACE_NAME''"

definition cli_line :: "cli_arg list \<Rightarrow> bool" where
  "cli_line as \<longleftrightarrow> list_all cli_arg_ok as \<and> distinct (map cli_key as) \<and> ''INTERFACE_NAME'' \<in> set (map cli_key as)"

fun cli_given :: "cli_arg list \<Rightarrow> string \<Rightarrow> string option" where
  "cli_given [] x = None"
| "cli_given (a # as) x =
    (case a of
       CliFlag f \<Rightarrow> cli_given as x
     | CliOption y v \<Rightarrow> if y = x then Some v else cli_given as x
     | CliName n \<Rightarrow> if x = ''INTERFACE_NAME'' then Some n else cli_given as x)"

definition clap_ok :: "(string list \<Rightarrow> cli_matches option) \<Rightarrow> bool" where
  "clap_ok P \<longleftrightarrow>
    (\<forall>as. cli_line as \<longrightarrow>
      (\<exists>M. P (concat (map cli_words as)) = Some M \<and>
        (\<forall>x\<in>set cli_flags \<union> {''ip-protocol''}. cm_present M x \<longleftrightarrow> x \<in> set (map cli_key as)) \<and>
        (\<forall>x\<in>insert ''INTERFACE_NAME'' (fst ` set cli_options). cm_value M x =
          (case cli_given as x of Some v \<Rightarrow> Some v | None \<Rightarrow> Option.bind (map_of cli_options x) id))))"

text \<open>The arguments that the control plane gives.\<close>

definition start_line :: "neko_config \<Rightarrow> cli_arg list" where
  "start_line cfg =
    [CliFlag ''foreground'', CliName (nc_interface cfg), CliFlag ''disable-drop-privileges''] @
    (if nc_mode cfg = ''ip'' then
       (case nc_ip_protocol cfg of Some proto \<Rightarrow> [CliOption ''ip-protocol'' (show_nat (unat proto))] | None \<Rightarrow> []) @
       (if nc_use_multi_queue cfg then [] else [CliFlag ''disable-multi-queue''])
     else []) @
    (if nc_enable_udp_gro cfg then [] else [CliFlag ''disable-udp-gro'']) @
    (if nc_mode cfg = ''tcp'' \<or> nc_mode cfg = ''mullvad-tcp'' then [CliFlag ''tcp''] else [])"

lemma start_line_args: "concat (map cli_words (start_line cfg)) = cli_args cfg"
  by (auto simp: start_line_def cli_args_def split: option.split)

lemma show_nat_head: "show_nat n \<noteq> [] \<and> hd (show_nat n) \<noteq> CHR ''-''"
proof -
  have "\<not> is_digit 10 (CHR ''-'')" by (simp add: is_digit_def to_digit_def)
  then show ?thesis using show_radix_digits [of 10 n, simplified] by (cases "show_nat n") auto
qed

lemma start_line_ok: "nc_interface cfg \<noteq> [] \<Longrightarrow> hd (nc_interface cfg) \<noteq> CHR ''-'' \<Longrightarrow> cli_line (start_line cfg)"
  using show_nat_head by (auto simp: cli_line_def start_line_def cli_flags_def cli_options_def split: option.split)

lemma start_line_keys:
  "map cli_key (start_line cfg) = [''foreground'', ''INTERFACE_NAME'', ''disable-drop-privileges''] @
    (if nc_mode cfg = ''ip'' \<and> nc_ip_protocol cfg \<noteq> None then [''ip-protocol''] else []) @
    (if nc_mode cfg = ''ip'' \<and> \<not> nc_use_multi_queue cfg then [''disable-multi-queue''] else []) @
    (if nc_enable_udp_gro cfg then [] else [''disable-udp-gro'']) @
    (if nc_mode cfg = ''tcp'' \<or> nc_mode cfg = ''mullvad-tcp'' then [''tcp''] else [])"
  by (cases "nc_ip_protocol cfg") (simp_all add: start_line_def)

lemma start_line_finds:
  "''ip-protocol'' \<in> set (map cli_key (start_line cfg)) \<longleftrightarrow> nc_mode cfg = ''ip'' \<and> nc_ip_protocol cfg \<noteq> None"
  "''tcp'' \<in> set (map cli_key (start_line cfg)) \<longleftrightarrow> nc_mode cfg = ''tcp'' \<or> nc_mode cfg = ''mullvad-tcp''"
  "''disable-multi-queue'' \<in> set (map cli_key (start_line cfg)) \<longleftrightarrow> nc_mode cfg = ''ip'' \<and> \<not> nc_use_multi_queue cfg"
  "''disable-udp-gro'' \<in> set (map cli_key (start_line cfg)) \<longleftrightarrow> \<not> nc_enable_udp_gro cfg"
  "''disable-connected-udp'' \<notin> set (map cli_key (start_line cfg))"
  "''disable-drop-privileges'' \<in> set (map cli_key (start_line cfg))"
  "''threads'' \<notin> set (map cli_key (start_line cfg))" "''uapi-fd'' \<notin> set (map cli_key (start_line cfg))"
  "''tun-fd'' \<notin> set (map cli_key (start_line cfg))"
  by (simp_all add: start_line_keys del: set_map list.set_map)

lemma cli_given_append: "cli_given (as @ bs) x = (case cli_given as x of Some v \<Rightarrow> Some v | None \<Rightarrow> cli_given bs x)"
  by (induction as) (auto split: cli_arg.split)

lemma cli_given_none: "x \<notin> set (map cli_key as) \<Longrightarrow> cli_given as x = None"
  by (induction as) (auto split: cli_arg.split)

lemma start_line_given:
  "cli_given (start_line cfg) ''INTERFACE_NAME'' = Some (nc_interface cfg)"
  "cli_given (start_line cfg) ''ip-protocol'' = (if nc_mode cfg = ''ip'' then map_option (\<lambda>p. show_nat (unat p)) (nc_ip_protocol cfg) else None)"
  by (cases "nc_ip_protocol cfg"; simp add: start_line_def cli_given_append)+

text \<open>C13 The device that the control plane starts: the program reads the arguments that an interface's configuration gives as a device for this interface whose transport is TCP for the modes \<open>tcp\<close> and \<open>mullvad-tcp\<close>, raw IP for the mode \<open>ip\<close> when the file names a protocol, and UDP otherwise. So a file with the mode \<open>ip\<close> and no protocol runs over UDP, while its signalling goes by raw packets of protocol 141.\<close>

theorem started_device_follows_mode:
  assumes "clap_ok P" and "nc_interface cfg \<noteq> []" and "hd (nc_interface cfg) \<noteq> CHR ''-''"
  shows "\<exists>M. P (cli_args cfg) = Some M \<and> cm_present M ''disable-drop-privileges'' \<and>
    cli_config M = Some (Inr (nc_interface cfg,
      \<lparr>cfg_n_threads = 4, cfg_use_connected_socket = True,
       cfg_use_multi_queue = (nc_mode cfg = ''ip'' \<longrightarrow> nc_use_multi_queue cfg), cfg_uapi_fd = -1,
       cfg_ip_protocol = (if nc_mode cfg = ''ip'' then nc_ip_protocol cfg else None),
       cfg_transport_mode =
         (if nc_mode cfg = ''tcp'' \<or> nc_mode cfg = ''mullvad-tcp'' then Tcp
          else if nc_mode cfg = ''ip'' \<and> nc_ip_protocol cfg \<noteq> None then RawIp else Udp),
       cfg_enable_udp_gro = nc_enable_udp_gro cfg\<rparr>))"
proof -
  from assms(1) start_line_ok [OF assms(2,3)] obtain M where M: "P (cli_args cfg) = Some M"
    and flag: "\<forall>x\<in>set cli_flags \<union> {''ip-protocol''}. cm_present M x \<longleftrightarrow> x \<in> set (map cli_key (start_line cfg))"
    and val: "\<forall>x\<in>insert ''INTERFACE_NAME'' (fst ` set cli_options). cm_value M x =
      (case cli_given (start_line cfg) x of Some v \<Rightarrow> Some v | None \<Rightarrow> Option.bind (map_of cli_options x) id)"
    unfolding clap_ok_def start_line_args [symmetric] by blast
  have present: "cm_present M x \<longleftrightarrow> x \<in> set (map cli_key (start_line cfg))"
    if "x \<in> {''ip-protocol'', ''tcp'', ''disable-multi-queue'', ''disable-udp-gro'', ''disable-connected-udp'', ''disable-drop-privileges''}" for x
    using flag that by (auto simp: cli_flags_def)
  have finds: "cm_present M ''ip-protocol'' \<longleftrightarrow> nc_mode cfg = ''ip'' \<and> nc_ip_protocol cfg \<noteq> None"
    "cm_present M ''tcp'' \<longleftrightarrow> nc_mode cfg = ''tcp'' \<or> nc_mode cfg = ''mullvad-tcp''"
    "cm_present M ''disable-multi-queue'' \<longleftrightarrow> nc_mode cfg = ''ip'' \<and> \<not> nc_use_multi_queue cfg"
    "cm_present M ''disable-udp-gro'' \<longleftrightarrow> \<not> nc_enable_udp_gro cfg"
    "\<not> cm_present M ''disable-connected-udp''" "cm_present M ''disable-drop-privileges''"
    using start_line_finds [of cfg] by (simp_all only: present insert_iff simp_thms)
  have found: "cm_value M ''INTERFACE_NAME'' = Some (nc_interface cfg)" "cm_value M ''threads'' = Some ''4''"
    "cm_value M ''uapi-fd'' = Some ''-1''" "cm_value M ''tun-fd'' = Some ''-1''"
    "cm_value M ''ip-protocol'' = (if nc_mode cfg = ''ip'' then map_option (\<lambda>p. show_nat (unat p)) (nc_ip_protocol cfg) else None)"
    using val cli_given_none [OF start_line_finds(7)] cli_given_none [OF start_line_finds(8)] cli_given_none [OF start_line_finds(9)]
    by (simp_all add: start_line_given cli_options_def split: option.split)
  have numbers: "parse_i32 ''-1'' = Some (- 1)" "parse_isize ''-1'' = Some (- 1)" "parse_unsigned ''4'' = Some (4 :: u64)"
    by (simp_all add: parse_i32_def parse_isize_def parse_unsigned_def from_str_radix_def is_digit_def to_digit_def digits_value_def)
  show ?thesis
    by (intro exI [of _ M] conjI)
      (simp_all add: M cli_config_def cli_transport_def value_of_t_def found numbers finds parse_unsigned_show split: option.split)
qed

section \<open>An example\<close>

text \<open>A parser that meets the documentation.\<close>

fun toy_args :: "string list \<Rightarrow> cli_arg list" where
  "toy_args [] = []"
| "toy_args (w # ws) =
    (if w = ''-f'' then CliFlag ''foreground'' # toy_args ws
     else if take 2 w = ''--'' then
       (if drop 2 w \<in> set cli_flags then CliFlag (drop 2 w) # toy_args ws
        else case ws of v # vs \<Rightarrow> CliOption (drop 2 w) v # toy_args vs | [] \<Rightarrow> [])
     else CliName w # toy_args ws)"

definition toy_clap :: "string list \<Rightarrow> cli_matches option" where
  "toy_clap ws =
    (let as = toy_args ws
     in Some \<lparr>cm_present = (\<lambda>x. x \<in> set (map cli_key as)),
       cm_value = (\<lambda>x. case cli_given as x of Some v \<Rightarrow> Some v | None \<Rightarrow> Option.bind (map_of cli_options x) id)\<rparr>)"

lemma toy_args_words: "list_all cli_arg_ok as \<Longrightarrow> toy_args (concat (map cli_words as)) = as"
proof (induction as)
  case (Cons a as)
  then have IH: "toy_args (concat (map cli_words as)) = as" by simp
  show ?case
  proof (cases a)
    case (CliName n)
    then have n: "n \<noteq> []" "hd n \<noteq> CHR ''-''" using Cons.prems by simp_all
    then have "n \<noteq> ''-f''" "take 2 n \<noteq> ''--''" by (cases n; auto)+
    with IH CliName show ?thesis by simp
  next
    case (CliFlag f)
    then show ?thesis using IH Cons.prems by auto
  next
    case (CliOption x v)
    then have "x \<notin> set cli_flags" using Cons.prems by (auto simp: cli_flags_def cli_options_def)
    with IH CliOption show ?thesis by simp
  qed
qed simp

lemma toy_clap_ok: "clap_ok toy_clap"
  by (auto simp: clap_ok_def toy_clap_def cli_line_def toy_args_words)

theorem started_device_follows_mode_witness:
  "\<exists>M. toy_clap (cli_args ((config_fill ''wg0'' ''10.0.0.1/24'' ''s'' [])\<lparr>nc_mode := ''ip''\<rparr>)) = Some M \<and>
    cm_present M ''disable-drop-privileges'' \<and>
    cli_config M = Some (Inr (''wg0'',
      \<lparr>cfg_n_threads = 4, cfg_use_connected_socket = True, cfg_use_multi_queue = False, cfg_uapi_fd = -1,
       cfg_ip_protocol = None, cfg_transport_mode = Udp, cfg_enable_udp_gro = True\<rparr>))"
  using started_device_follows_mode [OF toy_clap_ok, of "(config_fill ''wg0'' ''10.0.0.1/24'' ''s'' [])\<lparr>nc_mode := ''ip''\<rparr>"]
  by (simp add: config_fill_def)

end
