(* ===== verification/Android_Signal.thy ===== *)
theory Android_Signal
  imports Ctl_Signal
begin

text \<open>
  The signalling of the Android program (src/nekolink-android/src/lib.rs): one message to a server and
  its answer, which becomes the configuration of the tunnel. \<open>exchange pkt target\<close> is the network: the
  datagram that comes back within 5 seconds, cut to 2048 bytes, or none. The message is sealed as that
  of the control plane, with functions of the same names and texts. The runtime, the logger and the
  texts of JSON are not modelled.
\<close>

record handshake_result =
  hr_success :: bool
  hr_peer_pub_key :: "string option"
  hr_endpoint :: "string option"
  hr_mtu :: "u16 option"
  hr_error :: "string option"

datatype android_error =
    Key_Text
  | Key_Length
  | No_Answer
  | Answer_Short
  | Answer_Sealed
  | Payload_Short

definition android_target :: "string \<Rightarrow> string" where
  "android_target server_addr = (if CHR '':'' \<in> set server_addr then server_addr else server_addr @ '':12580'')"

text \<open>The mtu and the port of the message are zero.\<close>

definition android_request ::
    "crypto \<Rightarrow> (string \<Rightarrow> bytes option) \<Rightarrow> bytes \<Rightarrow> string \<Rightarrow> string \<Rightarrow> android_error + bytes" where
  "android_request C B rnd psk my_pub_key =
    (case decode_base64 B my_pub_key of
       None \<Rightarrow> Inl Key_Text
     | Some my_pub \<Rightarrow>
         if length my_pub \<noteq> 32 then Inl Key_Length
         else Inr (seal_signal C psk rnd (my_pub @ u16_be 0 @ u16_be 0)))"

definition android_answer ::
    "crypto \<Rightarrow> (bytes \<Rightarrow> string) \<Rightarrow> string \<Rightarrow> string \<Rightarrow> bytes \<Rightarrow> android_error + handshake_result" where
  "android_answer C Enc psk target buf =
    (if length buf < 12 + 32 then Inl Answer_Short
     else case open_signal C psk buf of
       None \<Rightarrow> Inl Answer_Sealed
     | Some decrypted \<Rightarrow>
         if length decrypted < 36 then Inl Payload_Short
         else
           Inr \<lparr>hr_success = True, hr_peer_pub_key = Some (Enc (take 32 decrypted)),
             hr_endpoint = Some (takeWhile (\<lambda>c. c \<noteq> CHR '':'') target @ '':'' @
               show_nat (be_val (slice 34 36 decrypted))),
             hr_mtu = Some (word_of_nat (be_val (slice 32 34 decrypted))), hr_error = None\<rparr>)"

definition perform_handshake_internal ::
    "crypto \<Rightarrow> (string \<Rightarrow> bytes option) \<Rightarrow> (bytes \<Rightarrow> string) \<Rightarrow> (bytes \<Rightarrow> string \<Rightarrow> bytes option) \<Rightarrow> bytes \<Rightarrow>
      string \<Rightarrow> string \<Rightarrow> string \<Rightarrow> android_error + handshake_result" where
  "perform_handshake_internal C B Enc exchange rnd server_addr psk my_pub_key =
    (let target = android_target server_addr
     in case android_request C B rnd psk my_pub_key of
          Inl e \<Rightarrow> Inl e
        | Inr pkt \<Rightarrow>
            (case exchange pkt target of
               None \<Rightarrow> Inl No_Answer
             | Some buf \<Rightarrow> android_answer C Enc psk target (take 2048 buf)))"

text \<open>What the caller in Java is told; \<open>show_error\<close> is the text of an error.\<close>

definition neko_signal ::
    "(android_error \<Rightarrow> string) \<Rightarrow> crypto \<Rightarrow> (string \<Rightarrow> bytes option) \<Rightarrow> (bytes \<Rightarrow> string) \<Rightarrow> (bytes \<Rightarrow> string \<Rightarrow> bytes option) \<Rightarrow>
      bytes \<Rightarrow> string \<Rightarrow> string \<Rightarrow> string \<Rightarrow> handshake_result" where
  "neko_signal show_error C B Enc exchange rnd server_addr psk my_pub_key =
    (case perform_handshake_internal C B Enc exchange rnd server_addr psk my_pub_key of
       Inr res \<Rightarrow> res
     | Inl e \<Rightarrow> \<lparr>hr_success = False, hr_peer_pub_key = None, hr_endpoint = None, hr_mtu = None, hr_error = Some (show_error e)\<rparr>)"

section \<open>Nobody answers\<close>

lemma android_message: "android_request C B rnd psk my_pub_key = Inr pkt \<Longrightarrow>
    \<exists>my_pub. length my_pub = 32 \<and> decode_base64 B my_pub_key = Some my_pub \<and> pkt = seal_signal C psk rnd (signal_message my_pub 0 0)"
  by (auto simp: android_request_def signal_message_def split: option.splits if_splits)

lemma signal_recv_portless:
  assumes "\<And>st. st \<in> set states \<Longrightarrow> takes (ns_config st) \<Longrightarrow> nc_mode (ns_config st) \<noteq> ''ip'' \<and>
    (case open_signal C (nc_psk (ns_config st)) pkt of
       None \<Rightarrow> True
     | Some m \<Rightarrow> (case parse_signal m of None \<Rightarrow> True | Some (key, mtu, port) \<Rightarrow> port = 0))"
  shows "signal_recv C V B Enc takes rnd pkt ip states c = (None, c)"
  using assms by (induction states) (fastforce simp: Let_def split: option.splits)+

text \<open>A server that is the control plane: it answers over UDP with what \<open>udp_signal_recv\<close> sends back.\<close>

definition udp_server ::
    "crypto \<Rightarrow> 'w ctl_env \<Rightarrow> (string \<Rightarrow> bytes option) \<Rightarrow> (bytes \<Rightarrow> string) \<Rightarrow> bytes \<Rightarrow> sock_addr \<Rightarrow> neko_state list \<Rightarrow> 'w ctl \<Rightarrow>
      bytes \<Rightarrow> string \<Rightarrow> bytes option" where
  "udp_server C V B Enc rnd addr states c pkt target = fst (udp_signal_recv C V B Enc rnd pkt addr states c)"

text \<open>The Android program cannot signal to this control plane: its message tells the port zero, which the receiver of UDP passes over, so a server with the same secret (whose other interfaces do not open the message) neither answers nor changes anything, and the program gets an error after its timeout.\<close>

theorem android_is_never_answered:
  assumes "crypto_ok C" and "length rnd = 12"
    and "\<And>st msg. st \<in> set states \<Longrightarrow> udp_takes (ns_config st) \<Longrightarrow>
      nc_psk (ns_config st) = psk \<or> open_signal C (nc_psk (ns_config st)) (seal_signal C psk rnd msg) = None"
    and "android_request C B rnd psk my_pub_key = Inr pkt"
  shows "udp_signal_recv C V B Enc rnd' pkt addr states c = (None, c) \<and>
    perform_handshake_internal C B Enc (udp_server C V B Enc rnd' addr states c) rnd server_addr psk my_pub_key = Inl No_Answer"
proof -
  obtain pub where pub: "length pub = 32" and pkt: "pkt = seal_signal C psk rnd (signal_message pub 0 0)"
    using android_message [OF assms(4)] by blast
  have opened: "open_signal C psk pkt = Some (signal_message pub 0 0)" by (simp add: pkt open_seal_signal(1) [OF assms(1,2)])
  have "signal_recv C V B Enc udp_takes rnd' pkt (sock_ip addr) states c = (None, c)"
  proof (rule signal_recv_portless)
    fix st assume st: "st \<in> set states" "udp_takes (ns_config st)"
    have "nc_psk (ns_config st) = psk \<or> open_signal C (nc_psk (ns_config st)) pkt = None" using assms(3) [OF st] by (simp add: pkt)
    then show "nc_mode (ns_config st) \<noteq> ''ip'' \<and> (case open_signal C (nc_psk (ns_config st)) pkt of None \<Rightarrow> True
       | Some m \<Rightarrow> (case parse_signal m of None \<Rightarrow> True | Some (key, mtu, port) \<Rightarrow> port = 0))"
      using st(2) opened by (cases "nc_psk (ns_config st) = psk") (simp_all add: udp_takes_def parse_signal_message [OF pub])
  qed
  then have "udp_signal_recv C V B Enc rnd' pkt addr states c = (None, c)" by (simp add: udp_signal_recv_def)
  then show ?thesis using assms(4) by (simp add: perform_handshake_internal_def udp_server_def Let_def)
qed

text \<open>An answer, were there one, is read as the control plane means it.\<close>

lemma android_reads_answer:
  assumes "crypto_ok C" and "length rnd = 12" and "length pub = 32" and "CHR '':'' \<notin> set host" and "target = host @ CHR '':'' # port_text"
  shows "android_answer C Enc psk target (seal_signal C psk rnd (signal_message pub mtu port)) =
    Inr \<lparr>hr_success = True, hr_peer_pub_key = Some (Enc pub), hr_endpoint = Some (host @ '':'' @ show_nat (unat port)),
      hr_mtu = Some mtu, hr_error = None\<rparr>"
proof -
  let ?m = "signal_message pub mtu port"
  have m: "take 32 ?m = pub" "word_of_nat (be_val (slice 32 34 ?m)) = mtu" "(word_of_nat (be_val (slice 34 36 ?m)) :: u16) = port"
    "length ?m = 36"
    using parse_signal_message [OF assms(3), of mtu port] by (auto simp: parse_signal_def split: if_splits) (simp add: signal_message_def u16_be_def assms(3))
  have "be_val (slice 34 36 ?m) < 65536" using be_val_less [of "slice 34 36 ?m"] m(4) by (simp add: slice_def)
  then have "be_val (slice 34 36 ?m) = unat (word_of_nat (be_val (slice 34 36 ?m)) :: u16)" by (simp add: unat_of_nat)
  then have p: "be_val (slice 34 36 ?m) = unat port" by (simp only: m(3))
  have "takeWhile (\<lambda>c. c \<noteq> CHR '':'') target = host" using assms(4,5) by (simp add: takeWhile_tail takeWhile_append)
  then show ?thesis
    by (simp add: android_answer_def open_seal_signal [OF assms(1,2)] m p)
qed

theorem android_is_never_answered_witness:
  "\<exists>pkt c. android_request toy_crypto toy_dec (replicate 12 5) ''a'' (toy_enc (replicate 32 7)) = Inr pkt \<and>
    udp_signal_recv toy_crypto (toy_ctl_env toy_socket (\<lambda>_. None)) toy_dec toy_enc [] pkt (SockV4 [10, 0, 0, 9] 40000)
      [toy_state ''udp'' ''b'', toy_state ''udp'' ''a''] c = (None, c) \<and>
    perform_handshake_internal toy_crypto toy_dec toy_enc
      (udp_server toy_crypto (toy_ctl_env toy_socket (\<lambda>_. None)) toy_dec toy_enc [] (SockV4 [10, 0, 0, 9] 40000)
        [toy_state ''udp'' ''b'', toy_state ''udp'' ''a''] c)
      (replicate 12 5) ''10.0.0.1'' ''a'' (toy_enc (replicate 32 7)) = Inl No_Answer"
proof -
  obtain pkt where pkt: "android_request toy_crypto toy_dec (replicate 12 5) ''a'' (toy_enc (replicate 32 7)) = Inr pkt"
    by (simp add: android_request_def decode_encoded [OF toy_base64])
  have psk: "nc_psk (ns_config st) = ''a'' \<or>
      open_signal toy_crypto (nc_psk (ns_config st)) (seal_signal toy_crypto ''a'' (replicate 12 5) msg) = None"
    if "st \<in> set [toy_state ''udp'' ''b'', toy_state ''udp'' ''a'']" for st msg
    using that toy_refuses by (auto simp: toy_state_def config_fill_def)
  show ?thesis
    by (rule exI [of _ pkt], rule exI [of _ "\<lparr>ct_peers = Map.empty, ct_mtus = [], ct_dns = [], ct_world = 0\<rparr>"], rule conjI [OF pkt],
        rule android_is_never_answered [OF toy_crypto_ok _ psk pkt]) simp_all
qed

end
