(* ===== verification/Tunn_Output.thy ===== *)
theory Tunn_Output
  imports Tunn_Safety
begin

text \<open>
  What a tunnel writes fits into the buffer it was given: the size of the message that a result names
  is at most that of the buffer, in every state whose keys belong together.
\<close>

section \<open>The keys belong together\<close>

abbreviation keys_ok :: "crypto \<Rightarrow> tunn \<Rightarrow> bool" where
  "keys_ok C t \<equiv> params_wf C (params (tn_handshake t))"

abbreviation tn_params :: "tunn \<Rightarrow> noise_params" where
  "tn_params t \<equiv> params (tn_handshake t)"

lemma params_formats [frame_simps]:
  "format_handshake_initiation C e t1 t2 n h = (r, h') \<Longrightarrow> params h' = params h"
  "receive_handshake_initialization C e p n h = Some (q, h') \<Longrightarrow> params h' = params h"
  "receive_handshake_response C now p2 h = Some (s, h') \<Longrightarrow> params h' = params h"
  "receive_cookie_reply C p3 h = Some (u, h') \<Longrightarrow> params h' = params h"
  by (auto simp: format_handshake_initiation_def receive_handshake_initialization_def receive_handshake_response_def
      receive_cookie_reply_def Let_def split_beta frame_simps split: if_splits bind_splits sum.splits option.splits)

lemma params_frames [simp]:
  "tn_params (timer_tick n t) = tn_params t"
  "tn_params (timer_tick_session_established b i t) = tn_params t"
  "tn_params (set_current_session i t) = tn_params t"
  "tn_params (queue_packet p t) = tn_params t"
  "tn_params (requeue_packet p t) = tn_params t"
  by (simp_all add: timer_tick_def timer_tick_session_established_def set_current_session_def queue_packet_def
      requeue_packet_def Let_def)

lemma params_initiation: "tunn_format_handshake_initiation C env n f t = (r, t') \<Longrightarrow> tn_params t' = tn_params t"
  by (auto simp: tunn_format_handshake_initiation_def Let_def split: if_splits sum.splits prod.splits dest: params_formats(1))

lemma params_encapsulate: "encapsulate C env src n t = Some (r, t') \<Longrightarrow> tn_params t' = tn_params t"
  by (auto simp: encapsulate_def Let_def split: option.splits bind_splits dest: params_initiation)

lemma params_send: "send_queued_packet C env n t = Some (r, t') \<Longrightarrow> tn_params t' = tn_params t"
  by (auto simp: send_queued_packet_def dequeue_packet_def split: list.splits bind_splits tunn_result.splits dest!: params_encapsulate)

lemma params_validate: "validate_decapsulated_packet p t = (r, t') \<Longrightarrow> tn_params t' = tn_params t"
  by (auto simp: validate_decapsulated_packet_def Let_def split: if_splits option.splits ip_addr.splits)

lemma params_verified: "handle_verified_packet C env p n t = Some (r, t') \<Longrightarrow> tn_params t' = tn_params t"
  by (auto simp: handle_verified_packet_def handle_handshake_init_def handle_handshake_response_def
      handle_cookie_reply_def handle_data_def Let_def params_validate
      split: packet.splits bind_splits sum.splits prod.splits option.splits dest: params_formats(2-4))

lemma params_decapsulate: "decapsulate C env a d n t rl = Some (r, t', rl') \<Longrightarrow> tn_params t' = tn_params t"
  by (auto simp: decapsulate_def split: if_splits bind_splits prod.splits sum.splits tunn_result.splits
      dest: params_send params_verified)

lemma params_demands: "timer_demands now t = Some (i, k, t') \<Longrightarrow> tn_params t' = tn_params t"
  using timer_demands_effect by (simp add: only_ticked_def)

lemma params_action: "timer_action C env n now t = Some (r, t') \<Longrightarrow> tn_params t' = tn_params t"
  by (auto simp: timer_action_def expire_tunn_def clear_all_def set_expired_def split: bind_splits if_splits option.splits
      dest!: params_initiation params_encapsulate params_demands)

lemma params_update: "update_timers C env n t rl = Some (r, t', rl') \<Longrightarrow> tn_params t' = tn_params t"
  by (auto simp: update_timers_def update_session_timers_def clear_cookie_def Let_def split: bind_splits if_splits
      dest!: params_action)

lemma keys_step: "tunn_step C n env ev t rl = Some (r, t', rl') \<Longrightarrow> keys_ok C t \<Longrightarrow> keys_ok C t'"
proof (cases ev)
  case (SetKey priv le new_rl)
  moreover assume "tunn_step C n env ev t rl = Some (r, t', rl')" "keys_ok C t"
  ultimately show ?thesis
    by (auto simp: tunn_set_static_private_def handshake_set_static_private_def split: bind_splits intro: set_static_private_wf)
qed (auto split: prod.splits dest: params_encapsulate params_decapsulate params_update params_initiation)

lemma reach_keys: "tunn_reach C n t rl lo \<Longrightarrow> keys_ok C t"
proof (induction rule: tunn_reach.induct)
  case (reach_new now ts le priv peer psk k i orl t rl)
  then have "tn_params t = noise_params_new C priv (x25519_public C priv) peer psk"
    by (auto simp: tunn_new_def handshake_new_def Let_def)
  then show ?case by (simp add: noise_params_new_wf)
qed (rule keys_step)

section \<open>Sizes\<close>

fun written :: "tunn_result \<Rightarrow> nat" where
  "written TDone = 0"
| "written (TErr e) = 0"
| "written (WriteToNetwork b) = length b"
| "written (WriteToTunnelV4 b a) = length b"
| "written (WriteToTunnelV6 b a) = length b"

lemma length_message: "crypto_ok C \<Longrightarrow> length (fst (append_mac1_and_mac2 C i body h)) = length body + 32"
  using length_macs [of C i body h] by auto

lemma initiation_size:
  assumes "crypto_ok C" and "params_wf C (params h)" and "format_handshake_initiation C e t1 t2 n h = (Inr msg, h')"
  shows "length msg = 148" and "148 \<le> n"
proof -
  have "length (static_public (params h)) = 32" using assms(1,2) by (simp add: params_wf_def crypto_lengths)
  then show "length msg = 148" "148 \<le> n" using assms(3)
    by (auto simp: format_handshake_initiation_def Let_def split_beta length_seal [OF assms(1)] crypto_lengths [OF assms(1)]
        length_message [OF assms(1)] split: if_splits)
qed

lemma response_size:
  assumes "crypto_ok C" and "format_handshake_response C e n h = Some (Inr (msg, s), h')"
  shows "length msg = 92" and "92 \<le> n"
  using assms(2)
  by (auto simp: format_handshake_response_def Let_def split_beta length_seal [OF assms(1)] crypto_lengths [OF assms(1)]
      length_message [OF assms(1)] split: if_splits handshake_state.splits)

lemma receive_init_size:
  assumes "crypto_ok C" and "receive_handshake_initialization C e p n h = Some (Inr (msg, s), h')"
  shows "length msg \<le> n"
  using assms(2) response_size [OF assms(1)]
  by (auto simp: receive_handshake_initialization_def Let_def split_beta split: if_splits sum.splits bind_splits)

lemma data_size:
  assumes "crypto_ok C" and "format_packet_data C src n s = Some (msg, s')"
  shows "length msg \<le> n"
  using assms aead_lengths [of "chacha_seal C" "chacha_open C"]
  by (auto simp: format_packet_data_def Let_def crypto_ok_def split: if_splits prod.splits)

lemma received_size:
  assumes "crypto_ok C" and "receive_packet_data C p n s = Some (Inr b, s')"
  shows "length b \<le> n"
proof -
  have "length b + 16 = length (pd_payload p)" "length (pd_payload p) \<le> n"
    using assms aead_open_length [of "chacha_seal C" "chacha_open C"]
    by (auto simp: receive_packet_data_def crypto_ok_def split: if_splits sum.splits option.splits bind_splits)
  then show ?thesis by simp
qed

lemma tunn_initiation_size:
  assumes "crypto_ok C" and "keys_ok C t" and "tunn_format_handshake_initiation C env n f t = (r, t')"
  shows "written r \<le> n"
  using assms(3) initiation_size [OF assms(1)] assms(2)
  by (fastforce simp: tunn_format_handshake_initiation_def Let_def split: if_splits sum.splits prod.splits)

lemma encapsulate_size:
  assumes "crypto_ok C" and "keys_ok C t" and "encapsulate C env src n t = Some (r, t')"
  shows "written r \<le> n"
  using assms(3) data_size [OF assms(1)] tunn_initiation_size [OF assms(1), of "queue_packet src t"] assms(2)
  by (auto simp: encapsulate_def Let_def split: option.splits bind_splits)

lemma send_size:
  assumes "crypto_ok C" and "keys_ok C t" and "send_queued_packet C env n t = Some (r, t')"
  shows "written r \<le> n"
proof (cases "packet_queue t")
  case (Cons p ps)
  then obtain r2 t2 where e: "encapsulate C env p n (t\<lparr>packet_queue := ps\<rparr>) = Some (r2, t2)" and "r = r2 \<or> r = TDone"
    using assms(3) by (auto simp: send_queued_packet_def dequeue_packet_def split: bind_splits tunn_result.splits)
  moreover have "written r2 \<le> n" using encapsulate_size [OF assms(1) _ e] assms(2) by simp
  ultimately show ?thesis by auto
qed (use assms(3) in \<open>auto simp: send_queued_packet_def dequeue_packet_def\<close>)

lemma validate_size: "validate_decapsulated_packet p t = (r, t') \<Longrightarrow> written r \<le> length p"
  by (auto simp: validate_decapsulated_packet_def Let_def split: if_splits option.splits ip_addr.splits)

lemma verified_size:
  assumes "crypto_ok C" and "handle_verified_packet C env p n t = Some (r, t')"
  shows "written r \<le> n"
proof (cases p)
  case (HandshakeInit q)
  then show ?thesis using assms(2) receive_init_size [OF assms(1)]
    by (fastforce simp: handle_verified_packet_def handle_handshake_init_def tunn_result_from_def Let_def
        split: bind_splits sum.splits prod.splits)
next
  case (HandshakeResponse q)
  then show ?thesis using assms(2) data_size [OF assms(1)]
    by (fastforce simp: handle_verified_packet_def handle_handshake_response_def tunn_result_from_def Let_def
        split: bind_splits sum.splits prod.splits)
next
  case (PacketCookieReply q)
  then show ?thesis using assms(2)
    by (auto simp: handle_verified_packet_def handle_cookie_reply_def tunn_result_from_def Let_def
        split: bind_splits sum.splits prod.splits)
next
  case (PacketData q)
  then show ?thesis using assms(2) received_size [OF assms(1)] validate_size
    by (fastforce simp: handle_verified_packet_def handle_data_def tunn_result_from_def Let_def
        split: option.splits bind_splits sum.splits prod.splits intro: order_trans)
qed

lemma decapsulate_size:
  assumes "crypto_ok C" and "keys_ok C t" and "decapsulate C env a d n t rl = Some (r, t', rl')"
  shows "written r \<le> n"
  using assms(3) send_size [OF assms(1,2)] verified_size [OF assms(1)]
  by (auto simp: decapsulate_def split: if_splits bind_splits prod.splits sum.splits tunn_result.splits)

lemma action_size:
  assumes "crypto_ok C" and "keys_ok C t" and "timer_action C env n now t = Some (r, t')"
  shows "written r \<le> n"
proof -
  consider e where "r = TErr e" | "r = TDone" | "tunn_format_handshake_initiation C env n True t = (r, t')"
    | i k t1 where "timer_demands now t = Some (i, k, t1)"
        "tunn_format_handshake_initiation C env n True t1 = (r, t') \<or> encapsulate C env [] n t1 = Some (r, t')"
    using assms(3) by (auto simp: timer_action_def split: bind_splits if_splits option.splits)
  then show ?thesis
  proof cases
    case 4
    then have "keys_ok C t1" using params_demands assms(2) by simp
    then show ?thesis using 4(2) tunn_initiation_size [OF assms(1)] encapsulate_size [OF assms(1)] by blast
  qed (use tunn_initiation_size [OF assms(1,2)] in auto)
qed

lemma update_size:
  assumes "crypto_ok C" and "keys_ok C t" and "update_timers C env n t rl = Some (r, t', rl')"
  shows "written r \<le> n"
proof -
  have "written r \<le> n" if "timer_action C env n now t1 = Some (r, t')" "tn_params t1 = tn_params t" for now t1
    using action_size [OF assms(1) _ that(1)] assms(2) that(2) by simp
  note this [dest!]
  show ?thesis using assms(3)
    by (auto simp: update_timers_def update_session_timers_def clear_cookie_def Let_def split: bind_splits if_splits)
qed

lemma step_size:
  assumes "crypto_ok C" and "keys_ok C t" and "tunn_step C n env ev t rl = Some (r, t', rl')"
  shows "written r \<le> n"
  using assms(3) encapsulate_size [OF assms(1,2)] decapsulate_size [OF assms(1,2)] update_size [OF assms(1,2)]
    tunn_initiation_size [OF assms(1,2)]
  by (cases ev) (auto split: prod.splits)

end
