(* ===== verification/Ffi.thy ===== *)
theory Ffi
  imports Tunn_Output Uapi_Properties
begin

text \<open>
  The C interface (src/nekolink-core/src/ffi/mod.rs) and the Java interface over it (jni.rs): tunnels
  made from texts, one call for each operation of a tunnel, and results as two numbers. A C text is
  the list of its bytes before the closing zero, a null pointer is \<open>None\<close>, and so is a panic; the
  lock of a tunnel makes every call one step; the pointer to a tunnel is one that \<open>new_tunnel\<close> gave. \<open>B\<close> and \<open>H\<close> are \<open>base64::decode\<close> and \<open>hex::encode\<close>,
  \<open>Enc\<close> is \<open>base64::encode\<close>. Freeing a tunnel or a text, the subscriber of the crate tracing and the
  estimates of loss are not modelled.
\<close>

section \<open>Results\<close>

datatype result_type =
    WIREGUARD_DONE
  | WRITE_TO_NETWORK
  | WIREGUARD_ERROR
  | WRITE_TO_TUNNEL_IPV4
  | WRITE_TO_TUNNEL_IPV6

fun result_code :: "result_type \<Rightarrow> nat" where
  "result_code WIREGUARD_DONE = 0"
| "result_code WRITE_TO_NETWORK = 1"
| "result_code WIREGUARD_ERROR = 2"
| "result_code WRITE_TO_TUNNEL_IPV4 = 4"
| "result_code WRITE_TO_TUNNEL_IPV6 = 6"

record wireguard_result =
  wr_op :: result_type
  wr_size :: nat

fun wireguard_result_from :: "tunn_result \<Rightarrow> wireguard_result" where
  "wireguard_result_from TDone = \<lparr>wr_op = WIREGUARD_DONE, wr_size = 0\<rparr>"
| "wireguard_result_from (TErr e) = \<lparr>wr_op = WIREGUARD_ERROR, wr_size = wg_error_code e\<rparr>"
| "wireguard_result_from (WriteToNetwork b) = \<lparr>wr_op = WRITE_TO_NETWORK, wr_size = length b\<rparr>"
| "wireguard_result_from (WriteToTunnelV4 b a) = \<lparr>wr_op = WRITE_TO_TUNNEL_IPV4, wr_size = length b\<rparr>"
| "wireguard_result_from (WriteToTunnelV6 b a) = \<lparr>wr_op = WRITE_TO_TUNNEL_IPV6, wr_size = length b\<rparr>"

section \<open>Keys\<close>

text \<open>\<open>CString::new(s).unwrap()\<close>, and \<open>CStr::to_str\<close>.\<close>

definition c_string :: "string \<Rightarrow> string option" where
  "c_string s = (if CHR 0x00 \<in> set s then None else Some s)"

definition c_str_to_str :: "string \<Rightarrow> string option" where
  "c_str_to_str s = (if utf8_valid s then Some s else None)"

definition x25519_public_key :: "crypto \<Rightarrow> bytes \<Rightarrow> bytes" where
  "x25519_public_key C private_key = x25519_public C private_key"

definition x25519_key_to_base64 :: "(bytes \<Rightarrow> string) \<Rightarrow> bytes \<Rightarrow> string option" where
  "x25519_key_to_base64 Enc key = c_string (Enc key)"

definition x25519_key_to_hex :: "(bytes \<Rightarrow> string) \<Rightarrow> bytes \<Rightarrow> string option" where
  "x25519_key_to_hex H key = c_string (H key)"

definition check_base64_encoded_x25519_key :: "(string \<Rightarrow> bytes option) \<Rightarrow> string \<Rightarrow> int" where
  "check_base64_encoded_x25519_key B key =
    (case c_str_to_str key of
       None \<Rightarrow> 0
     | Some utf8_key \<Rightarrow>
         (case B utf8_key of
            Some key \<Rightarrow> if length key = 32 \<and> fold (\<lambda>b zero. zero OR b) key 0 \<noteq> 0 then 1 else 0
          | None \<Rightarrow> 0))"

section \<open>Logging\<close>

text \<open>What is handed to the function of the caller, and the number of bytes, unless there is a zero.\<close>

definition ffi_write :: "bytes \<Rightarrow> (string \<times> nat) option" where
  "ffi_write buf = map_option (\<lambda>s. (s, length buf)) (c_string (from_utf8_lossy (bytes_text buf)))"

section \<open>Tunnels\<close>

text \<open>
  \<open>Some None\<close> is the null pointer. The keys are read in the order of the source: that of the optional
  secret first, after the two texts were checked.
\<close>

definition new_tunnel ::
    "crypto \<Rightarrow> (string \<Rightarrow> bytes option) \<Rightarrow> time_stamper \<Rightarrow> instant \<Rightarrow> limiter_env \<Rightarrow> string \<Rightarrow> string \<Rightarrow> string option \<Rightarrow> u16 \<Rightarrow> u32 \<Rightarrow>
      (tunn \<times> rate_limiter) option option" where
  "new_tunnel C B ts now le private_text public_text secret_text keep_alive index =
    (case c_str_to_str private_text of None \<Rightarrow> Some None | Some private_text \<Rightarrow>
     case c_str_to_str public_text of None \<Rightarrow> Some None | Some public_text \<Rightarrow>
     do {
       psk \<leftarrow>
         (case secret_text of
            None \<Rightarrow> Some (Some None)
          | Some p \<Rightarrow>
              (case c_str_to_str p of
                 None \<Rightarrow> Some None
               | Some p \<Rightarrow> map_option (\<lambda>r. case r of Inr key \<Rightarrow> Some (Some key) | Inl _ \<Rightarrow> None) (key_from_str B p)));
       case psk of None \<Rightarrow> Some None | Some psk \<Rightarrow>
       do {
         priv \<leftarrow> key_from_str B private_text;
         case priv of Inl _ \<Rightarrow> Some None | Inr priv \<Rightarrow>
         do {
           pub \<leftarrow> key_from_str B public_text;
           case pub of Inl _ \<Rightarrow> Some None | Inr pub \<Rightarrow>
             Some (Some (tunn_new C ts now le priv pub psk (if keep_alive = 0 then None else Some keep_alive) index None))
         }
       }
     })"

definition c_result :: "(tunn_result \<times> tunn \<times> rate_limiter) option \<Rightarrow> (wireguard_result \<times> tunn \<times> rate_limiter) option" where
  "c_result = map_option (apfst wireguard_result_from)"

definition wireguard_write ::
    "crypto \<Rightarrow> env \<Rightarrow> bytes \<Rightarrow> nat \<Rightarrow> tunn \<Rightarrow> rate_limiter \<Rightarrow> (wireguard_result \<times> tunn \<times> rate_limiter) option" where
  "wireguard_write C env src dst_size t rl = c_result (map_option (\<lambda>(r, t). (r, t, rl)) (encapsulate C env src dst_size t))"

definition wireguard_read ::
    "crypto \<Rightarrow> env \<Rightarrow> bytes \<Rightarrow> nat \<Rightarrow> tunn \<Rightarrow> rate_limiter \<Rightarrow> (wireguard_result \<times> tunn \<times> rate_limiter) option" where
  "wireguard_read C env src dst_size t rl = c_result (decapsulate C env None src dst_size t rl)"

definition wireguard_tick ::
    "crypto \<Rightarrow> env \<Rightarrow> nat \<Rightarrow> tunn \<Rightarrow> rate_limiter \<Rightarrow> (wireguard_result \<times> tunn \<times> rate_limiter) option" where
  "wireguard_tick C env dst_size t rl = c_result (update_timers C env dst_size t rl)"

definition wireguard_force_handshake ::
    "crypto \<Rightarrow> env \<Rightarrow> nat \<Rightarrow> tunn \<Rightarrow> rate_limiter \<Rightarrow> (wireguard_result \<times> tunn \<times> rate_limiter) option" where
  "wireguard_force_handshake C env dst_size t rl =
    (let (r, t) = tunn_format_handshake_initiation C env dst_size True t in c_result (Some (r, t, rl)))"

text \<open>
  The statistics without the estimate of the loss. A signed number of C or Java is its bits, as a
  word; subtracting the durations may panic.
\<close>

record c_stats =
  cs_time_since_last_handshake :: u64
  cs_tx_bytes :: u64
  cs_rx_bytes :: u64
  cs_estimated_rtt :: u32

definition wireguard_stats :: "instant \<Rightarrow> tunn \<Rightarrow> c_stats option" where
  "wireguard_stats now t = do {
    time \<leftarrow> time_since_last_handshake now t;
    Some \<lparr>cs_time_since_last_handshake = (case time of Some t \<Rightarrow> word_of_nat (as_secs t) | None \<Rightarrow> - 1),
      cs_tx_bytes = tx_bytes t, cs_rx_bytes = rx_bytes t,
      cs_estimated_rtt = (case last_rtt (tn_handshake t) of Some r \<Rightarrow> r | None \<Rightarrow> - 1)\<rparr>
  }"

section \<open>The Java interface\<close>

text \<open>
  An array of Java is its bytes, and a key is copied from its first 32, which fails for a shorter one
  with the null pointer \<open>Some None\<close>. A buffer is \<open>None\<close> when it has no address; a source is read for
  the size that the caller tells, and what lies behind its end is undefined, which is \<open>None\<close> here.
\<close>

definition java_key :: "bytes \<Rightarrow> bytes option" where
  "java_key arr = (if 32 \<le> length arr then Some (take 32 arr) else None)"

definition generate_public_key1 :: "crypto \<Rightarrow> bytes \<Rightarrow> bytes option" where
  "generate_public_key1 C arr = map_option (x25519_public_key C) (java_key arr)"

definition convert_x25519_key_to_hex :: "(bytes \<Rightarrow> string) \<Rightarrow> bytes \<Rightarrow> string option option" where
  "convert_x25519_key_to_hex H arr =
    (case java_key arr of None \<Rightarrow> Some None | Some key \<Rightarrow> map_option Some (x25519_key_to_hex H key))"

definition convert_x25519_key_to_base64 :: "(bytes \<Rightarrow> string) \<Rightarrow> bytes \<Rightarrow> string option option" where
  "convert_x25519_key_to_base64 Enc arr =
    (case java_key arr of None \<Rightarrow> Some None | Some key \<Rightarrow> map_option Some (x25519_key_to_base64 Enc key))"

text \<open>A text of Java that cannot be read gives the null pointer; so does \<open>new_tunnel\<close>.\<close>

definition create_new_tunnel ::
    "crypto \<Rightarrow> (string \<Rightarrow> bytes option) \<Rightarrow> time_stamper \<Rightarrow> instant \<Rightarrow> limiter_env \<Rightarrow> string option \<Rightarrow> string option \<Rightarrow>
      string option option \<Rightarrow> u16 \<Rightarrow> u32 \<Rightarrow> (tunn \<times> rate_limiter) option option" where
  "create_new_tunnel C B ts now le private_text public_text secret_text keep_alive index =
    (case private_text of None \<Rightarrow> Some None | Some private_text \<Rightarrow>
     case public_text of None \<Rightarrow> Some None | Some public_text \<Rightarrow>
     if secret_text = Some None then Some None
     else new_tunnel C B ts now le private_text public_text (Option.bind secret_text id) keep_alive index)"

text \<open>The size that is returned and the byte that is stored behind \<open>op\<close>, if it is.\<close>

definition java_result ::
    "(wireguard_result \<times> tunn \<times> rate_limiter) option \<Rightarrow> (u32 \<times> u8 option \<times> tunn \<times> rate_limiter) option" where
  "java_result = map_option (\<lambda>(res, t, rl). (word_of_nat (wr_size res), Some (word_of_nat (result_code (wr_op res))), t, rl))"

definition java_source :: "bytes \<Rightarrow> u32 \<Rightarrow> bytes option" where
  "java_source src src_size =
    (let n = unat src_size in if n \<le> length src then Some (take n src) else None)"

definition encrypt_raw_packet ::
    "crypto \<Rightarrow> env \<Rightarrow> bytes \<Rightarrow> u32 \<Rightarrow> bool \<Rightarrow> u32 \<Rightarrow> bool \<Rightarrow> tunn \<Rightarrow> rate_limiter \<Rightarrow>
      (u32 \<times> u8 option \<times> tunn \<times> rate_limiter) option" where
  "encrypt_raw_packet C env src src_size dst_ok dst_size op_ok t rl =
    (if \<not> dst_ok \<or> \<not> op_ok then Some (0, None, t, rl)
     else do {
       src \<leftarrow> java_source src src_size;
       java_result (wireguard_write C env src (unat dst_size) t rl)
     })"

definition decrypt_to_raw_packet ::
    "crypto \<Rightarrow> env \<Rightarrow> bytes \<Rightarrow> u32 \<Rightarrow> bool \<Rightarrow> u32 \<Rightarrow> bool \<Rightarrow> tunn \<Rightarrow> rate_limiter \<Rightarrow>
      (u32 \<times> u8 option \<times> tunn \<times> rate_limiter) option" where
  "decrypt_to_raw_packet C env src src_size dst_ok dst_size op_ok t rl =
    (if \<not> dst_ok \<or> \<not> op_ok then Some (0, None, t, rl)
     else do {
       src \<leftarrow> java_source src src_size;
       java_result (wireguard_read C env src (unat dst_size) t rl)
     })"

definition run_periodic_task ::
    "crypto \<Rightarrow> env \<Rightarrow> bool \<Rightarrow> u32 \<Rightarrow> bool \<Rightarrow> tunn \<Rightarrow> rate_limiter \<Rightarrow>
      (u32 \<times> u8 option \<times> tunn \<times> rate_limiter) option" where
  "run_periodic_task C env dst_ok dst_size op_ok t rl =
    (if \<not> dst_ok \<or> \<not> op_ok then Some (0, None, t, rl)
     else java_result (wireguard_tick C env (unat dst_size) t rl))"

section \<open>Calls\<close>

datatype c_call =
    C_Write bytes
  | C_Read bytes
  | C_Tick
  | C_Force

fun c_step :: "crypto \<Rightarrow> nat \<Rightarrow> env \<Rightarrow> c_call \<Rightarrow> tunn \<Rightarrow> rate_limiter \<Rightarrow> (wireguard_result \<times> tunn \<times> rate_limiter) option" where
  "c_step C n env (C_Write src) t rl = wireguard_write C env src n t rl"
| "c_step C n env (C_Read src) t rl = wireguard_read C env src n t rl"
| "c_step C n env C_Tick t rl = wireguard_tick C env n t rl"
| "c_step C n env C_Force t rl = wireguard_force_handshake C env n t rl"

fun c_event :: "c_call \<Rightarrow> tunn_event" where
  "c_event (C_Write src) = Encapsulate src"
| "c_event (C_Read src) = Decapsulate None src"
| "c_event C_Tick = UpdateTimers"
| "c_event C_Force = InitiateHandshake True"

lemma c_step_tunn: "c_step C n env call t rl = c_result (tunn_step C n env (c_event call) t rl)"
  by (cases call)
    (simp_all add: wireguard_write_def wireguard_read_def wireguard_tick_def wireguard_force_handshake_def split: prod.split)

text \<open>The states of a tunnel that a caller made and calls with buffers of \<open>n\<close> bytes, as the clock goes on.\<close>

inductive c_reach :: "crypto \<Rightarrow> (string \<Rightarrow> bytes option) \<Rightarrow> nat \<Rightarrow> tunn \<Rightarrow> rate_limiter \<Rightarrow> duration \<Rightarrow> bool" for C B n where
  c_new: "wf_instant now \<Longrightarrow> new_tunnel C B ts now le priv pub psk keep_alive index = Some (Some (t, rl)) \<Longrightarrow> c_reach C B n t rl 0"
| c_call: "c_reach C B n t rl lo \<Longrightarrow> event_ok n (c_event call) \<Longrightarrow>
    lo \<le> duration_since (e_time env) (time_started (tn_timers t)) \<Longrightarrow>
    duration_since (e_time env) (time_started (tn_timers t)) \<le> duration_since (e_clear env) (time_started (tn_timers t)) \<Longrightarrow>
    c_step C n env call t rl = Some (res, t', rl') \<Longrightarrow>
    c_reach C B n t' rl' (duration_since (e_clear env) (time_started (tn_timers t)))"

lemma new_tunnel_makes:
  assumes "new_tunnel C B ts now le private_text public_text secret_text keep_alive index = Some (Some (t, rl))"
  obtains priv pub psk where "tunn_new C ts now le priv pub psk (if keep_alive = 0 then None else Some keep_alive) index None = (t, rl)"
    "key_from_str B private_text = Some (Inr priv)" "key_from_str B public_text = Some (Inr pub)"
proof -
  have "\<exists>priv pub psk. tunn_new C ts now le priv pub psk (if keep_alive = 0 then None else Some keep_alive) index None = (t, rl) \<and>
      key_from_str B private_text = Some (Inr priv) \<and> key_from_str B public_text = Some (Inr pub)"
    using assms by (auto simp: new_tunnel_def c_str_to_str_def split: option.splits bind_splits sum.splits if_splits)
  then show thesis using that by blast
qed

lemma c_reach_tunn: "c_reach C B n t rl lo \<Longrightarrow> tunn_reach C n t rl lo"
proof (induction rule: c_reach.induct)
  case (c_new now ts le priv pub psk keep_alive index t rl)
  from new_tunnel_makes [OF c_new(2)] show ?case using tunn_reach.reach_new [OF c_new(1)] by metis
next
  case (c_call t rl lo call env res t' rl')
  then obtain r where "tunn_step C n env (c_event call) t rl = Some (r, t', rl')" by (auto simp: c_step_tunn c_result_def)
  then show ?case using tunn_reach.reach_step c_call by blast
qed

section \<open>Results tell what happened\<close>

lemma result_written: "wr_size (wireguard_result_from r) = (case r of TErr e \<Rightarrow> wg_error_code e | _ \<Rightarrow> written r)"
  by (cases r) simp_all

lemma result_error: "wr_op (wireguard_result_from r) = WIREGUARD_ERROR \<longleftrightarrow> (\<exists>e. r = TErr e)"
  by (cases r) simp_all

text \<open>Two results that are told alike are of one kind, with the same error or messages of the same size.\<close>

lemma result_determines:
  "wireguard_result_from r = wireguard_result_from r' \<Longrightarrow>
    (\<forall>e. r = TErr e \<longleftrightarrow> r' = TErr e) \<and> written r = written r' \<and> (r = TDone \<longleftrightarrow> r' = TDone)"
proof -
  have "wg_error_code e = wg_error_code e' \<Longrightarrow> e = e'" for e e' by (rule antisym) (simp_all add: less_eq_wg_error_def)
  then show "wireguard_result_from r = wireguard_result_from r' \<Longrightarrow> ?thesis" by (cases r; cases r') auto
qed

fun to_tunnel :: "tunn_result \<Rightarrow> bool" where
  "to_tunnel (WriteToTunnelV4 b a) = True"
| "to_tunnel (WriteToTunnelV6 b a) = True"
| "to_tunnel _ = False"

lemma result_to_tunnel: "wr_op (wireguard_result_from r) \<in> {WRITE_TO_TUNNEL_IPV4, WRITE_TO_TUNNEL_IPV6} \<longleftrightarrow> to_tunnel r"
  by (cases r) simp_all

lemma only_reads_reach_interface:
  assumes "tunn_step C n env ev t rl = Some (r, t', rl')" and "\<And>a d. ev \<noteq> Decapsulate a d"
  shows "\<not> to_tunnel r"
proof -
  have f: "\<not> to_tunnel r" if "tunn_format_handshake_initiation C env n f t = (r, t')" for f t r t'
    using that by (auto simp: tunn_format_handshake_initiation_def Let_def split: if_splits sum.splits prod.splits)
  have e: "\<not> to_tunnel r" if "encapsulate C env src n t = Some (r, t')" for src t r t'
    using that by (auto simp: encapsulate_def Let_def split: option.splits bind_splits dest: f)
  have a: "\<not> to_tunnel r" if "timer_action C env n now t = Some (r, t')" for now t r t'
    using that by (auto simp: timer_action_def split: bind_splits if_splits option.splits dest: f e)
  show ?thesis
  proof (cases ev)
    case UpdateTimers
    then show ?thesis using assms(1) by (auto simp: update_timers_def Let_def split: bind_splits if_splits dest: a)
  qed (use assms e f in \<open>auto split: prod.splits bind_splits\<close>)
qed

text \<open>C12 A caller of the C interface is safe: in every state that calls on a tunnel made by \<open>new_tunnel\<close> reach, with buffers of at least 64 bytes that are large enough for the packet and a clock that does not run backwards, the next call returns; what it tells the caller to take from the buffer lies inside of the buffer, an error is told by one of the 17 codes, and only reading a datagram ever tells the caller to write to the interface.\<close>

theorem c_calls_stay_in_buffer:
  assumes "crypto_ok C" and "c_reach C B n t rl lo" and "64 \<le> n" and "event_ok n (c_event call)"
    and "lo \<le> duration_since (e_time env) (time_started (tn_timers t))"
    and "duration_since (e_time env) (time_started (tn_timers t)) \<le> duration_since (e_clear env) (time_started (tn_timers t))"
  shows "\<exists>res t' rl'. c_step C n env call t rl = Some (res, t', rl') \<and>
    (if wr_op res = WIREGUARD_ERROR then wr_size res < 17 else wr_size res \<le> n) \<and>
    (wr_op res \<in> {WRITE_TO_TUNNEL_IPV4, WRITE_TO_TUNNEL_IPV6} \<longrightarrow> (\<exists>src. call = C_Read src))"
proof -
  have reach: "tunn_reach C n t rl lo" by (rule c_reach_tunn [OF assms(2)])
  have "tunn_safe n t lo" using reach_safe [OF reach] assms(3) by simp
  then obtain r t' rl' where step: "tunn_step C n env (c_event call) t rl = Some (r, t', rl')"
    using safe_step_returns [OF assms(1,3) _ assms(4-6)] by blast
  have "written r \<le> n" by (rule step_size [OF assms(1) reach_keys [OF reach] step])
  moreover have "wg_error_code e < 17" for e by (cases e) simp_all
  moreover have "wr_op (wireguard_result_from r) \<in> {WRITE_TO_TUNNEL_IPV4, WRITE_TO_TUNNEL_IPV6} \<longrightarrow> (\<exists>src. call = C_Read src)"
    unfolding result_to_tunnel using only_reads_reach_interface [OF step] by (cases call) auto
  ultimately show ?thesis
    by (intro exI [of _ "wireguard_result_from r"] exI [of _ t'] exI [of _ rl'])
      (auto simp: c_step_tunn step c_result_def result_written result_error split: tunn_result.split)
qed

section \<open>Keys that were printed\<close>

lemma hex_c_string: "hex_ok H \<Longrightarrow> x25519_key_to_hex H key = Some (H key) \<and> c_str_to_str (H key) = Some (H key)"
proof -
  assume "hex_ok H"
  from plain_hex [OF this] have p: "list_all plain (H key)" .
  moreover have "\<not> plain (CHR 0x00)" by (simp add: plain_def is_digit_def to_digit_def)
  moreover have "utf8_valid (H key)" by (rule utf8_ascii) (use p plain_char in \<open>auto simp: list_all_iff\<close>)
  ultimately show ?thesis by (auto simp: x25519_key_to_hex_def c_string_def c_str_to_str_def list_all_iff)
qed

lemma printed_keys_make_tunnel:
  assumes "hex_ok H" and "length priv = 32" and "length pub = 32"
  shows "new_tunnel C B ts now le (H priv) (H pub) None keep_alive index =
    Some (Some (tunn_new C ts now le priv pub None (if keep_alive = 0 then None else Some keep_alive) index None))"
  by (simp add: new_tunnel_def hex_c_string [OF assms(1)] key_hex_round_trip [OF assms(1)] assms(2,3))

text \<open>A key that the check accepts and that has its padding makes a tunnel, but so does one of zeros, which the check refuses.\<close>

lemma checked_key_accepted:
  "check_base64_encoded_x25519_key B s = 1 \<Longrightarrow> length s = 44 \<Longrightarrow> \<exists>k. key_from_str B s = Some (Inr k) \<and> k \<noteq> replicate 32 0"
proof -
  assume c: "check_base64_encoded_x25519_key B s = 1" and l: "length s = 44"
  then obtain k where k: "B s = Some k" "length k = 32" "fold (\<lambda>b zero. zero OR b) k 0 \<noteq> 0"
    by (auto simp: check_base64_encoded_x25519_key_def c_str_to_str_def split: option.splits if_splits)
  have "fold (\<lambda>b zero. zero OR b) (replicate n 0) (0 :: u8) = 0" for n by (induction n) simp_all
  then show ?thesis using k l by (intro exI [of _ k]) (auto simp: key_from_str_def)
qed

theorem c_calls_stay_in_buffer_witness:
  "\<exists>t rl res t' rl'. new_tunnel toy_crypto (\<lambda>_. None) (stamper_new 5 epoch) epoch ([1], [8], epoch, epoch)
      (toy_hex (replicate 32 1)) (toy_hex (replicate 32 2)) None 25 3 = Some (Some (t, rl)) \<and>
    c_step toy_crypto 200 (toy_env epoch) (C_Write [69, 0]) t rl = Some (res, t', rl') \<and>
    (if wr_op res = WIREGUARD_ERROR then wr_size res < 17 else wr_size res \<le> 200) \<and>
    (wr_op res \<in> {WRITE_TO_TUNNEL_IPV4, WRITE_TO_TUNNEL_IPV6} \<longrightarrow> (\<exists>src. C_Write [69, 0] = C_Read src))"
proof -
  obtain t rl where new: "new_tunnel toy_crypto (\<lambda>_. None) (stamper_new 5 epoch) epoch ([1], [8], epoch, epoch)
      (toy_hex (replicate 32 1)) (toy_hex (replicate 32 2)) None 25 3 = Some (Some (t, rl))"
    and t: "t = fst (tunn_new toy_crypto (stamper_new 5 epoch) epoch ([1], [8], epoch, epoch) (replicate 32 1) (replicate 32 2) None (Some 25) 3 None)"
    by (simp add: printed_keys_make_tunnel [OF toy_hex_ok] tunn_new_def Let_def)
  have start: "time_started (tn_timers t) = epoch" by (simp add: t tunn_new_def timers_new_def Let_def)
  have reach: "c_reach toy_crypto (\<lambda>_. None) 200 t rl 0"
    by (rule c_new [OF _ new]) (simp add: epoch_def wf_instant_def NANOSECOND_def)
  from c_calls_stay_in_buffer [OF toy_crypto_ok reach, of "C_Write [69, 0]" "toy_env epoch"] new show ?thesis
    by (intro exI [of _ t] exI [of _ rl]) (simp add: toy_env_def start)
qed

end
