(* ===== verification/Event_Kqueue.thy ===== *)
theory Event_Kqueue
  imports Event_Poll Instants
begin

text \<open>
  The registry of pollable events on systems with kqueue (src/nekolink-core/src/device/kqueue.rs): one
  table for descriptors, one for timers and notifiers, which get negative names, and one for signals.
  The kernel's side is the set \<open>kq_watched\<close> of the names and filters it watches; an event is known to
  it by these two, so that adding one again changes it and deleting it deletes the only one.
  Whether the kernel takes an event is the argument \<open>os_add\<close>.
\<close>

datatype event_kind = Kind_FD | Kind_Notifier | Kind_Signal | Kind_Timer

datatype kevent_filter = EVFILT_READ | EVFILT_USER | EVFILT_SIGNAL | EVFILT_TIMER

record 'h kevent =
  ke_ident :: int
  ke_filter :: kevent_filter
  ke_dispatch :: bool
  ke_handler :: 'h
  ke_kind :: event_kind

record 'h kqueue =
  kq_events :: "'h kevent option list"
  kq_custom :: "'h kevent option list"
  kq_signals :: "'h kevent option list"
  kq_watched :: "(int \<times> kevent_filter) set"
  kq_ignored :: "int set"

definition kqueue_new :: "'h kqueue" where
  "kqueue_new = \<lparr>kq_events = [], kq_custom = [], kq_signals = [], kq_watched = {}, kq_ignored = {}\<rparr>"

section \<open>Tables of slots\<close>

definition slot_get :: "'a option list \<Rightarrow> nat \<Rightarrow> 'a option" where
  "slot_get xs i = (if i < length xs then xs ! i else None)"

definition slot_put :: "nat \<Rightarrow> 'a \<Rightarrow> 'a option list \<Rightarrow> 'a option list" where
  "slot_put i v xs = (xs @ replicate (Suc i - length xs) None)[i := Some v]"

definition slot_del :: "nat \<Rightarrow> 'a option list \<Rightarrow> 'a option list" where
  "slot_del i xs = xs[i := None]"

interpretation slot: slots slot_get slot_put slot_del
  by unfold_locales (auto simp: slot_get_def slot_put_def slot_del_def nth_append nth_list_update)

section \<open>Registration\<close>

definition table_of :: "event_kind \<Rightarrow> 'h kqueue \<Rightarrow> 'h kevent option list" where
  "table_of k q = (case k of Kind_FD \<Rightarrow> kq_events q | Kind_Signal \<Rightarrow> kq_signals q | _ \<Rightarrow> kq_custom q)"

definition set_table :: "event_kind \<Rightarrow> 'h kevent option list \<Rightarrow> 'h kqueue \<Rightarrow> 'h kqueue" where
  "set_table k xs q =
    (case k of Kind_FD \<Rightarrow> q\<lparr>kq_events := xs\<rparr> | Kind_Signal \<Rightarrow> q\<lparr>kq_signals := xs\<rparr> | _ \<Rightarrow> q\<lparr>kq_custom := xs\<rparr>)"

text \<open>
  The event is added, then one that was in its place is deleted, and then it takes this place. The
  table is extended also where the kernel refuses the event.
\<close>

definition kq_register :: "(int \<Rightarrow> kevent_filter \<Rightarrow> bool) \<Rightarrow> 'h kevent \<Rightarrow> 'h kqueue \<Rightarrow> int option \<times> 'h kqueue" where
  "kq_register os_add ev q =
    (let events = table_of (ke_kind ev) q;
         (trigger, index) =
           (if ke_kind ev = Kind_FD \<or> ke_kind ev = Kind_Signal then (ke_ident ev, nat (ke_ident ev))
            else (- int (length events) - 1, length events));
         events = events @ replicate (Suc index - length events) None;
         ev = ev\<lparr>ke_ident := trigger\<rparr>
     in if \<not> os_add trigger (ke_filter ev) then (None, set_table (ke_kind ev) events q)
        else
          (let watched = insert (trigger, ke_filter ev) (kq_watched q);
               watched = (case events ! index of Some old \<Rightarrow> watched - {(ke_ident old, ke_filter old)} | None \<Rightarrow> watched);
               q = (if ke_kind ev = Kind_Signal then q\<lparr>kq_ignored := insert trigger (kq_ignored q)\<rparr> else q)
           in (Some trigger, (set_table (ke_kind ev) (events[index := Some ev]) q)\<lparr>kq_watched := watched\<rparr>)))"

definition kq_new_event :: "(int \<Rightarrow> kevent_filter \<Rightarrow> bool) \<Rightarrow> nat \<Rightarrow> 'h \<Rightarrow> 'h kqueue \<Rightarrow> int option \<times> 'h kqueue" where
  "kq_new_event os_add trigger handler q =
    kq_register os_add \<lparr>ke_ident = int trigger, ke_filter = EVFILT_READ, ke_dispatch = True, ke_handler = handler, ke_kind = Kind_FD\<rparr> q"

text \<open>The period in nanoseconds must fit into 64 bits, or the program panics.\<close>

definition kq_new_periodic_event ::
    "(int \<Rightarrow> kevent_filter \<Rightarrow> bool) \<Rightarrow> 'h \<Rightarrow> duration \<Rightarrow> 'h kqueue \<Rightarrow> (int option \<times> 'h kqueue) option" where
  "kq_new_periodic_event os_add handler period q =
    (if period \<ge> 2 ^ 64 then None
     else Some (kq_register os_add
       \<lparr>ke_ident = 0, ke_filter = EVFILT_TIMER, ke_dispatch = True, ke_handler = handler, ke_kind = Kind_Timer\<rparr> q))"

definition kq_new_notifier :: "(int \<Rightarrow> kevent_filter \<Rightarrow> bool) \<Rightarrow> 'h \<Rightarrow> 'h kqueue \<Rightarrow> int option \<times> 'h kqueue" where
  "kq_new_notifier os_add handler q =
    kq_register os_add \<lparr>ke_ident = 0, ke_filter = EVFILT_USER, ke_dispatch = False, ke_handler = handler, ke_kind = Kind_Notifier\<rparr> q"

definition kq_new_signal_event :: "(int \<Rightarrow> kevent_filter \<Rightarrow> bool) \<Rightarrow> nat \<Rightarrow> 'h \<Rightarrow> 'h kqueue \<Rightarrow> int option \<times> 'h kqueue" where
  "kq_new_signal_event os_add signal handler q =
    kq_register os_add \<lparr>ke_ident = int signal, ke_filter = EVFILT_SIGNAL, ke_dispatch = True, ke_handler = handler, ke_kind = Kind_Signal\<rparr> q"

section \<open>Notifications and removal\<close>

text \<open>Both find the notifier among the other events; anything else there, or nothing, is a panic.\<close>

definition kq_notification :: "int \<Rightarrow> 'h kqueue \<Rightarrow> int option" where
  "kq_notification trigger q =
    (let ev_index = - trigger - 1
     in if 0 \<le> ev_index \<and> nat ev_index < length (kq_custom q) then
          (case kq_custom q ! nat ev_index of
             None \<Rightarrow> None
           | Some ev \<Rightarrow> if ke_kind ev = Kind_Notifier then Some (ke_ident ev) else None)
        else None)"

definition kq_clear_event_by_fd :: "int \<Rightarrow> 'h kqueue \<Rightarrow> 'h kqueue option" where
  "kq_clear_event_by_fd index q =
    (let (kind, i) = (if index \<ge> 0 then (Kind_FD, nat index) else (Kind_Timer, nat (- index - 1)));
         events = table_of kind q
     in if i \<ge> length events then None
        else Some (case events ! i of
               None \<Rightarrow> q
             | Some ev \<Rightarrow> (set_table kind (events[i := None]) q)\<lparr>kq_watched := kq_watched q - {(ke_ident ev, ke_filter ev)}\<rparr>))"

definition kq_guard_cancel :: "'h kevent \<Rightarrow> 'h kqueue \<Rightarrow> 'h kqueue option" where
  "kq_guard_cancel ev q = kq_clear_event_by_fd (ke_ident ev) q"

section \<open>The registry as a table\<close>

text \<open>Descriptors under their numbers, the other events under negative ones.\<close>

definition kq_get :: "'h kqueue \<Rightarrow> int \<Rightarrow> 'h kevent option" where
  "kq_get q i = (if i \<ge> 0 then slot_get (kq_events q) (nat i) else slot_get (kq_custom q) (nat (- i - 1)))"

definition kq_put :: "int \<Rightarrow> 'h kevent \<Rightarrow> 'h kqueue \<Rightarrow> 'h kqueue" where
  "kq_put i ev q =
    (if i \<ge> 0 then q\<lparr>kq_events := slot_put (nat i) ev (kq_events q)\<rparr>
     else q\<lparr>kq_custom := slot_put (nat (- i - 1)) ev (kq_custom q)\<rparr>)"

definition kq_clear :: "int \<Rightarrow> 'h kqueue \<Rightarrow> 'h kqueue" where
  "kq_clear i q = (case kq_clear_event_by_fd i q of Some q' \<Rightarrow> q' | None \<Rightarrow> q)"

lemma slot_del_absent: "slot_get xs i = None \<Longrightarrow> slot_del i xs = xs"
  by (cases "i < length xs") (auto simp: slot_get_def slot_del_def list_update_beyond intro: list_update_same_conv [THEN iffD2])

lemma clear_tables:
  "kq_events (kq_clear k q) = (if k \<ge> 0 then slot_del (nat k) (kq_events q) else kq_events q)"
  "kq_custom (kq_clear k q) = (if k \<ge> 0 then kq_custom q else slot_del (nat (- k - 1)) (kq_custom q))"
proof -
  show "kq_events (kq_clear k q) = (if k \<ge> 0 then slot_del (nat k) (kq_events q) else kq_events q)"
    using slot_del_absent [of "kq_events q" "nat k"]
    by (auto simp: kq_clear_def kq_clear_event_by_fd_def table_of_def set_table_def Let_def slot_get_def slot_del_def split: option.split)
  show "kq_custom (kq_clear k q) = (if k \<ge> 0 then kq_custom q else slot_del (nat (- k - 1)) (kq_custom q))"
    using slot_del_absent [of "kq_custom q" "nat (- k - 1)"]
    by (auto simp: kq_clear_def kq_clear_event_by_fd_def table_of_def set_table_def Let_def slot_get_def slot_del_def split: option.split)
qed

interpretation kregistry: slots kq_get kq_put kq_clear
proof
  show "kq_get (kq_put k v s) j = (if j = k then Some v else kq_get s j)" for k v j and s :: "'h kqueue"
    by (auto simp: kq_get_def kq_put_def slot.get_put)
  show "kq_get (kq_clear k s) j = (if j = k then None else kq_get s j)" for k j and s :: "'h kqueue"
    by (auto simp: kq_get_def clear_tables slot.get_del)
qed

text \<open>Every event is known to the kernel by the name of its place, and a descriptor by the filter of reading.\<close>

definition kq_ok :: "'h kqueue \<Rightarrow> bool" where
  "kq_ok q \<longleftrightarrow>
    (\<forall>i ev. slot_get (kq_events q) i = Some ev \<longrightarrow> ke_ident ev = int i \<and> ke_filter ev = EVFILT_READ) \<and>
    (\<forall>i ev. slot_get (kq_custom q) i = Some ev \<longrightarrow> ke_ident ev = - int i - 1)"

lemma register_fd:
  assumes "os_add (int fd) EVFILT_READ"
    and "ev = \<lparr>ke_ident = int fd, ke_filter = EVFILT_READ, ke_dispatch = True, ke_handler = h, ke_kind = Kind_FD\<rparr>"
  shows "kq_new_event os_add fd h q =
    (Some (int fd), q\<lparr>kq_events := slot_put fd ev (kq_events q),
      kq_watched := insert (int fd, EVFILT_READ) (kq_watched q) -
        (case slot_get (kq_events q) fd of Some old \<Rightarrow> {(ke_ident old, ke_filter old)} | None \<Rightarrow> {})\<rparr>)"
  using assms(1)
  by (auto simp: kq_new_event_def kq_register_def table_of_def set_table_def slot_put_def slot_get_def assms(2) Let_def nth_append
      split: option.split)

lemma register_refused: "\<not> os_add (int fd) EVFILT_READ \<Longrightarrow>
    \<exists>n. kq_new_event os_add fd h q = (None, q\<lparr>kq_events := kq_events q @ replicate n None\<rparr>)"
  by (auto simp: kq_new_event_def kq_register_def table_of_def set_table_def Let_def)

lemma register_custom:
  assumes "kind = Kind_Timer \<or> kind = Kind_Notifier" and "t = - int (length (kq_custom q)) - 1" and "os_add t f"
  shows "kq_register os_add \<lparr>ke_ident = 0, ke_filter = f, ke_dispatch = b, ke_handler = h, ke_kind = kind\<rparr> q =
    (Some t, q\<lparr>kq_custom := kq_custom q @ [Some \<lparr>ke_ident = t, ke_filter = f, ke_dispatch = b, ke_handler = h, ke_kind = kind\<rparr>],
      kq_watched := insert (t, f) (kq_watched q)\<rparr>)"
  using assms by (auto simp: kq_register_def table_of_def set_table_def Let_def)

lemma slot_get_grown: "slot_get (xs @ replicate n None) i = slot_get xs i" "slot_get (xs @ [v]) i = (if i = length xs then v else slot_get xs i)"
  by (auto simp: slot_get_def nth_append)

lemma kq_ok_new_event: "kq_ok q \<Longrightarrow> kq_ok (snd (kq_new_event os_add fd h q))"
proof (cases "os_add (int fd) EVFILT_READ")
  case True
  assume "kq_ok q"
  then show ?thesis by (auto simp: register_fd [where os_add = os_add and fd = fd, OF True refl] kq_ok_def slot.get_put)
next
  case False
  assume "kq_ok q"
  then show ?thesis using register_refused [where os_add = os_add and fd = fd and h = h and q = q, OF False] by (auto simp: kq_ok_def slot_get_grown)
qed

lemma kq_ok_custom:
  assumes "kq_ok q" and "kind = Kind_Timer \<or> kind = Kind_Notifier"
  shows "kq_ok (snd (kq_register os_add \<lparr>ke_ident = 0, ke_filter = f, ke_dispatch = b, ke_handler = h, ke_kind = kind\<rparr> q))"
proof (cases "os_add (- int (length (kq_custom q)) - 1) f")
  case True
  then show ?thesis using assms(1) by (auto simp: register_custom [where os_add = os_add and f = f and kind = kind, OF assms(2) refl True] kq_ok_def slot_get_grown split: if_splits)
next
  case False
  then show ?thesis using assms slot_get_grown(1) [of "kq_custom q" 1]
    by (auto simp: kq_register_def table_of_def set_table_def Let_def kq_ok_def)
qed

lemma kq_ok_clear: "kq_ok q \<Longrightarrow> kq_ok (kq_clear k q)"
  by (auto simp: kq_ok_def clear_tables slot.get_del)

text \<open>What the program does with its registry before the events run.\<close>

inductive kq_reach :: "'h kqueue \<Rightarrow> bool" where
  kq_start: "kq_reach kqueue_new"
| kq_fd: "kq_reach q \<Longrightarrow> kq_reach (snd (kq_new_event os_add fd h q))"
| kq_notifier: "kq_reach q \<Longrightarrow> kq_reach (snd (kq_new_notifier os_add h q))"
| kq_periodic: "kq_reach q \<Longrightarrow> kq_new_periodic_event os_add h period q = Some (t, q') \<Longrightarrow> kq_reach q'"
| kq_cleared: "kq_reach q \<Longrightarrow> kq_clear_event_by_fd i q = Some q' \<Longrightarrow> kq_reach q'"

lemma reach_kq_ok: "kq_reach q \<Longrightarrow> kq_ok q"
proof (induction rule: kq_reach.induct)
  case kq_start
  show ?case by (simp add: kq_ok_def kqueue_new_def slot_get_def)
next
  case (kq_notifier q os_add h)
  then show ?case by (simp add: kq_new_notifier_def kq_ok_custom)
next
  case (kq_periodic q os_add h period t q')
  then show ?case
    using kq_ok_custom [of q Kind_Timer os_add EVFILT_TIMER True h] by (simp add: kq_new_periodic_event_def split: if_splits)
next
  case (kq_cleared q i q')
  then show ?case using kq_ok_clear [of q i] by (simp add: kq_clear_def)
qed (rule kq_ok_new_event)

text \<open>Registering a descriptor again: the comment of both registries says that the last event overrides the others. With epoll it does: the table holds the new handler and the kernel watches the descriptor. With kqueue the table holds it as well, but deleting the former event after the new one was added deletes the new one, as both have the same name and filter, so that the kernel no longer watches the descriptor and the handler is never called.\<close>

theorem kqueue_loses_reregistered:
  assumes "kq_reach q" and "kq_get q (int fd) \<noteq> None" and "os_add (int fd) EVFILT_READ"
    and "kq_new_event os_add fd h q = (r, q')"
    and "poll_get p fd \<noteq> None" and "os_add' fd" and "new_event os_add' fd h p = (r', p')"
  shows "r = Some (int fd) \<and> map_option ke_handler (kq_get q' (int fd)) = Some h \<and> (int fd, EVFILT_READ) \<notin> kq_watched q' \<and>
    r' = Some fd \<and> map_option ev_handler (poll_get p' fd) = Some h \<and> fd \<in> set (pl_interest p')"
proof -
  obtain old where old: "kq_get q (int fd) = Some old" using assms(2) by blast
  then have slot: "slot_get (kq_events q) fd = Some old" by (simp add: kq_get_def)
  moreover have "ke_ident old = int fd" "ke_filter old = EVFILT_READ" using slot reach_kq_ok [OF assms(1)] by (simp_all add: kq_ok_def)
  ultimately have "r = Some (int fd)" "map_option ke_handler (kq_get q' (int fd)) = Some h" "(int fd, EVFILT_READ) \<notin> kq_watched q'"
    using assms(4) by (auto simp: register_fd [where os_add = os_add and fd = fd, OF assms(3) refl] kq_get_def slot.get_put)
  moreover have "r' = Some fd" "map_option ev_handler (poll_get p' fd) = Some h" "fd \<in> set (pl_interest p')"
    using assms(6,7) get_register [OF assms(7) [unfolded new_event_def], of fd] by (auto simp: new_event_def register_event_def Let_def)
  ultimately show ?thesis by simp
qed

text \<open>Cancelling a signal by its guard clears the descriptor that has the number of the signal.\<close>

lemma signal_cancel_hits_descriptor:
  assumes "kq_get q (int sig) = Some ev" and "kq_guard_cancel ev' q = Some q'" and "ke_ident ev' = int sig"
  shows "kq_get q' (int sig) = None \<and> kq_signals q' = kq_signals q"
proof -
  have "q' = kq_clear (int sig) q" using assms(2,3) by (simp add: kq_clear_def kq_guard_cancel_def)
  moreover have "kq_signals q' = kq_signals q" using assms(2,3)
    by (auto simp: kq_guard_cancel_def kq_clear_event_by_fd_def set_table_def Let_def split: if_splits option.splits)
  ultimately show ?thesis by (simp add: kregistry.get_del)
qed

theorem kqueue_loses_reregistered_witness:
  "\<exists>q q' r p p' r'. kq_reach q \<and> kq_get q 7 \<noteq> None \<and> kq_new_event (\<lambda>_ _. True) 7 ''b'' q = (r, q') \<and>
    new_event (\<lambda>_. True) 7 ''b'' p = (r', p') \<and>
    r = Some 7 \<and> map_option ke_handler (kq_get q' 7) = Some ''b'' \<and> (7, EVFILT_READ) \<notin> kq_watched q' \<and>
    r' = Some 7 \<and> map_option ev_handler (poll_get p' 7) = Some ''b'' \<and> 7 \<in> set (pl_interest p')"
proof -
  obtain q where q: "q = snd (kq_new_event (\<lambda>_ _. True) 7 ''a'' kqueue_new)" by blast
  have reach: "kq_reach q" unfolding q by (intro kq_fd kq_start)
  have some: "kq_get q (int 7) \<noteq> None"
    using register_fd [of "\<lambda>_ _. True" 7 _ "''a''" kqueue_new] by (simp add: q kq_get_def slot.get_put)
  obtain p r0 where p: "new_event (\<lambda>_. True) 7 ''a'' poll_new = (r0, p)" by fastforce
  then have some': "poll_get p 7 \<noteq> None" using get_register [of "\<lambda>_. True" _ poll_new r0 p 7] by (auto simp: new_event_def)
  obtain q' r where q': "kq_new_event (\<lambda>_ _. True) 7 ''b'' q = (r, q')" by fastforce
  obtain p' r' where p': "new_event (\<lambda>_. True) 7 ''b'' p = (r', p')" by fastforce
  from kqueue_loses_reregistered [OF reach some _ q' some' _ p'] reach some q' p' show ?thesis
    by (intro exI [of _ q] exI [of _ q'] exI [of _ r] exI [of _ p] exI [of _ p'] exI [of _ r']) simp
qed

end
