(* ===== verification/Event_Wait.thy ===== *)
theory Event_Wait
  imports Event_Poll
begin

text \<open>
  Waiting for events (\<open>wait\<close>, \<open>EventGuard\<close> and its \<open>drop\<close> in src/nekolink-core/src/device/epoll.rs) by any number of
  threads. The kernel's side is the registry of \<open>Event_Poll\<close> with the descriptors that are armed: an
  event with \<open>EPOLLONESHOT\<close> is disarmed when it is delivered and armed again by \<open>EPOLL_CTL_MOD\<close>. Which
  descriptor is ready is the argument of a step, as is whether its other end hung up.
\<close>

section \<open>Steps\<close>

record 'h event_queue =
  eq_poll :: "'h event_poll"
  eq_armed :: "nat list"
  eq_guards :: "(nat \<times> 'h event) list"

datatype 'h wait_result =
    Wait_Ok "'h event"
  | Wait_EoF "'h event"

definition queue_new :: "'h event_queue" where
  "queue_new = \<lparr>eq_poll = poll_new, eq_armed = [], eq_guards = []\<rparr>"

text \<open>One of the four ways to make an event, after the kernel gave \<open>fd\<close>.\<close>

datatype event_factory = Make_Event | Make_Periodic | Make_Notifier | Make_Signal

fun make_event :: "event_factory \<Rightarrow> (nat \<Rightarrow> bool) \<Rightarrow> nat \<Rightarrow> 'h \<Rightarrow> 'h event_poll \<Rightarrow> nat option \<times> 'h event_poll" where
  "make_event Make_Event os_add fd h p = new_event os_add fd h p"
| "make_event Make_Periodic os_add fd h p = new_periodic_event os_add (Some fd) h p"
| "make_event Make_Notifier os_add fd h p = new_notifier os_add (Some fd) h p"
| "make_event Make_Signal os_add fd h p = new_signal_event os_add (Some fd) h p"

definition queue_register :: "event_factory \<Rightarrow> (nat \<Rightarrow> bool) \<Rightarrow> nat \<Rightarrow> 'h \<Rightarrow> 'h event_queue \<Rightarrow> nat option \<times> 'h event_queue" where
  "queue_register kind os_add fd h s =
    (let (r, p) = make_event kind os_add fd h (eq_poll s);
         armed = removeAll fd (eq_armed s)
     in (r, s\<lparr>eq_poll := p, eq_armed := if r = None then armed else fd # armed\<rparr>))"

text \<open>A thread without a guard waits and is given the event of a descriptor that is ready and armed.\<close>

definition queue_wait :: "nat \<Rightarrow> nat \<Rightarrow> bool \<Rightarrow> 'h event_queue \<Rightarrow> ('h wait_result \<times> 'h event_queue) option" where
  "queue_wait t fd hup s =
    (if t \<in> fst ` set (eq_guards s) \<or> fd \<notin> set (eq_armed s) then None
     else do {
       ev \<leftarrow> poll_get (eq_poll s) fd;
       Some (if hup then Wait_EoF ev else Wait_Ok ev,
         s\<lparr>eq_armed := if ev_oneshot ev then removeAll fd (eq_armed s) else eq_armed s, eq_guards := (t, ev) # eq_guards s\<rparr>)
     })"

text \<open>
  The guard is dropped: what \<open>needs_read\<close> reads is of no concern here, and the event is armed again if
  the kernel still watches its descriptor.
\<close>

definition queue_drop :: "nat \<Rightarrow> 'h event_queue \<Rightarrow> 'h event_queue option" where
  "queue_drop t s =
    do {
      ev \<leftarrow> map_of (eq_guards s) t;
      let armed = removeAll (ev_fd ev) (eq_armed s);
      Some (s\<lparr>eq_armed := if ev_fd ev \<in> set (pl_interest (eq_poll s)) then ev_fd ev # armed else armed,
        eq_guards := filter (\<lambda>(u, _). u \<noteq> t) (eq_guards s)\<rparr>)
    }"

text \<open>Or its event is removed, and the guard forgotten.\<close>

definition queue_cancel :: "nat \<Rightarrow> 'h event_queue \<Rightarrow> 'h event_queue option" where
  "queue_cancel t s =
    do {
      ev \<leftarrow> map_of (eq_guards s) t;
      p \<leftarrow> guard_cancel ev (eq_poll s);
      Some (s\<lparr>eq_poll := p, eq_armed := removeAll (ev_fd ev) (eq_armed s), eq_guards := filter (\<lambda>(u, _). u \<noteq> t) (eq_guards s)\<rparr>)
    }"

definition queue_clear :: "nat \<Rightarrow> 'h event_queue \<Rightarrow> 'h event_queue option" where
  "queue_clear fd s =
    map_option (\<lambda>p. s\<lparr>eq_poll := p, eq_armed := removeAll fd (eq_armed s)\<rparr>) (clear_event_by_fd fd (eq_poll s))"

text \<open>
  What threads may do in any order. As the comments of the source ask, a descriptor is registered and
  cleared only while no thread has a guard of an event under it, and an event is cancelled only by
  the one thread that has a guard of it.
\<close>

definition unguarded :: "nat \<Rightarrow> 'h event_queue \<Rightarrow> bool" where
  "unguarded fd s \<longleftrightarrow> list_all (\<lambda>(_, ev). ev_fd ev \<noteq> fd) (eq_guards s)"

inductive queue_reach :: "'h event_queue \<Rightarrow> bool" where
  queue_starts: "queue_reach queue_new"
| queue_registers: "queue_reach s \<Longrightarrow> unguarded fd s \<Longrightarrow> queue_register kind os_add fd h s = (r, s') \<Longrightarrow> queue_reach s'"
| queue_waits: "queue_reach s \<Longrightarrow> queue_wait t fd hup s = Some (w, s') \<Longrightarrow> queue_reach s'"
| queue_drops: "queue_reach s \<Longrightarrow> queue_drop t s = Some s' \<Longrightarrow> queue_reach s'"
| queue_cancels: "queue_reach s \<Longrightarrow> map_of (eq_guards s) t = Some ev \<Longrightarrow> ev_oneshot ev \<Longrightarrow> queue_cancel t s = Some s' \<Longrightarrow>
    queue_reach s'"
| queue_clears: "queue_reach s \<Longrightarrow> unguarded fd s \<Longrightarrow> queue_clear fd s = Some s' \<Longrightarrow> queue_reach s'"

section \<open>The invariant\<close>

text \<open>The kernel watches only what is in the table, under its own descriptor.\<close>

definition poll_inv :: "'h event_poll \<Rightarrow> bool" where
  "poll_inv p \<longleftrightarrow>
    (\<forall>fd ev. poll_get p fd = Some ev \<longrightarrow> ev_fd ev = fd) \<and> (\<forall>fd\<in>set (pl_interest p). poll_get p fd \<noteq> None)"

definition queue_inv :: "'h event_queue \<Rightarrow> bool" where
  "queue_inv s \<longleftrightarrow>
    poll_inv (eq_poll s) \<and> distinct (map fst (eq_guards s)) \<and> set (eq_armed s) \<subseteq> set (pl_interest (eq_poll s)) \<and>
    (\<forall>t ev. (t, ev) \<in> set (eq_guards s) \<longrightarrow> poll_get (eq_poll s) (ev_fd ev) = Some ev) \<and>
    (\<forall>t ev. (t, ev) \<in> set (eq_guards s) \<longrightarrow> ev_oneshot ev \<longrightarrow>
      ev_fd ev \<notin> set (eq_armed s) \<and> (\<forall>u. (u, ev) \<in> set (eq_guards s) \<longrightarrow> u = t)) \<and>
    (\<forall>fd ev. poll_get (eq_poll s) fd = Some ev \<longrightarrow> fd \<in> set (pl_interest (eq_poll s)) \<longrightarrow>
      fd \<in> set (eq_armed s) \<or> (ev_oneshot ev \<and> (\<exists>t. (t, ev) \<in> set (eq_guards s))))"

lemma queue_invD:
  assumes "queue_inv s"
  shows "poll_inv (eq_poll s)" and "distinct (map fst (eq_guards s))" and "set (eq_armed s) \<subseteq> set (pl_interest (eq_poll s))"
    and "(t, ev) \<in> set (eq_guards s) \<Longrightarrow> poll_get (eq_poll s) (ev_fd ev) = Some ev"
    and "(t, ev) \<in> set (eq_guards s) \<Longrightarrow> ev_oneshot ev \<Longrightarrow> ev_fd ev \<notin> set (eq_armed s)"
    and "(t, ev) \<in> set (eq_guards s) \<Longrightarrow> (u, ev) \<in> set (eq_guards s) \<Longrightarrow> ev_oneshot ev \<Longrightarrow> u = t"
    and "poll_get (eq_poll s) fd = Some ev \<Longrightarrow> fd \<in> set (pl_interest (eq_poll s)) \<Longrightarrow> fd \<notin> set (eq_armed s) \<Longrightarrow>
      ev_oneshot ev \<and> (\<exists>t. (t, ev) \<in> set (eq_guards s))"
  using assms unfolding queue_inv_def by blast+

lemma queue_invI:
  assumes "poll_inv (eq_poll s)" and "distinct (map fst (eq_guards s))" and "set (eq_armed s) \<subseteq> set (pl_interest (eq_poll s))"
    and "\<And>t ev. (t, ev) \<in> set (eq_guards s) \<Longrightarrow> poll_get (eq_poll s) (ev_fd ev) = Some ev"
    and "\<And>t ev. (t, ev) \<in> set (eq_guards s) \<Longrightarrow> ev_oneshot ev \<Longrightarrow> ev_fd ev \<notin> set (eq_armed s)"
    and "\<And>t u ev. (t, ev) \<in> set (eq_guards s) \<Longrightarrow> (u, ev) \<in> set (eq_guards s) \<Longrightarrow> ev_oneshot ev \<Longrightarrow> u = t"
    and "\<And>fd ev. poll_get (eq_poll s) fd = Some ev \<Longrightarrow> fd \<in> set (pl_interest (eq_poll s)) \<Longrightarrow> fd \<notin> set (eq_armed s) \<Longrightarrow>
      ev_oneshot ev \<and> (\<exists>t. (t, ev) \<in> set (eq_guards s))"
  shows "queue_inv s"
  using assms unfolding queue_inv_def by blast

lemma queue_inv_new: "queue_inv queue_new"
  by (simp add: queue_inv_def poll_inv_def queue_new_def poll_new_def poll_get_def)

lemma make_event_registers:
  "\<exists>ev. ev_fd ev = fd \<and> (ev_oneshot ev \<longleftrightarrow> \<not> ev_notifier ev) \<and>
    make_event kind os_add fd h p = register_event os_add ev p"
  by (intro exI [of _ "\<lparr>ev_fd = fd, ev_handler = h, ev_oneshot = (kind \<noteq> Make_Notifier), ev_notifier = (kind = Make_Notifier),
      ev_needs_read = (kind = Make_Periodic \<or> kind = Make_Signal)\<rparr>"])
    (cases kind; simp add: new_event_def new_periodic_event_def new_notifier_def new_signal_event_def)

lemma unguardedD: "unguarded fd s \<Longrightarrow> (t, ev) \<in> set (eq_guards s) \<Longrightarrow> ev_fd ev \<noteq> fd"
  by (auto simp: unguarded_def list_all_iff)

lemma register_interest:
  assumes "poll_inv p" and "register_event os_add ev p = (r, p')"
  shows "set (pl_interest p') = (if r = None then set (pl_interest p) - {ev_fd ev} else insert (ev_fd ev) (set (pl_interest p)))"
proof -
  have "poll_get p (ev_fd ev) = None \<Longrightarrow> ev_fd ev \<notin> set (pl_interest p)" using assms(1) by (auto simp: poll_inv_def)
  moreover have "set (pl_interest (insert_at (ev_fd ev) ev p)) =
      (if poll_get p (ev_fd ev) = None then set (pl_interest p) else set (pl_interest p) - {ev_fd ev})"
    by (simp add: insert_at_def ctl_del_def Let_def poll_get_def nth_append)
  ultimately have del: "set (pl_interest (insert_at (ev_fd ev) ev p)) = set (pl_interest p) - {ev_fd ev}" by simp
  show ?thesis
  proof (cases "os_add (ev_fd ev)")
    case True
    then have "r = Some (ev_fd ev)" "p' = (insert_at (ev_fd ev) ev p)\<lparr>pl_interest := ev_fd ev # pl_interest (insert_at (ev_fd ev) ev p)\<rparr>"
      using assms(2) by (simp_all add: register_event_def Let_def)
    then show ?thesis using del by simp
  next
    case False
    then have "r = None" "p' = insert_at (ev_fd ev) ev p" using assms(2) by (simp_all add: register_event_def Let_def)
    then show ?thesis using del by simp
  qed
qed

lemma clear_interest:
  assumes "poll_inv p" and "clear_event_by_fd fd p = Some p'"
  shows "set (pl_interest p') = set (pl_interest p) - {fd}"
  using assms by (auto simp: clear_event_by_fd_def ctl_del_def poll_inv_def poll_get_def split: if_splits)

lemma queue_inv_register:
  assumes inv: "queue_inv s" and free: "unguarded fd s" and "queue_register kind os_add fd h s = (r, s')"
  shows "queue_inv s'"
proof -
  obtain ev where ev: "ev_fd ev = fd" "make_event kind os_add fd h (eq_poll s) = register_event os_add ev (eq_poll s)"
    using make_event_registers [of fd kind os_add h "eq_poll s"] by blast
  obtain p where p: "register_event os_add ev (eq_poll s) = (r, p)"
    and s': "s' = s\<lparr>eq_poll := p, eq_armed := if r = None then removeAll fd (eq_armed s) else fd # removeAll fd (eq_armed s)\<rparr>"
    using assms(3) by (auto simp: queue_register_def ev(2) Let_def split: prod.splits)
  note get = get_register [OF p, unfolded ev(1)] and int = register_interest [OF queue_invD(1) [OF inv] p, unfolded ev(1)]
  note i = queue_invD [OF inv] and other = unguardedD [OF free]
  have "poll_inv p" using i(1) by (auto simp: poll_inv_def get int ev(1) split: if_splits)
  then show ?thesis
    unfolding queue_inv_def s' using i(2-7) other
    by (auto simp: get int split: if_splits dest: other)
qed

lemma queue_inv_clear:
  assumes inv: "queue_inv s" and free: "unguarded fd s" and "queue_clear fd s = Some s'"
  shows "queue_inv s'"
proof -
  obtain p where p: "clear_event_by_fd fd (eq_poll s) = Some p" and s': "s' = s\<lparr>eq_poll := p, eq_armed := removeAll fd (eq_armed s)\<rparr>"
    using assms(3) by (auto simp: queue_clear_def)
  note get = get_clear [OF p] and int = clear_interest [OF queue_invD(1) [OF inv] p]
  note i = queue_invD [OF inv] and other = unguardedD [OF free]
  have "poll_inv p" using i(1) by (auto simp: poll_inv_def get int split: if_splits)
  then show ?thesis
    unfolding queue_inv_def s' using i(2-7) other
    by (auto simp: get int split: if_splits dest: other)
qed

lemma queue_inv_wait:
  assumes inv: "queue_inv s" and "queue_wait t fd hup s = Some (w, s')"
  shows "queue_inv s'"
proof -
  note i = queue_invD [OF inv]
  obtain ev where new: "t \<notin> fst ` set (eq_guards s)" "fd \<in> set (eq_armed s)" "poll_get (eq_poll s) fd = Some ev"
    and s': "s' = s\<lparr>eq_armed := if ev_oneshot ev then removeAll fd (eq_armed s) else eq_armed s, eq_guards := (t, ev) # eq_guards s\<rparr>"
    using assms(2) by (auto simp: queue_wait_def split: if_splits bind_splits)
  have fd: "ev_fd ev = fd" using i(1) new(3) by (simp add: poll_inv_def)
  have fresh: "\<not> ev_oneshot ev" if "(u, ev) \<in> set (eq_guards s)" for u using i(5) [OF that] new(2) fd by blast
  show ?thesis
  proof (rule queue_invI)
    fix u ev' assume g: "(u, ev') \<in> set (eq_guards s')"
    then have old: "(u, ev') = (t, ev) \<or> (u, ev') \<in> set (eq_guards s)" by (simp add: s')
    then show "poll_get (eq_poll s') (ev_fd ev') = Some ev'" using i(4) new(3) fd by (auto simp: s')
    show "ev_fd ev' \<notin> set (eq_armed s')" if "ev_oneshot ev'" using old i(5) [of u ev'] that fd by (auto simp: s')
    show "v = u" if "(v, ev') \<in> set (eq_guards s')" "ev_oneshot ev'" for v
    proof -
      have "(v, ev') = (t, ev) \<or> (v, ev') \<in> set (eq_guards s)" using that(1) by (simp add: s')
      then show ?thesis using old fresh i(6) [of u ev' v] that(2) by blast
    qed
  next
    fix fd' ev' assume "poll_get (eq_poll s') fd' = Some ev'" "fd' \<in> set (pl_interest (eq_poll s'))" "fd' \<notin> set (eq_armed s')"
    then show "ev_oneshot ev' \<and> (\<exists>u. (u, ev') \<in> set (eq_guards s'))"
      using i(7) [of fd' ev'] new(3) by (cases "fd' = fd") (auto simp: s' split: if_splits)
  qed (use i(1-3) new(1) in \<open>auto simp: s'\<close>)
qed

text \<open>A thread that gives its guard up.\<close>

abbreviation other_guards :: "nat \<Rightarrow> 'h event_queue \<Rightarrow> (nat \<times> 'h event) list" where
  "other_guards t s \<equiv> filter (\<lambda>(u, _). u \<noteq> t) (eq_guards s)"

lemma guard_of:
  assumes "queue_inv s" and "map_of (eq_guards s) t = Some ev"
  shows "(t, ev') \<in> set (eq_guards s) \<longleftrightarrow> ev' = ev"
    and "(u, ev') \<in> set (eq_guards s) \<Longrightarrow> ev_oneshot ev' \<Longrightarrow> u \<noteq> t \<Longrightarrow> ev_fd ev' \<noteq> ev_fd ev"
    and "poll_get (eq_poll s) (ev_fd ev) = Some ev"
    and "distinct (map fst (other_guards t s))"
proof -
  note i = queue_invD [OF assms(1)]
  have t: "(t, ev) \<in> set (eq_guards s)" using assms(2) by (rule map_of_SomeD)
  then show "(t, ev') \<in> set (eq_guards s) \<longleftrightarrow> ev' = ev" using map_of_is_SomeI [OF i(2), of t ev'] assms(2) by auto
  show get: "poll_get (eq_poll s) (ev_fd ev) = Some ev" by (rule i(4) [OF t])
  show "ev_fd ev' \<noteq> ev_fd ev" if "(u, ev') \<in> set (eq_guards s)" "ev_oneshot ev'" "u \<noteq> t"
  proof
    assume "ev_fd ev' = ev_fd ev"
    then have "ev' = ev" using i(4) [OF that(1)] get by (metis option.inject)
    then show False using i(6) [OF t, of u] that by blast
  qed
  show "distinct (map fst (other_guards t s))" by (rule distinct_map_filter [OF i(2)])
qed

lemma queue_inv_drop:
  assumes inv: "queue_inv s" and "queue_drop t s = Some s'"
  shows "queue_inv s'"
proof -
  note i = queue_invD [OF inv]
  obtain ev where ev: "map_of (eq_guards s) t = Some ev"
    and s': "s' = s\<lparr>eq_armed := if ev_fd ev \<in> set (pl_interest (eq_poll s)) then ev_fd ev # removeAll (ev_fd ev) (eq_armed s)
        else removeAll (ev_fd ev) (eq_armed s), eq_guards := other_guards t s\<rparr>"
    using assms(2) by (auto simp: queue_drop_def Let_def split: bind_splits)
  note g = guard_of [OF inv ev]
  show ?thesis
  proof (rule queue_invI)
    fix u ev' assume "(u, ev') \<in> set (eq_guards s')"
    then have old: "(u, ev') \<in> set (eq_guards s)" "u \<noteq> t" by (auto simp: s')
    then show "poll_get (eq_poll s') (ev_fd ev') = Some ev'" using i(4) by (simp add: s')
    show "ev_fd ev' \<notin> set (eq_armed s')" if "ev_oneshot ev'"
      using i(5) [OF old(1) that] g(2) [OF old(1) that old(2)] by (simp add: s')
    show "v = u" if "(v, ev') \<in> set (eq_guards s')" "ev_oneshot ev'" for v
      using i(6) [OF old(1), of v] that by (simp add: s')
  next
    fix fd' ev' assume new: "poll_get (eq_poll s') fd' = Some ev'" "fd' \<in> set (pl_interest (eq_poll s'))" "fd' \<notin> set (eq_armed s')"
    then have "fd' \<noteq> ev_fd ev" by (auto simp: s' split: if_splits)
    then have "ev' \<noteq> ev" "fd' \<notin> set (eq_armed s)" using new i(1) by (auto simp: s' poll_inv_def split: if_splits)
    then show "ev_oneshot ev' \<and> (\<exists>u. (u, ev') \<in> set (eq_guards s'))" using i(7) [of fd' ev'] new(1,2) g(1) by (auto simp: s')
  qed (use i(1,3) g(4) in \<open>auto simp: s'\<close>)
qed

lemma queue_inv_cancel:
  assumes inv: "queue_inv s" and ev: "map_of (eq_guards s) t = Some ev" and one: "ev_oneshot ev" and "queue_cancel t s = Some s'"
  shows "queue_inv s'"
proof -
  note i = queue_invD [OF inv] and g = guard_of [OF inv ev]
  obtain p where p: "clear_event_by_fd (ev_fd ev) (eq_poll s) = Some p"
    and s': "s' = s\<lparr>eq_poll := p, eq_armed := removeAll (ev_fd ev) (eq_armed s), eq_guards := other_guards t s\<rparr>"
    using assms(2,4) by (auto simp: queue_cancel_def guard_cancel_def split: bind_splits)
  note get = get_clear [OF p] and int = clear_interest [OF i(1) p]
  have other: "ev_fd ev' \<noteq> ev_fd ev" if "(u, ev') \<in> set (eq_guards s)" "u \<noteq> t" for u ev'
  proof
    assume "ev_fd ev' = ev_fd ev"
    then have "ev' = ev" using i(4) [OF that(1)] g(3) by (metis option.inject)
    then show False using g(2) [OF that(1) _ that(2)] one by simp
  qed
  show ?thesis
  proof (rule queue_invI)
    show "poll_inv (eq_poll s')" using i(1) by (auto simp: s' poll_inv_def get int split: if_splits)
    fix u ev' assume "(u, ev') \<in> set (eq_guards s')"
    then have old: "(u, ev') \<in> set (eq_guards s)" "u \<noteq> t" by (auto simp: s')
    then show "poll_get (eq_poll s') (ev_fd ev') = Some ev'" using i(4) other by (simp add: s' get)
    show "ev_fd ev' \<notin> set (eq_armed s')" if "ev_oneshot ev'" using i(5) [OF old(1) that] by (simp add: s')
    show "v = u" if "(v, ev') \<in> set (eq_guards s')" "ev_oneshot ev'" for v
      using i(6) [OF old(1), of v] that by (simp add: s')
  next
    fix fd' ev' assume new: "poll_get (eq_poll s') fd' = Some ev'" "fd' \<in> set (pl_interest (eq_poll s'))" "fd' \<notin> set (eq_armed s')"
    then have "fd' \<noteq> ev_fd ev" by (simp add: s' int)
    then have "ev' \<noteq> ev" "fd' \<notin> set (eq_armed s)" using new i(1) by (auto simp: s' get int poll_inv_def)
    then show "ev_oneshot ev' \<and> (\<exists>u. (u, ev') \<in> set (eq_guards s'))"
      using i(7) [of fd' ev'] new(1,2) g(1) by (auto simp: s' get int split: if_splits)
  qed (use i(3) g(4) int in \<open>auto simp: s'\<close>)
qed

lemma queue_reach_inv: "queue_reach s \<Longrightarrow> queue_inv s"
  by (induction rule: queue_reach.induct)
    (fact queue_inv_new, (erule (2) queue_inv_register | erule (1) queue_inv_wait | erule (1) queue_inv_drop
      | erule (3) queue_inv_cancel | erule (2) queue_inv_clear)+)

section \<open>One thread for each event\<close>


text \<open>All events but the notifiers are delivered once for each time they are armed.\<close>

lemma only_notifiers_repeat:
  "make_event kind os_add fd h p = (r, p') \<Longrightarrow> \<exists>ev. poll_get p' fd = Some ev \<and> (ev_oneshot ev \<longleftrightarrow> kind \<noteq> Make_Notifier)"
  by (cases kind) (auto simp: new_event_def new_periodic_event_def new_notifier_def new_signal_event_def dest!: get_register [where j = fd])

definition toy_event :: "nat \<Rightarrow> unit event" where
  "toy_event fd = \<lparr>ev_fd = fd, ev_handler = (), ev_oneshot = True, ev_notifier = False, ev_needs_read = False\<rparr>"

definition toy_watched :: "unit event_queue" where
  "toy_watched = snd (queue_register Make_Event (\<lambda>_. True) 1 () queue_new)"

definition toy_taken :: "unit event_queue" where
  "toy_taken = toy_watched\<lparr>eq_armed := [], eq_guards := [(7, toy_event 1)]\<rparr>"

lemma toy_watched_eq:
  "toy_watched = \<lparr>eq_poll = \<lparr>pl_events = [None, Some (toy_event 1)], pl_interest = [1]\<rparr>, eq_armed = [1], eq_guards = []\<rparr>"
  by (simp add: toy_watched_def queue_register_def new_event_def register_event_def insert_at_def queue_new_def poll_new_def
      toy_event_def Let_def numeral_2_eq_2)

lemma toy_queue_reach: "queue_reach toy_taken"
proof -
  have "unguarded 1 queue_new" by (simp add: unguarded_def queue_new_def)
  then have w: "queue_reach toy_watched" unfolding toy_watched_def by (rule queue_registers [OF queue_starts _ prod.collapse [symmetric]])
  have "queue_wait 7 1 False toy_watched = Some (Wait_Ok (toy_event 1), toy_taken)"
    by (simp add: queue_wait_def toy_watched_eq toy_taken_def poll_get_def) (simp add: toy_event_def)
  from queue_waits [OF w this] show ?thesis .
qed


end
