(* ===== verification/Spec2Isabelle.thy ===== *)
theory Spec2Isabelle
  imports Device_Behaviour Dev_Lock Uapi_Properties Ctl_Mtu Ctl_Device Ctl_Signal Ctl_Socks Ctl_Reload Ctl_Main
    Ctl_Instance Cli Android_Signal Ffi Event_Kqueue Event_Wait
begin

text \<open>
  NeKo-LiNk is a tunnel after WireGuard: a library with the protocol and the device
  (src/nekolink-core), with an interface for C and one for Java; a program that runs one device
  (src/nekolink-cli); a control plane that starts this program for each configured interface,
  exchanges keys with the other side over a signalling channel of its own, and offers a SOCKS5 proxy
  (src/nekolink-ctl); and a library for Android that takes the client's part in the signalling
  (src/nekolink-android). This development models them and proves what makes them correct; this
  theory imports all others.

  \<^bold>\<open>Conventions.\<close> Unsigned integers are words of their width, whose arithmetic wraps as it does in the
  release profile; \<open>usize\<close> has 64 bits, and lengths that cannot reach its bound are natural numbers.
  A \<open>Result\<close> is a sum with the error on the left. A panic is \<open>None\<close> of an option around the result. A
  struct is a record, an enum a datatype; a hash map is an association list (\<open>hm_get\<close>, \<open>hm_insert\<close>,
  \<open>hm_remove\<close>) or a function where its order does not matter; \<open>Arc\<close>s that several tables share are
  positions in a list of the state. A \<open>str\<close> is the list of its UTF-8 bytes. Readings of the clock,
  random bytes, and what the operating system answers are arguments. Crates that are not in the
  repository are parameters: \<open>crypto\<close> for the primitives (with \<open>crypto_ok\<close>: lengths, agreement of
  Diffie-Hellman, opening what was sealed), \<open>ip_table\<close> for ip_network_table (with \<open>table_ok\<close>), the
  functions of base64 and hex. The toy instances satisfy these laws, and the witnesses run on them.

  \<^bold>\<open>The protocol\<close> (src/nekolink-core/src/noise, sleepyinstant).
  \<^item> \<open>Errors\<close>, \<open>Instants\<close>, \<open>Wire\<close>: the error type, clock readings, messages and their parser.
  \<^item> \<open>Crypto\<close>: the wrappers over the primitives (handshake.rs).
  \<^item> \<open>Replay_Window\<close>: the receive window (session.rs); marking refines insertion into a set of counters.
  \<^item> \<open>Session\<close>: data packets (session.rs); delivered at most once, in order over an orderly network.
  \<^item> \<open>Handshake\<close>: the Noise handshake (handshake.rs); agreement of the keys, replay of initiations.
  \<^item> \<open>RateLimiter\<close>: MACs, cookies and the limit (rate_limiter.rs).
  \<^item> \<open>Timers\<close>, \<open>Tunn\<close>: a tunnel with its timers and its queue (timers.rs, mod.rs). \<open>Tunn_Invariant\<close>,
    \<open>Tunn_Names\<close> and \<open>Tunn_Safety\<close> prove its invariant and that no event panics in a reachable state;
    \<open>Tunn_Output\<close> that what it writes fits into the buffer it was given; \<open>Tunn_Behaviour\<close> what it does
    on each branch; \<open>Tunn_Exchange\<close> a whole exchange of two tunnels.
  \<^item> \<open>Ffi\<close>: the tunnel as C and Java see it (ffi/mod.rs, jni.rs); a call never panics and the size it
    returns is within the caller's buffer.

  \<^bold>\<open>The device\<close> (src/nekolink-core/src/device).
  \<^item> \<open>Index_Lfsr\<close>: the generator of peer indexes (mod.rs), a cycle through all of its values.
  \<^item> \<open>Tcp_Framing\<close>: datagrams over a stream (tcp_framing.rs).
  \<^item> \<open>Allowed_Ips\<close>, \<open>Peer\<close>: prefixes and peers (allowed_ips.rs, peer.rs).
  \<^item> \<open>Slots\<close>, \<open>Event_Poll\<close>: the locale of tables that name things, interpreted by hash maps and by the
    registry of events (epoll.rs). \<open>Event_Wait\<close>: any number of threads that wait for events, of which
    each has one at a time and none is lost. \<open>Event_Kqueue\<close>: the registry on systems with kqueue (kqueue.rs),
    which differs: to register a descriptor again loses it.
  \<^item> \<open>Device\<close>: the tables of the device and the operations that change them (mod.rs); \<open>Device_Net\<close>: the
    handlers of sockets, streams, the interface and the timers; \<open>Device_Portable\<close>: the handler of
    datagrams for systems without batches, which has the same effects.
  \<^item> \<open>Device_Tables\<close>, \<open>Device_Reach\<close>, \<open>Device_Properties\<close>: the tables name the same peers in every
    reachable state (\<open>dev_reach\<close>). \<open>Device_Routing\<close> and \<open>Device_Exchange\<close>: what reaches the interface, and
    a packet that crosses two devices. \<open>Device_Behaviour\<close>: loops, roaming, keys. \<open>Device_Examples\<close>:
    concrete devices.
  \<^item> \<open>Dev_Lock\<close>: the lock of the device (dev_lock.rs) as an interleaving of steps of any number of
    threads; exclusion, and that it never gets stuck.

  \<^bold>\<open>Configuration\<close> (device/api.rs, serialization.rs).
  \<^item> \<open>Std_Text\<close>, \<open>Text_Codecs\<close>: reading and printing of numbers and addresses; the locale \<open>text_codec\<close>
    with an interpretation for each of them.
  \<^item> \<open>Uapi\<close>, \<open>Uapi_Properties\<close>: the requests get and set; they keep the device reachable, and what is
    printed is read back.

  \<^bold>\<open>The control plane\<close> (src/nekolink-ctl/src/main.rs).
  \<^item> \<open>Ctl_Text\<close>, \<open>Ctl_Config\<close>: texts, configurations and the resolution of names.
  \<^item> \<open>Ctl_Mtu\<close>: the search of the mtu and its cache.
  \<^item> \<open>Ctl_Peer\<close>: requests to a device, \<open>configure_peer\<close> and the requests that start an interface.
    \<open>Ctl_Device\<close> puts a device of \<open>Uapi\<close> behind the socket.
  \<^item> \<open>Ctl_Signal\<close>: the signalling over UDP, TCP and raw IP, down to the device that takes up the peer.
  \<^item> \<open>Ctl_Socks\<close>: the SOCKS5 proxy.
  \<^item> \<open>Ctl_Reload\<close>: the tasks of the interfaces, and the reload of the files. \<open>Ctl_Keys\<close>: the files of
    the keys, which a reload keeps.
  \<^item> \<open>Ctl_Main\<close>: the commands of the program, the files of the configuration, the start and the reload
    of the service from these files, and the report of the status.
  \<^item> \<open>Ctl_Instance\<close>: the life of one interface from the start of its program to its end (\<open>run_instance\<close>);
    the requests of the start on a device of \<open>Uapi\<close>, and what is left when it ends.

  \<^bold>\<open>The programs around it.\<close>
  \<^item> \<open>Cli\<close>: the program of one device (src/nekolink-cli/src/main.rs), started with the arguments that
    \<open>Ctl_Instance\<close> or a user gives, and the rights it gives up (device/drop_privileges.rs).
  \<^item> \<open>Android_Signal\<close>: the signalling of the Android library (src/nekolink-android/src/lib.rs) with the
    server of \<open>Ctl_Signal\<close> at the other end.

  \<^bold>\<open>Loops, bounds and fuel.\<close> Loops over data are structural recursions or have a measure. The loops that
  run for as long as something arrives go over the list of what arrives. The flush of a tunnel's queue
  has fuel \<open>flush_fuel\<close>, and theorem \<open>queue_flush_ends\<close> shows that the length of the queue is enough.
  The search of the mtu is a \<open>partial_function\<close>, since on words it need not end; property
  \<open>mtu_probe_exact\<close> shows that it does on the range it is called with. Trimming a text takes at most as
  many steps as it has bytes, which is its fuel.

  \<^bold>\<open>Not modelled.\<close> System calls and what only calls them (tun_linux.rs, tun_darwin.rs, opening
  sockets, the wait of kqueue.rs); freeing memory, the estimate of the loss, which is
  arithmetic of f32, and what writes messages to a log; of the command line program its daemon; of the
  Android library its runtime and the text of JSON; of the control plane the texts of JSON, the query
  that is sent through a tunnel (with a crate), the options of sockets, pauses and timeouts. Threads
  are modelled for the lock, the events and the counters of the limiter; a handler of the device is one
  step, although handlers of other events can run beside it under the shared lock, with the mutexes of
  the peers between them. Asynchronous tasks of the control plane are modelled by what they do with one message,
  and the lock around \<open>configure_peer\<close> makes these one after the other. The integration tests are not
  part of the program.
\<close>

end
